(* ===== verification/Prelude.thy ===== *)
theory Prelude
  imports Main "HOL-Library.Word"
begin

text \<open>
  Shared vocabulary of the development: the machine integers of the Rust code,
  its checked and saturating arithmetic, fallible results with the \<open>?\<close>
  operator, stateful fallible operations (methods on \<open>&mut self\<close> returning
  a \<open>Result\<close>), and the big-endian byte encodings of integers.
\<close>

section \<open>Fact collections\<close>

named_theorems unat_arith_simps \<open>characterisations of checked operations on natural numbers\<close>
named_theorems run_simps \<open>unfolding rules for stateful fallible operations\<close>

section \<open>Machine integers\<close>

type_synonym u8 = "8 word"
type_synonym u16 = "16 word"
type_synonym u32 = "32 word"
type_synonym u64 = "64 word"
type_synonym u128 = "128 word"

definition checked_add :: "'a::len word \<Rightarrow> 'a word \<Rightarrow> 'a word option" where
  "checked_add a b = (if unat a + unat b < 2 ^ LENGTH('a) then Some (a + b) else None)"

definition checked_sub :: "'a::len word \<Rightarrow> 'a word \<Rightarrow> 'a word option" where
  "checked_sub a b = (if b \<le> a then Some (a - b) else None)"

definition checked_mul :: "'a::len word \<Rightarrow> 'a word \<Rightarrow> 'a word option" where
  "checked_mul a b = (if unat a * unat b < 2 ^ LENGTH('a) then Some (a * b) else None)"

definition checked_div :: "'a::len word \<Rightarrow> 'a word \<Rightarrow> 'a word option" where
  "checked_div a b = (if b = 0 then None else Some (a div b))"

definition saturating_sub :: "'a::len word \<Rightarrow> 'a word \<Rightarrow> 'a word" where
  "saturating_sub a b = (if b \<le> a then a - b else 0)"

definition saturating_add :: "'a::len word \<Rightarrow> 'a word \<Rightarrow> 'a word" where
  "saturating_add a b = (if unat a + unat b < 2 ^ LENGTH('a) then a + b else - 1)"

lemma unat_lt_exp: "unat w < 2 ^ LENGTH('a)" for w :: "'a::len word"
  by (rule unsigned_less)

lemma word_of_nat_unat: "word_of_nat (unat w) = w" for w :: "'a::len word"
  by simp

lemma checked_add_eq_Some [unat_arith_simps]:
  "checked_add a b = Some c \<longleftrightarrow> unat c = unat a + unat b"
  for a b c :: "'a::len word"
proof
  assume "checked_add a b = Some c"
  then show "unat c = unat a + unat b"
    by (auto simp: checked_add_def unat_add_lem [symmetric] split: if_splits)
next
  assume eq: "unat c = unat a + unat b"
  then have lt: "unat a + unat b < 2 ^ LENGTH('a)"
    using unat_lt_exp [of c] by simp
  moreover from this have "unat (a + b) = unat c"
    using eq by (simp add: unat_add_lem [symmetric])
  ultimately show "checked_add a b = Some c"
    by (simp add: checked_add_def word_unat_eq_iff)
qed

lemma checked_add_eq_None [unat_arith_simps]:
  "checked_add a b = None \<longleftrightarrow> 2 ^ LENGTH('a) \<le> unat a + unat b"
  for a b :: "'a::len word"
  by (auto simp: checked_add_def)

lemma checked_sub_eq_Some [unat_arith_simps]:
  "checked_sub a b = Some c \<longleftrightarrow> unat a = unat c + unat b"
  for a b c :: "'a::len word"
proof
  assume "checked_sub a b = Some c"
  then show "unat a = unat c + unat b"
    by (auto simp: checked_sub_def unat_sub word_le_nat_alt split: if_splits)
next
  assume eq: "unat a = unat c + unat b"
  then have le: "b \<le> a"
    by (simp add: word_le_nat_alt)
  with eq have "unat (a - b) = unat c"
    by (simp add: unat_sub word_le_nat_alt)
  then have "a - b = c"
    by (rule word_unat_eq_iff [THEN iffD2])
  with le show "checked_sub a b = Some c"
    by (simp add: checked_sub_def)
qed

lemma checked_sub_eq_None [unat_arith_simps]:
  "checked_sub a b = None \<longleftrightarrow> unat a < unat b"
  for a b :: "'a::len word"
  by (auto simp: checked_sub_def word_le_nat_alt)

lemma checked_mul_eq_Some [unat_arith_simps]:
  "checked_mul a b = Some c \<longleftrightarrow> unat c = unat a * unat b"
  for a b c :: "'a::len word"
proof
  assume "checked_mul a b = Some c"
  then show "unat c = unat a * unat b"
    by (auto simp: checked_mul_def unat_mult_lem [symmetric] split: if_splits)
next
  assume eq: "unat c = unat a * unat b"
  then have lt: "unat a * unat b < 2 ^ LENGTH('a)"
    using unat_lt_exp [of c] by simp
  moreover from this have "unat (a * b) = unat c"
    using eq by (simp add: unat_mult_lem [symmetric])
  ultimately show "checked_mul a b = Some c"
    by (simp add: checked_mul_def word_unat_eq_iff)
qed

lemma checked_mul_eq_None [unat_arith_simps]:
  "checked_mul a b = None \<longleftrightarrow> 2 ^ LENGTH('a) \<le> unat a * unat b"
  for a b :: "'a::len word"
  by (auto simp: checked_mul_def)

lemma unat_saturating_sub [unat_arith_simps]:
  "unat (saturating_sub a b) = unat a - unat b"
  by (auto simp: saturating_sub_def unat_sub word_le_nat_alt)

lemma unat_saturating_add [unat_arith_simps]:
  "unat (saturating_add a b) = min (unat a + unat b) (2 ^ LENGTH('a) - 1)"
  for a b :: "'a::len word"
  by (auto simp: saturating_add_def unat_add_lem [symmetric] unsigned_minus_1_eq_mask mask_eq_exp_minus_1)

text \<open>Code equations that compare binary integers instead of natural numbers.\<close>

lemma checked_arith_code [code]:
  fixes a b :: "'a::len word"
  shows "checked_add a b = (if uint a + uint b < 2 ^ LENGTH('a) then Some (a + b) else None)"
    and "checked_mul a b = (if uint a * uint b < 2 ^ LENGTH('a) then Some (a * b) else None)"
    and "saturating_add a b = (if uint a + uint b < 2 ^ LENGTH('a) then a + b else - 1)"
proof -
  have "unat a + unat b < 2 ^ LENGTH('a) \<longleftrightarrow> uint a + uint b < 2 ^ LENGTH('a)"
    "unat a * unat b < 2 ^ LENGTH('a) \<longleftrightarrow> uint a * uint b < 2 ^ LENGTH('a)"
    by (simp_all flip: of_nat_less_iff [where 'a = int])
  then show "checked_add a b = (if uint a + uint b < 2 ^ LENGTH('a) then Some (a + b) else None)"
    "checked_mul a b = (if uint a * uint b < 2 ^ LENGTH('a) then Some (a * b) else None)"
    "saturating_add a b = (if uint a + uint b < 2 ^ LENGTH('a) then a + b else - 1)"
    by (simp_all add: checked_add_def checked_mul_def saturating_add_def)
qed

section \<open>Formatting of integers\<close>

text \<open>\<open>{}\<close> and \<open>{:x}\<close> on unsigned integers: the digits of the number, most significant first.\<close>

fun show_nat :: "nat \<Rightarrow> string" where
  "show_nat n =
     (if n < 10 then [char_of (48 + n)] else show_nat (n div 10) @ [char_of (48 + n mod 10)])"

declare show_nat.simps [simp del]

definition hex_char :: "nat \<Rightarrow> char" where
  "hex_char n = (if n < 10 then char_of (48 + n) else char_of (87 + n))"

fun show_hex :: "nat \<Rightarrow> string" where
  "show_hex n = (if n < 16 then [hex_char n] else show_hex (n div 16) @ [hex_char (n mod 16)])"

declare show_hex.simps [simp del]

section \<open>Fallible results\<close>

text \<open>
  \<open>Result<T, E>\<close> is \<open>'e + 'a\<close>; \<open>rbind\<close> is the \<open>?\<close> operator and \<open>ok_or\<close> is
  \<open>Option::ok_or\<close>.
\<close>

fun rbind :: "'e + 'a \<Rightarrow> ('a \<Rightarrow> 'e + 'b) \<Rightarrow> 'e + 'b" where
  "rbind (Inl e) f = Inl e"
| "rbind (Inr x) f = f x"

fun ok_or :: "'a option \<Rightarrow> 'e \<Rightarrow> 'e + 'a" where
  "ok_or None e = Inl e"
| "ok_or (Some x) e = Inr x"

fun map_err :: "('e \<Rightarrow> 'f) \<Rightarrow> 'e + 'a \<Rightarrow> 'f + 'a" where
  "map_err f (Inl e) = Inl (f e)"
| "map_err f (Inr x) = Inr x"

fun is_ok :: "'e + 'a \<Rightarrow> bool" where
  "is_ok (Inl _) = False"
| "is_ok (Inr _) = True"

lemma rbind_cong [fundef_cong]:
  assumes "m = m'" and "\<And>x. m' = Inr x \<Longrightarrow> f x = g x"
  shows "rbind m f = rbind m' g"
  using assms by (cases m') auto

lemma rbind_eq_Inr [simp]:
  "rbind m f = Inr y \<longleftrightarrow> (\<exists>x. m = Inr x \<and> f x = Inr y)"
  by (cases m) auto

lemma rbind_eq_Inl:
  "rbind m f = Inl e \<longleftrightarrow> m = Inl e \<or> (\<exists>x. m = Inr x \<and> f x = Inl e)"
  by (cases m) auto

lemma rbind_assoc: "rbind (rbind m f) g = rbind m (\<lambda>x. rbind (f x) g)"
  by (cases m) auto

lemma ok_or_eq_Inr [simp]: "ok_or m e = Inr x \<longleftrightarrow> m = Some x"
  by (cases m) auto

lemma ok_or_eq_Inl [simp]: "ok_or m e = Inl e' \<longleftrightarrow> m = None \<and> e' = e"
  by (cases m) auto

lemma map_err_eq_Inr [simp]: "map_err f m = Inr x \<longleftrightarrow> m = Inr x"
  by (cases m) auto

lemma map_err_eq_Inl [simp]: "map_err f m = Inl e \<longleftrightarrow> (\<exists>e'. m = Inl e' \<and> e = f e')"
  by (cases m) auto

section \<open>Stateful fallible operations\<close>

text \<open>
  A method on \<open>&mut self\<close> that returns \<open>Result<T, E>\<close> leaves the receiver in some
  state whether it succeeds or not, so it is a function from the state to a result
  and the state after the call.
\<close>

type_synonym ('s, 'e, 'a) meth = "'s \<Rightarrow> ('e + 'a) \<times> 's"

definition sret :: "'a \<Rightarrow> ('s, 'e, 'a) meth" where
  "sret x = (\<lambda>s. (Inr x, s))"

definition sfail :: "'e \<Rightarrow> ('s, 'e, 'a) meth" where
  "sfail e = (\<lambda>s. (Inl e, s))"

definition slift :: "'e + 'a \<Rightarrow> ('s, 'e, 'a) meth" where
  "slift r = (\<lambda>s. (r, s))"

definition sbind :: "('s, 'e, 'a) meth \<Rightarrow> ('a \<Rightarrow> ('s, 'e, 'b) meth) \<Rightarrow> ('s, 'e, 'b) meth" where
  "sbind m f = (\<lambda>s. case m s of (Inl e, s') \<Rightarrow> (Inl e, s') | (Inr x, s') \<Rightarrow> f x s')"

definition sthen :: "('s, 'e, 'a) meth \<Rightarrow> ('s, 'e, 'b) meth \<Rightarrow> ('s, 'e, 'b) meth" where
  "sthen m n = sbind m (\<lambda>_. n)"

definition sget :: "('s \<Rightarrow> 'a) \<Rightarrow> ('s, 'e, 'a) meth" where
  "sget g = (\<lambda>s. (Inr (g s), s))"

definition smodify :: "('s \<Rightarrow> 's) \<Rightarrow> ('s, 'e, unit) meth" where
  "smodify g = (\<lambda>s. (Inr (), g s))"

text \<open>An operation on a part of the state, such as a field of the receiver.\<close>

definition zoom ::
  "('s \<Rightarrow> 't) \<Rightarrow> (('t \<Rightarrow> 't) \<Rightarrow> 's \<Rightarrow> 's) \<Rightarrow> ('t, 'e, 'a) meth \<Rightarrow> ('s, 'e, 'a) meth" where
  "zoom get upd m = (\<lambda>s. case m (get s) of (r, t) \<Rightarrow> (r, upd (\<lambda>_. t) s))"

lemma zoom_run [run_simps]:
  "zoom get upd m s = (case m (get s) of (r, t) \<Rightarrow> (r, upd (\<lambda>_. t) s))"
  by (simp add: zoom_def)

lemma sret_run [run_simps]: "sret x s = (Inr x, s)"
  by (simp add: sret_def)

lemma sfail_run [run_simps]: "sfail e s = (Inl e, s)"
  by (simp add: sfail_def)

lemma slift_run [run_simps]: "slift r s = (r, s)"
  by (simp add: slift_def)

lemma sget_run [run_simps]: "sget g s = (Inr (g s), s)"
  by (simp add: sget_def)

lemma smodify_run [run_simps]: "smodify g s = (Inr (), g s)"
  by (simp add: smodify_def)

lemma sbind_run [run_simps]:
  "sbind m f s = (case m s of (Inl e, s') \<Rightarrow> (Inl e, s') | (Inr x, s') \<Rightarrow> f x s')"
  by (simp add: sbind_def)

lemma sthen_run [run_simps]:
  "sthen m n s = (case m s of (Inl e, s') \<Rightarrow> (Inl e, s') | (Inr x, s') \<Rightarrow> n s')"
  by (simp add: sthen_def sbind_def)

lemma sbind_eq_Inr [simp]:
  "sbind m f s = (Inr y, t) \<longleftrightarrow> (\<exists>x s'. m s = (Inr x, s') \<and> f x s' = (Inr y, t))"
  by (auto simp: sbind_def split: prod.splits sum.splits)

lemma sthen_eq_Inr [simp]:
  "sthen m n s = (Inr y, t) \<longleftrightarrow> (\<exists>x s'. m s = (Inr x, s') \<and> n s' = (Inr y, t))"
  by (simp add: sthen_def)

lemma sbind_eq_Inl:
  "sbind m f s = (Inl e, t) \<longleftrightarrow>
     m s = (Inl e, t) \<or> (\<exists>x s'. m s = (Inr x, s') \<and> f x s' = (Inl e, t))"
  by (auto simp: sbind_def split: prod.splits sum.splits)

end
