(* ===== verification/Bytes.thy ===== *)
theory Bytes
  imports Prelude
begin

unbundle bit_operations_syntax

text \<open>
  Byte-level encodings: the big-endian integer encodings of the Rust standard
  library (\<open>to_be_bytes\<close>, \<open>from_be_bytes\<close>) and the hexadecimal strings of
  \<open>stacks-common/src/util/hash.rs\<close> (\<open>hex_bytes\<close>, \<open>to_hex_prefixed\<close>, \<open>to_hex\<close>),
  with the round trips in both directions.
\<close>

section \<open>Big-endian integers\<close>

text \<open>Little-endian digits of a number in a base, the common core of the encodings.\<close>

primrec digits :: "nat \<Rightarrow> nat \<Rightarrow> nat \<Rightarrow> nat list" where
  "digits b 0 n = []"
| "digits b (Suc k) n = n mod b # digits b k (n div b)"

primrec undigits :: "nat \<Rightarrow> nat list \<Rightarrow> nat" where
  "undigits b [] = 0"
| "undigits b (d # ds) = d + b * undigits b ds"

definition to_be_bytes :: "'a::len word \<Rightarrow> u8 list" where
  "to_be_bytes w = rev (map word_of_nat (digits 256 (LENGTH('a) div 8) (unat w)))"

definition from_be_bytes :: "u8 list \<Rightarrow> 'a::len word" where
  "from_be_bytes bs = word_of_nat (undigits 256 (map unat (rev bs)))"

section \<open>Hexadecimal strings\<close>

datatype HexError = BadLength nat | BadCharacter char

text \<open>\<open>char::to_digit(16)\<close>: decimal digits and both cases of the letters a to f.\<close>

definition to_digit16 :: "char \<Rightarrow> nat option" where
  "to_digit16 c =
     (let n = (of_char c :: nat) in
      if 48 \<le> n \<and> n \<le> 57 then Some (n - 48)
      else if 97 \<le> n \<and> n \<le> 102 then Some (n - 87)
      else if 65 \<le> n \<and> n \<le> 70 then Some (n - 55)
      else None)"

text \<open>
  The loop of \<open>hex_bytes\<close> over the pairs of the string, with the length of the
  whole string for the error that reports a left-over character.
\<close>

fun hex_pairs :: "nat \<Rightarrow> string \<Rightarrow> HexError + u8 list" where
  "hex_pairs n [] = Inr []"
| "hex_pairs n [c] = Inl (BadLength n)"
| "hex_pairs n (f # s # rest) =
     (case to_digit16 f of
        None \<Rightarrow> Inl (BadCharacter f)
      | Some df \<Rightarrow>
         (case to_digit16 s of
            None \<Rightarrow> Inl (BadCharacter s)
          | Some ds \<Rightarrow>
              rbind (hex_pairs n rest) (\<lambda>v. Inr (word_of_nat (df * 16 + ds) # v))))"

definition hex_bytes :: "string \<Rightarrow> HexError + u8 list" where
  "hex_bytes s = hex_pairs (length s) s"

definition HEX_CHARS :: string where
  "HEX_CHARS = ''0123456789abcdef''"

fun hex_loop :: "u8 list \<Rightarrow> string" where
  "hex_loop [] = []"
| "hex_loop (b # bs) =
     HEX_CHARS ! unat (drop_bit 4 b) # HEX_CHARS ! unat (b AND 0x0f) # hex_loop bs"

definition to_hex_prefixed :: "u8 list \<Rightarrow> bool \<Rightarrow> string" where
  "to_hex_prefixed s prefix = (if prefix then ''0x'' else []) @ hex_loop s"

definition to_hex :: "u8 list \<Rightarrow> string" where
  "to_hex s = to_hex_prefixed s False"

section \<open>Digits\<close>

lemma length_digits [simp]: "length (digits b k n) = k"
  by (induction k arbitrary: n) auto

lemma digits_less: "0 < b \<Longrightarrow> d \<in> set (digits b k n) \<Longrightarrow> d < b"
  by (induction k arbitrary: n) auto

lemma undigits_digits: "undigits b (digits b k n) = n mod b ^ k"
  by (induction k arbitrary: n) (simp_all add: mod_mult2_eq)

lemma undigits_less: "\<forall>d \<in> set ds. d < b \<Longrightarrow> undigits b ds < b ^ length ds"
proof (induction ds)
  case (Cons d ds)
  then have "d < b" "undigits b ds + 1 \<le> b ^ length ds"
    by auto
  then have "d + b * undigits b ds < b * (undigits b ds + 1)"
      and "b * (undigits b ds + 1) \<le> b * b ^ length ds"
    by (simp, blast intro: mult_le_mono2)
  then show ?case by simp
qed simp

lemma digits_undigits: "\<forall>d \<in> set ds. d < b \<Longrightarrow> digits b (length ds) (undigits b ds) = ds"
  by (induction ds) auto

lemma undigits_append: "undigits b (xs @ ys) = undigits b xs + b ^ length xs * undigits b ys"
  by (induction xs) (auto simp: algebra_simps)

lemma undigits_zeros [simp]: "undigits b (replicate n 0) = 0"
  by (induction n) auto

lemma undigits_eq_0: "0 < b \<Longrightarrow> undigits b ds = 0 \<longleftrightarrow> (\<forall>d \<in> set ds. d = 0)"
  by (induction ds) auto

text \<open>A big-endian digit string without its leading zeros is determined by its value.\<close>

definition strip_zeros :: "nat list \<Rightarrow> nat list" where
  "strip_zeros ds = dropWhile (\<lambda>d. d = 0) (rev ds)"

lemma strip_zeros_Cons:
  "strip_zeros (d # ds) =
     (if strip_zeros ds = [] then (if d = 0 then [] else [d]) else strip_zeros ds @ [d])"
  by (auto simp: strip_zeros_def dropWhile_append)

lemma strip_zeros_Nil_iff: "0 < b \<Longrightarrow> strip_zeros ds = [] \<longleftrightarrow> undigits b ds = 0"
  by (simp add: strip_zeros_def undigits_eq_0)

lemma strip_zeros_unique:
  assumes "\<forall>d \<in> set ds. d < b" and "\<forall>d \<in> set es. d < b" and "0 < b"
    and "undigits b ds = undigits b es"
  shows "strip_zeros ds = strip_zeros es"
  using assms
proof (induction ds arbitrary: es)
  case Nil
  then have "strip_zeros es = []"
    using strip_zeros_Nil_iff [of b es] by simp
  then show ?case by (metis strip_zeros_def dropWhile.simps(1) rev.simps(1))
next
  case (Cons d ds)
  show ?case
  proof (cases es)
    case Nil
    then show ?thesis
      using Cons.prems strip_zeros_Nil_iff [of b "d # ds"] by (auto simp: strip_zeros_def)
  next
    case es: (Cons e es')
    with Cons.prems have eq: "d + b * undigits b ds = e + b * undigits b es'"
        and lt: "d < b" "e < b" by simp_all
    have "d = e"
      using arg_cong [OF eq, of "\<lambda>n. n mod b"] lt by simp
    moreover have "undigits b ds = undigits b es'"
      using arg_cong [OF eq, of "\<lambda>n. n div b"] lt by simp
    ultimately have "strip_zeros ds = strip_zeros es'" and "d = e"
      using Cons.IH [of es'] Cons.prems es by auto
    then show ?thesis by (simp only: es strip_zeros_Cons)
  qed
qed

lemma length_to_be_bytes [simp]: "length (to_be_bytes (w :: 'a::len word)) = LENGTH('a) div 8"
  by (simp add: to_be_bytes_def)

lemma map_unat_of_digits:
  "\<forall>d \<in> set ds. d < 256 \<Longrightarrow> map (unat \<circ> (word_of_nat :: nat \<Rightarrow> u8)) ds = ds"
  by (induction ds) (auto simp: unsigned_of_nat take_bit_nat_eq_self_iff)

lemma from_to_be_bytes [simp]:
  assumes "8 dvd LENGTH('a)"
  shows "from_be_bytes (to_be_bytes w) = (w :: 'a::len word)"
proof -
  from assms obtain k where k: "LENGTH('a) = 8 * k" by auto
  have "map unat (map (word_of_nat :: nat \<Rightarrow> u8) (digits 256 k (unat w))) = digits 256 k (unat w)"
    using map_unat_of_digits [of "digits 256 k (unat w)"] digits_less [of 256 _ k "unat w"] by simp
  moreover have "unat w < 256 ^ k"
    using unat_lt_exp [of w] by (simp add: k power_mult)
  ultimately show ?thesis
    by (simp add: from_be_bytes_def to_be_bytes_def k rev_map [symmetric] undigits_digits)
qed

lemma to_from_be_bytes [simp]:
  assumes "8 * length bs = LENGTH('a)"
  shows "to_be_bytes (from_be_bytes bs :: 'a::len word) = bs"
proof -
  let ?ds = "map unat (rev bs)"
  have all: "\<forall>d \<in> set ?ds. d < 256"
    using unat_lt_exp [where 'a = 8] by auto
  then have "undigits 256 ?ds < 2 ^ LENGTH('a)"
    using undigits_less [of ?ds] by (simp add: power_mult assms [symmetric])
  then have "unat (word_of_nat (undigits 256 ?ds) :: 'a word) = undigits 256 ?ds"
    by (simp add: unsigned_of_nat take_bit_nat_eq_self_iff)
  moreover have "LENGTH('a) div 8 = length ?ds"
    by (simp add: assms [symmetric])
  ultimately show ?thesis
    using digits_undigits [OF all]
    by (simp add: to_be_bytes_def from_be_bytes_def map_idI rev_map comp_def)
qed

section \<open>Hexadecimal round trips\<close>

lemma nibble_cases: "n < 16 \<Longrightarrow> to_digit16 (HEX_CHARS ! n) = Some n"
proof -
  have "\<forall>n \<in> set [0..<16]. to_digit16 (HEX_CHARS ! n) = Some n"
    by code_simp
  then show "n < 16 \<Longrightarrow> to_digit16 (HEX_CHARS ! n) = Some n"
    by simp
qed

lemma unat_high_nibble_eq: "unat (drop_bit 4 b) = unat b div 16" for b :: u8
  by (simp add: drop_bit_eq_div unat_div_distrib)

lemma unat_low_nibble_eq: "unat (b AND 0x0f) = unat b mod 16" for b :: u8
proof -
  have "b AND 0x0f = take_bit 4 b"
    by (simp add: take_bit_eq_mask mask_eq_exp_minus_1)
  then show ?thesis
    by (simp add: take_bit_eq_mod unat_mod_distrib)
qed

lemma byte_nibbles: "unat (drop_bit 4 b) * 16 + unat (b AND 0x0f) = unat b" for b :: u8
  by (simp only: unat_high_nibble_eq unat_low_nibble_eq div_mult_mod_eq)

lemma unat_high_nibble: "unat (drop_bit 4 b) < 16" for b :: u8
  using unat_lt_exp [of b] by (simp only: unat_high_nibble_eq) simp

lemma unat_low_nibble: "unat (b AND 0x0f) < 16" for b :: u8
  by (simp only: unat_low_nibble_eq mod_less_divisor zero_less_numeral)

lemma hex_pairs_hex_loop: "hex_pairs n (hex_loop bs) = Inr bs"
  by (induction bs)
    (simp_all only: hex_loop.simps hex_pairs.simps nibble_cases unat_high_nibble unat_low_nibble
      byte_nibbles option.case rbind.simps word_of_nat_unat)

lemma length_hex_loop [simp]: "length (hex_loop bs) = 2 * length bs"
  by (induction bs) auto

lemma length_to_hex [simp]: "length (to_hex bs) = 2 * length bs"
  by (simp add: to_hex_def to_hex_prefixed_def)

lemma hex_bytes_to_hex [simp]: "hex_bytes (to_hex bs) = Inr bs"
  by (simp add: hex_bytes_def to_hex_def to_hex_prefixed_def hex_pairs_hex_loop)

end
