(* ===== verification/C32.thy ===== *)
theory C32
  imports Bytes
begin

unbundle bit_operations_syntax

text \<open>
  Crockford base-32 addresses (\<open>stacks-common/src/address/c32.rs\<close>): the bit-carrying
  encoder and decoder loops, the checksummed form, and the address form with its leading
  \<open>S\<close>. SHA-256 is an external library; it is the argument \<open>sha256\<close> of the definitions,
  from any byte string to a byte string.

  The lemmas show that both loops preserve the number that the digits denote, so decoding
  inverts encoding on every input, and that addresses determine version and payload.
\<close>

section \<open>Encoder and decoder\<close>

datatype AddressError =
    InvalidCrockford32
  | InvalidVersion u8
  | EmptyData
  | BadByte u8
  | BadChecksum u32 u32
  | InvalidLength nat
  | TooShort nat
  | Other string

fun address_error_to_string :: "AddressError \<Rightarrow> string" where
  "address_error_to_string InvalidCrockford32 = ''Invalid crockford 32 string''"
| "address_error_to_string (InvalidVersion v) = ''Invalid version '' @ show_nat (unat v)"
| "address_error_to_string EmptyData = ''Empty data''"
| "address_error_to_string (BadByte b) = ''invalid base58 character 0x'' @ show_hex (unat b)"
| "address_error_to_string (BadChecksum exp actual) =
     ''base58ck checksum 0x'' @ show_hex (unat actual) @ '' does not match expected 0x'' @
     show_hex (unat exp)"
| "address_error_to_string (InvalidLength ell) =
     ''length '' @ show_nat ell @ '' invalid for this base58 type''"
| "address_error_to_string (TooShort _) = ''base58ck data not even long enough for a checksum''"
| "address_error_to_string (Other s) = s"

definition C32_CHARACTERS :: string where
  "C32_CHARACTERS = ''0123456789ABCDEFGHJKMNPQRSTVWXYZ''"

definition C32_CHARACTERS_MAP :: "u8 option list" where
  "C32_CHARACTERS_MAP =
    [
     None, None, None, None, None, None, None, None,
     None, None, None, None, None, None, None, None,
     None, None, None, None, None, None, None, None,
     None, None, None, None, None, None, None, None,
     None, None, None, None, None, None, None, None,
     None, None, None, None, None, None, None, None,
     Some 0, Some 1, Some 2, Some 3, Some 4, Some 5, Some 6, Some 7,
     Some 8, Some 9, None, None, None, None, None, None,
     None, Some 10, Some 11, Some 12, Some 13, Some 14, Some 15, Some 16,
     Some 17, Some 1, Some 18, Some 19, Some 1, Some 20, Some 21, Some 0,
     Some 22, Some 23, Some 24, Some 25, Some 26, None, Some 27, Some 28,
     Some 29, Some 30, Some 31, None, None, None, None, None,
     None, Some 10, Some 11, Some 12, Some 13, Some 14, Some 15, Some 16,
     Some 17, Some 1, Some 18, Some 19, Some 1, Some 20, Some 21, Some 0,
     Some 22, Some 23, Some 24, Some 25, Some 26, None, Some 27, Some 28,
     Some 29, Some 30, Some 31, None, None, None, None, None]"

text \<open>The loop of \<open>c32_encode\<close> over the reversed input, with the final partial digit.\<close>

fun c32_encode_loop :: "u8 list \<Rightarrow> u8 \<Rightarrow> nat \<Rightarrow> string" where
  "c32_encode_loop [] carry carry_bits =
     (if carry_bits > 0 then [C32_CHARACTERS ! unat carry] else [])"
| "c32_encode_loop (current_value # rest) carry carry_bits =
     (let low_bits_to_take = 5 - carry_bits;
          low_bits = current_value AND (push_bit low_bits_to_take 1 - 1);
          c32_value = push_bit carry_bits low_bits + carry;
          carry_bits' = (8 + carry_bits) - 5;
          carry' = drop_bit (8 - carry_bits') current_value
      in C32_CHARACTERS ! unat c32_value #
         (if carry_bits' \<ge> 5 then
            C32_CHARACTERS ! unat (carry' AND (push_bit 5 1 - 1)) #
            c32_encode_loop rest (drop_bit 5 carry') (carry_bits' - 5)
          else c32_encode_loop rest carry' carry_bits'))"

text \<open>
  The digits are pushed least significant first; popping the leading zeros, pushing one
  zero per leading zero byte and reversing gives the text.
\<close>

definition c32_encode :: "u8 list \<Rightarrow> string" where
  "c32_encode input_bytes =
     (let result = c32_encode_loop (rev input_bytes) 0 0;
          stripped = rev (dropWhile (\<lambda>v. v = C32_CHARACTERS ! 0) (rev result));
          padded = stripped @
            map (\<lambda>_. C32_CHARACTERS ! 0) (takeWhile (\<lambda>b. b = 0) input_bytes)
      in rev padded)"

definition c32_digit :: "char \<Rightarrow> u8 option" where
  "c32_digit x = (if of_char x < (128 :: nat) then C32_CHARACTERS_MAP ! of_char x else None)"

fun c32_decode_loop :: "u8 list \<Rightarrow> u16 \<Rightarrow> nat \<Rightarrow> u8 list" where
  "c32_decode_loop [] carry carry_bits = (if carry_bits > 0 then [ucast carry] else [])"
| "c32_decode_loop (current_5bit # rest) carry carry_bits =
     (let carry = carry + push_bit carry_bits (ucast current_5bit);
          carry_bits = carry_bits + 5
      in if carry_bits \<ge> 8 then
           ucast (carry AND (push_bit 8 1 - 1)) #
           c32_decode_loop rest (drop_bit 8 carry) (carry_bits - 8)
         else c32_decode_loop rest carry carry_bits)"

definition c32_decode_ascii :: "string \<Rightarrow> AddressError + u8 list" where
  "c32_decode_ascii input_str =
     (let iter_c32_digits = List.map_filter c32_digit (rev input_str)
      in if length input_str \<noteq> length iter_c32_digits then Inl InvalidCrockford32
         else
           (let result = c32_decode_loop iter_c32_digits 0 0;
                stripped = rev (dropWhile (\<lambda>v. v = 0) (rev result));
                padded = stripped @ map (\<lambda>_. 0) (takeWhile (\<lambda>d. d = 0) (rev iter_c32_digits))
            in Inr (rev padded)))"

section \<open>Checksummed form and addresses\<close>

definition double_sha256_checksum :: "(u8 list \<Rightarrow> u8 list) \<Rightarrow> u8 list \<Rightarrow> u8 list" where
  "double_sha256_checksum sha256 data = take 4 (sha256 (sha256 data))"

definition c32_check_encode ::
  "(u8 list \<Rightarrow> u8 list) \<Rightarrow> u8 \<Rightarrow> u8 list \<Rightarrow> AddressError + string" where
  "c32_check_encode sha256 version data =
     (if version \<ge> 32 then Inl (InvalidVersion version)
      else
        (let check_data = version # data;
             checksum = double_sha256_checksum sha256 check_data;
             encoding_data = data @ checksum;
             c32_string = c32_encode encoding_data;
             version_char = C32_CHARACTERS ! unat version
         in Inr (version_char # c32_string)))"

definition is_ascii :: "string \<Rightarrow> bool" where
  "is_ascii s \<longleftrightarrow> (\<forall>c \<in> set s. of_char c < (128 :: nat))"

definition sum_u32 :: "u8 list \<Rightarrow> u32" where
  "sum_u32 bs = ucast (bs ! 0) OR push_bit 8 (ucast (bs ! 1)) OR
     push_bit 16 (ucast (bs ! 2)) OR push_bit 24 (ucast (bs ! 3))"

definition c32_check_decode ::
  "(u8 list \<Rightarrow> u8 list) \<Rightarrow> string \<Rightarrow> AddressError + u8 \<times> u8 list" where
  "c32_check_decode sha256 check_data_unsanitized =
     (if \<not> is_ascii check_data_unsanitized then Inl InvalidCrockford32
      else if length check_data_unsanitized < 2 then Inl InvalidCrockford32
      else
        (let version = take 1 check_data_unsanitized;
             data = drop 1 check_data_unsanitized
         in rbind (c32_decode_ascii data) (\<lambda>data_sum_bytes.
              if length data_sum_bytes < 5 then Inl InvalidCrockford32
              else
                (let data_bytes = take (length data_sum_bytes - 4) data_sum_bytes;
                     expected_sum = drop (length data_sum_bytes - 4) data_sum_bytes
                 in rbind (c32_decode_ascii version) (\<lambda>version_bytes.
                      (let check_data = version_bytes @ data_bytes;
                           computed_sum = double_sha256_checksum sha256 check_data
                       in if computed_sum \<noteq> expected_sum
                          then Inl (BadChecksum (sum_u32 computed_sum) (sum_u32 expected_sum))
                          else Inr (check_data ! 0, data_bytes)))))))"

definition c32_address_decode ::
  "(u8 list \<Rightarrow> u8 list) \<Rightarrow> string \<Rightarrow> AddressError + u8 \<times> u8 list" where
  "c32_address_decode sha256 c32_address_str =
     (if \<not> is_ascii c32_address_str \<or> length c32_address_str \<le> 5 then Inl InvalidCrockford32
      else c32_check_decode sha256 (drop 1 c32_address_str))"

definition c32_address ::
  "(u8 list \<Rightarrow> u8 list) \<Rightarrow> u8 \<Rightarrow> u8 list \<Rightarrow> AddressError + string" where
  "c32_address sha256 version data =
     rbind (c32_check_encode sha256 version data) (\<lambda>c32_string. Inr (CHR ''S'' # c32_string))"

section \<open>Values of the loops\<close>

lemma unat_low_bits: "unat (v AND (push_bit k 1 - 1)) = unat v mod 2 ^ k"
  for v :: "'a::len word"
proof -
  have "v AND (push_bit k 1 - 1) = take_bit k v"
    by (simp add: push_bit_eq_mult take_bit_eq_mask mask_eq_exp_minus_1)
  then have "unat (v AND (push_bit k 1 - 1)) = take_bit k (unat v)"
    by (simp only: unsigned_take_bit_eq)
  then show ?thesis
    by (simp only: take_bit_nat_def)
qed

lemma unat_drop: "unat (drop_bit k v) = unat v div 2 ^ k" for v :: "'a::len word"
  by (simp only: unat_drop_bit_eq drop_bit_nat_def)

lemma unat_push:
  "unat v * 2 ^ k < 2 ^ LENGTH('a) \<Longrightarrow> unat (push_bit k v) = unat v * 2 ^ k"
  for v :: "'a::len word"
  by (simp only: unsigned_push_bit_eq push_bit_nat_def take_bit_nat_eq_self)

lemma unat_add_fits: "unat a + unat b < 2 ^ LENGTH('a) \<Longrightarrow> unat (a + b) = unat a + unat b"
  for a b :: "'a::len word"
  by (simp only: unat_add_lem)

text \<open>One step of the encoder emits the low five bits of the number it still has to encode.\<close>

lemma encode_split:
  fixes v c k cb :: nat
  assumes "k + cb = 5"
  shows "(v mod 2 ^ k) * 2 ^ cb + c + 32 * (v div 2 ^ k) = c + 2 ^ cb * v"
proof -
  let ?q = "v div 2 ^ k" and ?r = "v mod 2 ^ k"
  have "2 ^ cb * v = 2 ^ cb * (2 ^ k * ?q + ?r)" by simp
  also have "\<dots> = (2 ^ cb * 2 ^ k) * ?q + ?r * 2 ^ cb" by (simp only: distrib_left ac_simps)
  also have "2 ^ cb * 2 ^ k = (32 :: nat)"
    using assms by (simp add: power_add [symmetric] add.commute)
  finally show ?thesis by simp
qed

lemma low_digit_bound:
  fixes v c :: nat
  assumes "k + cb = 5" and "c < 2 ^ cb"
  shows "(v mod 2 ^ k) * 2 ^ cb + c < 32"
proof -
  have "(v mod 2 ^ k) + 1 \<le> 2 ^ k" by (simp add: Suc_leI)
  then have "((v mod 2 ^ k) + 1) * 2 ^ cb \<le> 2 ^ k * 2 ^ cb" by (rule mult_le_mono1)
  also have "\<dots> = (32 :: nat)" using assms by (simp add: power_add [symmetric])
  finally show ?thesis using assms by (simp add: algebra_simps)
qed

lemma encode_step_value:
  fixes v c :: u8
  assumes "cb \<le> 4" and "unat c < 2 ^ cb"
  shows "unat (push_bit cb (v AND (push_bit (5 - cb) 1 - 1)) + c) =
           (unat v mod 2 ^ (5 - cb)) * 2 ^ cb + unat c"
proof -
  have b: "(unat v mod 2 ^ (5 - cb)) * 2 ^ cb + unat c < 32"
    using low_digit_bound [of "5 - cb" cb "unat c" "unat v"] assms by simp
  then have "unat (push_bit cb (v AND (push_bit (5 - cb) 1 - 1))) =
      (unat v mod 2 ^ (5 - cb)) * 2 ^ cb"
    by (subst unat_push) (simp_all only: unat_low_bits, simp_all)
  with b show ?thesis by (subst unat_add_fits) simp_all
qed

lemma c32_encode_loop_step:
  assumes "cb \<le> 4" and "unat c < 2 ^ cb"
  shows "c32_encode_loop (v # vs) c cb =
     C32_CHARACTERS ! ((unat v mod 2 ^ (5 - cb)) * 2 ^ cb + unat c) #
     (if cb \<ge> 2 then
        C32_CHARACTERS ! ((unat v div 2 ^ (5 - cb)) mod 32) #
        c32_encode_loop vs (drop_bit 5 (drop_bit (5 - cb) v)) (cb - 2)
      else c32_encode_loop vs (drop_bit (5 - cb) v) (cb + 3))"
proof -
  have bits: "8 + cb - 5 = cb + 3" "8 - (cb + 3) = 5 - cb" "cb + 3 \<ge> 5 \<longleftrightarrow> cb \<ge> 2"
      "cb + 3 - 5 = cb - 2"
    by simp_all
  have low: "unat (w AND (push_bit 5 1 - 1)) = unat w mod 32" for w :: u8
    by (simp only: unat_low_bits) simp
  show ?thesis
    by (simp only: c32_encode_loop.simps Let_def encode_step_value [OF assms] bits low unat_drop)
qed

declare c32_encode_loop.simps(2) [simp del]

definition c32_text :: "nat list \<Rightarrow> string" where
  "c32_text ds = map (\<lambda>d. C32_CHARACTERS ! d) ds"

lemma c32_encode_loop_value:
  assumes "cb \<le> 4" and "unat c < 2 ^ cb"
  shows "\<exists>ds. c32_encode_loop vs c cb = c32_text ds \<and> (\<forall>d \<in> set ds. d < 32) \<and>
           undigits 32 ds = unat c + 2 ^ cb * undigits 256 (map unat vs)"
  using assms
proof (induction vs arbitrary: c cb)
  case Nil
  have "(2 :: nat) ^ cb \<le> 2 ^ 4" using Nil.prems(1) by (rule power_increasing) simp
  then show ?case
    using Nil by (cases "cb = 0") (auto simp: c32_text_def intro: exI [of _ "[unat c]"])
next
  case (Cons v vs)
  let ?k = "5 - cb"
  let ?d = "(unat v mod 2 ^ ?k) * 2 ^ cb + unat c"
  let ?n = "unat v div 2 ^ ?k"
  let ?c' = "drop_bit ?k v"
  have k: "?k + cb = 5" using Cons.prems by simp
  have c': "unat ?c' = ?n" by (simp only: unat_drop)
  have "unat v < 2 ^ ?k * 2 ^ (cb + 3)"
    using unat_lt_exp [of v] k by (simp add: power_add [symmetric])
  then have n: "?n < 2 ^ (cb + 3)" by (simp add: less_mult_imp_div_less mult.commute)
  have d: "?d < 32" using low_digit_bound [OF k] Cons.prems by simp
  have split: "?d + 32 * ?n = unat c + 2 ^ cb * unat v" using encode_split [OF k] by simp
  show ?case
  proof (cases "2 \<le> cb")
    case False
    obtain ds where ds: "c32_encode_loop vs ?c' (cb + 3) = c32_text ds"
        "\<forall>d \<in> set ds. d < 32" "undigits 32 ds = ?n + 2 ^ (cb + 3) * undigits 256 (map unat vs)"
      using Cons.IH [of "cb + 3" ?c'] False n c' by auto
    have "undigits 32 (?d # ds) = unat c + 2 ^ cb * undigits 256 (map unat (v # vs))"
      using split ds(3) by (simp add: algebra_simps power_add)
    moreover have "c32_encode_loop (v # vs) c cb = c32_text (?d # ds)"
      using False ds(1) by (simp add: c32_encode_loop_step [OF Cons.prems] c32_text_def)
    ultimately show ?thesis using d ds(2) by (intro exI [of _ "?d # ds"]) simp
  next
    case True
    let ?e = "?n mod 32" and ?c'' = "drop_bit 5 ?c'"
    have c'': "unat ?c'' = ?n div 32" by (simp only: unat_drop) simp
    have pow: "2 ^ (cb + 3) = (2 ^ (cb - 2) * 32 :: nat)"
      using True power_add [of "2 :: nat" "cb - 2" 5] by (simp add: add.commute)
    have pow4: "4 * 2 ^ (cb - 2) = (2 ^ cb :: nat)"
      using True by (auto simp: le_iff_add power_add)
    from n pow have n2: "?n div 32 < 2 ^ (cb - 2)" by (simp add: less_mult_imp_div_less)
    obtain ds where ds: "c32_encode_loop vs ?c'' (cb - 2) = c32_text ds"
        "\<forall>d \<in> set ds. d < 32"
        "undigits 32 ds = ?n div 32 + 2 ^ (cb - 2) * undigits 256 (map unat vs)"
      using Cons.IH [of "cb - 2" ?c''] n2 c'' diff_le_self [THEN order_trans, OF Cons.prems(1)]
      by auto
    have "undigits 32 (?d # ?e # ds) = ?d + 32 * (?n mod 32 + 32 * (?n div 32)) +
        32 * 32 * 2 ^ (cb - 2) * undigits 256 (map unat vs)"
      by (simp add: ds(3) algebra_simps)
    also have "\<dots> = unat c + 2 ^ cb * undigits 256 (map unat (v # vs))"
      using split pow4 by (simp add: algebra_simps)
    finally have "undigits 32 (?d # ?e # ds) =
        unat c + 2 ^ cb * undigits 256 (map unat (v # vs))" .
    moreover have "c32_encode_loop (v # vs) c cb = c32_text (?d # ?e # ds)"
      using True ds(1) by (simp add: c32_encode_loop_step [OF Cons.prems] c32_text_def)
    ultimately show ?thesis using d ds(2) by (intro exI [of _ "?d # ?e # ds"]) simp
  qed
qed

lemma unsigned_of_nat_unat: "ucast w = (word_of_nat (unat w) :: 'b::len word)" for w :: "'a::len word"
  by (simp add: word_unat_eq_iff unsigned_ucast_eq unat_of_nat take_bit_nat_def)

lemma decode_carry:
  fixes c :: u16 and d :: u8
  assumes "cb \<le> 7" and "unat c < 2 ^ cb" and "unat d < 32"
  shows "unat (c + push_bit cb (ucast d)) = unat c + unat d * 2 ^ cb"
    and "unat c + unat d * 2 ^ cb < 2 ^ (cb + 5)"
proof -
  have "unat c + unat d * 2 ^ cb < (unat d + 1) * 2 ^ cb" using assms(2) by simp
  also have "\<dots> \<le> 32 * 2 ^ cb" using assms(3) by (intro mult_le_mono1) simp
  finally show b: "unat c + unat d * 2 ^ cb < 2 ^ (cb + 5)" by (simp add: power_add mult.commute)
  also have "(2 :: nat) ^ (cb + 5) \<le> 2 ^ 12" using assms(1) by (intro power_increasing) simp_all
  finally have fits: "unat c + unat d * 2 ^ cb < 2 ^ 12" .
  have u: "unat (ucast d :: u16) = unat d"
    by (simp add: unsigned_ucast_eq take_bit_nat_eq_self_iff less_trans [OF unat_lt_exp])
  have "unat (push_bit cb (ucast d :: u16)) = unat d * 2 ^ cb"
    by (subst unat_push) (use fits u in simp_all)
  then show "unat (c + push_bit cb (ucast d)) = unat c + unat d * 2 ^ cb"
    by (subst unat_add_fits) (use fits in simp_all)
qed

lemma c32_decode_loop_step:
  assumes "cb \<le> 7" and "unat c < 2 ^ cb" and "unat d < 32"
  defines "n \<equiv> unat c + unat d * 2 ^ cb"
  shows "c32_decode_loop (d # ds) c cb =
     (if cb \<ge> 3 then word_of_nat (n mod 256) # c32_decode_loop ds (word_of_nat (n div 256)) (cb - 3)
      else c32_decode_loop ds (word_of_nat n) (cb + 5))"
proof -
  let ?c = "c + push_bit cb (ucast d) :: u16"
  have c: "unat ?c = n" using decode_carry [OF assms(1-3)] by (simp add: n_def)
  then have w: "?c = word_of_nat n" by (metis word_of_nat_unat)
  have "unat (drop_bit 8 ?c) = n div 256" by (simp only: unat_drop c) simp
  then have hi: "drop_bit 8 ?c = word_of_nat (n div 256)" by (metis word_of_nat_unat)
  have "unat (?c AND (push_bit 8 1 - 1)) = n mod 256" by (simp only: unat_low_bits c) simp
  then have lo: "ucast (?c AND (push_bit 8 1 - 1)) = (word_of_nat (n mod 256) :: u8)"
    by (metis unsigned_of_nat_unat)
  have bits: "cb + 5 \<ge> 8 \<longleftrightarrow> cb \<ge> 3" "cb + 5 - 8 = cb - 3" by simp_all
  show ?thesis
    by (simp only: c32_decode_loop.simps Let_def bits hi lo) (simp only: w)
qed

declare c32_decode_loop.simps(2) [simp del]

lemma c32_decode_loop_value:
  assumes "cb \<le> 7" and "unat c < 2 ^ cb" and "\<forall>d \<in> set ds. unat d < 32"
  shows "undigits 256 (map unat (c32_decode_loop ds c cb)) =
           unat c + 2 ^ cb * undigits 32 (map unat ds)"
  using assms
proof (induction ds arbitrary: c cb)
  case Nil
  have "(2 :: nat) ^ cb \<le> 2 ^ 7" using Nil.prems(1) by (rule power_increasing) simp
  then have "unat c < 256" using Nil.prems by simp
  then show ?case
    using Nil by (cases "cb = 0") (simp_all add: unsigned_ucast_eq take_bit_nat_eq_self_iff)
next
  case (Cons d ds)
  let ?n = "unat c + unat d * 2 ^ cb"
  note step = c32_decode_loop_step [of cb c d ds]
  have n: "?n < 2 ^ (cb + 5)" using decode_carry(2) [of cb c d] Cons.prems by simp
  have p: "(2 :: nat) ^ (cb + 5) \<le> 2 ^ 12" using Cons.prems(1) by (intro power_increasing) simp_all
  have v: "?n + 2 ^ (cb + 5) * U = unat c + 2 ^ cb * (unat d + 32 * U)" for U
    by (simp add: power_add algebra_simps)
  show ?case
  proof (cases "3 \<le> cb")
    case True
    have pow: "2 ^ (cb + 5) = (2 ^ (cb - 3) * 256 :: nat)"
      using True power_add [of "2 :: nat" "cb - 3" 8] by (simp add: add.commute)
    with n have hi: "?n div 256 < 2 ^ (cb - 3)" by (simp add: less_mult_imp_div_less)
    have u: "unat (word_of_nat (?n div 256) :: u16) = ?n div 256"
      using n p by (simp add: unat_of_nat)
    have "undigits 256 (map unat (c32_decode_loop ds (word_of_nat (?n div 256)) (cb - 3))) =
        ?n div 256 + 2 ^ (cb - 3) * undigits 32 (map unat ds)"
      using Cons.IH [of "cb - 3" "word_of_nat (?n div 256)"] Cons.prems hi u by simp
    then have "undigits 256 (map unat (c32_decode_loop (d # ds) c cb)) =
        ?n mod 256 + 256 * (?n div 256) + 2 ^ (cb + 5) * undigits 32 (map unat ds)"
      using step Cons.prems True by (simp add: unat_of_nat pow)
    also have "\<dots> = ?n + 2 ^ (cb + 5) * undigits 32 (map unat ds)"
      by simp
    finally show ?thesis by (simp add: v)
  next
    case False
    have u: "unat (word_of_nat ?n :: u16) = ?n" by (simp only: unat_of_nat) (use n p in simp)
    have "undigits 256 (map unat (c32_decode_loop ds (word_of_nat ?n) (cb + 5))) =
        ?n + 2 ^ (cb + 5) * undigits 32 (map unat ds)"
      using Cons.IH [of "cb + 5" "word_of_nat ?n"] Cons.prems False n u by simp
    then show ?thesis
      using step Cons.prems False by (simp add: v)
  qed
qed

section \<open>Round trips\<close>

lemma c32_digit_char: "d < 32 \<Longrightarrow> c32_digit (C32_CHARACTERS ! d) = Some (word_of_nat d)"
proof -
  have "\<forall>d \<in> set [0..<32]. c32_digit (C32_CHARACTERS ! d) = Some (word_of_nat d)"
    by code_simp
  then show "d < 32 \<Longrightarrow> c32_digit (C32_CHARACTERS ! d) = Some (word_of_nat d)"
    by simp
qed

lemma c32_char_zero: "d < 32 \<Longrightarrow> C32_CHARACTERS ! d = C32_CHARACTERS ! 0 \<longleftrightarrow> d = 0"
  using c32_digit_char [of d] c32_digit_char [of 0]
  by (auto simp: word_unat_eq_iff unat_of_nat)

lemma map_filter_c32_text:
  "\<forall>d \<in> set ds. d < 32 \<Longrightarrow> List.map_filter c32_digit (c32_text ds) = map word_of_nat ds"
  by (induction ds) (simp_all add: c32_text_def c32_digit_char)

lemma strip_c32_text:
  "\<forall>d \<in> set ds. d < 32 \<Longrightarrow>
     dropWhile (\<lambda>v. v = C32_CHARACTERS ! 0) (rev (c32_text ds)) = c32_text (strip_zeros ds)"
proof -
  have "\<forall>d \<in> set es. d < 32 \<Longrightarrow>
      dropWhile (\<lambda>v. v = C32_CHARACTERS ! 0) (c32_text es) = c32_text (dropWhile (\<lambda>d. d = 0) es)" for es
    by (induction es) (auto simp: c32_text_def c32_char_zero)
  from this [of "rev ds"] show "\<forall>d \<in> set ds. d < 32 \<Longrightarrow> ?thesis"
    by (simp add: strip_zeros_def c32_text_def rev_map)
qed

text \<open>What the encoder writes: a zero per leading zero byte, then the digits of the number.\<close>

lemma c32_encode_text:
  obtains ds where "c32_encode bs =
      c32_text (replicate (length (takeWhile (\<lambda>b. b = 0) bs)) 0 @ strip_zeros ds)"
    and "\<forall>d \<in> set ds. d < 32" and "undigits 32 ds = undigits 256 (map unat (rev bs))"
proof -
  obtain ds where ds: "c32_encode_loop (rev bs) 0 0 = c32_text ds" "\<forall>d \<in> set ds. d < 32"
      "undigits 32 ds = undigits 256 (map unat (rev bs))"
    using c32_encode_loop_value [of 0 0 "rev bs"] by auto
  have "c32_encode bs =
      c32_text (replicate (length (takeWhile (\<lambda>b. b = 0) bs)) 0 @ strip_zeros ds)"
    by (simp add: c32_encode_def ds(1) strip_c32_text [OF ds(2)])
      (simp add: c32_text_def map_replicate_const)
  with ds that show ?thesis by blast
qed

lemma set_strip_zeros: "set (strip_zeros ds) \<subseteq> set ds"
  by (auto simp: strip_zeros_def dest: set_dropWhileD)

lemma strip_zeros_map_unat:
  "dropWhile (\<lambda>v. v = 0) (rev bs) = map word_of_nat (strip_zeros (map unat bs))" for bs :: "u8 list"
  by (simp add: strip_zeros_def rev_map dropWhile_map comp_def unat_eq_zero)

lemma takeWhile_dropWhile_Nil: "takeWhile P (dropWhile P xs) = []"
  by (induction xs) auto

lemma takeWhile_zeros_replicate:
  "takeWhile (\<lambda>d. d = z) xs = replicate (length (takeWhile (\<lambda>d. d = z) xs)) z"
  by (induction xs) auto

lemma takeWhile_zeros_strip: "takeWhile (\<lambda>d. d = 0) (replicate n 0 @ strip_zeros ds) = replicate n 0"
proof -
  have "takeWhile (\<lambda>d. d = 0) (strip_zeros ds) = []"
    by (simp only: strip_zeros_def takeWhile_dropWhile_Nil)
  then show ?thesis by (simp add: takeWhile_append)
qed

lemma undigits_strip_zeros: "undigits b (rev (strip_zeros ds)) = undigits b ds"
proof -
  obtain n where "rev ds = replicate n 0 @ strip_zeros ds"
    by (metis strip_zeros_def takeWhile_dropWhile_id takeWhile_zeros_replicate)
  then have "ds = rev (strip_zeros ds) @ replicate n 0"
    by (metis rev_append rev_replicate rev_rev_ident)
  then show ?thesis by (metis add_0_right mult_0_right undigits_append undigits_zeros)
qed

text \<open>What the decoder reads back: a zero byte per leading zero digit, then the number.\<close>

lemma c32_decode_text:
  assumes es: "\<forall>d \<in> set es. d < 32"
  obtains r where "c32_decode_ascii (c32_text es) =
      Inr (replicate (length (takeWhile (\<lambda>d. d = 0) es)) 0 @ dropWhile (\<lambda>v. v = 0) (rev r))"
    and "undigits 256 (map unat r) = undigits 32 (rev es)"
proof -
  let ?ds = "map word_of_nat (rev es) :: u8 list"
  let ?r = "c32_decode_loop ?ds 0 0"
  have "rev (c32_text es) = c32_text (rev es)" by (simp add: c32_text_def rev_map)
  then have digits: "List.map_filter c32_digit (rev (c32_text es)) = ?ds"
    using map_filter_c32_text [of "rev es"] es by simp
  have unats: "map unat ?ds = rev es"
    using map_unat_of_digits [of "rev es"] es by fastforce
  then have "\<forall>d \<in> set ?ds. unat d < 32"
    using es by (metis image_eqI set_map set_rev)
  then have val: "undigits 256 (map unat ?r) = undigits 32 (rev es)"
    using c32_decode_loop_value [of 0 0 ?ds] unats by simp
  have "word_of_nat d = (0 :: u8) \<longleftrightarrow> d = 0" if "d \<in> set es" for d
    using bspec [OF es that] by (simp add: word_unat_eq_iff unat_of_nat)
  then have "takeWhile (\<lambda>d. d = 0) (map word_of_nat es :: u8 list) =
      map word_of_nat (takeWhile (\<lambda>d. d = 0) es)"
    unfolding takeWhile_map by (intro arg_cong [of _ _ "map word_of_nat"] takeWhile_cong) auto
  then have "map (\<lambda>_. 0 :: u8) (takeWhile (\<lambda>d. d = 0) (rev ?ds)) =
      replicate (length (takeWhile (\<lambda>d. d = 0) es)) 0"
    by (simp add: rev_map map_replicate_const)
  moreover have "length (c32_text es) = length ?ds" by (simp add: c32_text_def)
  ultimately have "c32_decode_ascii (c32_text es) =
      Inr (replicate (length (takeWhile (\<lambda>d. d = 0) es)) 0 @ dropWhile (\<lambda>v. v = 0) (rev ?r))"
    by (simp only: c32_decode_ascii_def digits Let_def) simp
  with val that show ?thesis by blast
qed

lemma c32_decode_encode: "c32_decode_ascii (c32_encode bs) = Inr bs"
proof -
  let ?z = "length (takeWhile (\<lambda>b. b = 0) bs)"
  obtain ds where enc: "c32_encode bs = c32_text (replicate ?z 0 @ strip_zeros ds)"
      and lt: "\<forall>d \<in> set ds. d < 32"
      and val: "undigits 32 ds = undigits 256 (map unat (rev bs))"
    by (rule c32_encode_text)
  define es where "es = replicate ?z 0 @ strip_zeros ds"
  have "\<forall>d \<in> set es. d < 32" using lt set_strip_zeros by (fastforce simp: es_def)
  then obtain r where dec: "c32_decode_ascii (c32_text es) =
        Inr (replicate (length (takeWhile (\<lambda>d. d = 0) es)) 0 @ dropWhile (\<lambda>v. v = 0) (rev r))"
      and r: "undigits 256 (map unat r) = undigits 32 (rev es)"
    by (rule c32_decode_text)
  have "undigits 32 (rev es) = undigits 256 (map unat (rev bs))"
    by (simp add: es_def undigits_append undigits_strip_zeros val)
  with r have "strip_zeros (map unat r) = strip_zeros (map unat (rev bs))"
    using unat_lt_exp [where 'a = 8] by (intro strip_zeros_unique [of _ 256]) auto
  then have "dropWhile (\<lambda>v. v = 0) (rev r) = dropWhile (\<lambda>v. v = 0) bs"
    using strip_zeros_map_unat [of r] strip_zeros_map_unat [of "rev bs"] by simp
  moreover have "length (takeWhile (\<lambda>d. d = 0) es) = ?z"
    by (simp only: es_def takeWhile_zeros_strip length_replicate)
  ultimately have "c32_decode_ascii (c32_encode bs) =
      Inr (replicate ?z 0 @ dropWhile (\<lambda>v. v = 0) bs)"
    using dec enc by (simp only: es_def)
  then show ?thesis
    by (metis takeWhile_dropWhile_id takeWhile_zeros_replicate)
qed

lemma c32_decode_version: "v < 32 \<Longrightarrow> c32_decode_ascii [C32_CHARACTERS ! unat v] = Inr [v]"
proof -
  have "\<forall>n \<in> set [0..<32]. c32_decode_ascii [C32_CHARACTERS ! n] = Inr [word_of_nat n]"
    by code_simp
  then show "v < 32 \<Longrightarrow> ?thesis"
    by (auto simp: word_less_nat_alt dest!: bspec [of _ _ "unat v"])
qed

lemma is_ascii_c32_text: "\<forall>d \<in> set ds. d < 32 \<Longrightarrow> is_ascii (c32_text ds)"
proof -
  have "\<forall>d \<in> set [0..<32]. of_char (C32_CHARACTERS ! d) < (128 :: nat)"
    by code_simp
  then show "\<forall>d \<in> set ds. d < 32 \<Longrightarrow> ?thesis"
    by (auto simp: is_ascii_def c32_text_def)
qed

lemma undigits_top: "xs \<noteq> [] \<Longrightarrow> 0 < hd xs \<Longrightarrow> b ^ (length xs - 1) \<le> undigits b (rev xs)"
  by (cases xs) (auto simp: undigits_append intro: trans_le_add2)

lemma strip_zeros_hd: "strip_zeros ds \<noteq> [] \<Longrightarrow> 0 < hd (strip_zeros ds)"
  unfolding strip_zeros_def by (drule hd_dropWhile) (simp only: neq0_conv)

text \<open>The text of a byte string is at least as long as the byte string.\<close>

lemma length_c32_encode: "length bs \<le> length (c32_encode bs)"
proof -
  let ?z = "length (takeWhile (\<lambda>b. b = 0) bs)" and ?xs = "strip_zeros (map unat (rev bs))"
  obtain ds where enc: "c32_encode bs = c32_text (replicate ?z 0 @ strip_zeros ds)"
      and lt: "\<forall>d \<in> set ds. d < 32"
      and val: "undigits 32 ds = undigits 256 (map unat (rev bs))"
    by (rule c32_encode_text)
  have "length ?xs \<le> length (strip_zeros ds)"
  proof (cases "?xs = []")
    case False
    have "(32 :: nat) ^ (length ?xs - 1) \<le> 256 ^ (length ?xs - 1)"
      by (intro power_mono) simp_all
    also have "\<dots> \<le> undigits 256 (rev ?xs)"
      using False strip_zeros_hd by (intro undigits_top)
    also have "\<dots> = undigits 32 (rev (strip_zeros ds))"
      by (simp add: undigits_strip_zeros val)
    also have "\<dots> < 32 ^ length (strip_zeros ds)"
      using undigits_less [of "rev (strip_zeros ds)" 32] lt set_strip_zeros [of ds] by auto
    finally have "length ?xs - 1 < length (strip_zeros ds)"
      by (simp add: power_less_imp_less_exp)
    then show ?thesis by simp
  qed simp
  moreover have "length bs = ?z + length (dropWhile (\<lambda>b. b = 0) bs)"
    by (metis length_append takeWhile_dropWhile_id)
  moreover have "length (dropWhile (\<lambda>b. b = 0) bs) = length ?xs"
    using arg_cong [OF strip_zeros_map_unat [of "rev bs"], of length] by simp
  ultimately show ?thesis
    by (simp add: enc c32_text_def)
qed

lemma c32_encode_digits:
  obtains es where "c32_encode bs = c32_text es" and "\<forall>d \<in> set es. d < 32"
proof (rule c32_encode_text [of bs])
  fix ds
  let ?es = "replicate (length (takeWhile (\<lambda>b. b = 0) bs)) 0 @ strip_zeros ds"
  assume enc: "c32_encode bs = c32_text ?es" and lt: "\<forall>d \<in> set ds. d < 32"
  have "\<forall>d \<in> set ?es. d < 32" using lt set_strip_zeros by fastforce
  with enc show ?thesis by (rule that)
qed

lemma is_ascii_c32_encode: "is_ascii (c32_encode bs)"
  by (rule c32_encode_digits [of bs]) (simp only: is_ascii_c32_text)

lemma c32_address_decode_encode:
  assumes "version < 32" and "data \<noteq> []" and "\<And>x. length (sha256 x) = 32"
  shows "\<exists>a. c32_address sha256 version data = Inr a \<and>
           c32_address_decode sha256 a = Inr (version, data)"
proof -
  let ?sum = "double_sha256_checksum sha256 (version # data)"
  let ?body = "c32_encode (data @ ?sum)" and ?v = "C32_CHARACTERS ! unat version"
  have v: "unat version < 32" using assms(1) by (simp add: word_less_nat_alt)
  have sum: "length ?sum = 4" by (simp add: double_sha256_checksum_def assms(3))
  have len: "5 \<le> length ?body"
    using length_c32_encode [of "data @ ?sum"] sum assms(2) by (cases data) auto
  have ascii: "is_ascii (CHR ''S'' # ?v # ?body)"
    using is_ascii_c32_encode [of "data @ ?sum"] is_ascii_c32_text [of "[unat version]"] v
    by (simp add: is_ascii_def c32_text_def)
  have "c32_address sha256 version data = Inr (CHR ''S'' # ?v # ?body)"
    using assms(1) by (simp add: c32_address_def c32_check_encode_def Let_def not_le [symmetric])
  moreover have "c32_address_decode sha256 (CHR ''S'' # ?v # ?body) = Inr (version, data)"
    using ascii len sum assms(1,2)
    by (auto simp: c32_address_decode_def c32_check_decode_def Let_def c32_decode_encode
        c32_decode_version is_ascii_def)
  ultimately show ?thesis by blast
qed

text \<open>
  (C21) Decoding inverts encoding for every address: for any version below 32 and any
  non-empty payload, \<open>c32_address\<close> succeeds and \<open>c32_address_decode\<close> returns that version
  and that payload. The only fact used about SHA-256 is that a digest has 32 bytes.
\<close>
theorem c32_address_roundtrip:
  assumes "version < 32" and "data \<noteq> []" and "\<And>x. length (sha256 x) = 32"
  shows "\<exists>a. c32_address sha256 version data = Inr a \<and>
           c32_address_decode sha256 a = Inr (version, data)"
  using assms by (rule c32_address_decode_encode)

theorem c32_address_roundtrip_witness:
  "\<exists>a. c32_address (\<lambda>_. replicate 32 7) 22 [0, 1, 2] = Inr a \<and>
     c32_address_decode (\<lambda>_. replicate 32 7) a = Inr (22, [0, 1, 2])"
  by (rule c32_address_roundtrip) simp_all

end
