(* ===== verification/Epochs.thy ===== *)
theory Epochs
  imports Prelude
begin

text \<open>
  Network epochs (\<open>stacks-common/src/types/mod.rs\<close>): the identifiers with their
  discriminants, order, text form and decoding from \<open>u32\<close>; the epoch gates of the
  consensus rules; the coinbase and SIP-031 emission schedules; the list of epochs of a
  network and the epoch of a burnchain height.
\<close>

section \<open>Epoch identifiers\<close>

datatype StacksEpochId =
    Epoch10
  | Epoch20
  | Epoch2_05
  | Epoch21
  | Epoch22
  | Epoch23
  | Epoch24
  | Epoch25
  | Epoch30
  | Epoch31
  | Epoch32
  | Epoch33
  | Epoch34
  | Epoch40
  | Epoch41

fun epoch_discriminant :: "StacksEpochId \<Rightarrow> nat" where
  "epoch_discriminant Epoch10 = 0x01000"
| "epoch_discriminant Epoch20 = 0x02000"
| "epoch_discriminant Epoch2_05 = 0x02005"
| "epoch_discriminant Epoch21 = 0x0200a"
| "epoch_discriminant Epoch22 = 0x0200f"
| "epoch_discriminant Epoch23 = 0x02014"
| "epoch_discriminant Epoch24 = 0x02019"
| "epoch_discriminant Epoch25 = 0x0201a"
| "epoch_discriminant Epoch30 = 0x03000"
| "epoch_discriminant Epoch31 = 0x03001"
| "epoch_discriminant Epoch32 = 0x03002"
| "epoch_discriminant Epoch33 = 0x03003"
| "epoch_discriminant Epoch34 = 0x03004"
| "epoch_discriminant Epoch40 = 0x04000"
| "epoch_discriminant Epoch41 = 0x04001"

definition ALL_EPOCHS :: "StacksEpochId list" where
  "ALL_EPOCHS =
     [Epoch10, Epoch20, Epoch2_05, Epoch21, Epoch22,
      Epoch23, Epoch24, Epoch25, Epoch30, Epoch31,
      Epoch32, Epoch33, Epoch34, Epoch40, Epoch41]"

fun epoch_to_string :: "StacksEpochId \<Rightarrow> string" where
  "epoch_to_string Epoch10 = ''1.0''"
| "epoch_to_string Epoch20 = ''2.0''"
| "epoch_to_string Epoch2_05 = ''2.05''"
| "epoch_to_string Epoch21 = ''2.1''"
| "epoch_to_string Epoch22 = ''2.2''"
| "epoch_to_string Epoch23 = ''2.3''"
| "epoch_to_string Epoch24 = ''2.4''"
| "epoch_to_string Epoch25 = ''2.5''"
| "epoch_to_string Epoch30 = ''3.0''"
| "epoch_to_string Epoch31 = ''3.1''"
| "epoch_to_string Epoch32 = ''3.2''"
| "epoch_to_string Epoch33 = ''3.3''"
| "epoch_to_string Epoch34 = ''3.4''"
| "epoch_to_string Epoch40 = ''4.0''"
| "epoch_to_string Epoch41 = ''4.1''"

text \<open>
  \<open>FromStr\<close> and \<open>TryFrom<u32>\<close> try the variants in their order of declaration.
\<close>

definition epoch_from_str :: "string \<Rightarrow> string + StacksEpochId" where
  "epoch_from_str s =
     ok_or (find (\<lambda>e. epoch_to_string e = s) ALL_EPOCHS) ''Invalid epoch string''"

definition epoch_try_from :: "u32 \<Rightarrow> string + StacksEpochId" where
  "epoch_try_from v =
     ok_or (find (\<lambda>e. unat v = epoch_discriminant e) ALL_EPOCHS) ''Invalid epoch''"

text \<open>The conversion \<open>epoch as u32\<close>.\<close>

definition epoch_as_u32 :: "StacksEpochId \<Rightarrow> u32" where
  "epoch_as_u32 e = word_of_nat (epoch_discriminant e)"

text \<open>The derived order compares discriminants.\<close>

instantiation StacksEpochId :: linorder
begin

definition less_eq_StacksEpochId :: "StacksEpochId \<Rightarrow> StacksEpochId \<Rightarrow> bool" where
  "less_eq_StacksEpochId a b \<longleftrightarrow> epoch_discriminant a \<le> epoch_discriminant b"

definition less_StacksEpochId :: "StacksEpochId \<Rightarrow> StacksEpochId \<Rightarrow> bool" where
  "less_StacksEpochId a b \<longleftrightarrow> epoch_discriminant a < epoch_discriminant b"

instance
proof
  fix a b :: StacksEpochId
  assume "a \<le> b" and "b \<le> a"
  then have "epoch_discriminant a = epoch_discriminant b"
    by (simp add: less_eq_StacksEpochId_def)
  then show "a = b"
    by (cases a; cases b) simp_all
qed (auto simp: less_eq_StacksEpochId_def less_StacksEpochId_def)

end

text \<open>The position of an epoch, for evaluation: comparing positions is comparing discriminants.\<close>

fun epoch_position :: "StacksEpochId \<Rightarrow> int" where
  "epoch_position Epoch10 = 0"
| "epoch_position Epoch20 = 1"
| "epoch_position Epoch2_05 = 2"
| "epoch_position Epoch21 = 3"
| "epoch_position Epoch22 = 4"
| "epoch_position Epoch23 = 5"
| "epoch_position Epoch24 = 6"
| "epoch_position Epoch25 = 7"
| "epoch_position Epoch30 = 8"
| "epoch_position Epoch31 = 9"
| "epoch_position Epoch32 = 10"
| "epoch_position Epoch33 = 11"
| "epoch_position Epoch34 = 12"
| "epoch_position Epoch40 = 13"
| "epoch_position Epoch41 = 14"

lemma epoch_order_code [code]:
  "a \<le> b \<longleftrightarrow> epoch_position a \<le> epoch_position b"
  "a < b \<longleftrightarrow> epoch_position a < epoch_position b"
  by (cases a; cases b; simp add: less_eq_StacksEpochId_def less_StacksEpochId_def)+

section \<open>Epoch gates\<close>

definition analysis_memory :: "StacksEpochId \<Rightarrow> bool" where
  "analysis_memory e \<longleftrightarrow> e \<ge> Epoch25"

definition value_sanitizing :: "StacksEpochId \<Rightarrow> bool" where
  "value_sanitizing e \<longleftrightarrow> e \<ge> Epoch24"

definition sanitize_in_function_invocation :: "StacksEpochId \<Rightarrow> bool" where
  "sanitize_in_function_invocation e \<longleftrightarrow> e \<ge> Epoch40"

definition fixes_implicit_cast_list_bound :: "StacksEpochId \<Rightarrow> bool" where
  "fixes_implicit_cast_list_bound e \<longleftrightarrow> e \<ge> Epoch41"

definition enforces_exact_typed_tuple_field_set :: "StacksEpochId \<Rightarrow> bool" where
  "enforces_exact_typed_tuple_field_set e \<longleftrightarrow> e \<ge> Epoch41"

definition enforces_contract_name_length_limit :: "StacksEpochId \<Rightarrow> bool" where
  "enforces_contract_name_length_limit e \<longleftrightarrow> e \<ge> Epoch41"

definition checks_concat_result_size :: "StacksEpochId \<Rightarrow> bool" where
  "checks_concat_result_size e \<longleftrightarrow> e \<ge> Epoch41"

definition supports_specific_budget_extends :: "StacksEpochId \<Rightarrow> bool" where
  "supports_specific_budget_extends e \<longleftrightarrow> e \<ge> Epoch33"

definition enforces_strict_signature_order :: "StacksEpochId \<Rightarrow> bool" where
  "enforces_strict_signature_order e \<longleftrightarrow> e \<ge> Epoch40"

definition allows_pox_punishment :: "StacksEpochId \<Rightarrow> bool" where
  "allows_pox_punishment e \<longleftrightarrow> e \<ge> Epoch30"

definition block_commits_to_parent :: "StacksEpochId \<Rightarrow> bool" where
  "block_commits_to_parent e \<longleftrightarrow> e \<ge> Epoch30"

definition allows_missing_vtxindex_zero_commit_parent :: "StacksEpochId \<Rightarrow> bool" where
  "allows_missing_vtxindex_zero_commit_parent e \<longleftrightarrow> e \<ge> Epoch30 \<and> e < Epoch41"

definition supports_pox_missed_slot_unlocks :: "StacksEpochId \<Rightarrow> bool" where
  "supports_pox_missed_slot_unlocks e \<longleftrightarrow> e < Epoch25"

definition treats_unexpected_serialization_as_none :: "StacksEpochId \<Rightarrow> bool" where
  "treats_unexpected_serialization_as_none e \<longleftrightarrow> e \<ge> Epoch34"

definition rejects_supertype_too_large :: "StacksEpochId \<Rightarrow> bool" where
  "rejects_supertype_too_large e \<longleftrightarrow> e < Epoch34"

definition rejects_parse_depth_errors :: "StacksEpochId \<Rightarrow> bool" where
  "rejects_parse_depth_errors e \<longleftrightarrow> e < Epoch34"

definition uses_pre_sanitized_variables :: "StacksEpochId \<Rightarrow> bool" where
  "uses_pre_sanitized_variables e \<longleftrightarrow> e \<ge> Epoch34"

definition uses_nakamoto_blocks :: "StacksEpochId \<Rightarrow> bool" where
  "uses_nakamoto_blocks e \<longleftrightarrow> e \<ge> Epoch30"

definition clarity_uses_tip_burn_block :: "StacksEpochId \<Rightarrow> bool" where
  "clarity_uses_tip_burn_block e \<longleftrightarrow> e \<ge> Epoch30"

definition supports_sip040_post_conditions :: "StacksEpochId \<Rightarrow> bool" where
  "supports_sip040_post_conditions e \<longleftrightarrow> e \<ge> Epoch34"

definition starts_reward_cycle_at_0 :: "StacksEpochId \<Rightarrow> bool" where
  "starts_reward_cycle_at_0 e \<longleftrightarrow> e \<ge> Epoch40"

definition includes_sip_031 :: "StacksEpochId \<Rightarrow> bool" where
  "includes_sip_031 e \<longleftrightarrow> e \<ge> Epoch32"

definition uses_marfed_block_time :: "StacksEpochId \<Rightarrow> bool" where
  "uses_marfed_block_time e \<longleftrightarrow> e \<ge> Epoch33"

definition uses_arg_size_for_cost :: "StacksEpochId \<Rightarrow> bool" where
  "uses_arg_size_for_cost e \<longleftrightarrow> e \<ge> Epoch33"

definition limits_parameter_and_method_count :: "StacksEpochId \<Rightarrow> bool" where
  "limits_parameter_and_method_count e \<longleftrightarrow> e \<ge> Epoch33"

definition meters_in_contract_trait_entry :: "StacksEpochId \<Rightarrow> bool" where
  "meters_in_contract_trait_entry e \<longleftrightarrow> e \<ge> Epoch40"

definition handles_with_stx_combined_check :: "StacksEpochId \<Rightarrow> bool" where
  "handles_with_stx_combined_check e \<longleftrightarrow> e \<ge> Epoch34"

definition supports_staking_post_conditions :: "StacksEpochId \<Rightarrow> bool" where
  "supports_staking_post_conditions e \<longleftrightarrow> e \<ge> Epoch40"

definition rejects_versioned_smart_contracts :: "StacksEpochId \<Rightarrow> bool" where
  "rejects_versioned_smart_contracts e \<longleftrightarrow> e \<ge> Epoch41"

definition allows_shadowable_reserved_names :: "StacksEpochId \<Rightarrow> bool" where
  "allows_shadowable_reserved_names e \<longleftrightarrow> e \<ge> Epoch41"

definition sums_stacking_assetmap :: "StacksEpochId \<Rightarrow> bool" where
  "sums_stacking_assetmap e \<longleftrightarrow> e \<ge> Epoch40"

definition fixes_replace_at_element_arity :: "StacksEpochId \<Rightarrow> bool" where
  "fixes_replace_at_element_arity e \<longleftrightarrow> e \<ge> Epoch41"

definition requires_matching_tuple_fields_in_analysis :: "StacksEpochId \<Rightarrow> bool" where
  "requires_matching_tuple_fields_in_analysis e \<longleftrightarrow> e \<ge> Epoch41"

definition requires_fold_result_to_admit_initial_value :: "StacksEpochId \<Rightarrow> bool" where
  "requires_fold_result_to_admit_initial_value e \<longleftrightarrow> e \<ge> Epoch41"

definition checks_exact_argument_count :: "StacksEpochId \<Rightarrow> bool" where
  "checks_exact_argument_count e \<longleftrightarrow> e \<ge> Epoch41"

definition checks_with_all_assets_in_restrict_assets :: "StacksEpochId \<Rightarrow> bool" where
  "checks_with_all_assets_in_restrict_assets e \<longleftrightarrow> e \<ge> Epoch41"

definition charges_callable_type_size :: "StacksEpochId \<Rightarrow> bool" where
  "charges_callable_type_size e \<longleftrightarrow> e \<ge> Epoch41"

definition supports_local_trait_lookup :: "StacksEpochId \<Rightarrow> bool" where
  "supports_local_trait_lookup e \<longleftrightarrow> e \<ge> Epoch41"

definition supports_call_with_constant :: "StacksEpochId \<Rightarrow> bool" where
  "supports_call_with_constant e \<longleftrightarrow> e \<ge> Epoch34"

definition supports_at_block :: "StacksEpochId \<Rightarrow> bool" where
  "supports_at_block e \<longleftrightarrow> e < Epoch34"

definition allows_tx_signatures_with_high_s :: "StacksEpochId \<Rightarrow> bool" where
  "allows_tx_signatures_with_high_s e \<longleftrightarrow> e < Epoch40"

definition fixes_map_off_by_one :: "StacksEpochId \<Rightarrow> bool" where
  "fixes_map_off_by_one e \<longleftrightarrow> e \<ge> Epoch40"

definition fixes_block_size_off_by_one :: "StacksEpochId \<Rightarrow> bool" where
  "fixes_block_size_off_by_one e \<longleftrightarrow> e \<ge> Epoch41"

definition surfaces_trait_compliance_cost_errors :: "StacksEpochId \<Rightarrow> bool" where
  "surfaces_trait_compliance_cost_errors e \<longleftrightarrow> e \<ge> Epoch40"

definition performs_read_only_checks_before_type_checks :: "StacksEpochId \<Rightarrow> bool" where
  "performs_read_only_checks_before_type_checks e \<longleftrightarrow> e < Epoch41"

definition checks_dependency_of_contract_call_target :: "StacksEpochId \<Rightarrow> bool" where
  "checks_dependency_of_contract_call_target e \<longleftrightarrow> e \<ge> Epoch41"

definition clarity_runtime_checks_global_constants_before_local_vars :: "StacksEpochId \<Rightarrow> bool" where
  "clarity_runtime_checks_global_constants_before_local_vars e \<longleftrightarrow> e \<ge> Epoch41"

definition latest_epoch :: StacksEpochId where
  "latest_epoch = Epoch40"

datatype MempoolCollectionBehavior = ByStacksHeight | ByReceiveTime

definition mempool_garbage_behavior :: "StacksEpochId \<Rightarrow> MempoolCollectionBehavior" where
  "mempool_garbage_behavior e = (if e < Epoch30 then ByStacksHeight else ByReceiveTime)"

definition MINING_COMMITMENT_WINDOW :: u8 where
  "MINING_COMMITMENT_WINDOW = 6"

definition MINING_COMMITMENT_FREQUENCY_NAKAMOTO :: u8 where
  "MINING_COMMITMENT_FREQUENCY_NAKAMOTO = 3"

definition mining_commitment_window :: "StacksEpochId \<Rightarrow> u8" where
  "mining_commitment_window e = MINING_COMMITMENT_WINDOW"

definition mining_commitment_frequency :: "StacksEpochId \<Rightarrow> u8" where
  "mining_commitment_frequency e =
     (if e \<ge> Epoch30 then MINING_COMMITMENT_FREQUENCY_NAKAMOTO else 0)"

definition uses_nakamoto_reward_set :: "StacksEpochId \<Rightarrow> u64 \<Rightarrow> u64 \<Rightarrow> bool" where
  "uses_nakamoto_reward_set e cur_reward_cycle first_epoch30_reward_cycle \<longleftrightarrow>
     e \<ge> Epoch30 \<and> cur_reward_cycle > first_epoch30_reward_cycle"

fun network_epoch :: "StacksEpochId \<Rightarrow> u8" where
  "network_epoch Epoch10 = 0x00"
| "network_epoch Epoch20 = 0x00"
| "network_epoch Epoch2_05 = 0x05"
| "network_epoch Epoch21 = 0x06"
| "network_epoch Epoch22 = 0x07"
| "network_epoch Epoch23 = 0x08"
| "network_epoch Epoch24 = 0x09"
| "network_epoch Epoch25 = 0x0a"
| "network_epoch Epoch30 = 0x0b"
| "network_epoch Epoch31 = 0x0c"
| "network_epoch Epoch32 = 0x0d"
| "network_epoch Epoch33 = 0x0e"
| "network_epoch Epoch34 = 0x0f"
| "network_epoch Epoch40 = 0x10"
| "network_epoch Epoch41 = 0x11"

section \<open>Coinbase schedule\<close>

record CoinbaseInterval =
  coinbase :: u128
  effective_start_height :: u64

definition MICROSTACKS_PER_STACKS :: u32 where
  "MICROSTACKS_PER_STACKS = 1000000"

definition BITCOIN_MAINNET_GENESIS_BURN_HEIGHT :: u64 where
  "BITCOIN_MAINNET_GENESIS_BURN_HEIGHT = 666050"

definition BITCOIN_MAINNET_STACKS_40_BURN_HEIGHT :: u64 where
  "BITCOIN_MAINNET_STACKS_40_BURN_HEIGHT = 960230"

definition BITCOIN_TESTNET_GENESIS_BURN_HEIGHT :: u64 where
  "BITCOIN_TESTNET_GENESIS_BURN_HEIGHT = 2000000"

definition BITCOIN_TESTNET_STACKS_40_BURN_HEIGHT :: u64 where
  "BITCOIN_TESTNET_STACKS_40_BURN_HEIGHT = 40000000"

definition COINBASE_INTERVALS_MAINNET :: "CoinbaseInterval list" where
  "COINBASE_INTERVALS_MAINNET =
     [\<lparr>coinbase = 1000 * ucast MICROSTACKS_PER_STACKS, effective_start_height = 0\<rparr>,
      \<lparr>coinbase = 500 * ucast MICROSTACKS_PER_STACKS, effective_start_height = 278950\<rparr>,
      \<lparr>coinbase = 1000 * ucast MICROSTACKS_PER_STACKS,
       effective_start_height =
         BITCOIN_MAINNET_STACKS_40_BURN_HEIGHT - BITCOIN_MAINNET_GENESIS_BURN_HEIGHT\<rparr>]"

definition COINBASE_INTERVALS_TESTNET :: "CoinbaseInterval list" where
  "COINBASE_INTERVALS_TESTNET =
     [\<lparr>coinbase = 1000 * ucast MICROSTACKS_PER_STACKS, effective_start_height = 0\<rparr>,
      \<lparr>coinbase = 500 * ucast MICROSTACKS_PER_STACKS, effective_start_height = 77777\<rparr>,
      \<lparr>coinbase = 250 * ucast MICROSTACKS_PER_STACKS, effective_start_height = 77777 * 7\<rparr>,
      \<lparr>coinbase = 125 * ucast MICROSTACKS_PER_STACKS, effective_start_height = 77777 * 14\<rparr>,
      \<lparr>coinbase = (625 * ucast MICROSTACKS_PER_STACKS) div 10,
       effective_start_height = 77777 * 21\<rparr>,
      \<lparr>coinbase = 1000 * ucast MICROSTACKS_PER_STACKS,
       effective_start_height =
         BITCOIN_TESTNET_STACKS_40_BURN_HEIGHT - BITCOIN_TESTNET_GENESIS_BURN_HEIGHT\<rparr>]"

text \<open>
  The scan of adjacent intervals in \<open>get_coinbase_at_effective_height\<close>, ending in the
  last interval when no earlier one contains the height.
\<close>

fun coinbase_scan :: "CoinbaseInterval list \<Rightarrow> u64 \<Rightarrow> u128" where
  "coinbase_scan [] h = 0"
| "coinbase_scan [i] h = coinbase i"
| "coinbase_scan (i # j # is) h =
     (if effective_start_height i \<le> h \<and> h < effective_start_height j then coinbase i
      else coinbase_scan (j # is) h)"

definition get_coinbase_at_effective_height :: "CoinbaseInterval list \<Rightarrow> u64 \<Rightarrow> u128" where
  "get_coinbase_at_effective_height intervals effective_height =
     (if intervals = [] then 0
      else if length intervals = 1 then
        (if effective_start_height (hd intervals) \<le> effective_height
         then coinbase (hd intervals) else 0)
      else coinbase_scan intervals effective_height)"

fun check_order_from :: "u64 \<Rightarrow> CoinbaseInterval list \<Rightarrow> bool" where
  "check_order_from ht [] = True"
| "check_order_from ht (i # is) =
     (if effective_start_height i < ht then False
      else check_order_from (effective_start_height i) is)"

definition check_order :: "CoinbaseInterval list \<Rightarrow> bool" where
  "check_order intervals =
     (if length intervals < 2 then True
      else check_order_from (effective_start_height (hd intervals)) (tl intervals))"

definition get_coinbase_intervals :: "bool \<Rightarrow> CoinbaseInterval list" where
  "get_coinbase_intervals mainnet =
     (if mainnet then COINBASE_INTERVALS_MAINNET else COINBASE_INTERVALS_TESTNET)"

definition coinbase_reward_pre_sip029 :: "u64 \<Rightarrow> u64 \<Rightarrow> u128" where
  "coinbase_reward_pre_sip029 first_burnchain_height current_burnchain_height =
     (let effective_ht = saturating_sub current_burnchain_height first_burnchain_height;
          blocks_per_year = 52596;
          stx_reward =
            (if effective_ht < blocks_per_year * 4 then 1000
             else if effective_ht < blocks_per_year * 8 then 500
             else if effective_ht < blocks_per_year * 12 then 250
             else 125)
      in stx_reward * ucast MICROSTACKS_PER_STACKS)"

definition coinbase_reward_sip029 :: "bool \<Rightarrow> u64 \<Rightarrow> u64 \<Rightarrow> u128" where
  "coinbase_reward_sip029 mainnet first_burnchain_height current_burnchain_height =
     get_coinbase_at_effective_height (get_coinbase_intervals mainnet)
       (saturating_sub current_burnchain_height first_burnchain_height)"

definition coinbase_reward :: "StacksEpochId \<Rightarrow> bool \<Rightarrow> u64 \<Rightarrow> u64 \<Rightarrow> u128" where
  "coinbase_reward e mainnet first_burnchain_height current_burnchain_height =
     (if e = Epoch10 then 0
      else if e < Epoch31 then
        coinbase_reward_pre_sip029 first_burnchain_height current_burnchain_height
      else coinbase_reward_sip029 mainnet first_burnchain_height current_burnchain_height)"

section \<open>SIP-031 emission schedule\<close>

record SIP031EmissionInterval =
  emission_amount :: u128
  emission_start_height :: u64

definition SIP031_EMISSION_INTERVALS_MAINNET :: "SIP031EmissionInterval list" where
  "SIP031_EMISSION_INTERVALS_MAINNET =
     [\<lparr>emission_amount = 0, emission_start_height = 1170540\<rparr>,
      \<lparr>emission_amount = 1155 * ucast MICROSTACKS_PER_STACKS, emission_start_height = 1117980\<rparr>,
      \<lparr>emission_amount = 1305 * ucast MICROSTACKS_PER_STACKS, emission_start_height = 1065420\<rparr>,
      \<lparr>emission_amount = 1705 * ucast MICROSTACKS_PER_STACKS, emission_start_height = 1012860\<rparr>,
      \<lparr>emission_amount = 1140 * ucast MICROSTACKS_PER_STACKS, emission_start_height = 960300\<rparr>,
      \<lparr>emission_amount = 475 * ucast MICROSTACKS_PER_STACKS, emission_start_height = 907740\<rparr>]"

definition SIP031_EMISSION_INTERVALS_TESTNET :: "SIP031EmissionInterval list" where
  "SIP031_EMISSION_INTERVALS_TESTNET =
     [\<lparr>emission_amount = 0, emission_start_height = 71525 + (360 * 6)\<rparr>,
      \<lparr>emission_amount = 5000, emission_start_height = 71525 + (360 * 5)\<rparr>,
      \<lparr>emission_amount = 4000, emission_start_height = 71525 + (360 * 4)\<rparr>,
      \<lparr>emission_amount = 3000, emission_start_height = 71525 + (360 * 3)\<rparr>,
      \<lparr>emission_amount = 2000, emission_start_height = 71525 + (360 * 2)\<rparr>,
      \<lparr>emission_amount = 1000, emission_start_height = 71525 + 360\<rparr>]"

definition get_sip_031_emission_schedule :: "bool \<Rightarrow> SIP031EmissionInterval list" where
  "get_sip_031_emission_schedule mainnet =
     (if mainnet then SIP031_EMISSION_INTERVALS_MAINNET else SIP031_EMISSION_INTERVALS_TESTNET)"

fun emission_scan :: "SIP031EmissionInterval list \<Rightarrow> u64 \<Rightarrow> u128" where
  "emission_scan [] h = 0"
| "emission_scan (i # is) h = (if h \<ge> emission_start_height i then emission_amount i else emission_scan is h)"

definition get_sip_031_emission_at_height :: "u64 \<Rightarrow> bool \<Rightarrow> u128" where
  "get_sip_031_emission_at_height burn_height mainnet =
     (let intervals = get_sip_031_emission_schedule mainnet in
      if intervals = [] then 0 else emission_scan intervals burn_height)"

fun check_inversed_order_from :: "u64 \<Rightarrow> SIP031EmissionInterval list \<Rightarrow> bool" where
  "check_inversed_order_from ht [] = True"
| "check_inversed_order_from ht (i # is) =
     (if emission_start_height i > ht then False else check_inversed_order_from (emission_start_height i) is)"

fun check_inversed_order :: "SIP031EmissionInterval list \<Rightarrow> bool" where
  "check_inversed_order [] = True"
| "check_inversed_order (i # is) = check_inversed_order_from (emission_start_height i) is"

section \<open>Epoch lists\<close>

record 'l StacksEpoch =
  epoch_id :: StacksEpochId
  epoch_start_height :: u64
  epoch_end_height :: u64
  block_limit :: 'l
  epoch_network_epoch :: u8

text \<open>An \<open>EpochList\<close> is the vector it wraps.\<close>

type_synonym 'l EpochList = "'l StacksEpoch list"

definition STACKS_EPOCH_MAX :: u64 where
  "STACKS_EPOCH_MAX = 9223372036854775807"

fun find_index :: "('a \<Rightarrow> bool) \<Rightarrow> 'a list \<Rightarrow> nat option" where
  "find_index P [] = None"
| "find_index P (x # xs) = (if P x then Some 0 else map_option Suc (find_index P xs))"

definition find_epoch :: "'l StacksEpoch list \<Rightarrow> u64 \<Rightarrow> nat option" where
  "find_epoch epochs height =
     find_index (\<lambda>epoch. epoch_start_height epoch \<le> height \<and> height < epoch_end_height epoch) epochs"

definition find_epoch_by_id :: "'l StacksEpoch list \<Rightarrow> StacksEpochId \<Rightarrow> nat option" where
  "find_epoch_by_id epochs i = find_index (\<lambda>epoch. epoch_id epoch = i) epochs"

definition epoch_list_get :: "'l EpochList \<Rightarrow> StacksEpochId \<Rightarrow> 'l StacksEpoch option" where
  "epoch_list_get epochs i = map_option (\<lambda>idx. epochs ! idx) (find_epoch_by_id epochs i)"

definition truncate_after :: "'l EpochList \<Rightarrow> StacksEpochId \<Rightarrow> 'l EpochList" where
  "truncate_after epochs i =
     (let kept = (case find_epoch_by_id epochs i of
                    None \<Rightarrow> epochs | Some index \<Rightarrow> take (index + 1) epochs)
      in if kept = [] then []
         else butlast kept @ [(last kept)\<lparr>epoch_end_height := STACKS_EPOCH_MAX\<rparr>])"

definition epoch_id_at_height :: "'l EpochList \<Rightarrow> u64 \<Rightarrow> StacksEpochId option" where
  "epoch_id_at_height epochs height =
     map_option (\<lambda>idx. epoch_id (epochs ! idx)) (find_epoch epochs height)"

definition epoch_at_height :: "'l EpochList \<Rightarrow> u64 \<Rightarrow> 'l StacksEpoch option" where
  "epoch_at_height epochs height =
     map_option (\<lambda>idx. epochs ! idx) (find_epoch epochs height)"

text \<open>\<open>push\<close> asserts that the epoch follows the last one; a failed assertion is \<open>Inl\<close>.\<close>

definition epoch_list_push :: "'l EpochList \<Rightarrow> 'l StacksEpoch \<Rightarrow> string + 'l EpochList" where
  "epoch_list_push epochs epoch =
     (if epochs \<noteq> [] \<and>
         \<not> (epoch_start_height epoch = epoch_end_height (last epochs) \<and>
            epoch_id epoch > epoch_id (last epochs))
      then Inl ''Epochs must be pushed in order''
      else Inr (epochs @ [epoch]))"

text \<open>Building a list by pushing epochs one at a time.\<close>

fun push_all :: "'l EpochList \<Rightarrow> 'l StacksEpoch list \<Rightarrow> string + 'l EpochList" where
  "push_all epochs [] = Inr epochs"
| "push_all epochs (e # es) = rbind (epoch_list_push epochs e) (\<lambda>l. push_all l es)"

text \<open>The gates that an epoch opens for good, and those that it closes for good.\<close>

definition opening_gates :: "(StacksEpochId \<Rightarrow> bool) list" where
  "opening_gates =
     [analysis_memory, value_sanitizing, sanitize_in_function_invocation,
      fixes_implicit_cast_list_bound, enforces_exact_typed_tuple_field_set,
      enforces_contract_name_length_limit, checks_concat_result_size,
      supports_specific_budget_extends, enforces_strict_signature_order, allows_pox_punishment,
      block_commits_to_parent, treats_unexpected_serialization_as_none,
      uses_pre_sanitized_variables, uses_nakamoto_blocks, clarity_uses_tip_burn_block,
      supports_sip040_post_conditions, starts_reward_cycle_at_0, includes_sip_031,
      uses_marfed_block_time, uses_arg_size_for_cost, limits_parameter_and_method_count,
      meters_in_contract_trait_entry, handles_with_stx_combined_check,
      supports_staking_post_conditions, rejects_versioned_smart_contracts,
      allows_shadowable_reserved_names, sums_stacking_assetmap, fixes_replace_at_element_arity,
      requires_matching_tuple_fields_in_analysis, requires_fold_result_to_admit_initial_value,
      checks_exact_argument_count, checks_with_all_assets_in_restrict_assets,
      charges_callable_type_size, supports_local_trait_lookup, supports_call_with_constant,
      fixes_map_off_by_one, fixes_block_size_off_by_one, surfaces_trait_compliance_cost_errors,
      checks_dependency_of_contract_call_target,
      clarity_runtime_checks_global_constants_before_local_vars]"

definition closing_gates :: "(StacksEpochId \<Rightarrow> bool) list" where
  "closing_gates =
     [supports_pox_missed_slot_unlocks, rejects_supertype_too_large, rejects_parse_depth_errors,
      supports_at_block, allows_tx_signatures_with_high_s,
      performs_read_only_checks_before_type_checks]"

lemmas opening_gate_defs =
  analysis_memory_def
  value_sanitizing_def
  sanitize_in_function_invocation_def
  fixes_implicit_cast_list_bound_def
  enforces_exact_typed_tuple_field_set_def
  enforces_contract_name_length_limit_def
  checks_concat_result_size_def
  supports_specific_budget_extends_def
  enforces_strict_signature_order_def
  allows_pox_punishment_def
  block_commits_to_parent_def
  treats_unexpected_serialization_as_none_def
  uses_pre_sanitized_variables_def
  uses_nakamoto_blocks_def
  clarity_uses_tip_burn_block_def
  supports_sip040_post_conditions_def
  starts_reward_cycle_at_0_def
  includes_sip_031_def
  uses_marfed_block_time_def
  uses_arg_size_for_cost_def
  limits_parameter_and_method_count_def
  meters_in_contract_trait_entry_def
  handles_with_stx_combined_check_def
  supports_staking_post_conditions_def
  rejects_versioned_smart_contracts_def
  allows_shadowable_reserved_names_def
  sums_stacking_assetmap_def
  fixes_replace_at_element_arity_def
  requires_matching_tuple_fields_in_analysis_def
  requires_fold_result_to_admit_initial_value_def
  checks_exact_argument_count_def
  checks_with_all_assets_in_restrict_assets_def
  charges_callable_type_size_def
  supports_local_trait_lookup_def
  supports_call_with_constant_def
  fixes_map_off_by_one_def
  fixes_block_size_off_by_one_def
  surfaces_trait_compliance_cost_errors_def
  checks_dependency_of_contract_call_target_def
  clarity_runtime_checks_global_constants_before_local_vars_def

lemmas closing_gate_defs =
  supports_pox_missed_slot_unlocks_def
  rejects_supertype_too_large_def
  rejects_parse_depth_errors_def
  supports_at_block_def
  allows_tx_signatures_with_high_s_def
  performs_read_only_checks_before_type_checks_def

lemma opening_gates_mono:
  assumes "g \<in> set opening_gates" and "e \<le> e'" and "g e"
  shows "g e'"
  using assms unfolding opening_gates_def
  by (auto simp: opening_gate_defs intro: order_trans)

lemma closing_gates_mono:
  assumes "g \<in> set closing_gates" and "e \<le> e'" and "g e'"
  shows "g e"
  using assms unfolding closing_gates_def
  by (auto simp: closing_gate_defs intro: le_less_trans)

section \<open>Decoding of identifiers\<close>

lemma epoch_discriminant_inj [simp]: "epoch_discriminant a = epoch_discriminant b \<longleftrightarrow> a = b"
  by (cases a; cases b) simp_all

lemma set_ALL_EPOCHS [simp]: "set ALL_EPOCHS = UNIV"
proof -
  have "e \<in> set ALL_EPOCHS" for e
    by (cases e) (simp_all add: ALL_EPOCHS_def)
  then show ?thesis by auto
qed

lemma epoch_discriminant_bound: "epoch_discriminant e < 2 ^ 32"
  by (cases e) simp_all

lemma unat_epoch_as_u32 [simp]: "unat (epoch_as_u32 e) = epoch_discriminant e"
  using epoch_discriminant_bound [of e] by (simp add: epoch_as_u32_def unat_of_nat)

lemma find_unique:
  assumes "x \<in> set xs" and "\<And>y. y \<in> set xs \<Longrightarrow> P y \<longleftrightarrow> y = x"
  shows "find P xs = Some x"
  using assms by (induction xs) auto

lemma epoch_try_from_roundtrip: "epoch_try_from (epoch_as_u32 e) = Inr e"
  by (auto simp: epoch_try_from_def intro: find_unique)

lemma epoch_try_from_sound:
  assumes "epoch_try_from v = Inr e"
  shows "epoch_as_u32 e = v"
  using assms by (auto simp: epoch_try_from_def find_Some_iff word_unat_eq_iff)

lemma epoch_to_string_inj [simp]: "epoch_to_string a = epoch_to_string b \<longleftrightarrow> a = b"
  by (cases a; cases b) simp_all

lemma epoch_from_str_roundtrip: "epoch_from_str (epoch_to_string e) = Inr e"
  by (auto simp: epoch_from_str_def intro: find_unique)

section \<open>Schedules\<close>

lemma check_order_from_sorted:
  "check_order_from ht is \<longleftrightarrow> sorted_wrt (\<le>) (ht # map effective_start_height is)"
  by (induction ht "is" rule: check_order_from.induct) (auto simp: not_less intro: order_trans)

lemma check_order_sorted: "check_order is \<longleftrightarrow> sorted (map effective_start_height is)"
  by (cases "is"; cases "tl is") (auto simp: check_order_def check_order_from_sorted)

lemma coinbase_scan_last:
  assumes "sorted (map effective_start_height (i # is))" and "effective_start_height i \<le> h"
  shows "coinbase_scan (i # is) h =
           coinbase (last (filter (\<lambda>i. effective_start_height i \<le> h) (i # is)))"
  using assms
proof (induction "is" arbitrary: i)
  case (Cons j js)
  show ?case
  proof (cases "effective_start_height j \<le> h")
    case True
    then show ?thesis using Cons by (auto dest: leD)
  next
    case False
    moreover have "filter (\<lambda>i. effective_start_height i \<le> h) js = []"
      using False Cons.prems by (auto simp: filter_empty_conv dest: order_trans)
    ultimately show ?thesis using Cons.prems by (auto simp: not_le dest: leD)
  qed
qed simp

text \<open>
  (C24) On an ordered schedule whose first interval has started, the adjacent-pair scan
  of \<open>get_coinbase_at_effective_height\<close> returns the coinbase of the last interval whose
  start is not after the height.
\<close>
theorem coinbase_lookup_spec:
  assumes "check_order is" and "is \<noteq> []" and "effective_start_height (hd is) \<le> h"
  shows "get_coinbase_at_effective_height is h =
           coinbase (last (filter (\<lambda>i. effective_start_height i \<le> h) is))"
proof (cases "is")
  case (Cons i js)
  then show ?thesis
    using assms coinbase_scan_last [of i js h]
    by (cases js) (auto simp: get_coinbase_at_effective_height_def check_order_sorted)
qed (use assms in simp)

theorem coinbase_lookup_spec_witness:
  "get_coinbase_at_effective_height COINBASE_INTERVALS_MAINNET 280000 = 500000000"
proof -
  have "check_order COINBASE_INTERVALS_MAINNET" by code_simp
  from coinbase_lookup_spec [OF this, of 280000] show ?thesis
    by (simp add: COINBASE_INTERVALS_MAINNET_def MICROSTACKS_PER_STACKS_def
        BITCOIN_MAINNET_STACKS_40_BURN_HEIGHT_def BITCOIN_MAINNET_GENESIS_BURN_HEIGHT_def)
qed

text \<open>
  What an emission schedule, latest interval first, pays at the heights below \<open>N\<close>: each interval its
  amount for the heights from its start to the start of the one that follows it.
\<close>

primrec emitted_before :: "nat \<Rightarrow> nat \<Rightarrow> SIP031EmissionInterval list \<Rightarrow> nat" where
  "emitted_before N stop [] = 0"
| "emitted_before N stop (i # is) =
     unat (emission_amount i) * (min N stop - unat (emission_start_height i)) + emitted_before N (unat (emission_start_height i)) is"

lemma emitted_before_stop:
  "check_inversed_order_from ht is \<Longrightarrow> unat ht \<le> N \<Longrightarrow> emitted_before N (unat ht) is = emitted_before (unat ht) (unat ht) is"
proof (induction "is" arbitrary: ht N)
  case (Cons i "is")
  from Cons.prems(1) have "emission_start_height i \<le> ht" and ord: "check_inversed_order_from (emission_start_height i) is"
    by (auto split: if_splits)
  then have le: "unat (emission_start_height i) \<le> unat ht" by (simp add: word_le_nat_alt)
  from Cons.IH [OF ord, of N] Cons.IH [OF ord, of "unat ht"] le Cons.prems(2) show ?case by (simp add: min_def)
qed simp

lemma emission_scan_sum:
  "check_inversed_order is \<Longrightarrow> N \<le> stop \<Longrightarrow> N \<le> 2 ^ 64 \<Longrightarrow>
     (\<Sum>h < N. unat (emission_scan is (word_of_nat h))) = emitted_before N stop is"
proof (induction "is" arbitrary: N stop)
  case (Cons i "is")
  let ?s = "unat (emission_start_height i)"
  have ord: "check_inversed_order is" using Cons.prems(1) by (cases "is") (auto split: if_splits)
  have started: "emission_start_height i \<le> word_of_nat h \<longleftrightarrow> ?s \<le> h" if "h < N" for h
    using that Cons.prems(3) by (simp add: word_le_nat_alt unat_of_nat)
  have before: "(\<Sum>h < M. unat (emission_scan (i # is) (word_of_nat h))) = emitted_before M ?s is" if "M \<le> ?s" "M \<le> N" for M
    using Cons.IH [OF ord that(1)] that Cons.prems(3) started by simp
  show ?case
  proof (cases "N \<le> ?s")
    case True
    with before [of N] Cons.prems(2) show ?thesis by simp
  next
    case False
    then have "(\<Sum>h < N. unat (emission_scan (i # is) (word_of_nat h))) =
        (\<Sum>h < ?s. unat (emission_scan (i # is) (word_of_nat h))) + (\<Sum>h = ?s..<N. unat (emission_scan (i # is) (word_of_nat h)))"
      by (simp add: lessThan_atLeast0 sum.atLeastLessThan_concat del: emission_scan.simps)
    also have "(\<Sum>h = ?s..<N. unat (emission_scan (i # is) (word_of_nat h))) = (N - ?s) * unat (emission_amount i)"
      using started by simp
    finally show ?thesis
      using before [of ?s] emitted_before_stop [of "emission_start_height i" "is" N] Cons.prems False by (simp add: min_def)
  qed
qed simp

lemma emission_schedules_ordered: "check_inversed_order (get_sip_031_emission_schedule mainnet)"
proof -
  have "check_inversed_order SIP031_EMISSION_INTERVALS_MAINNET" "check_inversed_order SIP031_EMISSION_INTERVALS_TESTNET"
    by code_simp+
  then show ?thesis by (simp add: get_sip_031_emission_schedule_def)
qed

lemma emission_at_height: "get_sip_031_emission_at_height h mainnet = emission_scan (get_sip_031_emission_schedule mainnet) h"
  by (simp add: get_sip_031_emission_at_height_def Let_def)

text \<open>
  (C39) On either network, what the SIP-031 lookup pays summed over all burnchain heights below any
  height is what the schedule prescribes: for every interval its amount at each height from its start
  on, up to the start of the next interval, and nothing before the first one.
\<close>

theorem sip031_emission_follows_schedule:
  assumes "N \<le> 2 ^ 64"
  shows "(\<Sum>h < N. unat (get_sip_031_emission_at_height (word_of_nat h) mainnet)) =
    emitted_before N (2 ^ 64) (get_sip_031_emission_schedule mainnet)"
  unfolding emission_at_height by (rule emission_scan_sum [OF emission_schedules_ordered assms assms])

text \<open>The running totals on mainnet at the start of every interval, in STX.\<close>

theorem sip031_emission_follows_schedule_witness:
  "map (\<lambda>N. \<Sum>h < N. unat (get_sip_031_emission_at_height (word_of_nat h) True))
     [907740, 907741, 960300, 1012860, 1065420, 1117980, 1170540, 2 ^ 64] =
   map (\<lambda>n. n * 1000000) [0, 475, 24966000, 84884400, 174499200, 243090000, 303796800, 303796800]"
proof -
  have "emitted_before N (2 ^ 64) (get_sip_031_emission_schedule True) = 1000000 *
      (1155 * (min N 1170540 - 1117980) + (1305 * (min N 1117980 - 1065420) + (1705 * (min N 1065420 - 1012860) +
      (1140 * (min N 1012860 - 960300) + 475 * (min N 960300 - 907740)))))" for N
    by (simp add: get_sip_031_emission_schedule_def SIP031_EMISSION_INTERVALS_MAINNET_def MICROSTACKS_PER_STACKS_def)
  with sip031_emission_follows_schedule [where mainnet = True] show ?thesis by simp
qed

section \<open>Epoch of a height\<close>

lemma epoch_id_at_height_Nil [simp]: "epoch_id_at_height [] h = None"
  by (simp add: epoch_id_at_height_def find_epoch_def)

lemma epoch_id_at_height_Cons:
  "epoch_id_at_height (x # xs) h =
     (if epoch_start_height x \<le> h \<and> h < epoch_end_height x then Some (epoch_id x)
      else epoch_id_at_height xs h)"
  by (simp add: epoch_id_at_height_def find_epoch_def option.map_comp comp_def)

definition linked :: "'l StacksEpoch \<Rightarrow> 'l StacksEpoch \<Rightarrow> bool" where
  "linked a b \<longleftrightarrow> epoch_start_height b = epoch_end_height a \<and> epoch_id a < epoch_id b"

lemma push_all_linked:
  assumes "push_all l es = Inr l'" and "successively linked l"
  shows "l' = l @ es \<and> successively linked l'"
  using assms
proof (induction es arbitrary: l)
  case (Cons e es)
  from Cons.prems obtain p: "push_all (l @ [e]) es = Inr l'"
      and lk: "l \<noteq> [] \<Longrightarrow> linked (last l) e"
    by (auto simp: epoch_list_push_def linked_def split: if_splits)
  have "successively linked (l @ [e])"
    using lk Cons.prems(2) by (auto simp: successively_append_iff)
  from Cons.IH [OF p this] show ?case by auto
qed simp

lemma epoch_id_at_height_ge:
  assumes "successively linked (x # xs)" and "epoch_id_at_height xs h = Some e"
  shows "epoch_id x < e"
  using assms
proof (induction xs arbitrary: x)
  case (Cons y ys)
  then have "epoch_id x < epoch_id y" by (simp add: linked_def)
  with Cons show ?case by (auto simp: epoch_id_at_height_Cons split: if_splits dest: less_trans)
qed simp

lemma linked_heights:
  assumes "successively linked (x # xs)"
    and "epoch_start_height x \<le> h" and "h \<le> h'" and "h' < epoch_end_height (last (x # xs))"
  shows "\<exists>e e'. epoch_id_at_height (x # xs) h = Some e \<and>
           epoch_id_at_height (x # xs) h' = Some e' \<and> e \<le> e'"
  using assms
proof (induction xs arbitrary: x h)
  case Nil
  then show ?case by (auto simp: epoch_id_at_height_Cons)
next
  case (Cons y ys)
  then have y: "epoch_start_height y = epoch_end_height x" "successively linked (y # ys)"
    by (simp_all add: linked_def)
  show ?case
  proof (cases "h < epoch_end_height x")
    case False
    with Cons.prems have "\<not> h' < epoch_end_height x" by auto
    with False Cons.IH [of y h] Cons.prems y show ?thesis
      by (auto simp: epoch_id_at_height_Cons [of x] not_less dest: leD)
  next
    case in_x: True
    show ?thesis
    proof (cases "h' < epoch_end_height x")
      case True
      with in_x Cons.prems show ?thesis by (auto simp: epoch_id_at_height_Cons)
    next
      case False
      with Cons.IH [of y h'] Cons.prems y obtain e'
        where e': "epoch_id_at_height (y # ys) h' = Some e'" by (auto simp: not_less)
      with epoch_id_at_height_ge [OF Cons.prems(1) e'] in_x False Cons.prems(2) show ?thesis
        by (auto simp: epoch_id_at_height_Cons [of x])
    qed
  qed
qed

text \<open>
  (C25) A list of epochs built by \<open>push\<close> covers its range of heights without a gap, and the
  epoch of a height never decreases as the height grows.
\<close>
theorem epoch_list_monotone:
  assumes "push_all [] es = Inr l" and "l \<noteq> []"
    and "epoch_start_height (hd l) \<le> h" and "h \<le> h'" and "h' < epoch_end_height (last l)"
  shows "\<exists>e e'. epoch_id_at_height l h = Some e \<and> epoch_id_at_height l h' = Some e' \<and> e \<le> e'"
  using push_all_linked [OF assms(1)] assms linked_heights [of "hd l" "tl l" h h']
  by (cases l) auto

theorem epoch_list_monotone_witness:
  "\<exists>e e'. epoch_id_at_height
       [\<lparr>epoch_id = Epoch20, epoch_start_height = 0, epoch_end_height = 10, block_limit = (),
         epoch_network_epoch = 0\<rparr>,
        \<lparr>epoch_id = Epoch21, epoch_start_height = 10, epoch_end_height = 20, block_limit = (),
         epoch_network_epoch = 6\<rparr>] 5 = Some e \<and>
     epoch_id_at_height
       [\<lparr>epoch_id = Epoch20, epoch_start_height = 0, epoch_end_height = 10, block_limit = (),
         epoch_network_epoch = 0\<rparr>,
        \<lparr>epoch_id = Epoch21, epoch_start_height = 10, epoch_end_height = 20, block_limit = (),
         epoch_network_epoch = 6\<rparr>] 15 = Some e' \<and> e \<le> e'"
  by (rule epoch_list_monotone [where es = "[\<lparr>epoch_id = Epoch20, epoch_start_height = 0,
        epoch_end_height = 10, block_limit = (), epoch_network_epoch = 0\<rparr>,
        \<lparr>epoch_id = Epoch21, epoch_start_height = 10, epoch_end_height = 20, block_limit = (),
         epoch_network_epoch = 6\<rparr>]"])
    (simp_all add: epoch_list_push_def less_StacksEpochId_def)

end
