(* ===== verification/ClarityTypes.thy ===== *)
theory ClarityTypes
  imports C32 Epochs
begin

text \<open>
  The data of the Clarity type system (\<open>clarity-types/src/types/mod.rs\<close>,
  \<open>clarity-types/src/types/signatures.rs\<close>, \<open>clarity-types/src/errors/mod.rs\<close>): principals,
  type signatures, values and the errors of the type layer. A \<open>BTreeMap\<close> is a list of
  entries ordered by key, a newtype around an integer is that integer, and \<open>i128\<close> is an
  integer kept in range by the operations on it.
\<close>

section \<open>Principals\<close>

datatype StandardPrincipalData = StandardPrincipalData (spd_version: u8) (spd_bytes: "u8 list")

record QualifiedContractIdentifier =
  issuer :: StandardPrincipalData
  qci_name :: string

datatype PrincipalData =
    Standard StandardPrincipalData
  | Contract QualifiedContractIdentifier

record TraitIdentifier =
  trait_name :: string
  trait_contract_identifier :: QualifiedContractIdentifier

section \<open>Type signatures\<close>

datatype CallableSubtype =
    CallablePrincipal QualifiedContractIdentifier
  | CallableTrait TraitIdentifier

datatype StringSubtype = ASCII u32 | UTF8 u32

text \<open>Lists and tuples carry the size of their values, computed when the type is built.\<close>

datatype TypeSignature =
    NoType
  | IntType
  | UIntType
  | BoolType
  | SequenceType SequenceSubtype
  | PrincipalType
  | TupleType TupleTypeSignature
  | OptionalType TypeSignature
  | ResponseType TypeSignature TypeSignature
  | CallableType CallableSubtype
  | ListUnionType "CallableSubtype list"
  | TraitReferenceType TraitIdentifier
and SequenceSubtype =
    BufferType u32
  | ListType ListTypeData
  | StringType StringSubtype
and ListTypeData =
    ListTypeData (ltd_max_len: u32) (ltd_entry_type: TypeSignature) (ltd_size: u32)
and TupleTypeSignature =
    TupleTypeSignature (tts_type_map: "(string \<times> TypeSignature) list") (tts_size: u32)

section \<open>Values\<close>

datatype CharType = CharUTF8 "u8 list list" | CharASCII "u8 list"

record CallableData =
  cd_contract_identifier :: QualifiedContractIdentifier
  cd_trait_identifier :: "TraitIdentifier option"

datatype Value =
    Int int
  | UInt u128
  | Bool bool
  | Sequence SequenceData
  | Principal PrincipalData
  | Tuple TupleTypeSignature "(string \<times> Value) list"
  | Optional "Value option"
  | Response bool Value
  | CallableContract CallableData
and SequenceData =
    Buffer "u8 list"
  | List "Value list" ListTypeData
  | String CharType

section \<open>Limits\<close>

definition MAX_VALUE_SIZE :: u32 where
  "MAX_VALUE_SIZE = 1024 * 1024"

definition BOUND_VALUE_SERIALIZATION_BYTES :: u32 where
  "BOUND_VALUE_SERIALIZATION_BYTES = MAX_VALUE_SIZE * 2"

definition BOUND_VALUE_SERIALIZATION_HEX :: u32 where
  "BOUND_VALUE_SERIALIZATION_HEX = BOUND_VALUE_SERIALIZATION_BYTES * 2"

definition MAX_UTF8_VALUE_SIZE :: u32 where
  "MAX_UTF8_VALUE_SIZE = MAX_VALUE_SIZE div 4"

definition MAX_TYPE_DEPTH :: u8 where
  "MAX_TYPE_DEPTH = 32"

definition WRAPPER_VALUE_SIZE :: u32 where
  "WRAPPER_VALUE_SIZE = 1"

definition INT_SIZE :: u32 where
  "INT_SIZE = 16"

definition BOOL_SIZE :: u32 where
  "BOOL_SIZE = 1"

definition NO_TYPE_SIZE :: u32 where
  "NO_TYPE_SIZE = 1"

definition PRINCIPAL_SIZE :: u32 where
  "PRINCIPAL_SIZE = 148"

definition TRAIT_SIZE :: u32 where
  "TRAIT_SIZE = PRINCIPAL_SIZE + 128"

definition SEQUENCE_LENGTH_PREFIX :: u32 where
  "SEQUENCE_LENGTH_PREFIX = 4"

definition UTF8_CHAR_SIZE :: u32 where
  "UTF8_CHAR_SIZE = 4"

definition CONTRACT_MAX_NAME_LENGTH :: nat where
  "CONTRACT_MAX_NAME_LENGTH = 40"

definition MAX_STRING_LEN :: u8 where
  "MAX_STRING_LEN = 128"

section \<open>Errors of the type layer\<close>

datatype ClarityTypeError =
    ValueTooLarge
  | TypeSignatureTooDeep
  | InvalidAsciiCharacter u8
  | InvalidUtf8Encoding
  | ListTypeMismatch
  | ValueOutOfBounds
  | DuplicateTupleField string
  | NoSuchTupleField string TupleTypeSignature
  | TypeMismatchValue TypeSignature Value
  | TypeMismatch TypeSignature TypeSignature
  | ResponseTypeMismatch bool
  | InvalidContractName string
  | InvalidClarityName string
  | InvalidUrlString string
  | EmptyTuplesNotAllowed
  | SupertypeTooLarge
  | InvalidTypeDescription
  | SequenceElementArityMismatch nat nat
  | ExpectedSequenceValue
  | InvalidPrincipalVersion u8
  | InvalidPrincipalLength nat
  | InvalidPrincipalEncoding string
  | QualifiedContractMissingDot
  | QualifiedContractEmptyIssuer
  | CouldNotDetermineSerializationType
  | CouldNotDetermineType
  | UnsupportedTypeInEpoch TypeSignature StacksEpochId
  | UnsupportedEpoch StacksEpochId
  | TypeInvariantViolation string

end
