(* ===== verification/Principals.thy ===== *)
theory Principals
  imports ClarityTypes
begin

text \<open>
  Principals and names (\<open>clarity-types/src/types/mod.rs\<close>,
  \<open>clarity-types/src/representations.rs\<close> and the \<open>guarded_string!\<close> macro of
  \<open>stacks-common/src/util/macros.rs\<close>): construction, display and parsing. The argument
  \<open>sha256\<close> is the digest used by the address checksum.

  The lemmas show that parsing inverts display on well-formed principals, so that distinct
  principals have distinct texts; the database keys of accounts rest on this.
\<close>

section \<open>Guarded names\<close>

definition is_letter :: "char \<Rightarrow> bool" where
  "is_letter c \<longleftrightarrow> (let n = (of_char c :: nat) in (65 \<le> n \<and> n \<le> 90) \<or> (97 \<le> n \<and> n \<le> 122))"

definition is_digit :: "char \<Rightarrow> bool" where
  "is_digit c \<longleftrightarrow> (let n = (of_char c :: nat) in 48 \<le> n \<and> n \<le> 57)"

text \<open>\<open>^([a-zA-Z](([a-zA-Z0-9]|[-_])){0,127})$|^__transient$\<close>\<close>

definition contract_name_regex :: "string \<Rightarrow> bool" where
  "contract_name_regex s \<longleftrightarrow>
     (case s of
        [] \<Rightarrow> False
      | c # cs \<Rightarrow> is_letter c \<and> length cs \<le> 127 \<and>
          (\<forall>x \<in> set cs. is_letter x \<or> is_digit x \<or> x \<in> set ''-_''))
     \<or> s = ''__transient''"

text \<open>\<open>^[a-zA-Z]([a-zA-Z0-9]|[-_!?+<>=/*])*$|^[-+=/*]$|^[<>]=?$\<close>\<close>

definition clarity_name_regex :: "string \<Rightarrow> bool" where
  "clarity_name_regex s \<longleftrightarrow>
     (case s of
        [] \<Rightarrow> False
      | c # cs \<Rightarrow> is_letter c \<and>
          (\<forall>x \<in> set cs. is_letter x \<or> is_digit x \<or> x \<in> set ''-_!?+<>=/*''))
     \<or> s \<in> set [''-'', ''+'', ''='', ''/'', ''*'', ''<'', ''>'', ''<='', ''>='']"

definition contract_name_try_from :: "string \<Rightarrow> ClarityTypeError + string" where
  "contract_name_try_from value =
     (if length value > unat MAX_STRING_LEN then Inl (InvalidContractName value)
      else if contract_name_regex value then Inr value
      else Inl (InvalidContractName value))"

definition clarity_name_try_from :: "string \<Rightarrow> ClarityTypeError + string" where
  "clarity_name_try_from value =
     (if length value > unat MAX_STRING_LEN then Inl (InvalidClarityName value)
      else if clarity_name_regex value then Inr value
      else Inl (InvalidClarityName value))"

section \<open>Standard principals\<close>

definition C32_ADDRESS_VERSION_MAINNET_SINGLESIG :: u8 where
  "C32_ADDRESS_VERSION_MAINNET_SINGLESIG = 22"

definition C32_ADDRESS_VERSION_MAINNET_MULTISIG :: u8 where
  "C32_ADDRESS_VERSION_MAINNET_MULTISIG = 20"

definition C32_ADDRESS_VERSION_TESTNET_SINGLESIG :: u8 where
  "C32_ADDRESS_VERSION_TESTNET_SINGLESIG = 26"

definition C32_ADDRESS_VERSION_TESTNET_MULTISIG :: u8 where
  "C32_ADDRESS_VERSION_TESTNET_MULTISIG = 21"

definition standard_principal_transient :: StandardPrincipalData where
  "standard_principal_transient = StandardPrincipalData 1 (replicate 20 1)"

definition standard_principal_new :: "u8 \<Rightarrow> u8 list \<Rightarrow> ClarityTypeError + StandardPrincipalData" where
  "standard_principal_new version bytes =
     (if version \<ge> 32 then Inl (InvalidPrincipalVersion version)
      else Inr (StandardPrincipalData version bytes))"

definition to_address :: "(u8 list \<Rightarrow> u8 list) \<Rightarrow> StandardPrincipalData \<Rightarrow> string" where
  "to_address sha256 p =
     (case c32_address sha256 (spd_version p) (spd_bytes p) of
        Inr s \<Rightarrow> s | Inl _ \<Rightarrow> ''INVALID_C32_ADD'')"

definition is_mainnet :: "StandardPrincipalData \<Rightarrow> bool" where
  "is_mainnet p \<longleftrightarrow> spd_version p = C32_ADDRESS_VERSION_MAINNET_MULTISIG \<or>
     spd_version p = C32_ADDRESS_VERSION_MAINNET_SINGLESIG"

definition is_multisig :: "StandardPrincipalData \<Rightarrow> bool" where
  "is_multisig p \<longleftrightarrow> spd_version p = C32_ADDRESS_VERSION_MAINNET_MULTISIG \<or>
     spd_version p = C32_ADDRESS_VERSION_TESTNET_MULTISIG"

definition parse_standard_principal ::
  "(u8 list \<Rightarrow> u8 list) \<Rightarrow> string \<Rightarrow> ClarityTypeError + StandardPrincipalData" where
  "parse_standard_principal sha256 literal =
     rbind (map_err (\<lambda>x. InvalidPrincipalEncoding (address_error_to_string x))
              (c32_address_decode sha256 literal))
       (\<lambda>(version, data).
          if length data \<noteq> 20 then Inl (InvalidPrincipalLength (length data))
          else standard_principal_new version data)"

section \<open>Contract identifiers and principals\<close>

definition contract_identifier_to_string ::
  "(u8 list \<Rightarrow> u8 list) \<Rightarrow> QualifiedContractIdentifier \<Rightarrow> string" where
  "contract_identifier_to_string sha256 c = to_address sha256 (issuer c) @ ''.'' @ qci_name c"

definition is_boot :: "QualifiedContractIdentifier \<Rightarrow> bool" where
  "is_boot c \<longleftrightarrow> spd_bytes (issuer c) = replicate 20 0"

text \<open>\<open>literal.splitn(2, '.')\<close>: the text before and, if there is a dot, after the first dot.\<close>

fun split_dot :: "string \<Rightarrow> string \<times> string option" where
  "split_dot [] = ([], None)"
| "split_dot (c # cs) =
     (if c = CHR ''.'' then ([], Some cs)
      else (let (a, b) = split_dot cs in (c # a, b)))"

definition parse_contract_identifier ::
  "(u8 list \<Rightarrow> u8 list) \<Rightarrow> string \<Rightarrow> ClarityTypeError + QualifiedContractIdentifier" where
  "parse_contract_identifier sha256 literal =
     (case split_dot literal of
        (_, None) \<Rightarrow> Inl QualifiedContractMissingDot
      | (sender_text, Some name_text) \<Rightarrow>
          rbind (parse_standard_principal sha256 sender_text) (\<lambda>sender.
          rbind (contract_name_try_from name_text) (\<lambda>name.
            Inr \<lparr>issuer = sender, qci_name = name\<rparr>)))"

fun principal_to_string :: "(u8 list \<Rightarrow> u8 list) \<Rightarrow> PrincipalData \<Rightarrow> string" where
  "principal_to_string sha256 (Standard sender) = to_address sha256 sender"
| "principal_to_string sha256 (Contract c) = to_address sha256 (issuer c) @ ''.'' @ qci_name c"

fun principal_version :: "PrincipalData \<Rightarrow> u8" where
  "principal_version (Standard p) = spd_version p"
| "principal_version (Contract c) = spd_version (issuer c)"

definition has_valid_version :: "PrincipalData \<Rightarrow> bool" where
  "has_valid_version p \<longleftrightarrow> principal_version p < 32"

fun has_overlong_contract_name :: "PrincipalData \<Rightarrow> bool" where
  "has_overlong_contract_name (Contract c) \<longleftrightarrow> length (qci_name c) > CONTRACT_MAX_NAME_LENGTH"
| "has_overlong_contract_name (Standard _) \<longleftrightarrow> False"

definition strip_quote :: "string \<Rightarrow> string" where
  "strip_quote literal =
     (case literal of [] \<Rightarrow> [] | c # cs \<Rightarrow> if c = CHR 0x27 then cs else literal)"

definition parse_principal ::
  "(u8 list \<Rightarrow> u8 list) \<Rightarrow> string \<Rightarrow> ClarityTypeError + PrincipalData" where
  "parse_principal sha256 text =
     (let literal = strip_quote text in
      if CHR ''.'' \<in> set literal then
        rbind (parse_contract_identifier sha256 literal) (\<lambda>c. Inr (Contract c))
      else rbind (parse_standard_principal sha256 literal) (\<lambda>p. Inr (Standard p)))"

section \<open>Well-formed principals\<close>

definition wf_standard :: "StandardPrincipalData \<Rightarrow> bool" where
  "wf_standard p \<longleftrightarrow> spd_version p < 32 \<and> length (spd_bytes p) = 20"

fun wf_principal :: "PrincipalData \<Rightarrow> bool" where
  "wf_principal (Standard p) \<longleftrightarrow> wf_standard p"
| "wf_principal (Contract c) \<longleftrightarrow>
     wf_standard (issuer c) \<and> contract_name_try_from (qci_name c) = Inr (qci_name c)"

lemma standard_principal_new_wf:
  assumes "standard_principal_new v bs = Inr p" and "length bs = 20"
  shows "wf_standard p"
  using assms by (auto simp: standard_principal_new_def wf_standard_def split: if_splits)

lemma parse_standard_principal_wf:
  "parse_standard_principal sha256 s = Inr p \<Longrightarrow> wf_standard p"
  by (auto simp: parse_standard_principal_def intro: standard_principal_new_wf split: if_splits)

lemma contract_name_try_from_id: "contract_name_try_from s = Inr t \<Longrightarrow> t = s"
  by (simp add: contract_name_try_from_def split: if_splits)

lemma contract_name_try_from_idem:
  "contract_name_try_from s = Inr t \<Longrightarrow> contract_name_try_from t = Inr t"
  by (frule contract_name_try_from_id) simp

lemma parse_principal_wf: "parse_principal sha256 s = Inr p \<Longrightarrow> wf_principal p"
  by (auto simp: parse_principal_def parse_contract_identifier_def Let_def
      intro: parse_standard_principal_wf contract_name_try_from_idem
      split: if_splits option.splits prod.splits)

section \<open>Parsing inverts display\<close>

lemma c32_no_dot: "d < 32 \<Longrightarrow> C32_CHARACTERS ! d \<noteq> CHR ''.''"
proof -
  have "\<forall>d \<in> set [0..<32]. C32_CHARACTERS ! d \<noteq> CHR ''.''" by code_simp
  then show "d < 32 \<Longrightarrow> ?thesis" by simp
qed

lemma c32_encode_no_dot: "CHR ''.'' \<notin> set (c32_encode bs)"
proof (rule c32_encode_digits [of bs])
  fix es
  assume "c32_encode bs = c32_text es" and "\<forall>d \<in> set es. d < 32"
  then show ?thesis using c32_no_dot by (fastforce simp: c32_text_def)
qed

lemma to_address_shape:
  assumes "wf_standard p"
  obtains t where "c32_address sha256 (spd_version p) (spd_bytes p) = Inr (CHR ''S'' # t)"
    and "to_address sha256 p = CHR ''S'' # t" and "CHR ''.'' \<notin> set t"
proof -
  have v: "spd_version p < 32" using assms by (simp add: wf_standard_def)
  then have "unat (spd_version p) < 32" by (simp add: word_less_nat_alt)
  moreover have "c32_address sha256 (spd_version p) (spd_bytes p) =
      Inr (CHR ''S'' # C32_CHARACTERS ! unat (spd_version p) #
        c32_encode (spd_bytes p @ double_sha256_checksum sha256 (spd_version p # spd_bytes p)))"
    using v by (simp add: c32_address_def c32_check_encode_def Let_def leD)
  ultimately show ?thesis
    using that c32_encode_no_dot c32_no_dot [THEN not_sym] by (simp add: to_address_def)
qed

lemma parse_standard_to_address:
  assumes "wf_standard p" and "\<And>x. length (sha256 x) = 32"
  shows "parse_standard_principal sha256 (to_address sha256 p) = Inr p"
proof -
  obtain t where t: "c32_address sha256 (spd_version p) (spd_bytes p) = Inr (CHR ''S'' # t)"
      "to_address sha256 p = CHR ''S'' # t"
    by (rule to_address_shape [OF assms(1)])
  have "spd_version p < 32" "spd_bytes p \<noteq> []" "length (spd_bytes p) = 20"
    using assms(1) by (auto simp: wf_standard_def)
  moreover from this t have
      "c32_address_decode sha256 (to_address sha256 p) = Inr (spd_version p, spd_bytes p)"
    using c32_address_decode_encode [of "spd_version p" "spd_bytes p" sha256] assms(2) by simp
  ultimately show ?thesis
    by (simp add: parse_standard_principal_def standard_principal_new_def leD)
qed

lemma split_dot_append: "CHR ''.'' \<notin> set a \<Longrightarrow> split_dot (a @ CHR ''.'' # b) = (a, Some b)"
  by (induction a) auto

lemma parse_principal_to_string:
  assumes "wf_principal p" and "\<And>x. length (sha256 x) = 32"
  shows "parse_principal sha256 (principal_to_string sha256 p) = Inr p"
proof (cases p)
  case (Standard s)
  with assms(1) have wf: "wf_standard s" by simp
  obtain t where "to_address sha256 s = CHR ''S'' # t" "CHR ''.'' \<notin> set t"
    by (rule to_address_shape [OF wf])
  with Standard show ?thesis
    using parse_standard_to_address [of s sha256] wf assms(2)
    by (simp add: parse_principal_def strip_quote_def Let_def)
next
  case (Contract c)
  with assms(1) have wf: "wf_standard (issuer c)"
      and name: "contract_name_try_from (qci_name c) = Inr (qci_name c)" by simp_all
  obtain t where t: "to_address sha256 (issuer c) = CHR ''S'' # t" "CHR ''.'' \<notin> set t"
    by (rule to_address_shape [OF wf])
  then have "split_dot (to_address sha256 (issuer c) @ ''.'' @ qci_name c) =
      (to_address sha256 (issuer c), Some (qci_name c))"
    by (simp add: split_dot_append)
  then have "parse_contract_identifier sha256 (to_address sha256 (issuer c) @ ''.'' @ qci_name c) =
      Inr c"
    using parse_standard_to_address [of "issuer c" sha256] wf assms(2) name
    by (simp add: parse_contract_identifier_def)
  with Contract t show ?thesis
    by (simp add: parse_principal_def strip_quote_def Let_def)
qed

text \<open>
  (C22) Printing a well-formed principal and parsing the text gives the principal back, for
  standard and for contract principals, with any digest function of 32 bytes.
\<close>
theorem principal_parse_display:
  assumes "wf_principal p" and "\<And>x. length (sha256 x) = 32"
  shows "parse_principal sha256 (principal_to_string sha256 p) = Inr p"
  using assms by (rule parse_principal_to_string)

theorem principal_parse_display_witness:
  "parse_principal (\<lambda>_. replicate 32 7)
     (principal_to_string (\<lambda>_. replicate 32 7)
        (Contract \<lparr>issuer = StandardPrincipalData 22 (replicate 20 3), qci_name = ''pox-4''\<rparr>)) =
   Inr (Contract \<lparr>issuer = StandardPrincipalData 22 (replicate 20 3), qci_name = ''pox-4''\<rparr>)"
  by (rule principal_parse_display)
    (simp_all add: wf_standard_def contract_name_try_from_def contract_name_regex_def
      MAX_STRING_LEN_def is_letter_def is_digit_def)

lemma principal_to_string_inj:
  assumes "wf_principal p" and "wf_principal q" and "\<And>x. length (sha256 x) = 32"
    and "principal_to_string sha256 p = principal_to_string sha256 q"
  shows "p = q"
proof -
  have "Inr p = parse_principal sha256 (principal_to_string sha256 p)"
    using assms(1,3) by (simp only: parse_principal_to_string)
  also have "\<dots> = Inr q"
    unfolding assms(4) using assms(2,3) by (rule parse_principal_to_string)
  finally show ?thesis by simp
qed

end
