(* ===== verification/BTreeMaps.thy ===== *)
theory BTreeMaps
  imports Main "HOL-Library.Char_ord" "HOL-Library.List_Lexorder"
begin

text \<open>
  The ordered maps of the Rust standard library (\<open>BTreeMap\<close>): lists of entries whose keys
  increase strictly, so that iteration is a walk along the list and two maps are equal when
  the lists are. Text keys are compared byte by byte.
\<close>

section \<open>Operations\<close>

fun btree_insert :: "'k::linorder \<Rightarrow> 'v \<Rightarrow> ('k \<times> 'v) list \<Rightarrow> ('k \<times> 'v) list" where
  "btree_insert k v [] = [(k, v)]"
| "btree_insert k v ((k', v') # m) =
     (if k < k' then (k, v) # (k', v') # m
      else if k = k' then (k, v) # m
      else (k', v') # btree_insert k v m)"

definition btree_remove :: "'k \<Rightarrow> ('k \<times> 'v) list \<Rightarrow> ('k \<times> 'v) list" where
  "btree_remove k m = filter (\<lambda>(k', _). k' \<noteq> k) m"

text \<open>\<open>extend\<close> and \<open>append\<close>: every entry of the second map is inserted in turn.\<close>

definition btree_extend :: "('k::linorder \<times> 'v) list \<Rightarrow> ('k \<times> 'v) list \<Rightarrow> ('k \<times> 'v) list" where
  "btree_extend m n = fold (\<lambda>(k, v). btree_insert k v) n m"

section \<open>Ordered maps\<close>

definition btree_wf :: "('k::linorder \<times> 'v) list \<Rightarrow> bool" where
  "btree_wf m \<longleftrightarrow> sorted_wrt (<) (map fst m)"

lemma btree_wf_Nil [simp]: "btree_wf []"
  by (simp add: btree_wf_def)

lemma btree_wf_Cons [simp]: "btree_wf ((k, v) # m) \<longleftrightarrow> (\<forall>k' \<in> fst ` set m. k < k') \<and> btree_wf m"
  by (simp add: btree_wf_def)

lemma btree_wf_distinct: "btree_wf m \<Longrightarrow> distinct (map fst m)"
  by (induction m) fastforce+

lemma fst_set_btree_insert [simp]: "fst ` set (btree_insert k v m) = insert k (fst ` set m)"
  by (induction k v m rule: btree_insert.induct) auto

lemma btree_insert_Nil_iff [simp]: "btree_insert k v m = [] \<longleftrightarrow> False"
  by (cases m) (auto split: prod.splits if_splits)

lemma btree_insert_wf [simp]: "btree_wf m \<Longrightarrow> btree_wf (btree_insert k v m)"
  by (induction k v m rule: btree_insert.induct) auto

lemma map_of_btree_insert [simp]: "map_of (btree_insert k v m) = (map_of m)(k \<mapsto> v)"
  by (induction k v m rule: btree_insert.induct) auto

lemma set_btree_insert:
  "btree_wf m \<Longrightarrow> set (btree_insert k v m) = insert (k, v) {e \<in> set m. fst e \<noteq> k}"
  by (induction k v m rule: btree_insert.induct) (auto dest: less_imp_neq)

lemma set_btree_insert_subset: "set (btree_insert k v m) \<subseteq> insert (k, v) (set m)"
  by (induction k v m rule: btree_insert.induct) auto

lemma length_btree_insert:
  "btree_wf m \<Longrightarrow> length (btree_insert k v m) = (if k \<in> fst ` set m then length m else Suc (length m))"
  by (induction k v m rule: btree_insert.induct) auto

text \<open>Inserting above every key appends the entry.\<close>

lemma btree_insert_above: "\<forall>k' \<in> fst ` set m. k' < k \<Longrightarrow> btree_insert k v m = m @ [(k, v)]"
  by (induction k v m rule: btree_insert.induct) auto

lemma btree_remove_wf [simp]: "btree_wf m \<Longrightarrow> btree_wf (btree_remove k m)"
  by (induction m) (auto simp: btree_remove_def)

lemma map_of_btree_remove [simp]: "map_of (btree_remove k m) = (map_of m)(k := None)"
  by (induction m) (auto simp: btree_remove_def)

lemma btree_extend_wf [simp]: "btree_wf m \<Longrightarrow> btree_wf (btree_extend m n)"
  unfolding btree_extend_def by (induction n arbitrary: m) auto

lemma map_of_btree_extend:
  "distinct (map fst n) \<Longrightarrow> map_of (btree_extend m n) = map_of m ++ map_of n"
  unfolding btree_extend_def
proof (induction n arbitrary: m)
  case (Cons e n)
  obtain k v where e: "e = (k, v)" by force
  with Cons.prems have "map_of n k = None"
    by (simp add: map_of_eq_None_iff)
  then have "(map_of m)(k \<mapsto> v) ++ map_of n = map_of m ++ (map_of n)(k \<mapsto> v)"
    by (auto simp: map_add_def fun_eq_iff split: option.splits)
  with Cons e show ?case by (simp add: fun_upd_def)
qed simp

text \<open>An ordered map is determined by its lookups.\<close>

lemma btree_eqI:
  assumes "btree_wf m" "btree_wf n" "map_of m = map_of n"
  shows "m = n"
proof (rule nth_equalityI)
  have "set (map fst m) = set (map fst n)"
    using arg_cong [OF assms(3), of dom] by (simp add: dom_map_of_conv_image_fst)
  then have keys: "map fst m = map fst n"
    using assms(1,2) by (simp add: btree_wf_def strict_sorted_equal)
  show len: "length m = length n"
    using keys map_eq_imp_length_eq by blast
  fix i assume i: "i < length m"
  have "fst (m ! i) = fst (n ! i)"
    using keys i len by (metis nth_map)
  moreover have "map_of m (fst (m ! i)) = Some (snd (m ! i))" "map_of n (fst (n ! i)) = Some (snd (n ! i))"
    using assms(1,2) i len by (simp_all add: btree_wf_distinct)
  ultimately show "m ! i = n ! i"
    using assms(3) by (simp add: prod_eq_iff)
qed

end
