(* ===== verification/TypeAdmission.thy ===== *)
theory TypeAdmission
  imports TypeSignatures
begin

text \<open>
  What the operations on signatures guarantee: well-formed signatures have a size and a depth
  within the limits, every constructor and supertype keeps them well-formed, canonicalisation
  keeps sizes, and admission is a preorder in which the supertype used by the analysis from
  epoch 4.1 is a least upper bound.
\<close>

section \<open>Sizes on natural numbers\<close>

text \<open>
  The reference for sizes: the formulas of the source evaluated on natural numbers, without
  caches, limits or overflow.
\<close>

primrec nat_type_size :: "TypeSignature \<Rightarrow> nat"
  and nat_seq_type_size :: "SequenceSubtype \<Rightarrow> nat"
  and nat_list_type_size :: "ListTypeData \<Rightarrow> nat"
  and nat_tuple_type_size :: "TupleTypeSignature \<Rightarrow> nat"
where
  "nat_type_size NoType = 1"
| "nat_type_size IntType = 1"
| "nat_type_size UIntType = 1"
| "nat_type_size BoolType = 1"
| "nat_type_size (SequenceType s) = nat_seq_type_size s"
| "nat_type_size PrincipalType = 1"
| "nat_type_size (TupleType t) = nat_tuple_type_size t"
| "nat_type_size (OptionalType t) = nat_type_size t + 1"
| "nat_type_size (ResponseType t s) = nat_type_size t + nat_type_size s + 1"
| "nat_type_size (CallableType c) = 1"
| "nat_type_size (ListUnionType l) = 1"
| "nat_type_size (TraitReferenceType t) = 1"
| "nat_seq_type_size (BufferType n) = 5"
| "nat_seq_type_size (ListType l) = nat_list_type_size l"
| "nat_seq_type_size (StringType s) = 5"
| "nat_list_type_size (ListTypeData n t s) = nat_type_size t + 5"
| "nat_tuple_type_size (TupleTypeSignature m s) =
     2 * length m + sum_list (map (\<lambda>(k, n). n + length k) (map (map_prod id nat_type_size) m))"

primrec nat_size :: "TypeSignature \<Rightarrow> nat"
  and nat_seq_size :: "SequenceSubtype \<Rightarrow> nat"
  and nat_list_size :: "ListTypeData \<Rightarrow> nat"
  and nat_tuple_size :: "TupleTypeSignature \<Rightarrow> nat"
where
  "nat_size NoType = 1"
| "nat_size IntType = 16"
| "nat_size UIntType = 16"
| "nat_size BoolType = 1"
| "nat_size (SequenceType s) = nat_seq_size s"
| "nat_size PrincipalType = 148"
| "nat_size (TupleType t) = nat_tuple_size t"
| "nat_size (OptionalType t) = nat_size t + 1"
| "nat_size (ResponseType t s) = max (nat_size t) (nat_size s) + 1"
| "nat_size (CallableType c) = (case c of CallablePrincipal _ \<Rightarrow> 148 | CallableTrait _ \<Rightarrow> 276)"
| "nat_size (ListUnionType l) = 148"
| "nat_size (TraitReferenceType t) = 276"
| "nat_seq_size (BufferType n) = 4 + unat n"
| "nat_seq_size (ListType l) = nat_list_size l"
| "nat_seq_size (StringType s) = (case s of ASCII n \<Rightarrow> 4 + unat n | UTF8 n \<Rightarrow> 4 * unat n + 4)"
| "nat_list_size (ListTypeData n t s) = nat_size t * unat n + (nat_type_size t + 5)"
| "nat_tuple_size (TupleTypeSignature m s) =
     2 * length m + nat_tuple_type_size (TupleTypeSignature m s) +
     sum_list (map (\<lambda>(k, n). n + length k) (map (map_prod id nat_size) m))"

primrec nat_depth :: "TypeSignature \<Rightarrow> nat"
  and nat_seq_depth :: "SequenceSubtype \<Rightarrow> nat"
  and nat_list_depth :: "ListTypeData \<Rightarrow> nat"
  and nat_tuple_depth :: "TupleTypeSignature \<Rightarrow> nat"
where
  "nat_depth NoType = 1"
| "nat_depth IntType = 1"
| "nat_depth UIntType = 1"
| "nat_depth BoolType = 1"
| "nat_depth (SequenceType s) = nat_seq_depth s"
| "nat_depth PrincipalType = 1"
| "nat_depth (TupleType t) = 1 + nat_tuple_depth t"
| "nat_depth (OptionalType t) = 1 + nat_depth t"
| "nat_depth (ResponseType t s) = 1 + max (nat_depth t) (nat_depth s)"
| "nat_depth (CallableType c) = 1"
| "nat_depth (ListUnionType l) = 1"
| "nat_depth (TraitReferenceType t) = 1"
| "nat_seq_depth (BufferType n) = 1"
| "nat_seq_depth (ListType l) = 1 + nat_list_depth l"
| "nat_seq_depth (StringType s) = 1"
| "nat_list_depth (ListTypeData n t s) = nat_depth t"
| "nat_tuple_depth (TupleTypeSignature m s) = fold max (map snd (map (map_prod id nat_depth) m)) 0"

lemma sum_over_fields [simp]:
  "sum_list (map (\<lambda>(k, n). n + length k) (map (map_prod id f) m)) = (\<Sum>(k, t)\<leftarrow>m. f t + length k)"
  "sum_list (map ((\<lambda>(k, n). n + length k) \<circ> map_prod id f) m) = (\<Sum>(k, t)\<leftarrow>m. f t + length k)"
  by (induction m) auto

lemma unat_of_name: "valid_name k \<Longrightarrow> unat (word_of_nat (length k) :: u32) = length k"
  using valid_name_length [of k] by (simp add: unat_of_nat)

lemma unat_max: "unat (max a b) = max (unat a) (unat b)" for a b :: "'a::len word"
  by (simp add: max_def word_le_nat_alt)

lemma nat_type_size_pos: "wf_type t \<Longrightarrow> 1 \<le> nat_type_size t"
  by (induction t) (auto simp: tuple_try_from_map_eq Suc_le_eq)

lemma nat_size_pos: "wf_type t \<Longrightarrow> 1 \<le> nat_size t"
  by (induction t) (auto simp: tuple_try_from_map_eq Suc_le_eq split: CallableSubtype.splits)

lemma fold_max_le_iff: "fold max ns a \<le> b \<longleftrightarrow> a \<le> b \<and> (\<forall>n \<in> set ns. n \<le> b)"
  for a b :: "'a::linorder"
  by (induction ns arbitrary: a) auto

lemma unat_fold_max: "unat (fold max ds a) = fold max (map unat ds) (unat a)"
  for ds :: "'a::len word list"
  by (induction ds arbitrary: a) (simp_all add: unat_max)

lemma nat_depth_pos: "1 \<le> nat_depth t"
  by (induction t) auto

lemma u32_try_from_eq [simp]: "u32_try_from n = Some w \<longleftrightarrow> unat w = n"
  using unat_lt_exp [of w] by (auto simp: u32_try_from_def unat_of_nat word_unat_eq_iff)

lemma sum_fields_defined:
  "sum_fields (map (map_prod id f) m) acc = Some r \<Longrightarrow> (k, t) \<in> set m \<Longrightarrow> \<exists>y. f t = Some y"
  by (induction m arbitrary: acc) auto

lemma sum_fields_unat:
  "sum_fields (map (map_prod id f) m) acc = Some r \<Longrightarrow> \<forall>(k, t) \<in> set m. valid_name k \<Longrightarrow>
     unat r = unat acc + (\<Sum>(k, t)\<leftarrow>m. unat (the (f t)) + length k)"
  by (induction m arbitrary: acc) (auto simp: unat_arith_simps unat_of_name)

lemma inner_type_size_unat:
  "wf_type t \<Longrightarrow> inner_type_size t = Some x \<Longrightarrow> unat x = nat_type_size t"
proof (induction t arbitrary: x)
  case (Tuple m s)
  then obtain acc n where n: "unat n = length m" "checked_mul n 2 = Some acc"
    and fs: "sum_fields (map (map_prod id inner_type_size) m) acc = Some x"
    by (auto simp: tuple_type_size_of_def)
  then have acc: "unat acc = 2 * length m"
    by (simp add: unat_arith_simps)
  have def: "(k, t) \<in> set m \<Longrightarrow> \<exists>y. inner_type_size t = Some y" for k t
    by (rule sum_fields_defined [OF fs])
  have "unat x = unat acc + sum_list (map (\<lambda>(k, t). unat (the (inner_type_size t)) + length k) m)"
    using sum_fields_unat [OF fs] Tuple.prems(1) by simp
  moreover have "sum_list (map (\<lambda>(k, t). unat (the (inner_type_size t)) + length k) m) =
     sum_list (map (\<lambda>(k, t). nat_type_size t + length k) m)"
    using Tuple def by (intro arg_cong [where f = sum_list] map_cong) fastforce+
  ultimately show ?case
    using acc by simp
qed (auto simp: list_type_size_of_def unat_arith_simps size_consts)

lemma wf_depth: "wf_type t \<Longrightarrow> unat (depth t) = nat_depth t \<and> nat_depth t \<le> 32"
proof (induction t)
  case (Tuple m s)
  have "\<forall>(k, t) \<in> set m. unat (depth t) = nat_depth t \<and> nat_depth t \<le> 31"
    using Tuple by (fastforce simp: tuple_try_from_map_eq word_le_nat_alt size_consts unat_1_plus_depth)
  then have ds: "map (unat \<circ> (depth \<circ> snd)) m = map (nat_depth \<circ> snd) m"
    and le: "fold max (map (nat_depth \<circ> snd) m) 0 \<le> 31"
    by (auto simp: fold_max_le_iff)
  have "unat (fold max (map (depth \<circ> snd) m) 0) = fold max (map (nat_depth \<circ> snd) m) 0"
    unfolding unat_fold_max map_map ds by simp
  with le show ?case
    by (simp add: unat_1_plus_depth)
next
  case (Response t1 t2)
  then show ?case
    by (auto simp: new_response_eq word_le_nat_alt size_consts unat_1_plus_depth unat_max)
qed (auto simp: new_list_eq new_option_eq new_response_eq word_le_nat_alt size_consts unat_1_plus_depth unat_max)

lemma sum_field_sizes_defined:
  "sum_field_sizes m acc = Inr (Some r) \<Longrightarrow> (k, t) \<in> set m \<Longrightarrow> \<exists>y. inner_size t = Some y"
  by (induction m acc rule: sum_field_sizes.induct) (auto split: option.splits)

lemma sum_field_sizes_unat:
  "sum_field_sizes m acc = Inr (Some r) \<Longrightarrow> \<forall>(k, t) \<in> set m. valid_name k \<Longrightarrow>
     unat r = unat acc + (\<Sum>(k, t)\<leftarrow>m. unat (the (inner_size t)) + length k)"
  by (induction m acc rule: sum_field_sizes.induct)
    (auto simp: unat_of_name checked_add_eq_Some split: option.split_asm)

text \<open>The cached sizes are the recomputed ones.\<close>

lemma wf_size:
  assumes "wf_type t"
  shows "inner_size t = Some (word_of_nat (nat_size t)) \<and> nat_size t \<le> 1048580"
proof -
  have "wf_type t \<Longrightarrow> \<exists>w. inner_size t = Some w \<and> unat w = nat_size t \<and> nat_size t \<le> 1048580"
  proof (induction t)
    case (List n t s)
    then obtain w x y z where w: "inner_size t = Some w" "unat w = nat_size t"
      and x: "checked_mul w n = Some x" and y: "inner_type_size t = Some y"
      and z: "checked_add y (TYPE_LENGTH_FIELD_SIZE + TYPE_DISCRIMINANT_SIZE) = Some z"
      and s: "checked_add x z = Some s" "s \<le> MAX_VALUE_SIZE"
      by (auto simp: new_list_eq compute_list_inner_size_def compute_list_type_size_def list_type_size_of_def)
    have "unat y = nat_type_size t"
      using List.prems y by (simp add: inner_type_size_unat)
    with w x z s show ?case
      by (simp add: unat_arith_simps size_consts word_le_nat_alt)
  next
    case (Tuple m s)
    then obtain n x y z where n: "unat n = length m" "checked_mul n 2 = Some x"
      and y: "compute_tuple_type_size m = Some y" "checked_add x y = Some z"
      and z: "sum_field_sizes m z = Inr (Some s)" and le: "s \<le> MAX_VALUE_SIZE"
      by (auto simp: tuple_try_from_map_eq compute_tuple_inner_size_def split: option.splits)
    have "unat y = nat_tuple_type_size (TupleTypeSignature m s)"
      using inner_type_size_unat [OF Tuple.prems, of y] y by (simp add: compute_tuple_type_size_def)
    with n y have "unat z = 2 * length m + nat_tuple_type_size (TupleTypeSignature m s)"
      by (simp add: unat_arith_simps)
    moreover have "unat s = unat z + (\<Sum>(k, t)\<leftarrow>m. unat (the (inner_size t)) + length k)"
      using sum_field_sizes_unat [OF z] Tuple.prems by simp
    moreover have "(\<Sum>(k, t)\<leftarrow>m. unat (the (inner_size t)) + length k) = (\<Sum>(k, t)\<leftarrow>m. nat_size t + length k)"
      using Tuple by (intro arg_cong [where f = sum_list] map_cong) fastforce+
    ultimately show ?case
      using le by (simp add: word_le_nat_alt size_consts)
  next
    case (Callable c)
    then show ?case by (cases c) (simp_all add: size_consts)
  next
    case (Optional t)
    then obtain w where "inner_size t = Some w" "unat w = nat_size t" "WRAPPER_VALUE_SIZE + w \<le> MAX_VALUE_SIZE"
      "nat_size t \<le> 1048580"
      by (auto simp: new_option_eq)
    then show ?case
      by (intro exI [of _ "w + WRAPPER_VALUE_SIZE"])
        (simp add: checked_add_def unat_word_ariths size_consts word_le_nat_alt)
  next
    case (Response t s)
    then obtain w x where "inner_size t = Some w" "unat w = nat_size t" "nat_size t \<le> 1048580"
      "inner_size s = Some x" "unat x = nat_size s" "nat_size s \<le> 1048580"
      "WRAPPER_VALUE_SIZE + max w x \<le> MAX_VALUE_SIZE"
      by (auto simp: new_response_eq)
    then show ?case
      by (intro exI [of _ "max w x + WRAPPER_VALUE_SIZE"])
        (simp add: checked_add_def unat_word_ariths unat_max size_consts word_le_nat_alt)
  qed (auto simp: checked_add_def checked_mul_def unat_word_ariths size_consts word_le_nat_alt)
  with assms obtain w where "inner_size t = Some w" "unat w = nat_size t" "nat_size t \<le> 1048580"
    by blast
  then show ?thesis using word_of_nat_unat [of w] by simp
qed

section \<open>Constructors keep signatures well-formed\<close>

lemma new_option_wf: "new_option t = Inr u \<Longrightarrow> wf_type t \<Longrightarrow> wf_type u"
  by (auto simp: new_option_eq)

lemma new_response_wf: "new_response t s = Inr u \<Longrightarrow> wf_type t \<Longrightarrow> wf_type s \<Longrightarrow> wf_type u"
  by (auto simp: new_response_eq)

lemma list_of_wf: "list_of t n = Inr u \<Longrightarrow> wf_type t \<Longrightarrow> wf_type u"
  by (auto simp: list_of_def new_list_eq)

definition wf_fields :: "(string \<times> TypeSignature) list \<Rightarrow> bool" where
  "wf_fields m \<longleftrightarrow> btree_wf m \<and> (\<forall>(k, t) \<in> set m. valid_name k \<and> wf_type t)"

lemma wf_tuple_eq: "wf_tuple (TupleTypeSignature m s) \<longleftrightarrow>
    wf_fields m \<and> tuple_try_from_map m = Inr (TupleTypeSignature m s)"
  by (auto simp: wf_fields_def)

lemma wf_fields_Nil [simp]: "wf_fields []"
  by (simp add: wf_fields_def)

lemma wf_fields_insert [simp]: "wf_fields m \<Longrightarrow> valid_name k \<Longrightarrow> wf_type t \<Longrightarrow> wf_fields (btree_insert k t m)"
  using set_btree_insert_subset [of k t m] by (auto simp: wf_fields_def)

lemma tuple_try_from_map_wf: "tuple_try_from_map m = Inr t \<Longrightarrow> wf_fields m \<Longrightarrow> wf_tuple t"
  by (auto simp: tuple_try_from_map_eq wf_fields_def)

lemma tuple_try_from_wf:
  assumes "tuple_try_from type_data = Inr t" "\<forall>(k, t) \<in> set type_data. valid_name k \<and> wf_type t"
  shows "wf_tuple t"
proof -
  have "collect_fields xs m = Inr n \<Longrightarrow> \<forall>(k, t) \<in> set xs. valid_name k \<and> wf_type t \<Longrightarrow> wf_fields m \<Longrightarrow> wf_fields n"
    for xs m n by (induction xs m rule: collect_fields.induct) (auto split: if_splits)
  with assms show ?thesis
    by (auto simp: tuple_try_from_def intro: tuple_try_from_map_wf split: if_splits)
qed

lemma wf_fields_extend:
  assumes "wf_fields m" "wf_fields n"
  shows "wf_fields (btree_extend m n)"
proof -
  have "wf_fields m \<Longrightarrow> \<forall>(k, t) \<in> set xs. valid_name k \<and> wf_type t \<Longrightarrow> wf_fields (btree_extend m xs)" for xs
    unfolding btree_extend_def by (induction xs arbitrary: m) auto
  from this [OF assms(1), of n] assms(2) show ?thesis
    unfolding wf_fields_def by blast
qed

lemma set_btree_extend: "set (btree_extend m n) \<subseteq> set m \<union> set n"
  unfolding btree_extend_def
proof (induction n arbitrary: m)
  case (Cons e n)
  then show ?case
    using set_btree_insert_subset [of "fst e" "snd e" m] by (fastforce simp: case_prod_beta)
qed simp

lemma btree_extend_not_Nil: "m \<noteq> [] \<Longrightarrow> btree_extend m n \<noteq> []"
  unfolding btree_extend_def by (induction n arbitrary: m) (simp_all add: case_prod_beta)

lemma tuple_shallow_merge_wf:
  assumes "tuple_shallow_merge t u = Inr v" "wf_tuple t" "wf_tuple u"
  shows "wf_tuple v"
proof -
  obtain m s n s' where tu: "t = TupleTypeSignature m s" "u = TupleTypeSignature n s'"
    by (metis TupleTypeSignature.exhaust)
  let ?e = "btree_extend m n"
  obtain s'' where v: "v = TupleTypeSignature ?e s''" "compute_tuple_inner_size ?e = Inr (Some s'')"
    using assms(1) by (auto simp: tu tuple_shallow_merge_def Let_def)
  have "\<forall>(k, t) \<in> set ?e. 1 + depth t \<le> MAX_TYPE_DEPTH" "?e \<noteq> []" "wf_fields ?e"
    using assms(2,3) set_btree_extend [of m n] btree_extend_not_Nil [of m n] wf_fields_extend [of m n]
    by (auto simp: tu wf_tuple_eq tuple_try_from_map_eq simp del: wf_tuple.simps)
  with v show ?thesis
    by (simp add: wf_tuple_eq tuple_try_from_map_eq del: wf_tuple.simps)
qed

text \<open>The error branch of \<open>reduce_max_len\<close> is dead.\<close>

lemma compute_list_inner_size_mono:
  assumes "compute_list_inner_size t m = Inr (Some s)" "n \<le> m"
  shows "\<exists>s'. compute_list_inner_size t n = Inr (Some s') \<and> s' \<le> s"
proof -
  obtain w x y where w: "inner_size t = Some w" and x: "checked_mul w m = Some x"
    and y: "compute_list_type_size t = Some y" and s: "checked_add x y = Some s" "s \<le> MAX_VALUE_SIZE"
    using assms(1) by (auto simp: compute_list_inner_size_def)
  have le: "unat w * unat n \<le> unat x" "unat x + unat y = unat s" "unat s < 4294967296"
    using x s assms(2) unat_lt_exp [of s] by (simp_all add: unat_arith_simps word_le_nat_alt)
  then have "unat (w * n) = unat w * unat n"
    by (simp add: unat_word_ariths)
  with le have "checked_mul w n = Some (w * n)" "checked_add (w * n) y = Some (w * n + y)" "w * n + y \<le> s"
    by (simp_all add: unat_arith_simps word_le_nat_alt unat_word_ariths)
  with w y s show ?thesis
    by (auto simp: compute_list_inner_size_def)
qed

lemma reduce_max_len_total:
  assumes "wf_list l"
  shows "\<exists>l'. reduce_max_len n l = (Inr (), l') \<and> wf_list l' \<and> ltd_max_len l' = min n (ltd_max_len l) \<and>
    ltd_entry_type l' = ltd_entry_type l \<and> ltd_size l' \<le> ltd_size l"
proof (cases l)
  case (ListTypeData m t s)
  with assms have s: "compute_list_inner_size t m = Inr (Some s)" "1 + depth t \<le> MAX_TYPE_DEPTH" "wf_type t"
    by (auto simp: new_list_eq)
  show ?thesis
  proof (cases "n \<le> m")
    case True
    then obtain s' where "compute_list_inner_size t n = Inr (Some s')" "s' \<le> s"
      using compute_list_inner_size_mono [OF s(1)] by blast
    with True s show ?thesis
      by (simp add: ListTypeData reduce_max_len_def new_list_eq min_def)
  next
    case False
    with assms show ?thesis
      by (simp add: ListTypeData reduce_max_len_def min_def)
  qed
qed

lemma empty_list_new: "new_list NoType 0 = Inr empty_list"
  by (simp add: new_list_eq compute_list_inner_size_def compute_list_type_size_def list_type_size_of_def
      empty_list_def checked_mul_def checked_add_def TYPE_DISCRIMINANT_SIZE_def TYPE_LENGTH_FIELD_SIZE_def
      NO_TYPE_SIZE_def MAX_VALUE_SIZE_def MAX_TYPE_DEPTH_def)

lemma wf_empty_list [simp]: "wf_list empty_list"
  using empty_list_new by (simp add: empty_list_def)

section \<open>Least supertypes are well-formed\<close>

lemma supertype_rest_v2_1_cases:
  "supertype_rest_v2_1 a b = Inr c \<Longrightarrow> c = a \<or> c = b \<or> c = PrincipalType \<or> (\<exists>l. c = ListUnionType l)"
  by (cases a; cases b; auto simp: supertype_rest_v2_1_def split: CallableSubtype.splits if_splits)

lemma supertype_rest_v2_1_wf: "supertype_rest_v2_1 a b = Inr c \<Longrightarrow> wf_type a \<Longrightarrow> wf_type b \<Longrightarrow> wf_type c"
  by (auto dest: supertype_rest_v2_1_cases)

lemma supertype_rest_v2_0_wf: "supertype_rest_v2_0 a b = Inr c \<Longrightarrow> wf_type a \<Longrightarrow> wf_type b \<Longrightarrow> wf_type c"
  by (auto simp: supertype_rest_v2_0_def split: if_splits)

lemma wf_list_entry [simp]: "wf_list l \<Longrightarrow> wf_type (ltd_entry_type l)"
  by (cases l) simp

lemma supertype_list_wf:
  "supertype_list e n = Inr c \<Longrightarrow> (\<And>t. e = Inr t \<Longrightarrow> wf_type t) \<Longrightarrow> wf_type c"
  by (auto simp: supertype_list_def intro: list_of_wf)

lemma supertype_fields_wf:
  assumes "supertype_fields e (map (map_prod id f) m) types_b out = Inr fs"
    and "\<And>k t u v. (k, t) \<in> set m \<Longrightarrow> map_of types_b k = Some u \<Longrightarrow> f t u = Inr v \<Longrightarrow> wf_type v"
    and "\<forall>(k, t) \<in> set m. valid_name k" and "wf_fields out"
  shows "wf_fields fs"
  using assms
proof (induction m arbitrary: out)
  case (Cons kt m)
  obtain k t where kt: "kt = (k, t)" by force
  with Cons.prems obtain u v where uv: "map_of types_b k = Some u" "f t u = Inr v"
    and "supertype_fields e (map (map_prod id f) m) types_b (btree_insert k v out) = Inr fs"
    by (auto simp: id_def)
  moreover have "wf_type v"
    using Cons.prems(2) [OF _ uv] kt by simp
  ultimately show ?case
    using Cons.prems kt by (intro Cons.IH [of "btree_insert k v out"]) auto
qed simp

lemma supertype_tuple_wf: "supertype_tuple r = Inr c \<Longrightarrow> (\<And>fs. r = Inr fs \<Longrightarrow> wf_fields fs) \<Longrightarrow> wf_type c"
  by (auto simp: supertype_tuple_def dest: tuple_try_from_map_wf)

lemma apply_fields:
  "map (map_prod id (\<lambda>g. g e)) (map (map_prod id f) m) = map (map_prod id (\<lambda>t. f t e)) m"
  by (simp add: prod.map_comp comp_def id_def)

lemma least_supertype_v2_1_impl_wf:
  "least_supertype_v2_1_impl a e b = Inr c \<Longrightarrow> wf_type a \<Longrightarrow> wf_type b \<Longrightarrow> wf_type c"
proof (induction a arbitrary: b c)
  case (Tuple m s)
  show ?case
  proof (cases "\<exists>n s'. b = TupleType (TupleTypeSignature n s')")
    case True
    then obtain n s' where b: "b = TupleType (TupleTypeSignature n s')" by blast
    have "(k, t) \<in> set m \<Longrightarrow> map_of n k = Some u \<Longrightarrow> least_supertype_v2_1_impl t e u = Inr v \<Longrightarrow> wf_type v"
      for k t u v using Tuple b map_of_SomeD [of n k u] by fastforce
    note fs = supertype_fields_wf [of _ "\<lambda>t. least_supertype_v2_1_impl t e" m n "[]", OF _ this]
    from Tuple.prems(1) b obtain x where
      "supertype_tuple (supertype_fields x (map (map_prod id (\<lambda>t. least_supertype_v2_1_impl t e)) m) n []) = Inr c"
      unfolding apply_fields [symmetric] by (auto split: if_splits)
    then show ?thesis
      by (rule supertype_tuple_wf) (use Tuple.prems(2) in \<open>auto elim: fs\<close>)
  next
    case False
    then have "b \<noteq> TupleType x" for x
      by (metis TupleTypeSignature.exhaust)
    then have "least_supertype_v2_1_impl (TupleType (TupleTypeSignature m s)) e b =
        supertype_rest_v2_1 (TupleType (TupleTypeSignature m s)) b"
      by (auto split: TypeSignature.splits)
    with Tuple.prems show ?thesis
      by (auto intro: supertype_rest_v2_1_wf)
  qed
next
  case (List n t s)
  then show ?case 
    by (auto intro: supertype_rest_v2_1_wf elim!: supertype_list_wf split: TypeSignature.splits SequenceSubtype.splits if_splits)
next
  case (Optional t)
  then show ?case
    by (auto intro: supertype_rest_v2_1_wf new_option_wf split: TypeSignature.splits)
next
  case (Response t s)
  then show ?case
    by (auto intro: supertype_rest_v2_1_wf new_response_wf split: TypeSignature.splits)
qed (auto simp: longer_def intro: supertype_rest_v2_1_wf split: TypeSignature.splits SequenceSubtype.splits StringSubtype.splits)

lemma factor_out_wf:
  "factor_out_no_type_with a f b = Inr c \<Longrightarrow> wf_type a \<Longrightarrow> wf_type b \<Longrightarrow>
   (\<And>c. f b = Inr c \<Longrightarrow> wf_type c) \<Longrightarrow> wf_type c"
  by (auto simp: factor_out_no_type_with_def split: if_splits)

lemma least_supertype_v2_0_wf:
  "least_supertype_v2_0 a b = Inr c \<Longrightarrow> wf_type a \<Longrightarrow> wf_type b \<Longrightarrow> wf_type c"
proof (induction a arbitrary: b c)
  case (Tuple m s)
  show ?case
  proof (cases "\<exists>n s'. b = TupleType (TupleTypeSignature n s')")
    case True
    then obtain n s' where b: "b = TupleType (TupleTypeSignature n s')" by blast
    have "(k, t) \<in> set m \<Longrightarrow> map_of n k = Some u \<Longrightarrow> least_supertype_v2_0 t u = Inr v \<Longrightarrow> wf_type v"
      for k t u v using Tuple b map_of_SomeD [of n k u] by fastforce
    note fs = supertype_fields_wf [of _ least_supertype_v2_0 m n "[]", OF _ this]
    from Tuple.prems(1) b obtain x where
      "supertype_tuple (supertype_fields x (map (map_prod id least_supertype_v2_0) m) n []) = Inr c"
      by auto
    then show ?thesis
      by (rule supertype_tuple_wf) (use Tuple.prems(2) in \<open>auto elim: fs\<close>)
  next
    case False
    then have "b \<noteq> TupleType x" for x
      by (metis TupleTypeSignature.exhaust)
    then have "least_supertype_v2_0 (TupleType (TupleTypeSignature m s)) b =
        supertype_rest_v2_0 (TupleType (TupleTypeSignature m s)) b"
      by (auto split: TypeSignature.splits)
    with Tuple.prems show ?thesis
      by (auto intro: supertype_rest_v2_0_wf)
  qed
next
  case (List n t s)
  then show ?case
    by (auto intro: supertype_rest_v2_0_wf elim!: supertype_list_wf split: TypeSignature.splits SequenceSubtype.splits if_splits)
next
  case (Optional t)
  then show ?case
    by (auto intro: supertype_rest_v2_0_wf elim!: new_option_wf factor_out_wf split: TypeSignature.splits)
next
  case (Response t s)
  then show ?case
    by (auto intro: supertype_rest_v2_0_wf elim!: new_response_wf factor_out_wf split: TypeSignature.splits)
qed (auto simp: longer_def intro: supertype_rest_v2_0_wf split: TypeSignature.splits SequenceSubtype.splits StringSubtype.splits)

lemma least_supertype_wf:
  "least_supertype epoch a b = Inr c \<Longrightarrow> wf_type a \<Longrightarrow> wf_type b \<Longrightarrow> wf_type c"
  by (auto simp: least_supertype_def least_supertype_v2_1_def
      intro: least_supertype_v2_0_wf least_supertype_v2_1_impl_wf split: if_splits)

section \<open>Canonicalisation keeps sizes\<close>

lemma map_fields_canonical:
  "(\<And>k t. (k, t) \<in> set m \<Longrightarrow> f (g t) = f t) \<Longrightarrow>
   map (map_prod id f) (map (map_prod id g) m) = map (map_prod id f) m"
  unfolding map_map by (rule map_cong) auto

lemma canonicalize_depth [simp]: "depth (canonicalize_v2_1 t) = depth t"
proof (induction t)
  case (Tuple m s)
  then show ?case using map_fields_canonical [of m depth canonicalize_v2_1] by (simp del: map_map map_eq_conv)
qed auto

lemma canonicalize_inner_size [simp]: "inner_size (canonicalize_v2_1 t) = inner_size t"
  by (induction t) auto

lemma canonicalize_type_size [simp]: "inner_type_size (canonicalize_v2_1 t) = inner_type_size t"
proof (induction t)
  case (Tuple m s)
  then show ?case
    using map_fields_canonical [of m inner_type_size canonicalize_v2_1] by (simp del: map_map map_eq_conv)
qed auto

lemma canonicalize_idem [simp]: "canonicalize_v2_1 (canonicalize_v2_1 t) = canonicalize_v2_1 t"
  by (induction t) auto

lemma btree_wf_map [simp]: "btree_wf (map (map_prod id f) m) = btree_wf m"
  by (simp add: btree_wf_def)

lemma map_of_map_fields [simp]: "map_of (map (map_prod id f) m) k = map_option f (map_of m k)"
  by (induction m) auto

lemma sum_field_sizes_canonical:
  "sum_field_sizes (map (map_prod id canonicalize_v2_1) m) acc = sum_field_sizes m acc"
  by (induction m arbitrary: acc) (auto simp: type_sig_size_def cong: option.case_cong)

lemma canonicalize_wf: "wf_type t \<Longrightarrow> wf_type (canonicalize_v2_1 t)"
proof (induction t)
  case (Tuple m s)
  have "map (map_prod id inner_type_size) (map (map_prod id canonicalize_v2_1) m) = map (map_prod id inner_type_size) m"
    by (rule map_fields_canonical) simp
  then have "compute_tuple_inner_size (map (map_prod id canonicalize_v2_1) m) = compute_tuple_inner_size m"
    by (simp add: compute_tuple_inner_size_def compute_tuple_type_size_def sum_field_sizes_canonical
        del: map_map map_eq_conv cong: option.case_cong)
  moreover have "valid_name k \<and> wf_type (canonicalize_v2_1 t) \<and> 1 + depth t \<le> MAX_TYPE_DEPTH"
    if "(k, t) \<in> set m" for k t
    using Tuple that by (auto simp: tuple_try_from_map_eq)
  ultimately show ?case
    using Tuple.prems
    by (auto simp: tuple_try_from_map_eq wf_tuple_eq wf_fields_def simp del: wf_tuple.simps)
qed (auto simp: new_list_eq new_option_eq new_response_eq compute_list_inner_size_def compute_list_type_size_def type_sig_size_def)

section \<open>Admission as an order\<close>

definition adm :: "TypeSignature \<Rightarrow> TypeSignature \<Rightarrow> bool" where
  "adm t u \<longleftrightarrow> admits_type_v2_1 t u = Inr True"

lemma concretize_union_range: "concretize_union l None b = Inr v \<Longrightarrow> b \<Longrightarrow> v = PrincipalType"
  by (induction l "None :: TraitIdentifier option" b rule: concretize_union.induct) auto

lemma concretize_cases:
  "concretize u = Inr v \<Longrightarrow> v = u \<and> (\<forall>l. u \<noteq> ListUnionType l) \<and> (\<forall>c. u \<noteq> CallableType (CallablePrincipal c)) \<or> v = PrincipalType"
  by (cases u rule: concretize.cases) (auto dest: concretize_union_range)

lemma on_concrete_True:
  "on_concrete f u = Inr True \<longleftrightarrow>
     concretize u = Inr u \<and> f u = Inr True \<or> concretize u = Inr PrincipalType \<and> f PrincipalType = Inr True"
  by (auto simp: on_concrete_def dest: concretize_cases split: sum.splits)

lemma concretize_self [simp]:
  "concretize_union l None True \<noteq> Inr (ListUnionType l)"
  by (auto dest: concretize_union_range)

lemma concretize_structural [simp]:
  "concretize u = Inr NoType \<longleftrightarrow> u = NoType"
  "concretize u = Inr IntType \<longleftrightarrow> u = IntType"
  "concretize u = Inr UIntType \<longleftrightarrow> u = UIntType"
  "concretize u = Inr BoolType \<longleftrightarrow> u = BoolType"
  "concretize u = Inr (SequenceType s) \<longleftrightarrow> u = SequenceType s"
  "concretize u = Inr (TupleType t) \<longleftrightarrow> u = TupleType t"
  "concretize u = Inr (OptionalType t1) \<longleftrightarrow> u = OptionalType t1"
  "concretize u = Inr (ResponseType t1 t2) \<longleftrightarrow> u = ResponseType t1 t2"
  "concretize u = Inr (CallableType (CallableTrait tr)) \<longleftrightarrow> u = CallableType (CallableTrait tr)"
  "concretize u = Inr (TraitReferenceType tr) \<longleftrightarrow> u = TraitReferenceType tr"
  by (auto dest: concretize_cases)

lemma admits_fields_True:
  "admits_fields (map (map_prod id f) m) other = Inr True \<longleftrightarrow>
     (\<forall>(k, t) \<in> set m. \<exists>u. map_of other k = Some u \<and> f t u = Inr True)"
  by (induction m) (auto split: option.splits if_splits)

lemma adm_NoType [simp]: "adm NoType u \<longleftrightarrow> False"
  by (simp add: adm_def on_concrete_True)

lemma adm_base [simp]:
  "adm IntType u \<longleftrightarrow> u = IntType"
  "adm UIntType u \<longleftrightarrow> u = UIntType"
  "adm BoolType u \<longleftrightarrow> u = BoolType"
  "adm (TraitReferenceType tr) u \<longleftrightarrow> u = TraitReferenceType tr"
  "adm (CallableType (CallableTrait tr)) u \<longleftrightarrow> u = CallableType (CallableTrait tr)"
  by (auto simp: adm_def on_concrete_True dest: concretize_cases)

lemma adm_Principal: "adm PrincipalType u \<longleftrightarrow> concretize u = Inr PrincipalType"
  by (auto simp: adm_def on_concrete_True)

lemma adm_unadmitting [simp]:
  "adm (ListUnionType l) u \<longleftrightarrow> False"
  "adm (CallableType (CallablePrincipal c)) u \<longleftrightarrow> False"
  by (auto simp: adm_def on_concrete_True dest: concretize_cases)

lemma adm_strings [simp]:
  "adm (type_buffer n) u \<longleftrightarrow> (\<exists>k. u = type_buffer k \<and> k \<le> n)"
  "adm (type_ascii n) u \<longleftrightarrow> (\<exists>k. u = type_ascii k \<and> k \<le> n)"
  "adm (type_utf8 n) u \<longleftrightarrow> (\<exists>k. u = type_utf8 k \<and> k \<le> n)"
  by (cases u; auto simp: adm_def on_concrete_True split: SequenceSubtype.splits StringSubtype.splits)+

lemma adm_list [simp]:
  "adm (type_list (ListTypeData n t s)) u \<longleftrightarrow>
     (\<exists>k v s'. u = type_list (ListTypeData k v s') \<and> (k = 0 \<or> k \<le> n \<and> adm t v))"
proof -
  have "adm (type_list (ListTypeData n t s)) u \<longleftrightarrow>
     (\<exists>l. u = type_list l \<and> (ltd_max_len l = 0 \<or> ltd_max_len l \<le> n \<and> adm t (ltd_entry_type l)))"
    by (cases u; auto simp: adm_def on_concrete_True split: SequenceSubtype.splits if_splits)
  then show ?thesis
    by (metis ListTypeData.collapse ListTypeData.sel(1) ListTypeData.sel(2))
qed

lemma adm_optional [simp]:
  "adm (OptionalType t) u \<longleftrightarrow> (\<exists>v. u = OptionalType v \<and> (v = NoType \<or> adm t v))"
  by (cases u; auto simp: adm_def on_concrete_True split: if_splits)

lemma adm_to_NoType [simp]: "adm t NoType \<longleftrightarrow> False"
proof (cases t)
  case (CallableType c)
  then show ?thesis by (cases c) auto
next
  case (SequenceType q)
  then show ?thesis by (cases q) (auto simp: adm_def on_concrete_True split: StringSubtype.splits)
qed (auto simp: adm_def on_concrete_True)

lemma adm_response [simp]:
  "adm (ResponseType t s) u \<longleftrightarrow>
     (\<exists>v w. u = ResponseType v w \<and> (v = NoType \<and> adm s w \<or> w = NoType \<and> adm t v \<or> adm t v \<and> adm s w))"
proof -
  have "adm (ResponseType t s) u \<longleftrightarrow>
     (\<exists>v w. u = ResponseType v w \<and> (if v = NoType then adm s w else if w = NoType then adm t v else adm s w \<and> adm t v))"
    by (cases u; auto simp: adm_def on_concrete_True split: if_splits)
  moreover have "(if v = NoType then adm s w else if w = NoType then adm t v else adm s w \<and> adm t v) \<longleftrightarrow>
      v = NoType \<and> adm s w \<or> w = NoType \<and> adm t v \<or> adm t v \<and> adm s w" for v w
    by auto
  ultimately show ?thesis by (simp only:)
qed

lemma adm_tuple [simp]:
  "adm (TupleType (TupleTypeSignature m s)) u \<longleftrightarrow>
     (\<exists>n s'. u = TupleType (TupleTypeSignature n s') \<and> length m = length n \<and>
        (\<forall>(k, t) \<in> set m. \<exists>v. map_of n k = Some v \<and> adm t v))"
proof -
  have "adm (TupleType (TupleTypeSignature m s)) u \<longleftrightarrow>
     (\<exists>x. u = TupleType x \<and> length m = length (tts_type_map x) \<and>
        (\<forall>(k, t) \<in> set m. \<exists>v. map_of (tts_type_map x) k = Some v \<and> adm t v))"
    by (cases u; auto simp: adm_def on_concrete_True admits_fields_True split: if_splits)
  moreover have "(\<exists>x. P x) \<longleftrightarrow> (\<exists>n s'. P (TupleTypeSignature n s'))" for P
    by (metis TupleTypeSignature.exhaust)
  ultimately show ?thesis by simp
qed

lemma concretize_to_Principal:
  "concretize u = Inr PrincipalType \<Longrightarrow>
     u = PrincipalType \<or> (\<exists>c. u = CallableType (CallablePrincipal c)) \<or> (\<exists>l. u = ListUnionType l)"
  by (cases u rule: concretize.cases) auto

lemma adm_trans: "adm a b \<Longrightarrow> adm b c \<Longrightarrow> adm a c"
proof (induction a arbitrary: b c)
  case (List n t s)
  from List.prems(1) obtain k v s' where b: "b = type_list (ListTypeData k v s')" "k = 0 \<or> k \<le> n \<and> adm t v"
    by auto
  with List.prems(2) obtain k' v' s'' where c: "c = type_list (ListTypeData k' v' s'')" "k' = 0 \<or> k' \<le> k \<and> adm v v'"
    by auto
  have "k' = 0 \<or> k' \<le> n \<and> adm t v'"
    using b(2) c(2) List.IH by (auto simp: word_le_nat_alt unat_eq_zero)
  with c(1) show ?case by simp
next
  case (Tuple m s)
  from Tuple.prems(1) obtain n s' where b: "b = TupleType (TupleTypeSignature n s')" "length m = length n"
    "\<forall>(k, t) \<in> set m. \<exists>v. map_of n k = Some v \<and> adm t v"
    by auto
  with Tuple.prems(2) obtain n' s'' where c: "c = TupleType (TupleTypeSignature n' s'')" "length n = length n'"
    "\<forall>(k, t) \<in> set n. \<exists>v. map_of n' k = Some v \<and> adm t v"
    by auto
  have "\<exists>v. map_of n' k = Some v \<and> adm t v" if kt: "(k, t) \<in> set m" for k t
  proof -
    obtain v where v: "map_of n k = Some v" "adm t v" using b(3) kt by auto
    then obtain w where "map_of n' k = Some w" "adm v w" using c(3) map_of_SomeD by fastforce
    with v(2) show ?thesis using Tuple.IH [OF kt] by blast
  qed
  with b(2) c(1,2) show ?case by auto
next
  case (Callable c')
  then show ?case by (cases c') auto
next
  case Principal
  then show ?case by (auto simp: adm_Principal dest: concretize_to_Principal)
next
  case (Optional t)
  then show ?case by auto
next
  case (Response t s)
  then show ?case by auto
qed (auto intro: order_trans)

text \<open>
  Types without callables in which \<open>NoType\<close> stands only for the missing half of an optional or
  a response, or for the entries of an empty list: the types values of data are declared with.
\<close>

primrec plain_type :: "TypeSignature \<Rightarrow> bool"
  and plain_seq :: "SequenceSubtype \<Rightarrow> bool"
  and plain_list :: "ListTypeData \<Rightarrow> bool"
  and plain_tuple :: "TupleTypeSignature \<Rightarrow> bool"
where
  "plain_type NoType \<longleftrightarrow> False"
| "plain_type IntType \<longleftrightarrow> True"
| "plain_type UIntType \<longleftrightarrow> True"
| "plain_type BoolType \<longleftrightarrow> True"
| "plain_type (SequenceType s) \<longleftrightarrow> plain_seq s"
| "plain_type PrincipalType \<longleftrightarrow> True"
| "plain_type (TupleType t) \<longleftrightarrow> plain_tuple t"
| "plain_type (OptionalType t) \<longleftrightarrow> t = NoType \<or> plain_type t"
| "plain_type (ResponseType t s) \<longleftrightarrow>
     t = NoType \<and> plain_type s \<or> s = NoType \<and> plain_type t \<or> plain_type t \<and> plain_type s"
| "plain_type (CallableType c) \<longleftrightarrow> False"
| "plain_type (ListUnionType l) \<longleftrightarrow> False"
| "plain_type (TraitReferenceType t) \<longleftrightarrow> True"
| "plain_seq (BufferType n) \<longleftrightarrow> True"
| "plain_seq (ListType l) \<longleftrightarrow> plain_list l"
| "plain_seq (StringType s) \<longleftrightarrow> True"
| "plain_list (ListTypeData n t s) \<longleftrightarrow> n = 0 \<or> plain_type t"
| "plain_tuple (TupleTypeSignature m s) \<longleftrightarrow> list_all snd (map (map_prod id plain_type) m)"

lemma adm_refl: "plain_type t \<Longrightarrow> wf_type t \<Longrightarrow> adm t t"
proof (induction t)
  case (Tuple m s)
  then show ?case
    by (auto simp: btree_wf_distinct) fastforce
qed (auto simp: adm_Principal)

lemma supertype_rest_plain:
  assumes "supertype_rest_v2_1 a b = Inr c" "plain_type a \<or> a = NoType" "plain_type b \<or> b = NoType"
  shows "a = NoType \<and> c = b \<or> b = NoType \<and> c = a \<or> a = b \<and> c = a"
  using assms by (cases a; cases b; auto simp: supertype_rest_v2_1_def split: if_splits)

text \<open>The fields of a tuple supertype, in the order of the first tuple.\<close>

lemma supertype_fields_rel:
  assumes "supertype_fields err (map (map_prod id f) m) n out = Inr fs"
    and "btree_wf m" and "\<forall>k \<in> fst ` set out. \<forall>k' \<in> fst ` set m. k < k'"
  shows "\<exists>gs. fs = out @ gs \<and>
    list_all2 (\<lambda>(k, t) (k', v). k' = k \<and> (\<exists>u. map_of n k = Some u \<and> f t u = Inr v)) m gs"
  using assms
proof (induction m arbitrary: out)
  case (Cons kt m)
  obtain k t where kt: "kt = (k, t)" by force
  with Cons.prems obtain u v where uv: "map_of n k = Some u" "f t u = Inr v"
    and r: "supertype_fields err (map (map_prod id f) m) n (btree_insert k v out) = Inr fs"
    by (auto simp: id_def)
  have ins: "btree_insert k v out = out @ [(k, v)]"
    using Cons.prems(3) kt by (intro btree_insert_above) auto
  have "\<exists>gs. fs = (out @ [(k, v)]) @ gs \<and>
    list_all2 (\<lambda>(k, t) (k', v). k' = k \<and> (\<exists>u. map_of n k = Some u \<and> f t u = Inr v)) m gs"
    using Cons.prems(2,3) kt r ins by (intro Cons.IH) (auto simp: id_def)
  then show ?case
    using kt uv by auto
qed simp

lemma list_all2_fields:
  assumes "list_all2 (\<lambda>(k, t) (k', v). k' = k \<and> P k t v) m fs"
  shows "map fst fs = map fst m" "length fs = length m"
    and "(k, v) \<in> set fs \<Longrightarrow> \<exists>t. (k, t) \<in> set m \<and> P k t v"
    and "(k, t) \<in> set m \<Longrightarrow> \<exists>v. (k, v) \<in> set fs \<and> P k t v"
  using assms by (induction rule: list_all2_induct) auto

lemma tuple_supertype_eq:
  assumes "least_supertype_v2_1_impl (TupleType (TupleTypeSignature m s)) e
      (TupleType (TupleTypeSignature n s')) = Inr c" and "btree_wf m"
  shows "\<exists>fs s''. c = TupleType (TupleTypeSignature fs s'') \<and> btree_wf fs \<and> (e \<longrightarrow> length m = length n) \<and>
    list_all2 (\<lambda>(k, t) (k', v). k' = k \<and>
      (\<exists>u. map_of n k = Some u \<and> least_supertype_v2_1_impl t e u = Inr v)) m fs"
proof -
  from assms(1) obtain err fs where len: "e \<longrightarrow> length m = length n"
    and fs: "supertype_fields err (map (map_prod id (\<lambda>t. least_supertype_v2_1_impl t e)) m) n [] = Inr fs"
    and c: "supertype_tuple (Inr fs) = Inr c"
    unfolding apply_fields [symmetric] by (auto simp: supertype_tuple_def split: if_splits)
  have rel: "list_all2 (\<lambda>(k, t) (k', v). k' = k \<and>
      (\<exists>u. map_of n k = Some u \<and> least_supertype_v2_1_impl t e u = Inr v)) m fs"
    using supertype_fields_rel [OF fs assms(2)] by simp
  then have "btree_wf fs"
    using assms(2) list_all2_fields(1) [OF rel] by (simp add: btree_wf_def)
  with len rel c show ?thesis
    by (auto simp: supertype_tuple_def tuple_try_from_map_eq)
qed

lemma supertype_NoType_right: "least_supertype_v2_1_impl t e NoType = Inr t"
proof (cases t)
  case (SequenceType q)
  then show ?thesis by (cases q) (auto simp: supertype_rest_v2_1_def split: StringSubtype.splits)
next
  case (TupleType x)
  then show ?thesis by (cases x) (simp add: supertype_rest_v2_1_def)
qed (simp_all add: supertype_rest_v2_1_def split: CallableSubtype.splits)

lemma supertype_NoType_left: "least_supertype_v2_1_impl NoType e t = Inr t"
  by (simp add: supertype_rest_v2_1_def)

definition is_lub :: "TypeSignature \<Rightarrow> TypeSignature \<Rightarrow> TypeSignature \<Rightarrow> bool \<Rightarrow> bool" where
  "is_lub c a b e \<longleftrightarrow> plain_type c \<and> adm c a \<and> (e \<longrightarrow> adm c b) \<and> (\<forall>d. adm d a \<longrightarrow> adm d b \<longrightarrow> adm d c)"

lemma supertype_half:
  assumes "least_supertype_v2_1_impl t e u = Inr c" "t = NoType \<or> plain_type t" "u = NoType \<or> plain_type u"
    and "plain_type t \<Longrightarrow> plain_type u \<Longrightarrow> is_lub c t u e"
  shows "t = NoType \<and> c = u \<or> u = NoType \<and> c = t \<or> plain_type t \<and> plain_type u \<and> is_lub c t u e"
  using assms supertype_NoType_right [of t e] supertype_NoType_left [of e u] by auto

lemma rest_is_lub:
  "supertype_rest_v2_1 a b = Inr c \<Longrightarrow> plain_type a \<Longrightarrow> plain_type b \<Longrightarrow> wf_type a \<Longrightarrow> is_lub c a b e"
  by (drule supertype_rest_plain) (auto simp: is_lub_def intro: adm_refl)

lemma longer_is_lub [simp]:
  "is_lub (type_buffer (longer n k)) (type_buffer n) (type_buffer k) e"
  "is_lub (type_ascii (longer n k)) (type_ascii n) (type_ascii k) e"
  "is_lub (type_utf8 (longer n k)) (type_utf8 n) (type_utf8 k) e"
proof -
  have "adm d (type_buffer n) \<Longrightarrow> adm d (type_buffer k) \<Longrightarrow> adm d (type_buffer (longer n k))"
    "adm d (type_ascii n) \<Longrightarrow> adm d (type_ascii k) \<Longrightarrow> adm d (type_ascii (longer n k))"
    "adm d (type_utf8 n) \<Longrightarrow> adm d (type_utf8 k) \<Longrightarrow> adm d (type_utf8 (longer n k))" for d
    by (simp_all add: longer_def)
  then show "is_lub (type_buffer (longer n k)) (type_buffer n) (type_buffer k) e"
    "is_lub (type_ascii (longer n k)) (type_ascii n) (type_ascii k) e"
    "is_lub (type_utf8 (longer n k)) (type_utf8 n) (type_utf8 k) e"
    by (auto simp: is_lub_def longer_def)
qed

lemma adm_shapes:
  "adm d (TupleType x) \<Longrightarrow> \<exists>n s. d = TupleType (TupleTypeSignature n s)"
  "adm d (type_list l) \<Longrightarrow> \<exists>n t s. d = type_list (ListTypeData n t s)"
  "adm d (OptionalType u) \<Longrightarrow> \<exists>t. d = OptionalType t"
  "adm d (ResponseType u v) \<Longrightarrow> \<exists>t s. d = ResponseType t s"
proof -
  have "adm d (TupleType x) \<longrightarrow> (\<exists>y. d = TupleType y)" "adm d (type_list l) \<longrightarrow> (\<exists>l. d = type_list l)"
    "adm d (OptionalType u) \<longrightarrow> (\<exists>t. d = OptionalType t)" "adm d (ResponseType u v) \<longrightarrow> (\<exists>t s. d = ResponseType t s)"
    by (induction d) (auto simp: adm_def on_concrete_True)
  then show "adm d (TupleType x) \<Longrightarrow> \<exists>n s. d = TupleType (TupleTypeSignature n s)"
    "adm d (type_list l) \<Longrightarrow> \<exists>n t s. d = type_list (ListTypeData n t s)"
    "adm d (OptionalType u) \<Longrightarrow> \<exists>t. d = OptionalType t"
    "adm d (ResponseType u v) \<Longrightarrow> \<exists>t s. d = ResponseType t s"
    by (metis TupleTypeSignature.exhaust, metis ListTypeData.exhaust, auto)
qed

lemma list_is_lub:
  assumes "n \<noteq> 0 \<Longrightarrow> k \<noteq> 0 \<Longrightarrow> is_lub v t u e" "n = 0 \<Longrightarrow> v = u" "n \<noteq> 0 \<Longrightarrow> k = 0 \<Longrightarrow> v = t"
    and "n \<noteq> 0 \<Longrightarrow> plain_type t \<and> adm t t" "k \<noteq> 0 \<Longrightarrow> plain_type u \<and> adm u u"
  shows "is_lub (type_list (ListTypeData (max n k) v s'')) (type_list (ListTypeData n t s))
    (type_list (ListTypeData k u s')) e"
proof -
  consider "n = 0" "v = u" "max n k = k" | "n \<noteq> 0" "k = 0" "v = t" "max n k = n" | "n \<noteq> 0" "k \<noteq> 0" "is_lub v t u e"
    using assms(1,2,3) by (auto simp: max_def)
  note cs = this
  have "adm d (type_list (ListTypeData (max n k) v s''))"
    if "adm d (type_list (ListTypeData n t s))" "adm d (type_list (ListTypeData k u s'))" for d
  proof -
    from adm_shapes(2) [OF that(1)] obtain m x r where d: "d = type_list (ListTypeData m x r)"
      by blast
    show ?thesis using cs that by cases (auto simp: d is_lub_def)
  qed
  with cs show ?thesis
    using assms(4,5) by cases (auto simp: is_lub_def)
qed

lemma optional_is_lub:
  assumes "t = NoType \<and> v = u \<or> u = NoType \<and> v = t \<or> plain_type t \<and> plain_type u \<and> is_lub v t u e"
    and "t = NoType \<or> plain_type t \<and> adm t t" "u = NoType \<or> plain_type u \<and> adm u u"
  shows "is_lub (OptionalType v) (OptionalType t) (OptionalType u) e"
proof -
  have "adm d (OptionalType v)" if "adm d (OptionalType t)" "adm d (OptionalType u)" for d
  proof -
    from adm_shapes(3) [OF that(1)] obtain x where d: "d = OptionalType x"
      by blast
    show ?thesis using assms(1) that by (auto simp: d is_lub_def)
  qed
  with assms show ?thesis
    by (auto simp: is_lub_def)
qed

lemma response_is_lub:
  assumes v: "t = NoType \<and> v = u \<or> u = NoType \<and> v = t \<or> plain_type t \<and> plain_type u \<and> is_lub v t u e"
    and w: "s = NoType \<and> w = r \<or> r = NoType \<and> w = s \<or> plain_type s \<and> plain_type r \<and> is_lub w s r e"
    and refl: "t = NoType \<or> plain_type t \<and> adm t t" "u = NoType \<or> plain_type u \<and> adm u u"
      "s = NoType \<or> plain_type s \<and> adm s s" "r = NoType \<or> plain_type r \<and> adm r r"
    and some: "plain_type (ResponseType t s)" "plain_type (ResponseType u r)"
  shows "is_lub (ResponseType v w) (ResponseType t s) (ResponseType u r) e"
proof -
  have "adm d (ResponseType v w)" if "adm d (ResponseType t s)" "adm d (ResponseType u r)" for d
  proof -
    from adm_shapes(4) [OF that(1)] obtain x y where d: "d = ResponseType x y"
      by blast
    show ?thesis using v w that by (auto simp: d is_lub_def)
  qed
  moreover have "plain_type (ResponseType v w)" "adm (ResponseType v w) (ResponseType t s)"
    "e \<Longrightarrow> adm (ResponseType v w) (ResponseType u r)"
    using v w refl some by (auto simp: is_lub_def)
  ultimately show ?thesis
    by (simp add: is_lub_def)
qed

lemma tuple_is_lub:
  assumes rel: "list_all2 (\<lambda>(k, t) (k', v). k' = k \<and> (\<exists>u. map_of n k = Some u \<and> is_lub v t u e)) m fs"
    and "btree_wf m" "btree_wf fs" "e \<longrightarrow> length m = length n"
  shows "is_lub (TupleType (TupleTypeSignature fs s'')) (TupleType (TupleTypeSignature m s))
    (TupleType (TupleTypeSignature n s')) e"
proof -
  note rel' = list_all2_fields [OF rel]
  have m: "map_of m k = Some t \<longleftrightarrow> (k, t) \<in> set m" "map_of fs k = Some t \<longleftrightarrow> (k, t) \<in> set fs" for k t
    using assms(2,3) by (auto simp: btree_wf_distinct)
  have "adm d (TupleType (TupleTypeSignature fs s''))"
    if dm: "adm d (TupleType (TupleTypeSignature m s))" and dn: "adm d (TupleType (TupleTypeSignature n s'))" for d
  proof -
    from adm_shapes(1) [OF dm] obtain dm ds where d: "d = TupleType (TupleTypeSignature dm ds)" by blast
    have "\<exists>v. map_of fs k = Some v \<and> adm x v" if kx: "(k, x) \<in> set dm" for k x
    proof -
      obtain t where t: "map_of m k = Some t" "adm x t"
        using dm kx by (auto simp: d)
      obtain u where u: "map_of n k = Some u" "adm x u"
        using dn kx by (auto simp: d)
      obtain v where "(k, v) \<in> set fs" "is_lub v t u e"
        using rel'(4) [of k t] t(1) u(1) m(1) by auto
      with t(2) u(2) show ?thesis
        using m(2) by (auto simp: is_lub_def)
    qed
    with dm d rel'(2) show ?thesis by auto
  qed
  moreover have "plain_type v \<and> (\<exists>t. map_of m k = Some t \<and> adm v t) \<and> (e \<longrightarrow> (\<exists>u. map_of n k = Some u \<and> adm v u))"
    if "(k, v) \<in> set fs" for k v
    using rel'(3) [OF that] m(1) by (auto simp: is_lub_def)
  ultimately show ?thesis
    using rel'(2) assms(4) by (auto simp: is_lub_def)
qed

lemma supertype_is_lub:
  "least_supertype_v2_1_impl a e b = Inr c \<Longrightarrow> plain_type a \<Longrightarrow> plain_type b \<Longrightarrow>
   wf_type a \<Longrightarrow> wf_type b \<Longrightarrow> is_lub c a b e"
proof (induction a arbitrary: b c)
  case (Buffer n)
  then show ?case
    by (auto intro: rest_is_lub split: TypeSignature.splits SequenceSubtype.splits)
next
  case (ASCII n)
  then show ?case
    by (auto intro: rest_is_lub split: TypeSignature.splits SequenceSubtype.splits StringSubtype.splits)
next
  case (UTF8 n)
  then show ?case
    by (auto intro: rest_is_lub split: TypeSignature.splits SequenceSubtype.splits StringSubtype.splits)
next
  case (List n t s)
  show ?case
  proof (cases "\<exists>k u s'. b = type_list (ListTypeData k u s')")
    case True
    then obtain k u s' where b: "b = type_list (ListTypeData k u s')" by blast
    obtain v s'' where c: "c = type_list (ListTypeData (max n k) v s'')"
      and v: "(if n = 0 then Inr u else if k = 0 then Inr t else least_supertype_v2_1_impl t e u) = Inr v"
      using List.prems(1) by (auto simp: b supertype_list_def list_of_def new_list_eq cong: if_cong)
    have "is_lub v t u e" if "n \<noteq> 0" "k \<noteq> 0"
      using List.prems b v that by (intro List.IH) auto
    then show ?thesis
      unfolding b c using List.prems b v by (intro list_is_lub) (auto intro: adm_refl split: if_splits)
  next
    case False
    then have "b \<noteq> type_list x" for x
      by (metis ListTypeData.exhaust)
    with List.prems show ?thesis
      by (intro rest_is_lub) (auto split: TypeSignature.splits SequenceSubtype.splits)
  qed
next
  case (Tuple m s)
  show ?case
  proof (cases "\<exists>n s'. b = TupleType (TupleTypeSignature n s')")
    case True
    then obtain n s' where b: "b = TupleType (TupleTypeSignature n s')" by blast
    obtain fs s'' where c: "c = TupleType (TupleTypeSignature fs s'')" and wf: "btree_wf fs" "e \<longrightarrow> length m = length n"
      and rel: "list_all2 (\<lambda>(k, t) (k', v). k' = k \<and>
        (\<exists>u. map_of n k = Some u \<and> least_supertype_v2_1_impl t e u = Inr v)) m fs"
      using tuple_supertype_eq [of m s e n s' c] Tuple.prems b by auto
    have "is_lub v t u e"
      if "(k, t) \<in> set m" "map_of n k = Some u" "least_supertype_v2_1_impl t e u = Inr v" for k t u v
      using Tuple that b map_of_SomeD [OF that(2)] by (intro Tuple.IH [OF that(1,3)]) auto
    then have "list_all2 (\<lambda>(k, t) (k', v). k' = k \<and> (\<exists>u. map_of n k = Some u \<and> is_lub v t u e)) m fs"
      using rel by (auto elim!: list.rel_mono_strong)
    then show ?thesis
      unfolding b c using wf Tuple.prems by (intro tuple_is_lub) auto
  next
    case False
    then have "b \<noteq> TupleType x" for x
      by (metis TupleTypeSignature.exhaust)
    with Tuple.prems show ?thesis
      by (intro rest_is_lub) (auto split: TypeSignature.splits)
  qed
next
  case (Optional t)
  show ?case
  proof (cases "\<exists>u. b = OptionalType u")
    case True
    then obtain u where b: "b = OptionalType u" by blast
    then obtain v where c: "c = OptionalType v" and v: "least_supertype_v2_1_impl t e u = Inr v"
      using Optional.prems by (auto simp: new_option_eq)
    have "t = NoType \<and> v = u \<or> u = NoType \<and> v = t \<or> plain_type t \<and> plain_type u \<and> is_lub v t u e"
      using Optional b v by (intro supertype_half) auto
    then show ?thesis
      unfolding b c using Optional.prems b by (intro optional_is_lub) (auto intro: adm_refl)
  next
    case False
    with Optional.prems show ?thesis
      by (intro rest_is_lub) (auto split: TypeSignature.splits)
  qed
next
  case (Response t s)
  show ?case
  proof (cases "\<exists>u w. b = ResponseType u w")
    case True
    then obtain u w where b: "b = ResponseType u w" by blast
    then obtain v x where c: "c = ResponseType v x"
      and v: "least_supertype_v2_1_impl t e u = Inr v" and x: "least_supertype_v2_1_impl s e w = Inr x"
      using Response.prems by (auto simp: new_response_eq)
    have "t = NoType \<and> v = u \<or> u = NoType \<and> v = t \<or> plain_type t \<and> plain_type u \<and> is_lub v t u e"
      using Response b v by (intro supertype_half) auto
    moreover have "s = NoType \<and> x = w \<or> w = NoType \<and> x = s \<or> plain_type s \<and> plain_type w \<and> is_lub x s w e"
      using Response b x by (intro supertype_half) auto
    ultimately show ?thesis
      unfolding b c using Response.prems b by (intro response_is_lub) (auto intro: adm_refl)
  next
    case False
    with Response.prems show ?thesis
      by (intro rest_is_lub) (auto split: TypeSignature.splits)
  qed
next
  case (Callable c')
  then show ?case by simp
qed (auto intro!: rest_is_lub)

section \<open>Properties\<close>

lemma epoch41_admits: "requires_matching_tuple_fields_in_analysis epoch \<Longrightarrow> admits_type t epoch u = Inr True \<longleftrightarrow> adm t u"
  by (cases epoch) (simp_all add: adm_def admits_type_def requires_matching_tuple_fields_in_analysis_def epoch_order_code)

text \<open>
  (C30) From epoch 4.1 the supertype computed by the analysis is a least upper bound: for two
  well-formed plain types, the result is well-formed, admits both, and every type
  that admits both admits the result.
\<close>

theorem analysis_supertype_is_least_upper_bound:
  assumes "requires_matching_tuple_fields_in_analysis epoch"
    and "wf_type a" "wf_type b" "plain_type a" "plain_type b"
    and "least_supertype_for_analysis epoch a b = Inr c"
  shows "wf_type c \<and> admits_type c epoch a = Inr True \<and> admits_type c epoch b = Inr True \<and>
    (\<forall>d. admits_type d epoch a = Inr True \<longrightarrow> admits_type d epoch b = Inr True \<longrightarrow>
       admits_type d epoch c = Inr True)"
proof -
  have c: "least_supertype_v2_1_impl a True b = Inr c"
    using assms by (simp add: least_supertype_for_analysis_def)
  then have "is_lub c a b True" "wf_type c"
    using assms supertype_is_lub least_supertype_v2_1_impl_wf by blast+
  then show ?thesis
    using assms(1) by (simp add: epoch41_admits is_lub_def)
qed

definition sample_tuple :: "TypeSignature \<Rightarrow> u32 \<Rightarrow> u32 \<Rightarrow> TypeSignature" where
  "sample_tuple t n s = TupleType (TupleTypeSignature [(''a'', OptionalType t), (''b'', type_buffer n)] s)"

theorem analysis_supertype_is_least_upper_bound_witness:
  "admits_type (sample_tuple IntType 9 49) Epoch41 (sample_tuple NoType 9 34) = Inr True"
proof -
  have c: "least_supertype_for_analysis Epoch41 (sample_tuple NoType 9 34) (sample_tuple IntType 4 44) =
      Inr (sample_tuple IntType 9 49)"
    by code_simp
  have "wf_type (sample_tuple NoType 9 34)" "wf_type (sample_tuple IntType 4 44)"
    "plain_type (sample_tuple NoType 9 34)" "plain_type (sample_tuple IntType 4 44)"
    "requires_matching_tuple_fields_in_analysis Epoch41"
    by code_simp+
  from analysis_supertype_is_least_upper_bound [OF this(5) this(1-4) c] show ?thesis by blast
qed

text \<open>
  (C31) The size a well-formed signature reports, with its cached parts and 32-bit checked
  arithmetic, is the size obtained by evaluating the formulas on natural numbers from scratch,
  and likewise for the 8-bit depth; the size is at most the limit plus the four bytes of a
  length prefix, and the depth at most the limit.
\<close>

theorem wf_type_size_and_depth:
  assumes "wf_type t"
  shows "type_sig_size t = Inr (word_of_nat (nat_size t)) \<and> nat_size t \<le> unat MAX_VALUE_SIZE + 4 \<and>
    unat (depth t) = nat_depth t \<and> depth t \<le> MAX_TYPE_DEPTH"
  using wf_size [OF assms] wf_depth [OF assms] by (simp add: word_le_nat_alt size_consts)

theorem wf_type_size_and_depth_witness:
  "type_sig_size (sample_tuple IntType 4 44) = Inr (word_of_nat (nat_size (sample_tuple IntType 4 44)))"
proof -
  have "wf_type (sample_tuple IntType 4 44)" by code_simp
  from wf_type_size_and_depth [OF this] show ?thesis by blast
qed

text \<open>
  (C32) Every operation that builds a signature from well-formed ones yields a well-formed one:
  the guarded constructors of lists, optionals and responses, the merge of tuples, the least
  supertypes of both rule sets, and canonicalisation, which also keeps the size.
\<close>

theorem type_operations_keep_wf:
  assumes "wf_type t" "wf_type u" "wf_tuple p" "wf_tuple q"
  shows "(list_of t n = Inr v \<longrightarrow> wf_type v) \<and>
    (new_option t = Inr v \<longrightarrow> wf_type v) \<and>
    (new_response t u = Inr v \<longrightarrow> wf_type v) \<and>
    (tuple_shallow_merge p q = Inr r \<longrightarrow> wf_tuple r) \<and>
    (least_supertype epoch t u = Inr v \<longrightarrow> wf_type v) \<and>
    (least_supertype_for_analysis epoch t u = Inr v \<longrightarrow> wf_type v) \<and>
    wf_type (canonicalize t epoch) \<and> type_sig_size (canonicalize t epoch) = type_sig_size t"
  using assms
  by (auto simp: canonicalize_def canonicalize_wf least_supertype_for_analysis_def type_sig_size_def
      intro: list_of_wf new_option_wf new_response_wf tuple_shallow_merge_wf least_supertype_wf
        least_supertype_v2_1_impl_wf)

theorem type_operations_keep_wf_witness:
  "wf_type (sample_tuple IntType 9 49) \<and> wf_tuple (TupleTypeSignature [(''a'', IntType), (''b'', BoolType)] 31)"
proof -
  have t: "wf_type (sample_tuple NoType 9 34)" "wf_type (sample_tuple IntType 4 44)"
    and p: "wf_tuple (TupleTypeSignature [(''a'', IntType)] 23)" "wf_tuple (TupleTypeSignature [(''b'', BoolType)] 8)"
    and l: "least_supertype Epoch33 (sample_tuple NoType 9 34) (sample_tuple IntType 4 44) = Inr (sample_tuple IntType 9 49)"
    and m: "tuple_shallow_merge (TupleTypeSignature [(''a'', IntType)] 23) (TupleTypeSignature [(''b'', BoolType)] 8) =
      Inr (TupleTypeSignature [(''a'', IntType), (''b'', BoolType)] 31)"
    by code_simp+
  from type_operations_keep_wf [OF t p] l m show ?thesis by blast
qed

text \<open>
  (C38) The error branch of \<open>reduce_max_len\<close> is unreachable: on a well-formed list type it
  succeeds, keeps the type well-formed and the entry type unchanged, sets the length to the
  smaller of the two, and never increases the size.
\<close>

theorem reduce_max_len_never_fails:
  assumes "wf_list l"
  shows "\<exists>l'. reduce_max_len n l = (Inr (), l') \<and> wf_list l' \<and> ltd_max_len l' = min n (ltd_max_len l) \<and>
    ltd_entry_type l' = ltd_entry_type l \<and> ltd_size l' \<le> ltd_size l"
  using assms by (rule reduce_max_len_total)

theorem reduce_max_len_never_fails_witness:
  "fst (reduce_max_len 3 (ListTypeData 8 IntType 134)) = Inr ()"
proof -
  have "wf_list (ListTypeData 8 IntType 134)" by code_simp
  from reduce_max_len_never_fails [OF this, of 3] show ?thesis by auto
qed

end
