(* ===== verification/Utf8.thy ===== *)
theory Utf8
  imports Bytes
begin

text \<open>
  Text of the Rust standard library as the Clarity types use it: classes of ASCII bytes,
  validation of UTF-8 (\<open>str::from_utf8\<close>) into Unicode scalar values (\<open>chars\<close>), and the encoding
  of a scalar value (\<open>encode_utf8\<close>). Decoding follows the table of well-formed byte sequences of
  the Unicode standard, which excludes overlong forms and surrogates.
\<close>

section \<open>ASCII classes\<close>

definition is_ascii_alphanumeric :: "u8 \<Rightarrow> bool" where
  "is_ascii_alphanumeric b \<longleftrightarrow> 48 \<le> b \<and> b \<le> 57 \<or> 65 \<le> b \<and> b \<le> 90 \<or> 97 \<le> b \<and> b \<le> 122"

definition is_ascii_punctuation :: "u8 \<Rightarrow> bool" where
  "is_ascii_punctuation b \<longleftrightarrow>
     33 \<le> b \<and> b \<le> 47 \<or> 58 \<le> b \<and> b \<le> 64 \<or> 91 \<le> b \<and> b \<le> 96 \<or> 123 \<le> b \<and> b \<le> 126"

definition is_ascii_whitespace :: "u8 \<Rightarrow> bool" where
  "is_ascii_whitespace b \<longleftrightarrow> b = 32 \<or> b = 9 \<or> b = 10 \<or> b = 12 \<or> b = 13"

section \<open>UTF-8\<close>

definition is_scalar :: "nat \<Rightarrow> bool" where
  "is_scalar c \<longleftrightarrow> c < 0xD800 \<or> 0xE000 \<le> c \<and> c < 0x110000"

definition between :: "nat \<Rightarrow> nat \<Rightarrow> u8 \<Rightarrow> bool" where
  "between lo hi b \<longleftrightarrow> lo \<le> unat b \<and> unat b \<le> hi"

abbreviation cont :: "u8 \<Rightarrow> bool" where
  "cont \<equiv> between 0x80 0xBF"

text \<open>The first scalar value of a byte sequence with the bytes after it.\<close>

fun utf8_next :: "u8 list \<Rightarrow> (nat \<times> u8 list) option" where
  "utf8_next [] = None"
| "utf8_next (a # rest) =
     (if unat a < 0x80 then Some (unat a, rest)
      else case rest of
        [] \<Rightarrow> None
      | b # rest \<Rightarrow>
          if between 0xC2 0xDF a then
            if cont b then Some ((unat a - 0xC0) * 64 + (unat b - 0x80), rest) else None
          else case rest of
            [] \<Rightarrow> None
          | c # rest \<Rightarrow>
              if between 0xE0 0xEF a then
                if (if a = 0xE0 then between 0xA0 0xBF b else if a = 0xED then between 0x80 0x9F b else cont b)
                   \<and> cont c
                then Some ((unat a - 0xE0) * 4096 + (unat b - 0x80) * 64 + (unat c - 0x80), rest)
                else None
              else case rest of
                [] \<Rightarrow> None
              | d # rest \<Rightarrow>
                  if between 0xF0 0xF4 a \<and>
                     (if a = 0xF0 then between 0x90 0xBF b else if a = 0xF4 then between 0x80 0x8F b else cont b)
                     \<and> cont c \<and> cont d
                  then Some ((unat a - 0xF0) * 262144 + (unat b - 0x80) * 4096 + (unat c - 0x80) * 64
                             + (unat d - 0x80), rest)
                  else None)"

lemma utf8_next_shorter: "utf8_next bs = Some (c, rest) \<Longrightarrow> length rest < length bs"
  by (auto elim!: utf8_next.elims split: list.splits if_splits)

function utf8_chars :: "u8 list \<Rightarrow> nat list option" where
  "utf8_chars bs =
     (if bs = [] then Some []
      else case utf8_next bs of
        None \<Rightarrow> None
      | Some (c, rest) \<Rightarrow> map_option (Cons c) (utf8_chars rest))"
  by auto
termination
  by (relation "measure length") (auto dest: utf8_next_shorter)

declare utf8_chars.simps [simp del]

definition byte :: "nat \<Rightarrow> u8" where
  "byte n = word_of_nat n"

definition encode_utf8 :: "nat \<Rightarrow> u8 list" where
  "encode_utf8 c =
     (if c < 0x80 then [byte c]
      else if c < 0x800 then [byte (0xC0 + c div 64), byte (0x80 + c mod 64)]
      else if c < 0x10000 then
        [byte (0xE0 + c div 4096), byte (0x80 + c div 64 mod 64), byte (0x80 + c mod 64)]
      else
        [byte (0xF0 + c div 262144), byte (0x80 + c div 4096 mod 64),
         byte (0x80 + c div 64 mod 64), byte (0x80 + c mod 64)])"

section \<open>Decoding and encoding\<close>

lemma unat_byte [simp]: "n < 256 \<Longrightarrow> unat (byte n) = n"
  by (simp add: byte_def unat_of_nat)

lemma byte_unat [simp]: "byte (unat b) = b"
  by (simp add: byte_def)

lemma byte_eqI: "unat b = n \<Longrightarrow> byte n = b"
  by auto

lemma byte_less: "unat b < 256" for b :: u8
  using unat_lt_exp [of b] by simp

lemma between_eq:
  "a = 0xE0 \<longleftrightarrow> unat a = 0xE0" "a = 0xED \<longleftrightarrow> unat a = 0xED" "a = 0xF0 \<longleftrightarrow> unat a = 0xF0" "a = 0xF4 \<longleftrightarrow> unat a = 0xF4"
  for a :: u8
  by (simp_all add: word_unat_eq_iff)

text \<open>The digits of a scalar value in base 64.\<close>

lemma digits2: "y < 64 \<Longrightarrow> (64 * x + y) div 64 = x \<and> (64 * x + y) mod 64 = y" for x y :: nat
  by simp

lemma digits3:
  assumes "y < 64" "z < (64::nat)"
  shows "(4096 * x + 64 * y + z) div 4096 = x" "(4096 * x + 64 * y + z) div 64 = 64 * x + y"
    "(4096 * x + 64 * y + z) mod 64 = z"
proof -
  have "4096 * x + 64 * y + z = 64 * (64 * x + y) + z" by simp
  then show d: "(4096 * x + 64 * y + z) div 64 = 64 * x + y" "(4096 * x + 64 * y + z) mod 64 = z"
    using digits2 [OF assms(2), of "64 * x + y"] by simp_all
  show "(4096 * x + 64 * y + z) div 4096 = x"
    using d(1) digits2 [OF assms(1), of x] div_mult2_eq [of "4096 * x + 64 * y + z" 64 64] by simp
qed

lemma digits4:
  assumes "y < 64" "z < 64" "w < (64::nat)"
  shows "(262144 * x + 4096 * y + 64 * z + w) div 262144 = x" "(262144 * x + 4096 * y + 64 * z + w) div 4096 = 64 * x + y"
    "(262144 * x + 4096 * y + 64 * z + w) div 64 mod 64 = z" "(262144 * x + 4096 * y + 64 * z + w) mod 64 = w"
proof -
  let ?c = "262144 * x + 4096 * y + 64 * z + w"
  have "?c = 4096 * (64 * x + y) + 64 * z + w" by simp
  then show d: "?c div 4096 = 64 * x + y" "?c div 64 mod 64 = z" "?c mod 64 = w"
    using digits3 [OF assms(2,3), of "64 * x + y"] digits3(3) [OF assms(1,2), of x] by simp_all
  show "?c div 262144 = x"
    using d(1) digits2 [OF assms(1), of x] div_mult2_eq [of ?c 4096 64] by simp
qed

lemma utf8_next_encode:
  "utf8_next bs = Some (c, rest) \<Longrightarrow> encode_utf8 c @ rest = bs \<and> is_scalar c"
proof (cases bs)
  case (Cons a as)
  assume *: "utf8_next bs = Some (c, rest)"
  consider "unat a < 0x80" | b bs' where "as = b # bs'" "between 0xC2 0xDF a" "\<not> unat a < 0x80"
    | b d bs' where "as = b # d # bs'" "between 0xE0 0xEF a"
    | b d e bs' where "as = b # d # e # bs'" "between 0xF0 0xF4 a"
    using * Cons by (auto split: list.splits if_splits)
  then show ?thesis
  proof cases
    case 1
    then show ?thesis using * Cons by (auto simp: encode_utf8_def is_scalar_def)
  next
    case (2 b bs')
    define x y where "x = unat a - 0xC0" "y = unat b - 0x80"
    have "c = 64 * x + y" "cont b" "rest = bs'"
      using 2 * Cons by (auto simp: x_y_def split: if_splits)
    moreover from this 2 have "unat a = 0xC0 + x" "unat b = 0x80 + y" "y < 64" "2 \<le> x" "x < 32"
      by (auto simp: x_y_def between_def)
    ultimately show ?thesis
      using Cons 2 digits2 [of y x] by (auto simp: encode_utf8_def is_scalar_def intro!: byte_eqI)
  next
    case (3 b d bs')
    define x y z where "x = unat a - 0xE0" "y = unat b - 0x80" "z = unat d - 0x80"
    have "c = 4096 * x + 64 * y + z" "cont b" "cont d" "rest = bs'"
      "unat a = 0xE0 \<Longrightarrow> 0xA0 \<le> unat b" "unat a = 0xED \<Longrightarrow> unat b \<le> 0x9F"
      using 3 * Cons by (auto simp: x_y_z_def between_def between_eq split: if_splits)
    moreover from this 3 have "unat a = 0xE0 + x" "unat b = 0x80 + y" "unat d = 0x80 + z" "y < 64" "z < 64" "x < 16"
      by (auto simp: x_y_z_def between_def)
    moreover from calculation have "x = 0 \<Longrightarrow> 32 \<le> y" "x = 13 \<Longrightarrow> y < 32"
      by auto
    moreover from calculation have "c < 0xD800 \<or> 0xE000 \<le> c"
      by (cases "x \<le> 12"; cases "x = 13") auto
    ultimately show ?thesis
      using Cons 3 digits3 [of y z x] by (auto simp: encode_utf8_def is_scalar_def intro!: byte_eqI)
  next
    case (4 b d e bs')
    define x y z w where "x = unat a - 0xF0" "y = unat b - 0x80" "z = unat d - 0x80" "w = unat e - 0x80"
    have "c = 262144 * x + 4096 * y + 64 * z + w" "cont b" "cont d" "cont e" "rest = bs'"
      "unat a = 0xF0 \<Longrightarrow> 0x90 \<le> unat b" "unat a = 0xF4 \<Longrightarrow> unat b \<le> 0x8F"
      using 4 * Cons by (auto simp: x_y_z_w_def between_def between_eq split: if_splits)
    moreover from this 4 have "unat a = 0xF0 + x" "unat b = 0x80 + y" "unat d = 0x80 + z" "unat e = 0x80 + w"
      "y < 64" "z < 64" "w < 64" "x \<le> 4"
      by (auto simp: x_y_z_w_def between_def)
    moreover from calculation have "x = 0 \<Longrightarrow> 16 \<le> y" "x = 4 \<Longrightarrow> y < 16"
      by auto
    moreover from calculation have "c < 0x110000"
      by (cases "x = 4") auto
    ultimately show ?thesis
      using Cons 4 digits4 [of y z w x] by (auto simp: encode_utf8_def is_scalar_def intro!: byte_eqI)
  qed
qed simp

lemma utf8_next_encode_utf8:
  assumes "is_scalar c"
  shows "utf8_next (encode_utf8 c @ rest) = Some (c, rest)"
proof -
  consider "c < 0x80" | "0x80 \<le> c" "c < 0x800" | "0x800 \<le> c" "c < 0x10000" | "0x10000 \<le> c" "c < 0x110000"
    using assms by (force simp: is_scalar_def)
  then show ?thesis
  proof cases
    case 1
    then show ?thesis by (simp add: encode_utf8_def)
  next
    case 2
    then have "c div 64 < 32" "2 \<le> c div 64" by auto
    with 2 show ?thesis by (simp add: encode_utf8_def between_def)
  next
    case 3
    define x y z where "x = c div 4096" "y = c div 64 mod 64" "z = c mod 64"
    have "c div 64 div 64 = x"
      using div_mult2_eq [of c 64 64] by (simp add: x_y_z_def)
    then have c: "c = 4096 * x + 64 * y + z"
      using mult_div_mod_eq [of 64 c] mult_div_mod_eq [of 64 "c div 64"] unfolding x_y_z_def by linarith
    have le: "y < 64" "z < 64" "x < 16"
      using 3 by (auto simp: x_y_z_def)
    with c have "x = 0 \<Longrightarrow> 32 \<le> y" "x = 13 \<Longrightarrow> y < 32"
      using 3 assms by (auto simp: is_scalar_def)
    with 3 le show ?thesis
      by (auto simp: encode_utf8_def between_def between_eq simp flip: x_y_z_def) (simp_all add: c)
  next
    case 4
    define x y z w where "x = c div 262144" "y = c div 4096 mod 64" "z = c div 64 mod 64" "w = c mod 64"
    have "c div 64 div 64 = c div 4096" "c div 4096 div 64 = x"
      using div_mult2_eq [of c 64 64] div_mult2_eq [of c 4096 64] by (simp_all add: x_y_z_w_def)
    then have c: "c = 262144 * x + 4096 * y + 64 * z + w"
      using mult_div_mod_eq [of 64 c] mult_div_mod_eq [of 64 "c div 64"] mult_div_mod_eq [of 64 "c div 4096"]
      unfolding x_y_z_w_def by linarith
    have le: "y < 64" "z < 64" "w < 64" "x \<le> 4"
      using 4 by (auto simp: x_y_z_w_def)
    with c have "x = 0 \<Longrightarrow> 16 \<le> y" "x = 4 \<Longrightarrow> y < 16"
      using 4 by auto
    with 4 le show ?thesis
      by (auto simp: encode_utf8_def between_def between_eq simp flip: x_y_z_w_def) (simp_all add: c)
  qed
qed

lemma utf8_chars_encode: "utf8_chars bs = Some cs \<Longrightarrow> concat (map encode_utf8 cs) = bs \<and> list_all is_scalar cs"
proof (induction bs arbitrary: cs rule: utf8_chars.induct)
  case (1 bs)
  then show ?case
    by (auto simp: utf8_chars.simps [of bs] dest: utf8_next_encode split: if_splits option.splits)
qed

lemma encode_utf8_not_Nil [simp]: "encode_utf8 c \<noteq> []"
  by (simp add: encode_utf8_def)

lemma utf8_chars_of_encode: "list_all is_scalar cs \<Longrightarrow> utf8_chars (concat (map encode_utf8 cs)) = Some cs"
  by (induction cs) (simp_all add: utf8_chars.simps utf8_next_encode_utf8)

end
