(* ===== verification/Values.thy ===== *)
theory Values
  imports TypeAdmission Utf8
begin

text \<open>
  Clarity values (\<open>clarity-types/src/types/mod.rs\<close>, and the sanitising of values in
  \<open>clarity-types/src/types/serialization.rs\<close>): their types, equality, guarded constructors,
  tuples, sequences and the conversions that expect a shape.
\<close>

section \<open>Types of values\<close>

definition too_large_type :: ClarityTypeError where
  "too_large_type = TypeInvariantViolation ''ERROR: Should not have constructed too large of a type.''"

definition too_large_buffer :: ClarityTypeError where
  "too_large_buffer = TypeInvariantViolation ''ERROR: too large of a buffer successfully constructed.''"

fun seq_type_signature :: "SequenceData \<Rightarrow> ClarityTypeError + TypeSignature" where
  "seq_type_signature (Buffer data) =
     rbind (map_err (\<lambda>_. too_large_buffer) (buffer_length_try_from (int (length data)))) (\<lambda>n. Inr (type_buffer n))"
| "seq_type_signature (List data l) = Inr (type_list l)"
| "seq_type_signature (String (CharASCII data)) =
     rbind (map_err (\<lambda>_. too_large_buffer) (buffer_length_try_from (int (length data)))) (\<lambda>n. Inr (type_ascii n))"
| "seq_type_signature (String (CharUTF8 data)) =
     rbind (map_err (\<lambda>_. too_large_buffer) (string_utf8_length_try_from (int (length data)))) (\<lambda>n. Inr (type_utf8 n))"

fun type_of :: "Value \<Rightarrow> ClarityTypeError + TypeSignature" where
  "type_of (Principal p) = Inr PrincipalType"
| "type_of (Value.Int i) = Inr IntType"
| "type_of (UInt u) = Inr UIntType"
| "type_of (Bool b) = Inr BoolType"
| "type_of (Tuple t m) = Inr (TupleType t)"
| "type_of (Sequence s) = seq_type_signature s"
| "type_of (Optional (Some v)) =
     rbind (type_of v) (\<lambda>t. map_err (\<lambda>_. too_large_type) (new_option t))"
| "type_of (Optional None) = map_err (\<lambda>_. too_large_type) (new_option NoType)"
| "type_of (Response committed v) =
     rbind (type_of v) (\<lambda>t. map_err (\<lambda>_. too_large_type)
       (if committed then new_response t NoType else new_response NoType t))"
| "type_of (CallableContract c) =
     (case cd_trait_identifier c of
        Some trait_identifier \<Rightarrow> Inr (CallableType (CallableTrait trait_identifier))
      | None \<Rightarrow> Inr (CallableType (CallablePrincipal (cd_contract_identifier c))))"

definition literal_type_of :: "Value \<Rightarrow> ClarityTypeError + TypeSignature" where
  "literal_type_of x =
     (case x of
        Principal (Contract contract_id) \<Rightarrow> Inr (CallableType (CallablePrincipal contract_id))
      | _ \<Rightarrow> type_of x)"

definition admits :: "TypeSignature \<Rightarrow> StacksEpochId \<Rightarrow> Value \<Rightarrow> ClarityTypeError + bool" where
  "admits self epoch x = rbind (type_of x) (admits_type self epoch)"

definition value_size :: "Value \<Rightarrow> ClarityTypeError + u32" where
  "value_size v = rbind (type_of v) type_sig_size"

definition value_charged_size :: "Value \<Rightarrow> StacksEpochId \<Rightarrow> ClarityTypeError + u32" where
  "value_charged_size v epoch = rbind (type_of v) (\<lambda>t. charged_size t epoch)"

definition value_depth :: "Value \<Rightarrow> ClarityTypeError + u8" where
  "value_depth v = rbind (type_of v) (\<lambda>t. Inr (depth t))"

section \<open>Equality\<close>

text \<open>
  Lists and tuples are compared by their contents only: equality is equality after the type
  annotations are erased.
\<close>

primrec erase :: "Value \<Rightarrow> Value" and erase_seq :: "SequenceData \<Rightarrow> SequenceData" where
  "erase (Value.Int i) = Value.Int i"
| "erase (UInt u) = UInt u"
| "erase (Bool b) = Bool b"
| "erase (Sequence s) = Sequence (erase_seq s)"
| "erase (Principal p) = Principal p"
| "erase (Tuple t m) = Tuple (TupleTypeSignature [] 0) (map (map_prod id erase) m)"
| "erase (Optional v) = Optional (map_option erase v)"
| "erase (Response committed v) = Response committed (erase v)"
| "erase (CallableContract c) = CallableContract c"
| "erase_seq (Buffer data) = Buffer data"
| "erase_seq (List data l) = List (map erase data) (ListTypeData 0 NoType 0)"
| "erase_seq (String s) = String s"

definition value_eq :: "Value \<Rightarrow> Value \<Rightarrow> bool" where
  "value_eq v w \<longleftrightarrow> erase v = erase w"

section \<open>Guarded constructors\<close>

definition none :: Value where
  "none = Optional None"

definition check_wrapped :: "Value \<Rightarrow> Value \<Rightarrow> ClarityTypeError + Value" where
  "check_wrapped data wrapped =
     rbind (value_size data) (\<lambda>n.
       if n + WRAPPER_VALUE_SIZE > MAX_VALUE_SIZE then Inl ValueTooLarge
       else rbind (value_depth data) (\<lambda>d.
         if d + 1 > MAX_TYPE_DEPTH then Inl TypeSignatureTooDeep
         else Inr wrapped))"

definition value_some :: "Value \<Rightarrow> ClarityTypeError + Value" where
  "value_some data = check_wrapped data (Optional (Some data))"

definition okay :: "Value \<Rightarrow> ClarityTypeError + Value" where
  "okay data = check_wrapped data (Response True data)"

definition error :: "Value \<Rightarrow> ClarityTypeError + Value" where
  "error data = check_wrapped data (Response False data)"

definition okay_true :: Value where
  "okay_true = Response True (Bool True)"

definition err_uint :: "u128 \<Rightarrow> Value" where
  "err_uint ecode = Response False (UInt ecode)"

definition err_none :: Value where
  "err_none = Response False none"

definition buff_from :: "u8 list \<Rightarrow> ClarityTypeError + Value" where
  "buff_from buff_data =
     rbind (buffer_length_try_from (int (length buff_data))) (\<lambda>_. Inr (Sequence (Buffer buff_data)))"

definition buff_from_byte :: "u8 \<Rightarrow> Value" where
  "buff_from_byte b = Sequence (Buffer [b])"

definition string_ascii_from_bytes :: "u8 list \<Rightarrow> ClarityTypeError + Value" where
  "string_ascii_from_bytes bytes =
     rbind (buffer_length_try_from (int (length bytes))) (\<lambda>_.
       case List.find (\<lambda>b. \<not> is_ascii_alphanumeric b \<and> \<not> is_ascii_punctuation b \<and> \<not> is_ascii_whitespace b) bytes of
         Some b \<Rightarrow> Inl (InvalidAsciiCharacter b)
       | None \<Rightarrow> Inr (Sequence (String (CharASCII bytes))))"

definition string_utf8_from_bytes :: "u8 list \<Rightarrow> ClarityTypeError + Value" where
  "string_utf8_from_bytes bytes =
     rbind (ok_or (utf8_chars bytes) InvalidUtf8Encoding) (\<lambda>chars.
     let data = map encode_utf8 chars
     in rbind (string_utf8_length_try_from (int (length data))) (\<lambda>_.
        Inr (Sequence (String (CharUTF8 data)))))"

fun admits_all :: "TypeSignature \<Rightarrow> StacksEpochId \<Rightarrow> Value list \<Rightarrow> ClarityTypeError + unit" where
  "admits_all item_type epoch [] = Inr ()"
| "admits_all item_type epoch (item # items) =
     rbind (admits item_type epoch item) (\<lambda>b.
       if b then admits_all item_type epoch items else Inl ListTypeMismatch)"

definition list_with_type :: "StacksEpochId \<Rightarrow> Value list \<Rightarrow> ListTypeData \<Rightarrow> ClarityTypeError + Value" where
  "list_with_type epoch list_data expected_type =
     (if unat (ltd_max_len expected_type) < length list_data then Inl ValueTooLarge
      else rbind (admits_all (ltd_entry_type expected_type) epoch list_data) (\<lambda>_.
           Inr (Sequence (List list_data expected_type))))"

definition construct_parent_list_type :: "Value list \<Rightarrow> ClarityTypeError + ListTypeData" where
  "construct_parent_list_type args =
     parent_list_type_from_iter (length args) (map type_of args) least_supertype_v2_1"

definition cons_list_unsanitized :: "Value list \<Rightarrow> ClarityTypeError + Value" where
  "cons_list_unsanitized list_data =
     rbind (construct_parent_list_type list_data) (\<lambda>type_sig. Inr (Sequence (List list_data type_sig)))"

section \<open>Tuples\<close>

record TupleFieldsBehavior =
  allow_duplicate_fields :: bool
  allow_missing_fields :: bool

definition LEGACY :: TupleFieldsBehavior where
  "LEGACY = \<lparr>allow_duplicate_fields = True, allow_missing_fields = True\<rparr>"

definition EXACT_FIELD_SET :: TupleFieldsBehavior where
  "EXACT_FIELD_SET = \<lparr>allow_duplicate_fields = False, allow_missing_fields = False\<rparr>"

definition tuple_fields_behavior :: "StacksEpochId \<Rightarrow> TupleFieldsBehavior" where
  "tuple_fields_behavior epoch =
     (if enforces_exact_typed_tuple_field_set epoch then EXACT_FIELD_SET else LEGACY)"

fun collect_data ::
  "(string \<times> Value) list \<Rightarrow> (string \<times> TypeSignature) list \<Rightarrow> (string \<times> Value) list
   \<Rightarrow> ClarityTypeError + (string \<times> TypeSignature) list \<times> (string \<times> Value) list" where
  "collect_data [] type_map data_map = Inr (type_map, data_map)"
| "collect_data ((name, v) # data) type_map data_map =
     rbind (type_of v) (\<lambda>type_info.
       case map_of type_map name of
         None \<Rightarrow> collect_data data (btree_insert name type_info type_map) (btree_insert name v data_map)
       | Some _ \<Rightarrow> Inl (DuplicateTupleField name))"

definition tuple_from_data :: "(string \<times> Value) list \<Rightarrow> ClarityTypeError + Value" where
  "tuple_from_data data =
     rbind (collect_data data [] []) (\<lambda>(type_map, data_map).
     rbind (tuple_try_from_map type_map) (\<lambda>t. Inr (Tuple t data_map)))"

fun collect_typed_data ::
  "StacksEpochId \<Rightarrow> TupleTypeSignature \<Rightarrow> TupleFieldsBehavior \<Rightarrow> (string \<times> Value) list
   \<Rightarrow> (string \<times> Value) list \<Rightarrow> ClarityTypeError + (string \<times> Value) list" where
  "collect_typed_data epoch expected behavior [] data_map = Inr data_map"
| "collect_typed_data epoch expected behavior ((name, v) # data) data_map =
     rbind (ok_or (field_type expected name) (NoSuchTupleField name expected)) (\<lambda>expected_type.
     rbind (admits expected_type epoch v) (\<lambda>b.
       if \<not> b then Inl (TypeMismatchValue expected_type v)
       else if map_of data_map name \<noteq> None \<and> \<not> allow_duplicate_fields behavior
       then Inl (DuplicateTupleField name)
       else collect_typed_data epoch expected behavior data (btree_insert name v data_map)))"

fun types_of_fields ::
  "(string \<times> Value) list \<Rightarrow> (string \<times> TypeSignature) list \<Rightarrow> ClarityTypeError + (string \<times> TypeSignature) list" where
  "types_of_fields [] actual_types = Inr actual_types"
| "types_of_fields ((name, v) # data_map) actual_types =
     rbind (type_of v) (\<lambda>t. types_of_fields data_map (btree_insert name t actual_types))"

definition tuple_from_data_typed ::
  "StacksEpochId \<Rightarrow> (string \<times> Value) list \<Rightarrow> TupleTypeSignature \<Rightarrow> TupleFieldsBehavior
   \<Rightarrow> ClarityTypeError + Value" where
  "tuple_from_data_typed epoch data expected behavior =
     rbind (collect_typed_data epoch expected behavior data []) (\<lambda>data_map.
       if \<not> allow_missing_fields behavior \<and> word_of_nat (length data_map) \<noteq> tuple_len expected then
         rbind (types_of_fields data_map []) (\<lambda>actual_types.
         rbind (tuple_try_from_map actual_types) (\<lambda>t.
         Inl (TypeMismatch (TupleType expected) (TupleType t))))
       else Inr (Tuple expected data_map))"

definition tuple_get :: "TupleTypeSignature \<Rightarrow> (string \<times> Value) list \<Rightarrow> string \<Rightarrow> ClarityTypeError + Value" where
  "tuple_get t data_map name = ok_or (map_of data_map name) (NoSuchTupleField name t)"

definition tuple_data_shallow_merge ::
  "TupleTypeSignature \<Rightarrow> (string \<times> Value) list \<Rightarrow> TupleTypeSignature \<Rightarrow> (string \<times> Value) list
   \<Rightarrow> ClarityTypeError + Value" where
  "tuple_data_shallow_merge base_type base_data update_type update_data =
     rbind (tuple_shallow_merge base_type update_type) (\<lambda>t.
     Inr (Tuple t (btree_extend base_data update_data)))"

section \<open>Sanitising\<close>

fun ok :: "'e + 'a \<Rightarrow> 'a option" where
  "ok (Inl _) = None"
| "ok (Inr x) = Some x"

definition sanitize_leaf_value :: "StacksEpochId \<Rightarrow> TypeSignature \<Rightarrow> Value \<Rightarrow> Value + Value" where
  "sanitize_leaf_value epoch expected v = (if admits expected epoch v = Inr True then Inr v else Inl v)"

definition sanitize_leaf :: "Value \<Rightarrow> StacksEpochId \<Rightarrow> TypeSignature \<Rightarrow> (Value \<times> bool) option" where
  "sanitize_leaf v epoch expected =
     (if \<not> value_sanitizing epoch then Some (v, False)
      else map_option (\<lambda>v. (v, False)) (ok (sanitize_leaf_value epoch expected v)))"

definition admitted_output ::
  "StacksEpochId \<Rightarrow> TypeSignature \<Rightarrow> Value \<times> bool \<Rightarrow> (Value \<times> bool) option" where
  "admitted_output epoch expected = (\<lambda>(output, did_sanitize).
     Option.bind (ok (admits expected epoch output)) (\<lambda>b. if b then Some (output, did_sanitize) else None))"

text \<open>The loop over the items of a list, with the sanitising function of each item.\<close>

fun sanitize_items ::
  "(TypeSignature \<Rightarrow> (Value \<times> bool) option) list \<Rightarrow> TypeSignature \<Rightarrow> (Value list \<times> bool) option" where
  "sanitize_items [] entry_type = Some ([], False)"
| "sanitize_items (sanitize_item # items) entry_type =
     Option.bind (sanitize_item entry_type) (\<lambda>(sanitized_item, did_sanitize).
     Option.bind (sanitize_items items entry_type) (\<lambda>(sanitized_items, did_sanitize_children).
     Some (sanitized_item # sanitized_items, did_sanitize \<or> did_sanitize_children)))"

text \<open>The loop over the declared fields of a tuple, with the sanitising functions of the data.\<close>

fun sanitize_fields ::
  "(string \<times> (TypeSignature \<Rightarrow> (Value \<times> bool) option)) list \<Rightarrow> (string \<times> TypeSignature) list
   \<Rightarrow> ((string \<times> Value) list \<times> bool) option" where
  "sanitize_fields data_map [] = Some ([], False)"
| "sanitize_fields data_map ((key, expect_key_type) # type_map) =
     Option.bind (map_of data_map key) (\<lambda>sanitize_field.
     Option.bind (sanitize_field expect_key_type) (\<lambda>(sanitized_field, did_sanitize).
     Option.bind (sanitize_fields (btree_remove key data_map) type_map) (\<lambda>(entries, did_sanitize_children).
     Some ((key, sanitized_field) # entries, did_sanitize \<or> did_sanitize_children))))"

primrec sanitize_value :: "Value \<Rightarrow> StacksEpochId \<Rightarrow> TypeSignature \<Rightarrow> (Value \<times> bool) option"
  and sanitize_seq :: "SequenceData \<Rightarrow> StacksEpochId \<Rightarrow> TypeSignature \<Rightarrow> (Value \<times> bool) option"
where
  "sanitize_value (Value.Int i) = sanitize_leaf (Value.Int i)"
| "sanitize_value (UInt u) = sanitize_leaf (UInt u)"
| "sanitize_value (Bool b) = sanitize_leaf (Bool b)"
| "sanitize_value (Sequence s) = sanitize_seq s"
| "sanitize_value (Principal p) = sanitize_leaf (Principal p)"
| "sanitize_value (Tuple t data_map) = (\<lambda>epoch expected.
     if \<not> value_sanitizing epoch then Some (Tuple t data_map, False)
     else case expected of
       TupleType tt \<Rightarrow>
         Option.bind
           (sanitize_fields (map (map_prod id (\<lambda>sanitize. sanitize epoch)) (map (map_prod id sanitize_value) data_map))
             (tts_type_map tt)) (\<lambda>(entries, did_sanitize_children).
         if word_of_nat (length entries) \<noteq> tuple_len tt then None
         else Option.bind (ok (tuple_from_data entries)) (\<lambda>output.
              admitted_output epoch expected
                (output, did_sanitize_children \<or> tuple_len tt \<noteq> word_of_nat (length data_map))))
     | _ \<Rightarrow> None)"
| "sanitize_value (Optional opt_data) = (\<lambda>epoch expected.
     if \<not> value_sanitizing epoch then Some (Optional opt_data, False)
     else case expected of
       OptionalType inner_type \<Rightarrow>
         (case map_option sanitize_value opt_data of
            None \<Rightarrow> Some (none, False)
          | Some sanitize_data \<Rightarrow>
              Option.bind (sanitize_data epoch inner_type) (\<lambda>(sanitized_data, did_sanitize_child).
              Option.bind (ok (value_some sanitized_data)) (\<lambda>output.
              admitted_output epoch expected (output, did_sanitize_child))))
     | _ \<Rightarrow> None)"
| "sanitize_value (Response committed data) = (\<lambda>epoch expected.
     if \<not> value_sanitizing epoch then Some (Response committed data, False)
     else case expected of
       ResponseType ok_type err_type \<Rightarrow>
         Option.bind (sanitize_value data epoch (if committed then ok_type else err_type))
           (\<lambda>(sanitized_inner, did_sanitize_child).
         Option.bind (ok (if committed then okay sanitized_inner else error sanitized_inner)) (\<lambda>output.
         admitted_output epoch expected (output, did_sanitize_child)))
     | _ \<Rightarrow> None)"
| "sanitize_value (CallableContract c) = sanitize_leaf (CallableContract c)"
| "sanitize_seq (Buffer data) = sanitize_leaf (Sequence (Buffer data))"
| "sanitize_seq (List data l) = (\<lambda>epoch expected.
     if \<not> value_sanitizing epoch then Some (Sequence (List data l), False)
     else case expected of
       SequenceType (ListType lt) \<Rightarrow>
         Option.bind (u32_try_from (length data)) (\<lambda>len.
         if len > ltd_max_len lt then None
         else
           Option.bind
             (sanitize_items (map (\<lambda>sanitize. sanitize epoch) (map sanitize_value data)) (ltd_entry_type lt))
             (\<lambda>(sanitized_items, did_sanitize_children).
           Option.bind (ok (cons_list_unsanitized sanitized_items)) (\<lambda>output_list.
           admitted_output epoch expected (output_list, did_sanitize_children))))
     | _ \<Rightarrow> None)"
| "sanitize_seq (String s) = sanitize_leaf (Sequence (String s))"

definition sanitize_value_or_return :: "StacksEpochId \<Rightarrow> TypeSignature \<Rightarrow> Value \<Rightarrow> Value + Value" where
  "sanitize_value_or_return epoch expected v =
     (if \<not> value_sanitizing epoch then Inr v
      else case v of
        Value.Int _ \<Rightarrow> sanitize_leaf_value epoch expected v
      | UInt _ \<Rightarrow> sanitize_leaf_value epoch expected v
      | Bool _ \<Rightarrow> sanitize_leaf_value epoch expected v
      | Principal _ \<Rightarrow> sanitize_leaf_value epoch expected v
      | CallableContract _ \<Rightarrow> sanitize_leaf_value epoch expected v
      | Sequence (Buffer _) \<Rightarrow> sanitize_leaf_value epoch expected v
      | Sequence (String _) \<Rightarrow> sanitize_leaf_value epoch expected v
      | _ \<Rightarrow> (case sanitize_value v epoch expected of
                Some (sanitized, _) \<Rightarrow> Inr sanitized
              | None \<Rightarrow> Inl v))"

fun sanitize_each :: "StacksEpochId \<Rightarrow> TypeSignature \<Rightarrow> Value list \<Rightarrow> Value list option" where
  "sanitize_each epoch item_type [] = Some []"
| "sanitize_each epoch item_type (item # items) =
     Option.bind (sanitize_value item epoch item_type) (\<lambda>(v, _).
     map_option (Cons v) (sanitize_each epoch item_type items))"

definition cons_list :: "Value list \<Rightarrow> StacksEpochId \<Rightarrow> ClarityTypeError + Value" where
  "cons_list list_data epoch =
     rbind (construct_parent_list_type list_data) (\<lambda>type_sig.
     rbind (ok_or (sanitize_each epoch (ltd_entry_type type_sig) list_data) ListTypeMismatch) (\<lambda>list_data.
     Inr (Sequence (List list_data type_sig))))"

section \<open>Contract names inside values\<close>

text \<open>The loop over the parts of a value; it stops at the first one that holds such a name.\<close>

fun any_overlong :: "(u8 \<Rightarrow> ClarityTypeError + bool) list \<Rightarrow> u8 \<Rightarrow> ClarityTypeError + bool" where
  "any_overlong [] child_depth = Inr False"
| "any_overlong (check # checks) child_depth =
     rbind (check child_depth) (\<lambda>b. if b then Inr True else any_overlong checks child_depth)"

definition within_depth :: "(u8 \<Rightarrow> ClarityTypeError + bool) \<Rightarrow> u8 \<Rightarrow> ClarityTypeError + bool" where
  "within_depth check d = (if d > MAX_TYPE_DEPTH then Inl TypeSignatureTooDeep else check (d + 1))"

primrec overlong_at_depth :: "Value \<Rightarrow> u8 \<Rightarrow> ClarityTypeError + bool"
  and overlong_seq :: "SequenceData \<Rightarrow> u8 \<Rightarrow> ClarityTypeError + bool"
where
  "overlong_at_depth (Value.Int i) = within_depth (\<lambda>_. Inr False)"
| "overlong_at_depth (UInt u) = within_depth (\<lambda>_. Inr False)"
| "overlong_at_depth (Bool b) = within_depth (\<lambda>_. Inr False)"
| "overlong_at_depth (Sequence s) = within_depth (overlong_seq s)"
| "overlong_at_depth (Principal p) = within_depth (\<lambda>_. Inr (has_overlong_contract_name p))"
| "overlong_at_depth (Tuple t m) = within_depth (any_overlong (map snd (map (map_prod id overlong_at_depth) m)))"
| "overlong_at_depth (Optional v) = within_depth (\<lambda>child_depth.
     case map_option overlong_at_depth v of None \<Rightarrow> Inr False | Some check \<Rightarrow> check child_depth)"
| "overlong_at_depth (Response committed v) = within_depth (overlong_at_depth v)"
| "overlong_at_depth (CallableContract c) =
     within_depth (\<lambda>_. Inr (length (qci_name (cd_contract_identifier c)) > CONTRACT_MAX_NAME_LENGTH))"
| "overlong_seq (Buffer data) = (\<lambda>_. Inr False)"
| "overlong_seq (List data l) = any_overlong (map overlong_at_depth data)"
| "overlong_seq (String s) = (\<lambda>_. Inr False)"

definition contains_overlong_contract_name :: "Value \<Rightarrow> ClarityTypeError + bool" where
  "contains_overlong_contract_name v = overlong_at_depth v 1"

section \<open>Sequences\<close>

fun seq_len :: "SequenceData \<Rightarrow> nat" where
  "seq_len (Buffer data) = length data"
| "seq_len (List data l) = length data"
| "seq_len (String (CharASCII data)) = length data"
| "seq_len (String (CharUTF8 data)) = length data"

fun is_list :: "SequenceData \<Rightarrow> bool" where
  "is_list (List _ _) \<longleftrightarrow> True"
| "is_list _ \<longleftrightarrow> False"

fun element_size :: "SequenceData \<Rightarrow> ClarityTypeError + u32" where
  "element_size (Buffer _) = type_sig_size BUFFER_MIN"
| "element_size (List _ l) = type_sig_size (ltd_entry_type l)"
| "element_size (String (CharASCII _)) = type_sig_size STRING_ASCII_MIN"
| "element_size (String (CharUTF8 _)) = type_sig_size STRING_UTF8_MIN"

fun charged_element_size :: "SequenceData \<Rightarrow> StacksEpochId \<Rightarrow> ClarityTypeError + u32" where
  "charged_element_size (List _ l) epoch = charged_size (ltd_entry_type l) epoch"
| "charged_element_size s epoch = element_size s"

definition element_at :: "SequenceData \<Rightarrow> nat \<Rightarrow> ClarityTypeError + Value option" where
  "element_at s index =
     (if seq_len s \<le> index then Inr None
      else case s of
        Buffer data \<Rightarrow> Inr (Some (buff_from_byte (data ! index)))
      | List data l \<Rightarrow> Inr (Some (data ! index))
      | String (CharASCII data) \<Rightarrow> rbind (string_ascii_from_bytes [data ! index]) (\<lambda>v. Inr (Some v))
      | String (CharUTF8 data) \<Rightarrow> Inr (Some (Sequence (String (CharUTF8 [data ! index])))))"

definition replace_at :: "SequenceData \<Rightarrow> StacksEpochId \<Rightarrow> nat \<Rightarrow> Value \<Rightarrow> ClarityTypeError + Value" where
  "replace_at s epoch index element =
     rbind
       (if is_list s then Inr ()
        else case element of
          Sequence data \<Rightarrow>
            if seq_len data \<noteq> 1 then Inl (SequenceElementArityMismatch 1 (seq_len data)) else Inr ()
        | _ \<Rightarrow> Inl ExpectedSequenceValue) (\<lambda>_.
     if index \<ge> seq_len s then Inl ValueOutOfBounds
     else rbind
       (case (s, element) of
          (Buffer data, Sequence (Buffer elem)) \<Rightarrow> Inr (Buffer (data[index := elem ! 0]))
        | (List data l, elem) \<Rightarrow>
            rbind (admits (ltd_entry_type l) epoch elem) (\<lambda>b.
              if b then Inr (List (data[index := elem]) l) else Inl ListTypeMismatch)
        | (String (CharASCII data), Sequence (String (CharASCII elem))) \<Rightarrow>
            Inr (String (CharASCII (data[index := elem ! 0])))
        | (String (CharUTF8 data), Sequence (String (CharUTF8 elem))) \<Rightarrow>
            Inr (String (CharUTF8 (data[index := elem ! 0])))
        | (s, element) \<Rightarrow> rbind (seq_type_signature s) (\<lambda>t. Inl (TypeMismatchValue t element)))
       (\<lambda>new_seq_data. value_some (Sequence new_seq_data)))"

fun position :: "('a \<Rightarrow> bool) \<Rightarrow> 'a list \<Rightarrow> nat \<Rightarrow> nat option" where
  "position p [] index = None"
| "position p (x # xs) index = (if p x then Some index else position p xs (Suc index))"

definition find_single :: "'a list \<Rightarrow> 'a list \<Rightarrow> nat option" where
  "find_single data to_find =
     (if length to_find \<noteq> 1 then None else position (\<lambda>entry. entry = to_find ! 0) data 0)"

definition seq_contains :: "SequenceData \<Rightarrow> Value \<Rightarrow> ClarityTypeError + nat option" where
  "seq_contains s to_find =
     (case s of
        Buffer data \<Rightarrow>
          (case to_find of
             Sequence (Buffer v) \<Rightarrow> Inr (find_single data v)
           | _ \<Rightarrow> Inl (TypeMismatchValue BUFFER_MIN to_find))
      | List data l \<Rightarrow> Inr (position (\<lambda>entry. value_eq entry to_find) data 0)
      | String (CharASCII data) \<Rightarrow>
          (case to_find of
             Sequence (String (CharASCII v)) \<Rightarrow> Inr (find_single data v)
           | _ \<Rightarrow> Inl (TypeMismatchValue STRING_ASCII_MIN to_find))
      | String (CharUTF8 data) \<Rightarrow>
          (case to_find of
             Sequence (String (CharUTF8 v)) \<Rightarrow> Inr (find_single data v)
           | _ \<Rightarrow> Inl (TypeMismatchValue STRING_UTF8_MIN to_find)))"

text \<open>
  \<open>try_retain\<close> compacts the elements in place: kept elements are swapped to the front, then
  the tail is cut off. The predicate may change its environment, so it is a stateful operation.
\<close>

datatype 'e RetainValuesError = RetainInternal ClarityTypeError | RetainPredicate 'e

definition swap :: "nat \<Rightarrow> nat \<Rightarrow> 'a list \<Rightarrow> 'a list" where
  "swap i j xs = xs[i := xs ! j, j := xs ! i]"

fun lift_err :: "('e \<Rightarrow> 'f) \<Rightarrow> ('s, 'e, 'a) meth \<Rightarrow> ('s, 'f, 'a) meth" where
  "lift_err f m s = (case m s of (r, s') \<Rightarrow> (map_err f r, s'))"

function retain_loop ::
  "('t \<Rightarrow> ClarityTypeError + Value) \<Rightarrow> (Value \<Rightarrow> ('s, 'e, bool) meth) \<Rightarrow> nat \<Rightarrow> nat \<Rightarrow> 't list
   \<Rightarrow> ('s, 'e RetainValuesError, 't list) meth" where
  "retain_loop to_value predicate read write data =
     (if read < length data then
        sbind (slift (map_err RetainInternal (to_value (data ! read)))) (\<lambda>v.
        sbind (lift_err RetainPredicate (predicate v)) (\<lambda>keep.
        if keep then
          retain_loop to_value predicate (Suc read) (Suc write)
            (if write \<noteq> read then swap write read data else data)
        else retain_loop to_value predicate (Suc read) write data))
      else sret (take write data))"
  by auto
termination
  by (relation "measure (\<lambda>(_, _, read, _, data). length data - read)") (auto simp: swap_def)

declare retain_loop.simps [simp del]

definition byte_to_value :: "u8 \<Rightarrow> ClarityTypeError + Value" where
  "byte_to_value v = Inr (buff_from_byte v)"

definition list_item_to_value :: "Value \<Rightarrow> ClarityTypeError + Value" where
  "list_item_to_value v = Inr v"

definition ascii_to_value :: "u8 \<Rightarrow> ClarityTypeError + Value" where
  "ascii_to_value v = string_ascii_from_bytes [v]"

definition utf8_to_value :: "u8 list \<Rightarrow> ClarityTypeError + Value" where
  "utf8_to_value v = string_utf8_from_bytes v"

fun try_retain ::
  "SequenceData \<Rightarrow> (Value \<Rightarrow> ('s, 'e, bool) meth) \<Rightarrow> ('s, 'e RetainValuesError, SequenceData) meth" where
  "try_retain (Buffer data) p = sbind (retain_loop byte_to_value p 0 0 data) (\<lambda>d. sret (Buffer d))"
| "try_retain (List data l) p = sbind (retain_loop list_item_to_value p 0 0 data) (\<lambda>d. sret (List d l))"
| "try_retain (String (CharASCII data)) p =
     sbind (retain_loop ascii_to_value p 0 0 data) (\<lambda>d. sret (String (CharASCII d)))"
| "try_retain (String (CharUTF8 data)) p =
     sbind (retain_loop utf8_to_value p 0 0 data) (\<lambda>d. sret (String (CharUTF8 d)))"

text \<open>
  Appending to a list pushes the sanitised items one by one and sets the type at the end, so a
  failure leaves the items pushed before it.
\<close>

fun push_sanitized ::
  "StacksEpochId \<Rightarrow> TypeSignature \<Rightarrow> Value list \<Rightarrow> (Value list, ClarityTypeError, unit) meth" where
  "push_sanitized epoch entry_type [] = sret ()"
| "push_sanitized epoch entry_type (item # items) =
     sbind (slift (ok_or (sanitize_value item epoch entry_type) ListTypeMismatch)) (\<lambda>(item, _).
     sthen (smodify (\<lambda>data. data @ [item])) (push_sanitized epoch entry_type items))"

definition list_append ::
  "StacksEpochId \<Rightarrow> Value list \<Rightarrow> ListTypeData \<Rightarrow> (Value list \<times> ListTypeData, ClarityTypeError, unit) meth" where
  "list_append epoch other_data other_type = (\<lambda>(data, type_sig).
     case factor_out_no_type epoch (ltd_entry_type type_sig) (ltd_entry_type other_type) of
       Inl e \<Rightarrow> (Inl e, (data, type_sig))
     | Inr entry_type \<Rightarrow>
         (case push_sanitized epoch entry_type other_data data of
            (Inl e, data') \<Rightarrow> (Inl e, (data', type_sig))
          | (Inr _, data') \<Rightarrow>
              (case new_list entry_type (ltd_max_len type_sig + ltd_max_len other_type) of
                 Inl e \<Rightarrow> (Inl e, (data', type_sig))
               | Inr type_sig' \<Rightarrow> (Inr (), (data', type_sig')))))"

definition check_concat_len :: "bool \<Rightarrow> (ClarityTypeError + u32) \<Rightarrow> ClarityTypeError + unit" where
  "check_concat_len check_len len = (if check_len then rbind len (\<lambda>_. Inr ()) else Inr ())"

definition concat_seq :: "StacksEpochId \<Rightarrow> SequenceData \<Rightarrow> (SequenceData, ClarityTypeError, unit) meth" where
  "concat_seq epoch other_seq = (\<lambda>self.
     let check_len = checks_concat_result_size epoch
     in case (self, other_seq) of
          (List data l, List other_data other_l) \<Rightarrow>
            (case list_append epoch other_data other_l (data, l) of
               (r, (data', l')) \<Rightarrow> (r, List data' l'))
        | (Buffer data, Buffer other_data) \<Rightarrow>
            (case check_concat_len check_len (buffer_length_try_from (int (length data + length other_data))) of
               Inl e \<Rightarrow> (Inl e, self)
             | Inr _ \<Rightarrow> (Inr (), Buffer (data @ other_data)))
        | (String (CharASCII data), String (CharASCII other_data)) \<Rightarrow>
            (case check_concat_len check_len (buffer_length_try_from (int (length data + length other_data))) of
               Inl e \<Rightarrow> (Inl e, self)
             | Inr _ \<Rightarrow> (Inr (), String (CharASCII (data @ other_data))))
        | (String (CharUTF8 data), String (CharUTF8 other_data)) \<Rightarrow>
            (case check_concat_len check_len (string_utf8_length_try_from (int (length data + length other_data))) of
               Inl e \<Rightarrow> (Inl e, self)
             | Inr _ \<Rightarrow> (Inr (), String (CharUTF8 (data @ other_data))))
        | (seq, other_seq) \<Rightarrow>
            (rbind (seq_type_signature seq) (\<lambda>t. rbind (seq_type_signature other_seq) (\<lambda>u.
               Inl (TypeMismatch t u))), self))"

text \<open>A slice panics when its bounds are out of order or out of range: then it has no result.\<close>

definition sub_list :: "nat \<Rightarrow> nat \<Rightarrow> 'a list \<Rightarrow> 'a list option" where
  "sub_list l r data =
     (if l = r then Some []
      else if l \<le> r \<and> r \<le> length data then Some (take (r - l) (drop l data))
      else None)"

definition slice ::
  "SequenceData \<Rightarrow> StacksEpochId \<Rightarrow> nat \<Rightarrow> nat \<Rightarrow> (ClarityTypeError + Value) option" where
  "slice s epoch left_position right_position =
     (case s of
        Buffer data \<Rightarrow> map_option buff_from (sub_list left_position right_position data)
      | List data l \<Rightarrow> map_option (\<lambda>d. cons_list d epoch) (sub_list left_position right_position data)
      | String (CharASCII data) \<Rightarrow> map_option string_ascii_from_bytes (sub_list left_position right_position data)
      | String (CharUTF8 data) \<Rightarrow>
          map_option (\<lambda>d. Inr (Sequence (String (CharUTF8 d)))) (sub_list left_position right_position data))"

section \<open>Expected shapes\<close>

fun expect_u128 :: "Value \<Rightarrow> ClarityTypeError + u128" where
  "expect_u128 (UInt inner) = Inr inner"
| "expect_u128 v = Inl (TypeMismatchValue UIntType v)"

fun expect_i128 :: "Value \<Rightarrow> ClarityTypeError + int" where
  "expect_i128 (Value.Int inner) = Inr inner"
| "expect_i128 v = Inl (TypeMismatchValue IntType v)"

fun expect_buff :: "Value \<Rightarrow> nat \<Rightarrow> ClarityTypeError + u8 list" where
  "expect_buff (Sequence (Buffer data)) sz = (if length data \<le> sz then Inr data else Inl ValueOutOfBounds)"
| "expect_buff v sz = Inl (TypeMismatchValue BUFFER_MIN v)"

definition expect_buff_padded :: "Value \<Rightarrow> nat \<Rightarrow> u8 \<Rightarrow> ClarityTypeError + u8 list" where
  "expect_buff_padded v sz pad =
     rbind (expect_buff v sz) (\<lambda>data. Inr (data @ replicate (sz - length data) pad))"

fun expect_list :: "Value \<Rightarrow> ClarityTypeError + Value list" where
  "expect_list (Sequence (List data l)) = Inr data"
| "expect_list v = Inl (TypeMismatchValue (type_list empty_list) v)"

fun expect_bool :: "Value \<Rightarrow> ClarityTypeError + bool" where
  "expect_bool (Bool b) = Inr b"
| "expect_bool v = Inl (TypeMismatchValue BoolType v)"

fun expect_tuple :: "Value \<Rightarrow> ClarityTypeError + TupleTypeSignature \<times> (string \<times> Value) list" where
  "expect_tuple (Tuple t m) = Inr (t, m)"
| "expect_tuple v = Inl (TypeMismatchValue NoType v)"

fun expect_optional :: "Value \<Rightarrow> ClarityTypeError + Value option" where
  "expect_optional (Optional opt) = Inr opt"
| "expect_optional v = Inl (TypeMismatchValue (OptionalType NoType) v)"

fun expect_principal :: "Value \<Rightarrow> ClarityTypeError + PrincipalData" where
  "expect_principal (Principal p) = Inr p"
| "expect_principal v = Inl (TypeMismatchValue PrincipalType v)"

fun expect_result :: "Value \<Rightarrow> ClarityTypeError + (Value + Value)" where
  "expect_result (Response committed data) = Inr (if committed then Inr data else Inl data)"
| "expect_result v = Inl (TypeMismatchValue (ResponseType NoType NoType) v)"

fun expect_result_ok :: "Value \<Rightarrow> ClarityTypeError + Value" where
  "expect_result_ok (Response committed data) =
     (if committed then Inr data else Inl (ResponseTypeMismatch True))"
| "expect_result_ok v = Inl (TypeMismatchValue (ResponseType NoType NoType) v)"

fun expect_ascii :: "Value \<Rightarrow> ClarityTypeError + string" where
  "expect_ascii (Sequence (String (CharASCII data))) =
     (if utf8_chars data = None then Inl InvalidUtf8Encoding else Inr (map (char_of \<circ> (unat :: u8 \<Rightarrow> nat)) data))"
| "expect_ascii v = Inl (TypeMismatchValue STRING_ASCII_MIN v)"

end
