(* ===== verification/HashMaps.thy ===== *)
theory HashMaps
  imports BTreeMaps "HOL-Library.AList"
begin

text \<open>
  The unordered maps of the Rust standard library (\<open>HashMap\<close>, \<open>HashSet\<close>): lists of entries with
  distinct keys in the order the map is iterated. The order is not specified by the library, so
  statements about maps are about their lookups. The law shared with \<open>BTreeMap\<close>, that lookups
  see the last insertion, is a locale, and what follows from it holds for both.
\<close>

section \<open>Maps with insertion\<close>

locale table_map =
  fixes get :: "'m \<Rightarrow> 'k \<Rightarrow> 'v option"
    and ins :: "'k \<Rightarrow> 'v \<Rightarrow> 'm \<Rightarrow> 'm"
    and invar :: "'m \<Rightarrow> bool"
  assumes get_ins: "get (ins k v m) = (get m)(k \<mapsto> v)"
    and invar_ins: "invar m \<Longrightarrow> invar (ins k v m)"
begin

lemma get_fold_ins:
  "distinct (map fst xs) \<Longrightarrow> get (fold (\<lambda>(k, v). ins k v) xs m) = get m ++ map_of xs"
proof (induction xs arbitrary: m)
  case (Cons x xs)
  obtain k v where x: "x = (k, v)" by force
  with Cons.prems have "map_of xs k = None"
    by (simp add: map_of_eq_None_iff)
  then have "(get m)(k \<mapsto> v) ++ map_of xs = get m ++ (map_of xs)(k \<mapsto> v)"
    by (auto simp: map_add_def fun_eq_iff split: option.splits)
  with Cons x show ?case by (simp add: get_ins fun_upd_def)
qed simp

lemma invar_fold_ins: "invar m \<Longrightarrow> invar (fold (\<lambda>(k, v). ins k v) xs m)"
  by (induction xs arbitrary: m) (auto simp: invar_ins)

end

interpretation ordered: table_map map_of btree_insert btree_wf
  by unfold_locales simp_all

section \<open>Hash maps\<close>

definition hash_insert :: "'k \<Rightarrow> 'v \<Rightarrow> ('k \<times> 'v) list \<Rightarrow> ('k \<times> 'v) list" where
  "hash_insert = AList.update"

definition hash_wf :: "('k \<times> 'v) list \<Rightarrow> bool" where
  "hash_wf m \<longleftrightarrow> distinct (map fst m)"

interpretation hash: table_map map_of hash_insert hash_wf
  by unfold_locales (simp_all add: hash_insert_def hash_wf_def update_conv' distinct_update)

definition hash_extend :: "('k \<times> 'v) list \<Rightarrow> ('k \<times> 'v) list \<Rightarrow> ('k \<times> 'v) list" where
  "hash_extend m xs = fold (\<lambda>(k, v). hash_insert k v) xs m"

lemmas map_of_hash_insert [simp] = hash.get_ins
lemmas hash_wf_insert [simp] = hash.invar_ins
lemmas map_of_hash_extend = hash.get_fold_ins [folded hash_extend_def]
lemmas hash_wf_extend [simp] = hash.invar_fold_ins [folded hash_extend_def]

lemma hash_wf_Nil [simp]: "hash_wf []"
  by (simp add: hash_wf_def)

lemma hash_wf_member: "hash_wf m \<Longrightarrow> (k, v) \<in> set m \<longleftrightarrow> map_of m k = Some v"
  by (simp add: hash_wf_def)

text \<open>\<open>entry(k).or_default()\<close> on a map whose values are maps or lists.\<close>

definition or_default :: "'a list option \<Rightarrow> 'a list" where
  "or_default x = (case x of None \<Rightarrow> [] | Some y \<Rightarrow> y)"

lemma or_default_simps [simp]: "or_default None = []" "or_default (Some y) = y"
  by (simp_all add: or_default_def)

text \<open>A \<open>HashSet\<close> is the list of its elements.\<close>

definition set_insert :: "'a \<Rightarrow> 'a list \<Rightarrow> 'a list" where
  "set_insert = List.insert"

lemma set_set_insert [simp]: "set (set_insert x xs) = insert x (set xs)"
  by (simp add: set_insert_def)

lemma distinct_set_insert [simp]: "distinct xs \<Longrightarrow> distinct (set_insert x xs)"
  by (simp add: set_insert_def)

end
