(* ===== verification/AssetMaps.thy ===== *)
theory AssetMaps
  imports Values HashMaps
begin

text \<open>
  The record of the assets moved by a transaction (\<open>clarity-types/src/effects/asset_map.rs\<close>).
\<close>

section \<open>Data\<close>

record AssetIdentifier =
  contract_identifier :: QualifiedContractIdentifier
  asset_name :: string

definition null_principal :: StandardPrincipalData where
  "null_principal = StandardPrincipalData 0 (replicate 20 0)"

definition STX :: AssetIdentifier where
  "STX = \<lparr>contract_identifier = \<lparr>issuer = null_principal, qci_name = ''STX''\<rparr>, asset_name = ''STX''\<rparr>"

definition STX_burned :: AssetIdentifier where
  "STX_burned =
     \<lparr>contract_identifier = \<lparr>issuer = null_principal, qci_name = ''BURNED''\<rparr>, asset_name = ''BURNED''\<rparr>"

datatype AssetMapEntry =
    EntrySTX u128
  | EntryBurn u128
  | EntryToken u128
  | EntryAsset "Value list"
  | EntryStacking u128

datatype AssetMapError = AmountOverflow | BurnTotalOverflow | StackingEntryConflict

record AssetMap =
  stx_map :: "(PrincipalData \<times> u128) list"
  burn_map :: "(PrincipalData \<times> u128) list"
  token_map :: "(PrincipalData \<times> (AssetIdentifier \<times> u128) list) list"
  asset_map :: "(PrincipalData \<times> (AssetIdentifier \<times> Value list) list) list"
  stacking_map :: "(PrincipalData \<times> u128) list"
  pox_action_set :: "PrincipalData list"

definition new_asset_map :: AssetMap where
  "new_asset_map = \<lparr>stx_map = [], burn_map = [], token_map = [], asset_map = [], stacking_map = [], pox_action_set = []\<rparr>"

section \<open>Accessors\<close>

definition get_stx :: "AssetMap \<Rightarrow> PrincipalData \<Rightarrow> u128 option" where
  "get_stx self p = map_of (stx_map self) p"

definition get_stx_burned :: "AssetMap \<Rightarrow> PrincipalData \<Rightarrow> u128 option" where
  "get_stx_burned self p = map_of (burn_map self) p"

fun sum_amounts :: "u128 list \<Rightarrow> u128 \<Rightarrow> AssetMapError + u128" where
  "sum_amounts [] acc = Inr acc"
| "sum_amounts (amount # amounts) acc =
     rbind (ok_or (checked_add acc amount) BurnTotalOverflow) (sum_amounts amounts)"

definition get_stx_burned_total :: "AssetMap \<Rightarrow> AssetMapError + u128" where
  "get_stx_burned_total self = sum_amounts (map snd (burn_map self)) 0"

definition get_fungible_tokens :: "AssetMap \<Rightarrow> PrincipalData \<Rightarrow> AssetIdentifier \<Rightarrow> u128 option" where
  "get_fungible_tokens self p asset = Option.bind (map_of (token_map self) p) (\<lambda>m. map_of m asset)"

definition get_all_fungible_tokens :: "AssetMap \<Rightarrow> PrincipalData \<Rightarrow> (AssetIdentifier \<times> u128) list option" where
  "get_all_fungible_tokens self p = map_of (token_map self) p"

definition get_nonfungible_tokens :: "AssetMap \<Rightarrow> PrincipalData \<Rightarrow> AssetIdentifier \<Rightarrow> Value list option" where
  "get_nonfungible_tokens self p asset = Option.bind (map_of (asset_map self) p) (\<lambda>m. map_of m asset)"

definition get_all_nonfungible_tokens ::
  "AssetMap \<Rightarrow> PrincipalData \<Rightarrow> (AssetIdentifier \<times> Value list) list option" where
  "get_all_nonfungible_tokens self p = map_of (asset_map self) p"

definition get_stacking :: "AssetMap \<Rightarrow> PrincipalData \<Rightarrow> u128 option" where
  "get_stacking self p = map_of (stacking_map self) p"

definition get_all_stacking :: "AssetMap \<Rightarrow> (PrincipalData \<times> u128) list" where
  "get_all_stacking self = stacking_map self"

definition did_pox_action :: "AssetMap \<Rightarrow> PrincipalData \<Rightarrow> bool" where
  "did_pox_action self p \<longleftrightarrow> p \<in> set (pox_action_set self)"

definition get_all_pox_actions :: "AssetMap \<Rightarrow> PrincipalData list" where
  "get_all_pox_actions self = pox_action_set self"

section \<open>Recording\<close>

definition next_amount :: "u128 option \<Rightarrow> u128 \<Rightarrow> AssetMapError + u128" where
  "next_amount current amount =
     ok_or (checked_add (case current of None \<Rightarrow> 0 | Some c \<Rightarrow> c) amount) AmountOverflow"

type_synonym 'a recording = "(AssetMap, AssetMapError, 'a) meth"

definition add_stx_transfer :: "PrincipalData \<Rightarrow> u128 \<Rightarrow> unit recording" where
  "add_stx_transfer p amount = (\<lambda>self.
     case next_amount (map_of (stx_map self) p) amount of
       Inl e \<Rightarrow> (Inl e, self)
     | Inr next \<Rightarrow> (Inr (), self\<lparr>stx_map := hash_insert p next (stx_map self)\<rparr>))"

definition add_stx_burn :: "PrincipalData \<Rightarrow> u128 \<Rightarrow> unit recording" where
  "add_stx_burn p amount = (\<lambda>self.
     case next_amount (map_of (burn_map self) p) amount of
       Inl e \<Rightarrow> (Inl e, self)
     | Inr next \<Rightarrow> (Inr (), self\<lparr>burn_map := hash_insert p next (burn_map self)\<rparr>))"

text \<open>\<open>entry(p).or_default().entry(asset).or_default().append(values)\<close>\<close>

definition append_values ::
  "PrincipalData \<Rightarrow> AssetIdentifier \<Rightarrow> Value list
   \<Rightarrow> (PrincipalData \<times> (AssetIdentifier \<times> Value list) list) list
   \<Rightarrow> (PrincipalData \<times> (AssetIdentifier \<times> Value list) list) list" where
  "append_values p asset vs m =
     (let inner = or_default (map_of m p)
      in hash_insert p (hash_insert asset (or_default (map_of inner asset) @ vs) inner) m)"

definition add_asset_transfer :: "PrincipalData \<Rightarrow> AssetIdentifier \<Rightarrow> Value \<Rightarrow> AssetMap \<Rightarrow> AssetMap" where
  "add_asset_transfer p asset transferred self =
     self\<lparr>asset_map := append_values p asset [transferred] (asset_map self)\<rparr>"

definition insert_token ::
  "PrincipalData \<Rightarrow> AssetIdentifier \<Rightarrow> u128
   \<Rightarrow> (PrincipalData \<times> (AssetIdentifier \<times> u128) list) list
   \<Rightarrow> (PrincipalData \<times> (AssetIdentifier \<times> u128) list) list" where
  "insert_token p asset amount m = hash_insert p (hash_insert asset amount (or_default (map_of m p))) m"

definition add_token_transfer :: "PrincipalData \<Rightarrow> AssetIdentifier \<Rightarrow> u128 \<Rightarrow> unit recording" where
  "add_token_transfer p asset amount = (\<lambda>self.
     case next_amount (get_fungible_tokens self p asset) amount of
       Inl e \<Rightarrow> (Inl e, self)
     | Inr next \<Rightarrow> (Inr (), self\<lparr>token_map := insert_token p asset next (token_map self)\<rparr>))"

definition add_stacking :: "PrincipalData \<Rightarrow> u128 \<Rightarrow> StacksEpochId \<Rightarrow> unit recording" where
  "add_stacking p amount epoch = (\<lambda>self.
     case map_of (stacking_map self) p of
       Some current \<Rightarrow>
         (case (if sums_stacking_assetmap epoch
                then ok_or (checked_add current amount) AmountOverflow else Inr amount) of
            Inl e \<Rightarrow> (Inl e, self)
          | Inr amount \<Rightarrow> (Inr (), self\<lparr>stacking_map := hash_insert p amount (stacking_map self)\<rparr>))
     | None \<Rightarrow> (Inr (), self\<lparr>stacking_map := hash_insert p amount (stacking_map self)\<rparr>))"

definition add_pox_action :: "PrincipalData \<Rightarrow> AssetMap \<Rightarrow> AssetMap" where
  "add_pox_action p self = self\<lparr>pox_action_set := set_insert p (pox_action_set self)\<rparr>"

section \<open>Merging\<close>

text \<open>The amounts to store: each amount of the nested map added to the current one.\<close>

fun amounts_to_add :: "('k \<Rightarrow> u128 option) \<Rightarrow> ('k \<times> u128) list \<Rightarrow> AssetMapError + ('k \<times> u128) list" where
  "amounts_to_add current [] = Inr []"
| "amounts_to_add current ((k, amount) # rest) =
     rbind (next_amount (current k) amount) (\<lambda>amount.
     rbind (amounts_to_add current rest) (\<lambda>to_add. Inr ((k, amount) # to_add)))"

definition token_entries ::
  "(PrincipalData \<times> (AssetIdentifier \<times> u128) list) list \<Rightarrow> ((PrincipalData \<times> AssetIdentifier) \<times> u128) list" where
  "token_entries m = concat (map (\<lambda>(p, inner). map (\<lambda>(asset, amount). ((p, asset), amount)) inner) m)"

definition append_assets ::
  "PrincipalData \<times> (AssetIdentifier \<times> Value list) list
   \<Rightarrow> (PrincipalData \<times> (AssetIdentifier \<times> Value list) list) list
   \<Rightarrow> (PrincipalData \<times> (AssetIdentifier \<times> Value list) list) list" where
  "append_assets = (\<lambda>(p, inner) m.
     fold (\<lambda>(asset, transfers). append_values p asset transfers) inner
       (hash_insert p (or_default (map_of m p)) m))"

definition commit_other :: "AssetMap \<Rightarrow> StacksEpochId \<Rightarrow> unit recording" where
  "commit_other other epoch = (\<lambda>self.
     case
       rbind (amounts_to_add (\<lambda>(p, asset). get_fungible_tokens self p asset) (token_entries (token_map other)))
         (\<lambda>tokens_to_add.
       rbind (amounts_to_add (map_of (stx_map self)) (stx_map other)) (\<lambda>stx_to_add.
       rbind (amounts_to_add (map_of (burn_map self)) (burn_map other)) (\<lambda>burns_to_add.
       rbind
         (if sums_stacking_assetmap epoch
          then amounts_to_add (map_of (stacking_map self)) (stacking_map other)
          else if list_ex (\<lambda>(p, _). map_of (stacking_map self) p \<noteq> None) (stacking_map other)
          then Inl StackingEntryConflict
          else Inr (stacking_map other)) (\<lambda>stacking_to_add.
       Inr (tokens_to_add, stx_to_add, burns_to_add, stacking_to_add))))) of
       Inl e \<Rightarrow> (Inl e, self)
     | Inr (tokens_to_add, stx_to_add, burns_to_add, stacking_to_add) \<Rightarrow>
         (Inr (), self
            \<lparr>asset_map := fold append_assets (asset_map other) (asset_map self),
             stx_map := hash_extend (stx_map self) stx_to_add,
             burn_map := hash_extend (burn_map self) burns_to_add,
             stacking_map := hash_extend (stacking_map self) stacking_to_add,
             token_map := fold (\<lambda>((p, asset), amount). insert_token p asset amount) tokens_to_add (token_map self),
             pox_action_set := fold set_insert (pox_action_set other) (pox_action_set self)\<rparr>))"

section \<open>The table for post-conditions\<close>

definition extend_entry ::
  "PrincipalData \<Rightarrow> (AssetIdentifier \<times> AssetMapEntry) list
   \<Rightarrow> (PrincipalData \<times> (AssetIdentifier \<times> AssetMapEntry) list) list
   \<Rightarrow> (PrincipalData \<times> (AssetIdentifier \<times> AssetMapEntry) list) list" where
  "extend_entry p entries table = hash_insert p (hash_extend (or_default (map_of table p)) entries) table"

definition to_table :: "AssetMap \<Rightarrow> (PrincipalData \<times> (AssetIdentifier \<times> AssetMapEntry) list) list" where
  "to_table self =
     fold (\<lambda>(p, inner). extend_entry p (map (\<lambda>(asset, vs). (asset, EntryAsset vs)) inner)) (asset_map self)
     (fold (\<lambda>(p, amount). extend_entry p [(STX_burned, EntryBurn amount)]) (burn_map self)
     (fold (\<lambda>(p, amount). extend_entry p [(STX, EntrySTX amount)]) (stx_map self)
     (fold (\<lambda>(p, inner). extend_entry p (map (\<lambda>(asset, amount). (asset, EntryToken amount)) inner)) (token_map self)
      [])))"

section \<open>Invariant\<close>

definition nested_wf :: "('k \<times> ('j \<times> 'v) list) list \<Rightarrow> bool" where
  "nested_wf m \<longleftrightarrow> hash_wf m \<and> (\<forall>(k, inner) \<in> set m. hash_wf inner)"

definition wf_asset_map :: "AssetMap \<Rightarrow> bool" where
  "wf_asset_map self \<longleftrightarrow> hash_wf (stx_map self) \<and> hash_wf (burn_map self) \<and> nested_wf (token_map self) \<and>
     nested_wf (asset_map self) \<and> hash_wf (stacking_map self) \<and> distinct (pox_action_set self)"

definition nested_get :: "('k \<times> ('j \<times> 'v) list) list \<Rightarrow> 'k \<times> 'j \<Rightarrow> 'v option" where
  "nested_get m = (\<lambda>(k, j). Option.bind (map_of m k) (\<lambda>inner. map_of inner j))"

lemma nested_wf_Nil [simp]: "nested_wf []"
  by (simp add: nested_wf_def)

lemma set_hash_insert: "set (hash_insert k v m) \<subseteq> insert (k, v) (set m)"
  by (induction m) (auto simp: hash_insert_def)

lemma nested_wf_get: "nested_wf m \<Longrightarrow> hash_wf (or_default (map_of m k))"
  by (cases "map_of m k") (auto simp: nested_wf_def dest: map_of_SomeD)

lemma nested_wf_insert: "nested_wf m \<Longrightarrow> hash_wf inner \<Longrightarrow> nested_wf (hash_insert k inner m)"
  using set_hash_insert [of k inner m] by (fastforce simp: nested_wf_def)

lemma nested_get_insert:
  "nested_get (hash_insert k (hash_insert j v (or_default (map_of m k))) m) = (nested_get m)((k, j) \<mapsto> v)"
  by (cases "map_of m k") (auto simp: nested_get_def fun_eq_iff)

interpretation tokens: table_map nested_get "\<lambda>(p, asset). insert_token p asset" nested_wf
  by unfold_locales
    (auto simp: insert_token_def nested_get_insert intro!: nested_wf_insert hash_wf_insert nested_wf_get)

lemma get_fungible_nested: "get_fungible_tokens self p asset = nested_get (token_map self) (p, asset)"
  by (simp add: get_fungible_tokens_def nested_get_def)

lemma get_nonfungible_nested: "get_nonfungible_tokens self p asset = nested_get (asset_map self) (p, asset)"
  by (simp add: get_nonfungible_tokens_def nested_get_def)

section \<open>Merging adds up\<close>

definition add_opt :: "u128 option \<Rightarrow> u128 option \<Rightarrow> u128 option" where
  "add_opt a b = (case (a, b) of (None, b) \<Rightarrow> b | (a, None) \<Rightarrow> a | (Some a, Some b) \<Rightarrow> Some (a + b))"

definition append_opt :: "'a list option \<Rightarrow> 'a list option \<Rightarrow> 'a list option" where
  "append_opt a b = (case (a, b) of (None, b) \<Rightarrow> b | (a, None) \<Rightarrow> a | (Some a, Some b) \<Rightarrow> Some (a @ b))"

text \<open>No sum of an entry of the nested map with the current entry overflows.\<close>

definition sums_fit :: "('k \<Rightarrow> u128 option) \<Rightarrow> ('k \<Rightarrow> u128 option) \<Rightarrow> bool" where
  "sums_fit current added \<longleftrightarrow>
     (\<forall>k a b. current k = Some a \<longrightarrow> added k = Some b \<longrightarrow> unat a + unat b < 2 ^ 128)"

lemma next_amount_eq:
  "next_amount current b = Inr c \<longleftrightarrow>
     (\<forall>a. current = Some a \<longrightarrow> unat a + unat b < 2 ^ 128) \<and> add_opt current (Some b) = Some c"
  using unat_lt_exp [of b] by (auto simp: next_amount_def add_opt_def checked_add_def split: option.splits)

lemma next_amount_Inl: "next_amount current b = Inl e \<longleftrightarrow> e = AmountOverflow \<and> \<not> (\<forall>a. current = Some a \<longrightarrow> unat a + unat b < 2 ^ 128)"
  using unat_lt_exp [of b] by (auto simp: next_amount_def checked_add_def split: option.splits)

lemma amounts_to_add_Inr:
  assumes "amounts_to_add current xs = Inr ys" "hash_wf xs"
  shows "sums_fit current (map_of xs) \<and> map fst ys = map fst xs \<and>
    (\<forall>k. map_of ys k = Option.bind (map_of xs k) (\<lambda>b. add_opt (current k) (Some b)))"
  using assms
proof (induction xs arbitrary: ys)
  case (Cons x xs)
  obtain k b where x: "x = (k, b)" by fastforce
  with Cons.prems(1) obtain c zs where c: "next_amount (current k) b = Inr c" "amounts_to_add current xs = Inr zs" "ys = (k, c) # zs"
    by auto
  have "hash_wf xs" "k \<notin> fst ` set xs" using Cons.prems(2) by (auto simp: x hash_wf_def)
  with Cons.IH [OF c(2)] c show ?case
    by (auto simp: x next_amount_eq sums_fit_def split: if_splits)
qed (simp add: sums_fit_def)

lemma amounts_to_add_Inl:
  assumes "amounts_to_add current xs = Inl e" "hash_wf xs"
  shows "e = AmountOverflow \<and> \<not> sums_fit current (map_of xs)"
  using assms
proof (induction xs)
  case (Cons x xs)
  obtain k b where x: "x = (k, b)" by fastforce
  have wf: "hash_wf xs" "k \<notin> fst ` set xs" using Cons.prems(2) by (auto simp: x hash_wf_def)
  then have none: "map_of xs k = None" by (simp add: map_of_eq_None_iff)
  from Cons.prems(1) consider "next_amount (current k) b = Inl e" | "amounts_to_add current xs = Inl e"
    by (auto simp: x rbind_eq_Inl)
  then show ?case
  proof cases
    case 1
    then show ?thesis by (auto simp: x next_amount_Inl sums_fit_def)
  next
    case 2
    with Cons.IH wf(1) have "e = AmountOverflow" "\<not> sums_fit current (map_of xs)" by auto
    moreover have "sums_fit current (map_of (x # xs)) \<Longrightarrow> sums_fit current (map_of xs)"
      unfolding sums_fit_def x using none by (metis map_of_Cons_code(2) option.distinct(1))
    ultimately show ?thesis by blast
  qed
qed simp

lemma added_lookup:
  assumes "\<forall>k. map_of ys k = Option.bind (map_of xs k) (\<lambda>b. add_opt (current k) (Some b))"
  shows "(current ++ map_of ys) k = add_opt (current k) (map_of xs k)"
proof (cases "map_of xs k")
  case None
  then show ?thesis using assms by (cases "current k") (auto simp: map_add_def add_opt_def)
next
  case (Some b)
  then show ?thesis using assms by (cases "current k") (auto simp: map_add_def add_opt_def)
qed

text \<open>Non-fungible assets: the values of the nested map follow those of the current one.\<close>

lemma append_values_get:
  "nested_get (append_values p asset vs m) = (nested_get m)((p, asset) \<mapsto> or_default (nested_get m (p, asset)) @ vs)"
  by (cases "map_of m p") (auto simp: append_values_def nested_get_def Let_def fun_eq_iff)

lemma append_values_wf: "nested_wf m \<Longrightarrow> nested_wf (append_values p asset vs m)"
  by (simp add: append_values_def Let_def nested_wf_insert nested_wf_get)

lemma append_opt_simps [simp]:
  "append_opt x None = x" "append_opt None y = y" "append_opt x (Some vs) = Some (or_default x @ vs)"
  by (auto simp: append_opt_def split: option.splits)

lemma append_inner_get:
  "hash_wf inner \<Longrightarrow>
     nested_get (fold (\<lambda>(asset, vs). append_values p asset vs) inner m) (q, a) =
       append_opt (nested_get m (q, a)) (if q = p then map_of inner a else None)"
proof (induction inner arbitrary: m)
  case (Cons x inner)
  obtain b vs where x: "x = (b, vs)" by fastforce
  with Cons.prems have "hash_wf inner" "map_of inner b = None"
    by (auto simp: hash_wf_def map_of_eq_None_iff)
  with Cons.IH show ?case by (auto simp: x append_values_get)
qed simp

lemma append_inner_wf: "nested_wf m \<Longrightarrow> nested_wf (fold (\<lambda>(asset, vs). append_values p asset vs) inner m)"
  by (induction inner arbitrary: m) (auto simp: append_values_wf)

lemma nested_get_entry: "nested_get (hash_insert p (or_default (map_of m p)) m) = nested_get m"
  by (cases "map_of m p") (auto simp: nested_get_def fun_eq_iff)

lemma append_assets_step:
  "hash_wf inner \<Longrightarrow>
     nested_get (append_assets (p, inner) m) (q, a) =
       append_opt (nested_get m (q, a)) (if q = p then map_of inner a else None)"
  by (simp add: append_assets_def append_inner_get nested_get_entry)

lemma nested_get_Cons: "nested_get ((p, inner) # xs) (q, a) = (if q = p then map_of inner a else nested_get xs (q, a))"
  by (simp add: nested_get_def)

lemma nested_get_None: "map_of xs p = None \<Longrightarrow> nested_get xs (p, a) = None"
  by (simp add: nested_get_def)

lemma append_assets_get:
  "nested_wf xs \<Longrightarrow> nested_get (fold append_assets xs m) k = append_opt (nested_get m k) (nested_get xs k)"
proof (induction xs arbitrary: m k)
  case (Cons x xs)
  obtain p inner where x: "x = (p, inner)" by fastforce
  with Cons.prems have wf: "nested_wf xs" "hash_wf inner" "map_of xs p = None"
    by (auto simp: nested_wf_def hash_wf_def map_of_eq_None_iff)
  then show ?case
    by (cases k) (auto simp: x Cons.IH append_assets_step nested_get_Cons nested_get_None)
qed (simp add: nested_get_def split: prod.splits)

lemma append_assets_wf: "nested_wf m \<Longrightarrow> nested_wf (fold append_assets xs m)"
  by (induction xs arbitrary: m)
    (auto simp: append_assets_def append_inner_wf nested_wf_insert nested_wf_get)

lemma token_entries_Cons:
  "token_entries ((p, inner) # m) = map (\<lambda>(asset, amount). ((p, asset), amount)) inner @ token_entries m"
  by (simp add: token_entries_def)

lemma token_entries_keys: "fst ` set (token_entries m) \<subseteq> {(p, asset). p \<in> fst ` set m}"
proof (induction m)
  case (Cons x m)
  then show ?case by (cases x) (auto simp: token_entries_Cons)
qed (simp add: token_entries_def)

lemma map_of_tagged: "map_of (map (\<lambda>(asset, amount). ((p, asset), amount)) inner) (q, a) = (if q = p then map_of inner a else None)"
  by (induction inner) auto

lemma token_entries_wf: "nested_wf m \<Longrightarrow> hash_wf (token_entries m) \<and> map_of (token_entries m) = nested_get m"
proof (induction m)
  case (Cons x m)
  obtain p inner where x: "x = (p, inner)" by fastforce
  with Cons.prems have wf: "nested_wf m" "hash_wf inner" "p \<notin> fst ` set m"
    by (auto simp: nested_wf_def hash_wf_def)
  have "distinct (map (\<lambda>(asset, amount). (p, asset)) inner)"
    using wf(2) by (auto simp: hash_wf_def distinct_map inj_on_def case_prod_unfold)
  moreover have "(p, a) \<notin> fst ` set (token_entries m)" for a
    using token_entries_keys [of m] wf(3) by auto
  ultimately have "hash_wf (token_entries (x # m))"
    using Cons.IH [OF wf(1)] by (auto simp: x token_entries_Cons hash_wf_def comp_def case_prod_unfold image_iff)
  moreover have "map_of (token_entries (x # m)) (q, a) = nested_get (x # m) (q, a)" for q a
    using Cons.IH [OF wf(1)] wf(3)
    by (auto simp: x token_entries_Cons map_of_tagged map_add_def nested_get_def map_of_eq_None_iff [of m p, THEN iffD2]
        split: option.splits)
  ultimately show ?case by (auto simp: fun_eq_iff)
qed (auto simp: token_entries_def nested_get_def fun_eq_iff)

section \<open>The ledger of a map\<close>

text \<open>The amounts of a map, whichever of its tables holds them.\<close>

datatype ledger = Moved PrincipalData | Burned PrincipalData | Token PrincipalData AssetIdentifier | Stacked PrincipalData

fun amount_of :: "AssetMap \<Rightarrow> ledger \<Rightarrow> u128 option" where
  "amount_of self (Moved p) = get_stx self p"
| "amount_of self (Burned p) = get_stx_burned self p"
| "amount_of self (Token p asset) = get_fungible_tokens self p asset"
| "amount_of self (Stacked p) = get_stacking self p"

fun is_stacked :: "ledger \<Rightarrow> bool" where
  "is_stacked (Stacked _) = True"
| "is_stacked _ = False"

definition mergeable :: "StacksEpochId \<Rightarrow> AssetMap \<Rightarrow> AssetMap \<Rightarrow> bool" where
  "mergeable epoch self other \<longleftrightarrow>
     (\<forall>k a b. amount_of self k = Some a \<longrightarrow> amount_of other k = Some b \<longrightarrow>
        unat a + unat b < 2 ^ 128 \<and> (is_stacked k \<longrightarrow> sums_stacking_assetmap epoch))"

definition merged :: "AssetMap \<Rightarrow> AssetMap \<Rightarrow> AssetMap \<Rightarrow> bool" where
  "merged self other result \<longleftrightarrow>
     (\<forall>k. amount_of result k = add_opt (amount_of self k) (amount_of other k)) \<and>
     (\<forall>p asset. get_nonfungible_tokens result p asset =
        append_opt (get_nonfungible_tokens self p asset) (get_nonfungible_tokens other p asset)) \<and>
     (\<forall>p. did_pox_action result p \<longleftrightarrow> did_pox_action self p \<or> did_pox_action other p)"

lemma all_ledger: "(\<forall>k. P k) \<longleftrightarrow> (\<forall>p. P (Moved p)) \<and> (\<forall>p. P (Burned p)) \<and> (\<forall>p asset. P (Token p asset)) \<and> (\<forall>p. P (Stacked p))"
  by (metis ledger.exhaust)

lemma mergeable_iff:
  "mergeable epoch self other \<longleftrightarrow>
     sums_fit (nested_get (token_map self)) (nested_get (token_map other)) \<and>
     sums_fit (map_of (stx_map self)) (map_of (stx_map other)) \<and>
     sums_fit (map_of (burn_map self)) (map_of (burn_map other)) \<and>
     (if sums_stacking_assetmap epoch
      then sums_fit (map_of (stacking_map self)) (map_of (stacking_map other))
      else \<not> list_ex (\<lambda>(p, _). map_of (stacking_map self) p \<noteq> None) (stacking_map other))"
proof -
  have "list_ex (\<lambda>(p, _). map_of (stacking_map self) p \<noteq> None) (stacking_map other) \<longleftrightarrow>
      (\<exists>p a b. map_of (stacking_map self) p = Some a \<and> map_of (stacking_map other) p = Some b)"
  proof -
    have "list_ex (\<lambda>(p, _). map_of (stacking_map self) p \<noteq> None) (stacking_map other) \<longleftrightarrow>
        (\<exists>p \<in> dom (map_of (stacking_map other)). map_of (stacking_map self) p \<noteq> None)"
      by (simp add: list_ex_iff case_prod_unfold dom_map_of_conv_image_fst)
    then show ?thesis by (simp only: dom_def not_None_eq mem_Collect_eq) blast
  qed
  then have "(if sums_stacking_assetmap epoch then sums_fit (map_of (stacking_map self)) (map_of (stacking_map other))
      else \<not> list_ex (\<lambda>(p, _). map_of (stacking_map self) p \<noteq> None) (stacking_map other)) \<longleftrightarrow>
    (\<forall>p a b. get_stacking self p = Some a \<longrightarrow> get_stacking other p = Some b \<longrightarrow>
       unat a + unat b < 2 ^ 128 \<and> sums_stacking_assetmap epoch)"
    by (cases "sums_stacking_assetmap epoch") (simp_all only: sums_fit_def get_stacking_def if_True if_False simp_thms, blast)
  then show ?thesis
    unfolding mergeable_def all_ledger [of "\<lambda>k. \<forall>a b. amount_of self k = Some a \<longrightarrow> amount_of other k = Some b \<longrightarrow> _ k a b"]
    by (simp only: amount_of.simps is_stacked.simps get_stx_def get_stx_burned_def get_fungible_nested sums_fit_def split_paired_All)
      blast
qed

lemma amounts_to_add_stage:
  assumes "hash_wf xs"
  shows "if sums_fit current (map_of xs)
    then \<exists>ys. amounts_to_add current xs = Inr ys \<and> hash_wf ys \<and>
      (\<forall>k. (current ++ map_of ys) k = add_opt (current k) (map_of xs k))
    else amounts_to_add current xs = Inl AmountOverflow"
proof (cases "amounts_to_add current xs")
  case (Inl e)
  with amounts_to_add_Inl [OF Inl assms] show ?thesis by simp
next
  case (Inr ys)
  from amounts_to_add_Inr [OF Inr assms] have
    "sums_fit current (map_of xs)" "map fst ys = map fst xs"
    "\<forall>k. map_of ys k = Option.bind (map_of xs k) (\<lambda>b. add_opt (current k) (Some b))" by auto
  with added_lookup [of ys xs current] Inr assms show ?thesis
    by (auto simp: hash_wf_def)
qed

lemma merge_sets: "set (fold set_insert xs ys) = set ys \<union> set xs" "distinct ys \<Longrightarrow> distinct (fold set_insert xs ys)"
  by (induction xs arbitrary: ys) auto

text \<open>The stacking entries to store, in both kinds of epoch.\<close>

definition stacking_to_add :: "StacksEpochId \<Rightarrow> AssetMap \<Rightarrow> AssetMap \<Rightarrow> AssetMapError + (PrincipalData \<times> u128) list" where
  "stacking_to_add epoch self other =
     (if sums_stacking_assetmap epoch
      then amounts_to_add (map_of (stacking_map self)) (stacking_map other)
      else if list_ex (\<lambda>(p, _). map_of (stacking_map self) p \<noteq> None) (stacking_map other)
      then Inl StackingEntryConflict
      else Inr (stacking_map other))"

lemma stacking_stage:
  assumes "hash_wf (stacking_map other)"
  shows "if (if sums_stacking_assetmap epoch
      then sums_fit (map_of (stacking_map self)) (map_of (stacking_map other))
      else \<not> list_ex (\<lambda>(p, _). map_of (stacking_map self) p \<noteq> None) (stacking_map other))
    then \<exists>ys. stacking_to_add epoch self other = Inr ys \<and> hash_wf ys \<and>
      (\<forall>k. (map_of (stacking_map self) ++ map_of ys) k = add_opt (map_of (stacking_map self) k) (map_of (stacking_map other) k))
    else stacking_to_add epoch self other =
      Inl (if sums_stacking_assetmap epoch then AmountOverflow else StackingEntryConflict)"
proof (cases "sums_stacking_assetmap epoch")
  case True
  then show ?thesis
    using amounts_to_add_stage [OF assms, of "map_of (stacking_map self)"] by (simp add: stacking_to_add_def)
next
  case False
  have "(map_of (stacking_map self) ++ map_of (stacking_map other)) k =
      add_opt (map_of (stacking_map self) k) (map_of (stacking_map other) k)"
    if "\<not> list_ex (\<lambda>(p, _). map_of (stacking_map self) p \<noteq> None) (stacking_map other)" for k
  proof (cases "map_of (stacking_map other) k")
    case None
    then show ?thesis by (simp add: map_add_def add_opt_def split: option.splits)
  next
    case (Some b)
    then have "(k, b) \<in> set (stacking_map other)" by (rule map_of_SomeD)
    with that have "map_of (stacking_map self) k = None" by (fastforce simp: list_ex_iff)
    with Some show ?thesis by (simp add: map_add_def add_opt_def)
  qed
  with False assms show ?thesis by (simp add: stacking_to_add_def)
qed

lemma commit_other_eq:
  "commit_other other epoch self =
     (case rbind (amounts_to_add (nested_get (token_map self)) (token_entries (token_map other))) (\<lambda>tokens.
       rbind (amounts_to_add (map_of (stx_map self)) (stx_map other)) (\<lambda>stx.
       rbind (amounts_to_add (map_of (burn_map self)) (burn_map other)) (\<lambda>burns.
       rbind (stacking_to_add epoch self other) (\<lambda>stacking. Inr (tokens, stx, burns, stacking))))) of
       Inl e \<Rightarrow> (Inl e, self)
     | Inr (tokens, stx, burns, stacking) \<Rightarrow>
         (Inr (), self
            \<lparr>asset_map := fold append_assets (asset_map other) (asset_map self),
             stx_map := hash_extend (stx_map self) stx,
             burn_map := hash_extend (burn_map self) burns,
             stacking_map := hash_extend (stacking_map self) stacking,
             token_map := fold (\<lambda>((p, asset), amount). insert_token p asset amount) tokens (token_map self),
             pox_action_set := fold set_insert (pox_action_set other) (pox_action_set self)\<rparr>))"
proof -
  have "(\<lambda>(p, asset). get_fungible_tokens self p asset) = nested_get (token_map self)"
    by (auto simp: get_fungible_nested)
  then show ?thesis unfolding commit_other_def stacking_to_add_def by presburger
qed

lemma commit_other_merges:
  assumes wf: "wf_asset_map self" "wf_asset_map other"
  shows "case commit_other other epoch self of
      (Inl e, self') \<Rightarrow> self' = self \<and> \<not> mergeable epoch self other \<and>
         e \<in> (if sums_stacking_assetmap epoch then {AmountOverflow} else {AmountOverflow, StackingEntryConflict})
    | (Inr _, self') \<Rightarrow> mergeable epoch self other \<and> wf_asset_map self' \<and> merged self other self'"
proof -
  have wf': "hash_wf (stx_map other)" "hash_wf (burn_map other)" "hash_wf (stacking_map other)"
    "hash_wf (token_entries (token_map other))" "map_of (token_entries (token_map other)) = nested_get (token_map other)"
    "nested_wf (asset_map other)"
    using wf(2) token_entries_wf [of "token_map other"] by (auto simp: wf_asset_map_def)
  note stages = amounts_to_add_stage [OF wf'(1), of "map_of (stx_map self)"]
    amounts_to_add_stage [OF wf'(2), of "map_of (burn_map self)"] stacking_stage [OF wf'(3), of epoch self]
    amounts_to_add_stage [OF wf'(4), of "nested_get (token_map self)", unfolded wf'(5)]
  show ?thesis
  proof (cases "mergeable epoch self other")
    case True
    then have fits: "sums_fit (nested_get (token_map self)) (nested_get (token_map other))"
      "sums_fit (map_of (stx_map self)) (map_of (stx_map other))"
      "sums_fit (map_of (burn_map self)) (map_of (burn_map other))"
      "if sums_stacking_assetmap epoch then sums_fit (map_of (stacking_map self)) (map_of (stacking_map other))
       else \<not> list_ex (\<lambda>(p, _). map_of (stacking_map self) p \<noteq> None) (stacking_map other)"
      unfolding mergeable_iff by blast+
    obtain stx where stx: "amounts_to_add (map_of (stx_map self)) (stx_map other) = Inr stx" "hash_wf stx"
      "\<forall>k. (map_of (stx_map self) ++ map_of stx) k = add_opt (map_of (stx_map self) k) (map_of (stx_map other) k)"
      using stages(1) [unfolded if_P [OF fits(2)]] by blast
    obtain burns where burns: "amounts_to_add (map_of (burn_map self)) (burn_map other) = Inr burns" "hash_wf burns"
      "\<forall>k. (map_of (burn_map self) ++ map_of burns) k = add_opt (map_of (burn_map self) k) (map_of (burn_map other) k)"
      using stages(2) [unfolded if_P [OF fits(3)]] by blast
    obtain stacking where stacking: "stacking_to_add epoch self other = Inr stacking" "hash_wf stacking"
      "\<forall>k. (map_of (stacking_map self) ++ map_of stacking) k = add_opt (map_of (stacking_map self) k) (map_of (stacking_map other) k)"
      using stages(3) [unfolded if_P [OF fits(4)]] by blast
    obtain tokens where tokens:
      "amounts_to_add (nested_get (token_map self)) (token_entries (token_map other)) = Inr tokens" "hash_wf tokens"
      "\<forall>k. (nested_get (token_map self) ++ map_of tokens) k = add_opt (nested_get (token_map self) k) (nested_get (token_map other) k)"
      using stages(4) [unfolded if_P [OF fits(1)]] by blast
    note r = tokens(1) stx(1) burns(1) stacking(1) and w = tokens(2) stx(2) burns(2) stacking(2)
      and v = tokens(3) stx(3) burns(3) stacking(3)
    have "wf_asset_map (snd (commit_other other epoch self))"
      using wf(1) by (simp add: commit_other_eq r wf_asset_map_def append_assets_wf merge_sets tokens.invar_fold_ins)
    moreover have "merged self other (snd (commit_other other epoch self))"
      using w v wf'(6) unfolding merged_def all_ledger hash_wf_def
      by (simp add: commit_other_eq r get_stx_def get_stx_burned_def get_stacking_def get_fungible_nested get_nonfungible_nested
          did_pox_action_def merge_sets append_assets_get map_of_hash_extend tokens.get_fold_ins)
    moreover have "fst (commit_other other epoch self) = Inr ()"
      by (simp add: commit_other_eq r)
    ultimately show ?thesis using True by (simp add: case_prod_unfold)
  next
    case False
    then have "\<not> (sums_fit (nested_get (token_map self)) (nested_get (token_map other)) \<and>
        sums_fit (map_of (stx_map self)) (map_of (stx_map other)) \<and> sums_fit (map_of (burn_map self)) (map_of (burn_map other))) \<or>
      stacking_to_add epoch self other = Inl (if sums_stacking_assetmap epoch then AmountOverflow else StackingEntryConflict)"
      using stages(3) unfolding mergeable_iff by presburger
    then have "rbind (amounts_to_add (nested_get (token_map self)) (token_entries (token_map other))) (\<lambda>tokens.
       rbind (amounts_to_add (map_of (stx_map self)) (stx_map other)) (\<lambda>stx.
       rbind (amounts_to_add (map_of (burn_map self)) (burn_map other)) (\<lambda>burns.
       rbind (stacking_to_add epoch self other) (\<lambda>stacking. Inr (tokens, stx, burns, stacking))))) \<in>
       Inl ` (if sums_stacking_assetmap epoch then {AmountOverflow} else {AmountOverflow, StackingEntryConflict})"
      using stages(1,2,4) by (auto split: if_splits)
    with False show ?thesis by (auto simp: commit_other_eq split: if_splits)
  qed
qed

section \<open>Recording events\<close>

datatype AssetEvent =
    Add ledger u128
  | SendAsset PrincipalData AssetIdentifier Value
  | PoxAction PrincipalData

fun record_event :: "StacksEpochId \<Rightarrow> AssetEvent \<Rightarrow> unit recording" where
  "record_event epoch (Add (Moved p) amount) = add_stx_transfer p amount"
| "record_event epoch (Add (Burned p) amount) = add_stx_burn p amount"
| "record_event epoch (Add (Token p asset) amount) = add_token_transfer p asset amount"
| "record_event epoch (Add (Stacked p) amount) = add_stacking p amount epoch"
| "record_event epoch (SendAsset p asset v) = (\<lambda>self. (Inr (), add_asset_transfer p asset v self))"
| "record_event epoch (PoxAction p) = (\<lambda>self. (Inr (), add_pox_action p self))"

fun record_events :: "StacksEpochId \<Rightarrow> AssetEvent list \<Rightarrow> unit recording" where
  "record_events epoch [] = sret ()"
| "record_events epoch (e # es) = sthen (record_event epoch e) (record_events epoch es)"

definition nfts_of :: "AssetMap \<Rightarrow> PrincipalData \<times> AssetIdentifier \<Rightarrow> Value list option" where
  "nfts_of self = (\<lambda>(p, asset). get_nonfungible_tokens self p asset)"

definition same_contents :: "AssetMap \<Rightarrow> AssetMap \<Rightarrow> bool" where
  "same_contents x y \<longleftrightarrow> amount_of x = amount_of y \<and> nfts_of x = nfts_of y \<and> did_pox_action x = did_pox_action y"

text \<open>What an event does to the contents of a map, when stacked amounts are summed.\<close>

fun event_fits :: "AssetEvent \<Rightarrow> AssetMap \<Rightarrow> bool" where
  "event_fits (Add k a) self \<longleftrightarrow> (\<forall>c. amount_of self k = Some c \<longrightarrow> unat c + unat a < 2 ^ 128)"
| "event_fits _ self \<longleftrightarrow> True"

fun event_added :: "AssetEvent \<Rightarrow> AssetMap \<Rightarrow> AssetMap \<Rightarrow> bool" where
  "event_added (Add k a) self result \<longleftrightarrow>
     amount_of result = (amount_of self)(k := add_opt (amount_of self k) (Some a)) \<and>
     nfts_of result = nfts_of self \<and> did_pox_action result = did_pox_action self"
| "event_added (SendAsset p asset v) self result \<longleftrightarrow>
     amount_of result = amount_of self \<and> did_pox_action result = did_pox_action self \<and>
     nfts_of result = (nfts_of self)((p, asset) := append_opt (nfts_of self (p, asset)) (Some [v]))"
| "event_added (PoxAction p) self result \<longleftrightarrow>
     amount_of result = amount_of self \<and> nfts_of result = nfts_of self \<and>
     did_pox_action result = (did_pox_action self)(p := True)"

lemma amount_of_upd:
  "(amount_of x = (amount_of y)(k := v)) \<longleftrightarrow> (\<forall>j. amount_of x j = (if j = k then v else amount_of y j))"
  by (auto simp: fun_eq_iff)

lemma nfts_of_nested: "nfts_of self = nested_get (asset_map self)"
  by (auto simp: nfts_of_def get_nonfungible_nested)

lemmas lookups = get_stx_def get_stx_burned_def get_stacking_def get_fungible_nested nfts_of_nested did_pox_action_def

fun set_amount :: "ledger \<Rightarrow> u128 \<Rightarrow> AssetMap \<Rightarrow> AssetMap" where
  "set_amount (Moved p) c self = self\<lparr>stx_map := hash_insert p c (stx_map self)\<rparr>"
| "set_amount (Burned p) c self = self\<lparr>burn_map := hash_insert p c (burn_map self)\<rparr>"
| "set_amount (Token p asset) c self = self\<lparr>token_map := insert_token p asset c (token_map self)\<rparr>"
| "set_amount (Stacked p) c self = self\<lparr>stacking_map := hash_insert p c (stacking_map self)\<rparr>"

lemma set_amount_contents:
  "amount_of (set_amount k c self) = (amount_of self)(k \<mapsto> c)"
  "nfts_of (set_amount k c self) = nfts_of self" "did_pox_action (set_amount k c self) = did_pox_action self"
  by (rule ext, rename_tac j, case_tac j; cases k)
    (auto simp: lookups fun_eq_iff insert_token_def nested_get_insert intro: ledger.exhaust [of k])

lemma set_amount_wf: "wf_asset_map self \<Longrightarrow> wf_asset_map (set_amount k c self)"
  using tokens.invar_ins [of "token_map self"] by (cases k) (auto simp: wf_asset_map_def)

lemma record_add:
  assumes "sums_stacking_assetmap epoch"
  shows "record_event epoch (Add k a) self =
     (case next_amount (amount_of self k) a of
        Inl e \<Rightarrow> (Inl e, self)
      | Inr c \<Rightarrow> (Inr (), set_amount k c self))"
  using assms unat_lt_exp [of a]
  by (cases k)
    (auto simp: add_stx_transfer_def add_stx_burn_def add_token_transfer_def add_stacking_def next_amount_def
      get_stx_def get_stx_burned_def get_stacking_def checked_add_def split: option.splits)

lemma record_event_cases:
  assumes "sums_stacking_assetmap epoch" "wf_asset_map self"
  shows "case record_event epoch e self of
      (Inl err, self') \<Rightarrow> err = AmountOverflow \<and> self' = self \<and> \<not> event_fits e self
    | (Inr _, self') \<Rightarrow> event_fits e self \<and> event_added e self self' \<and> wf_asset_map self'"
proof (cases e)
  case (Add k a)
  show ?thesis
  proof (cases "next_amount (amount_of self k) a")
    case (Inl err)
    with next_amount_Inl [THEN iffD1, OF Inl] show ?thesis by (simp add: Add record_add [OF assms(1)])
  next
    case (Inr c)
    with next_amount_eq [THEN iffD1, OF Inr] assms show ?thesis
      by (simp add: Add record_add set_amount_contents set_amount_wf)
  qed
next
  case (SendAsset p asset v)
  then show ?thesis using assms(2)
    by (auto simp: add_asset_transfer_def wf_asset_map_def append_values_wf lookups append_values_get fun_eq_iff
        all_ledger [of "\<lambda>k. amount_of _ k = amount_of _ k"])
next
  case (PoxAction p)
  then show ?thesis using assms(2)
    by (auto simp: add_pox_action_def wf_asset_map_def lookups fun_eq_iff all_ledger [of "\<lambda>k. amount_of _ k = amount_of _ k"])
qed

lemma record_event_Inr:
  assumes "sums_stacking_assetmap epoch" "wf_asset_map self"
  shows "record_event epoch e self = (Inr u, self') \<Longrightarrow> event_fits e self \<and> event_added e self self' \<and> wf_asset_map self'"
  using record_event_cases [OF assms, of e] by simp

lemma record_event_fits:
  assumes "sums_stacking_assetmap epoch" "wf_asset_map self" "event_fits e self"
  obtains self' where "record_event epoch e self = (Inr (), self')"
  using record_event_cases [OF assms(1,2), of e] assms(3)
  by (cases "record_event epoch e self"; cases "fst (record_event epoch e self)") auto

lemma record_event_Inl:
  assumes "sums_stacking_assetmap epoch" "wf_asset_map self"
  shows "record_event epoch e self = (Inl err, self') \<Longrightarrow> err = AmountOverflow \<and> \<not> event_fits e self"
  using record_event_cases [OF assms, of e] by simp

lemma new_asset_map_empty:
  "wf_asset_map new_asset_map" "amount_of new_asset_map = (\<lambda>_. None)" "nfts_of new_asset_map = (\<lambda>_. None)"
  "did_pox_action new_asset_map = (\<lambda>_. False)"
proof -
  have "amount_of new_asset_map k = None" for k
    by (cases k) (simp_all add: new_asset_map_def lookups nested_get_def)
  then show "amount_of new_asset_map = (\<lambda>_. None)" by blast
qed (auto simp: new_asset_map_def wf_asset_map_def nfts_of_nested nested_get_def did_pox_action_def)

lemma merged_iff:
  "merged self other result \<longleftrightarrow>
     amount_of result = (\<lambda>k. add_opt (amount_of self k) (amount_of other k)) \<and>
     nfts_of result = (\<lambda>k. append_opt (nfts_of self k) (nfts_of other k)) \<and>
     did_pox_action result = (\<lambda>p. did_pox_action self p \<or> did_pox_action other p)"
  by (auto simp: merged_def nfts_of_def fun_eq_iff)

lemma add_opt_assoc: "add_opt (add_opt a b) c = add_opt a (add_opt b c)"
  by (auto simp: add_opt_def add.assoc split: option.splits)

lemma append_opt_assoc: "append_opt (append_opt a b) c = append_opt a (append_opt b c)"
  by (auto simp: append_opt_def split: option.splits)

lemma event_added_merged:
  assumes "merged self child direct" "event_added e child child'" "event_added e direct direct'"
  shows "merged self child' direct'"
  using assms by (cases e) (auto simp: merged_iff fun_eq_iff add_opt_assoc append_opt_assoc simp del: append_opt_simps)

lemma unat_add_opt:
  "unat a + unat b < 2 ^ 128 \<Longrightarrow> unat (a + b) = unat a + unat b" for a b :: u128
  by (simp add: unat_word_ariths)

lemma mergeable_sums:
  "sums_stacking_assetmap epoch \<Longrightarrow> mergeable epoch self other \<longleftrightarrow> sums_fit (amount_of self) (amount_of other)"
  by (simp add: mergeable_def sums_fit_def)

lemma event_fits_child:
  assumes "sums_fit (amount_of self) (amount_of child)" "merged self child direct" "event_fits e direct"
  shows "event_fits e child"
proof (cases e)
  case (Add k a)
  show ?thesis
  proof (cases "amount_of self k")
    case None
    with assms Add show ?thesis by (auto simp: merged_iff add_opt_def)
  next
    case (Some x)
    then have "amount_of child k = Some c \<Longrightarrow> unat (x + c) = unat x + unat c" for c
      using assms(1) by (auto simp: sums_fit_def unat_add_opt)
    with Some assms(2,3) Add show ?thesis by (auto simp: merged_iff add_opt_def)
  qed
qed auto

lemma event_fits_direct:
  assumes "sums_fit (amount_of self) (amount_of child)" "merged self child direct"
    "event_fits e child" "event_added e child child'"
  shows "event_fits e direct \<longleftrightarrow> sums_fit (amount_of self) (amount_of child')"
proof (cases e)
  case (Add k a)
  define c where "c = amount_of child k"
  define c' where "c' = add_opt c (Some a)"
  have child': "amount_of child' = (amount_of child)(k := c')" using assms(4) Add by (simp add: c_def c'_def)
  have "sums_fit (amount_of self) (amount_of child') \<longleftrightarrow>
      (\<forall>x b. amount_of self k = Some x \<longrightarrow> c' = Some b \<longrightarrow> unat x + unat b < 2 ^ 128)"
    unfolding child' using assms(1) unfolding sums_fit_def by (auto split: if_splits)
  moreover have "amount_of direct k = add_opt (amount_of self k) c" using assms(2) by (simp add: merged_iff c_def)
  moreover have "\<forall>x y. amount_of self k = Some x \<longrightarrow> c = Some y \<longrightarrow> unat (x + y) = unat x + unat y"
    using assms(1) by (auto simp: sums_fit_def c_def unat_add_opt)
  moreover have "\<forall>y. c = Some y \<longrightarrow> unat y + unat a < 2 ^ 128 \<and> unat (y + a) = unat y + unat a"
    using assms(3) Add by (auto simp: c_def unat_add_opt)
  ultimately show ?thesis
    by (cases "amount_of self k"; cases c) (use assms(3) Add in \<open>auto simp: add_opt_def c'_def add.assoc\<close>)
qed (use assms in auto)

lemma event_keeps_overflow:
  assumes "event_fits e child" "event_added e child child'" "sums_fit current (amount_of child')"
  shows "sums_fit current (amount_of child)"
proof (cases e)
  case (Add k a)
  show ?thesis unfolding sums_fit_def
  proof (intro allI impI)
    fix j x c assume j: "current j = Some x" "amount_of child j = Some c"
    show "unat x + unat c < 2 ^ 128"
    proof (cases "j = k")
      case True
      with j assms(1,2) Add have "amount_of child' j = Some (c + a)" "unat (c + a) = unat c + unat a"
        by (auto simp: add_opt_def unat_add_opt)
      with j assms(3) have "unat x + (unat c + unat a) < 2 ^ 128" unfolding sums_fit_def by metis
      then show ?thesis by linarith
    next
      case False
      with j assms(2,3) Add show ?thesis by (simp add: sums_fit_def)
    qed
  qed
qed (use assms in auto)

lemma events_result:
  assumes "sums_stacking_assetmap epoch" "wf_asset_map child"
  shows "case record_events epoch es child of
      (Inl err, _) \<Rightarrow> err = AmountOverflow
    | (Inr _, child') \<Rightarrow> wf_asset_map child' \<and> (sums_fit current (amount_of child') \<longrightarrow> sums_fit current (amount_of child))"
  using assms(2)
proof (induction es arbitrary: child)
  case (Cons e es)
  show ?case
  proof (cases "event_fits e child")
    case True
    with record_event_fits [OF assms(1) Cons.prems] obtain child' where r: "record_event epoch e child = (Inr (), child')"
      by blast
    with record_event_Inr [OF assms(1) Cons.prems] have "event_added e child child'" "wf_asset_map child'" by auto
    with Cons.IH [of child'] event_keeps_overflow [OF True] show ?thesis
      by (simp add: sthen_def sbind_def r split: prod.splits sum.splits)
  next
    case False
    with record_event_cases [OF assms(1) Cons.prems, of e] show ?thesis
      by (auto simp: sthen_def sbind_def split: prod.splits sum.splits)
  qed
qed (simp add: sret_def)

lemma record_events_step:
  "record_event epoch e self = (Inr u, self') \<Longrightarrow> record_events epoch (e # es) self = record_events epoch es self'"
  by (simp add: sthen_def sbind_def)

lemma nested_events:
  assumes "sums_stacking_assetmap epoch" "wf_asset_map child" "wf_asset_map direct"
    "sums_fit (amount_of self) (amount_of child)" "merged self child direct"
  shows "case record_events epoch es direct of
      (Inl err, _) \<Rightarrow> err = AmountOverflow \<and>
        (case record_events epoch es child of
           (Inl err', _) \<Rightarrow> err' = AmountOverflow
         | (Inr _, child') \<Rightarrow> wf_asset_map child' \<and> \<not> sums_fit (amount_of self) (amount_of child'))
    | (Inr _, direct') \<Rightarrow> \<exists>child'. record_events epoch es child = (Inr (), child') \<and> wf_asset_map child' \<and>
        sums_fit (amount_of self) (amount_of child') \<and> merged self child' direct'"
  using assms(2-)
proof (induction es arbitrary: child direct)
  case (Cons e es)
  note sums = assms(1) and prems = Cons.prems
  show ?case
  proof (cases "event_fits e direct")
    case True
    with event_fits_child [OF prems(3,4)] have fits: "event_fits e child" by blast
    from record_event_fits [OF sums prems(1) fits] obtain child' where c: "record_event epoch e child = (Inr (), child')" .
    from record_event_fits [OF sums prems(2) True] obtain direct' where d: "record_event epoch e direct = (Inr (), direct')" .
    from record_event_Inr [OF sums prems(1) c] record_event_Inr [OF sums prems(2) d]
    have added: "event_added e child child'" "wf_asset_map child'" "event_added e direct direct'" "wf_asset_map direct'" by auto
    have "sums_fit (amount_of self) (amount_of child')"
      using event_fits_direct [OF prems(3,4) fits added(1)] True by blast
    from Cons.IH [OF added(2,4) this event_added_merged [OF prems(4) added(1,3)]] show ?thesis
      unfolding record_events_step [OF c] record_events_step [OF d] .
  next
    case False
    then obtain err direct' where d: "record_event epoch e direct = (Inl err, direct')" "err = AmountOverflow"
      using record_event_cases [OF sums prems(2), of e] by (auto split: prod.splits sum.splits)
    show ?thesis
    proof (cases "event_fits e child")
      case True
      from record_event_fits [OF sums prems(1) True] obtain child' where c: "record_event epoch e child = (Inr (), child')" .
      with record_event_Inr [OF sums prems(1) c] have added: "event_added e child child'" "wf_asset_map child'" by auto
      with False event_fits_direct [OF prems(3,4) True added(1)] have "\<not> sums_fit (amount_of self) (amount_of child')" by blast
      with events_result [OF sums added(2), where es = es and current = "amount_of self"] show ?thesis
        by (auto simp: sthen_def sbind_def c d split: prod.splits sum.splits)
    next
      case False
      with record_event_cases [OF sums prems(1), of e] show ?thesis
        by (auto simp: sthen_def sbind_def d split: prod.splits sum.splits)
    qed
  qed
qed (simp add: sret_def)

section \<open>The contents of the table\<close>

lemma map_of_singles: "map_of (map (\<lambda>(p, amount). (p, [(asset, f amount)])) m) q = map_option (\<lambda>amount. [(asset, f amount)]) (map_of m q)"
  by (induction m) auto

lemma nested_get_singles:
  "nested_get (map (\<lambda>(p, amount). (p, [(asset, f amount)])) m) (q, a) = (if a = asset then map_option f (map_of m q) else None)"
  by (auto simp: nested_get_def map_of_singles Option.bind_map_option split: bind_splits)

lemma map_of_inner: "map_of (map (\<lambda>(asset, v). (asset, f v)) inner) a = map_option f (map_of inner a)"
  by (induction inner) auto

lemma nested_get_inner:
  "nested_get (map (\<lambda>(p, inner). (p, map (\<lambda>(asset, v). (asset, f v)) inner)) m) k = map_option f (nested_get m k)"
proof (induction m)
  case (Cons x m)
  then show ?case by (cases x; cases k) (simp add: nested_get_Cons map_of_inner)
qed (simp add: nested_get_def split: prod.splits)

lemma hash_wf_map_values: "hash_wf (map (\<lambda>(k, v). (k, f v)) m) \<longleftrightarrow> hash_wf m"
  by (simp add: hash_wf_def comp_def case_prod_unfold)

lemma nested_wf_singles: "hash_wf m \<Longrightarrow> nested_wf (map (\<lambda>(p, amount). (p, [(asset, f amount)])) m)"
  by (auto simp: nested_wf_def hash_wf_map_values hash_wf_def comp_def case_prod_unfold)

lemma nested_wf_inner: "nested_wf m \<Longrightarrow> nested_wf (map (\<lambda>(p, inner). (p, map (\<lambda>(asset, v). (asset, f v)) inner)) m)"
  by (auto simp: nested_wf_def hash_wf_map_values)

lemma extend_entry_get:
  "hash_wf entries \<Longrightarrow>
     nested_get (extend_entry p entries t) (q, a) =
       (case (if q = p then map_of entries a else None) of None \<Rightarrow> nested_get t (q, a) | Some e \<Rightarrow> Some e)"
  by (cases "map_of t p")
    (auto simp: extend_entry_def nested_get_def map_of_hash_extend hash_wf_def map_add_def split: option.splits)

lemma extend_entries_get:
  "nested_wf xs \<Longrightarrow> nested_get (fold (\<lambda>(p, entries). extend_entry p entries) xs t) = nested_get t ++ nested_get xs"
proof (induction xs arbitrary: t)
  case (Cons x xs)
  obtain p inner where x: "x = (p, inner)" by fastforce
  with Cons.prems have wf: "nested_wf xs" "hash_wf inner" "map_of xs p = None"
    by (auto simp: nested_wf_def hash_wf_def map_of_eq_None_iff)
  show ?case
  proof
    fix k
    show "nested_get (fold (\<lambda>(p, entries). extend_entry p entries) (x # xs) t) k = (nested_get t ++ nested_get (x # xs)) k"
      by (cases k) (auto simp: x Cons.IH [OF wf(1)] map_add_def extend_entry_get [OF wf(2)] nested_get_Cons
          nested_get_None [OF wf(3)] split: option.splits)
  qed
qed (simp add: nested_get_def fun_eq_iff map_add_def)

lemma extend_entries_wf:
  "nested_wf t \<Longrightarrow> nested_wf (fold (\<lambda>(p, entries). extend_entry p entries) xs t)"
  by (induction xs arbitrary: t) (auto simp: extend_entry_def nested_wf_insert nested_wf_get)

lemma to_table_folds:
  "to_table self =
     fold (\<lambda>(p, entries). extend_entry p entries) (map (\<lambda>(p, inner). (p, map (\<lambda>(asset, v). (asset, EntryAsset v)) inner)) (asset_map self))
     (fold (\<lambda>(p, entries). extend_entry p entries) (map (\<lambda>(p, amount). (p, [(STX_burned, EntryBurn amount)])) (burn_map self))
     (fold (\<lambda>(p, entries). extend_entry p entries) (map (\<lambda>(p, amount). (p, [(STX, EntrySTX amount)])) (stx_map self))
     (fold (\<lambda>(p, entries). extend_entry p entries) (map (\<lambda>(p, inner). (p, map (\<lambda>(asset, v). (asset, EntryToken v)) inner)) (token_map self)) [])))"
  by (simp add: to_table_def fold_map comp_def case_prod_unfold)

lemma to_table_wf: "nested_wf (to_table self)"
  by (simp add: to_table_folds extend_entries_wf)

lemma STX_not_burned [simp]: "STX \<noteq> STX_burned" "STX_burned \<noteq> STX"
  by (simp_all add: STX_def STX_burned_def)

lemma to_table_get:
  assumes "wf_asset_map self"
  shows "nested_get (to_table self) (p, asset) =
    (case nested_get (asset_map self) (p, asset) of
       Some vs \<Rightarrow> Some (EntryAsset vs)
     | None \<Rightarrow>
         (case (if asset = STX then map_option EntrySTX (get_stx self p)
                else if asset = STX_burned then map_option EntryBurn (get_stx_burned self p) else None) of
            Some e \<Rightarrow> Some e
          | None \<Rightarrow> map_option EntryToken (get_fungible_tokens self p asset)))"
proof -
  have wf: "nested_wf (token_map self)" "nested_wf (asset_map self)" "hash_wf (stx_map self)" "hash_wf (burn_map self)"
    using assms by (auto simp: wf_asset_map_def)
  show ?thesis
    unfolding to_table_folds extend_entries_get [OF nested_wf_inner [OF wf(2)]] extend_entries_get [OF nested_wf_singles [OF wf(4)]]
      extend_entries_get [OF nested_wf_singles [OF wf(3)]] extend_entries_get [OF nested_wf_inner [OF wf(1)]]
    by (auto simp: map_add_def nested_get_inner nested_get_singles get_stx_def get_stx_burned_def get_fungible_nested
        nested_get_def [of "[]"] split: option.splits)
qed

text \<open>
  (C10) A nested call that records its asset movements in a map of its own, which is then merged
  into the map of the caller, is indistinguishable from recording the movements in the map of the
  caller directly, from epoch 4.0 on: the two succeed on the same movements, the contents are the
  same, and when the amounts do not fit both report the overflow and the merge leaves the
  caller's map as it was.
\<close>

theorem nested_recording_is_inline_recording:
  assumes "sums_stacking_assetmap epoch" "wf_asset_map self"
  shows "let (direct, direct_map) = record_events epoch es self;
             (nested, nested_map) =
               (case record_events epoch es new_asset_map of
                  (Inl e, _) \<Rightarrow> (Inl e, self)
                | (Inr _, child) \<Rightarrow> commit_other child epoch self)
         in nested = direct \<and>
            (case direct of Inl e \<Rightarrow> e = AmountOverflow \<and> nested_map = self
             | Inr _ \<Rightarrow> wf_asset_map nested_map \<and> same_contents nested_map direct_map)"
proof -
  have new: "wf_asset_map new_asset_map" "sums_fit (amount_of self) (amount_of new_asset_map)" "merged self new_asset_map self"
    by (simp_all add: new_asset_map_empty sums_fit_def merged_iff add_opt_def option.case_eq_if fun_eq_iff)
  note nested = nested_events [OF assms(1) new(1) assms(2) new(2,3), of es]
  show ?thesis
  proof (cases "record_events epoch es new_asset_map")
    case (Pair r child)
    show ?thesis
    proof (cases r)
      case (Inl e)
      with nested Pair show ?thesis by (auto split: prod.splits sum.splits)
    next
      case (Inr u)
      with nested Pair have "wf_asset_map child" by (auto split: prod.splits sum.splits)
      from commit_other_merges [OF assms(2) this, of epoch] nested Pair Inr assms(1) show ?thesis
        by (auto simp: mergeable_sums merged_iff same_contents_def split: prod.splits sum.splits)
    qed
  qed
qed

theorem nested_recording_is_inline_recording_witness:
  "let p = Standard null_principal; es = [Add (Moved p) 3, Add (Stacked p) 2, Add (Moved p) 4]
   in fst (case record_events Epoch40 es new_asset_map of
             (Inl e, _) \<Rightarrow> (Inl e, new_asset_map)
           | (Inr _, child) \<Rightarrow> commit_other child Epoch40 new_asset_map) =
      fst (record_events Epoch40 es new_asset_map)"
proof -
  have "sums_stacking_assetmap Epoch40" "wf_asset_map new_asset_map"
    by (simp_all add: sums_stacking_assetmap_def new_asset_map_def wf_asset_map_def)
  from nested_recording_is_inline_recording [OF this]
  have "fst (case record_events Epoch40 es new_asset_map of
             (Inl e, _) \<Rightarrow> (Inl e, new_asset_map)
           | (Inr _, child) \<Rightarrow> commit_other child Epoch40 new_asset_map) = fst (record_events Epoch40 es new_asset_map)" for es
    by (simp add: Let_def case_prod_unfold)
  then show ?thesis by (simp only: Let_def)
qed

lemma epoch34_does_not_sum: "\<not> sums_stacking_assetmap Epoch34"
  by (simp add: sums_stacking_assetmap_def less_eq_StacksEpochId_def)

text \<open>
  (C9) Merging a nested map is atomic and adds up: it succeeds exactly when no sum of two recorded
  amounts overflows and, before epoch 4.0, no principal has a stacking entry in both maps; then
  every amount is the sum of the two, the non-fungible values of the nested map follow those of the
  outer one, and the PoX actions are united. When it fails nothing of the outer map changes.
\<close>

theorem commit_other_merges_or_keeps:
  assumes "wf_asset_map self" "wf_asset_map other"
  shows "case commit_other other epoch self of
      (Inl e, self') \<Rightarrow> self' = self \<and> \<not> mergeable epoch self other \<and>
         e \<in> (if sums_stacking_assetmap epoch then {AmountOverflow} else {AmountOverflow, StackingEntryConflict})
    | (Inr _, self') \<Rightarrow> mergeable epoch self other \<and> wf_asset_map self' \<and> merged self other self'"
  by (rule commit_other_merges [OF assms])

theorem commit_other_merges_or_keeps_witness:
  "let p = Standard null_principal;
       self = new_asset_map\<lparr>stacking_map := [(p, 1)]\<rparr>
   in wf_asset_map self \<and> snd (commit_other self Epoch34 self) = self \<and> fst (commit_other self Epoch34 self) \<noteq> Inr ()"
proof -
  let ?p = "Standard null_principal"
  let ?self = "new_asset_map\<lparr>stacking_map := [(?p, 1)]\<rparr>"
  have wf: "wf_asset_map ?self" by (simp add: new_asset_map_def wf_asset_map_def hash_wf_def)
  have "amount_of ?self (Stacked ?p) = Some 1" by (simp add: get_stacking_def)
  then have "\<not> mergeable Epoch34 ?self ?self"
    unfolding mergeable_def by (metis is_stacked.simps(1) epoch34_does_not_sum)
  with commit_other_merges_or_keeps [OF wf wf, of Epoch34] wf show ?thesis
    by (simp add: Let_def split: prod.splits sum.splits)
qed

end
