(* ===== verification/ExecutionCosts.thy ===== *)
theory ExecutionCosts
  imports Prelude
begin

text \<open>
  Execution costs (\<open>clarity/src/vm/costs/execution_cost.rs\<close>, \<open>clarity/src/vm/costs/errors.rs\<close>):
  the five cost dimensions and their overflow-checked arithmetic. The in-place operations
  update the fields one after the other, so an overflow in a later field leaves the earlier
  ones updated; they are modelled as methods that return the state they leave.
\<close>

section \<open>Costs and cost errors\<close>

record ExecutionCost =
  write_length :: u64
  write_count :: u64
  read_length :: u64
  read_count :: u64
  runtime :: u64

datatype CostErrors =
    CostOverflow
  | CostBalanceExceeded ExecutionCost ExecutionCost
  | MemoryBalanceExceeded u64 u64
  | CostContractLoadFailure
  | CostComputationFailed string
  | InterpreterFailure
  | CostExpect string

fun cost_error_rejectable :: "CostErrors \<Rightarrow> bool" where
  "cost_error_rejectable InterpreterFailure \<longleftrightarrow> True"
| "cost_error_rejectable (CostExpect _) \<longleftrightarrow> True"
| "cost_error_rejectable _ \<longleftrightarrow> False"

definition cost_overflow_mul :: "u64 \<Rightarrow> u64 \<Rightarrow> CostErrors + u64" where
  "cost_overflow_mul a b = ok_or (checked_mul a b) CostOverflow"

definition cost_overflow_add :: "u64 \<Rightarrow> u64 \<Rightarrow> CostErrors + u64" where
  "cost_overflow_add a b = ok_or (checked_add a b) CostOverflow"

definition cost_overflow_sub :: "u64 \<Rightarrow> u64 \<Rightarrow> CostErrors + u64" where
  "cost_overflow_sub a b = ok_or (checked_sub a b) CostOverflow"

definition cost_overflow_div :: "u64 \<Rightarrow> u64 \<Rightarrow> CostErrors + u64" where
  "cost_overflow_div a b = ok_or (checked_div a b) CostOverflow"

section \<open>Operations\<close>

definition ZERO_COST :: ExecutionCost where
  "ZERO_COST =
     \<lparr>write_length = 0, write_count = 0, read_length = 0, read_count = 0, runtime = 0\<rparr>"

definition max_value_cost :: ExecutionCost where
  "max_value_cost =
     \<lparr>write_length = - 1, write_count = - 1, read_length = - 1, read_count = - 1, runtime = - 1\<rparr>"

definition runtime_cost_of :: "u64 \<Rightarrow> ExecutionCost" where
  "runtime_cost_of r = ZERO_COST\<lparr>runtime := r\<rparr>"

definition add_runtime :: "u64 \<Rightarrow> (ExecutionCost, CostErrors, unit) meth" where
  "add_runtime r =
     sbind (sget runtime) (\<lambda>x.
     sbind (slift (cost_overflow_add x r)) (\<lambda>y. smodify (runtime_update (\<lambda>_. y))))"

text \<open>One field update \<open>self.f = self.f.op(x)?\<close> of the in-place operations.\<close>

definition update_field ::
  "('c \<Rightarrow> 'x) \<Rightarrow> (('x \<Rightarrow> 'x) \<Rightarrow> 'c \<Rightarrow> 'c) \<Rightarrow> ('x \<Rightarrow> 'e + 'x) \<Rightarrow> ('c, 'e, unit) meth" where
  "update_field get upd f =
     sbind (sget get) (\<lambda>x. sbind (slift (f x)) (\<lambda>y. smodify (upd (\<lambda>_. y))))"

definition cost_add :: "ExecutionCost \<Rightarrow> (ExecutionCost, CostErrors, unit) meth" where
  "cost_add other =
     sthen (update_field runtime runtime_update (\<lambda>x. cost_overflow_add x (runtime other)))
     (sthen (update_field read_count read_count_update (\<lambda>x. cost_overflow_add x (read_count other)))
     (sthen (update_field read_length read_length_update (\<lambda>x. cost_overflow_add x (read_length other)))
     (sthen (update_field write_length write_length_update (\<lambda>x. cost_overflow_add x (write_length other)))
      (update_field write_count write_count_update (\<lambda>x. cost_overflow_add x (write_count other))))))"

definition cost_sub :: "ExecutionCost \<Rightarrow> (ExecutionCost, CostErrors, unit) meth" where
  "cost_sub other =
     sthen (update_field runtime runtime_update (\<lambda>x. cost_overflow_sub x (runtime other)))
     (sthen (update_field read_count read_count_update (\<lambda>x. cost_overflow_sub x (read_count other)))
     (sthen (update_field read_length read_length_update (\<lambda>x. cost_overflow_sub x (read_length other)))
     (sthen (update_field write_length write_length_update (\<lambda>x. cost_overflow_sub x (write_length other)))
      (update_field write_count write_count_update (\<lambda>x. cost_overflow_sub x (write_count other))))))"

definition cost_multiply :: "u64 \<Rightarrow> (ExecutionCost, CostErrors, unit) meth" where
  "cost_multiply factor =
     sthen (update_field runtime runtime_update (\<lambda>x. cost_overflow_mul x factor))
     (sthen (update_field read_count read_count_update (\<lambda>x. cost_overflow_mul x factor))
     (sthen (update_field read_length read_length_update (\<lambda>x. cost_overflow_mul x factor))
     (sthen (update_field write_length write_length_update (\<lambda>x. cost_overflow_mul x factor))
      (update_field write_count write_count_update (\<lambda>x. cost_overflow_mul x factor)))))"

definition cost_divide :: "u64 \<Rightarrow> (ExecutionCost, CostErrors, unit) meth" where
  "cost_divide divisor =
     sthen (update_field runtime runtime_update (\<lambda>x. cost_overflow_div x divisor))
     (sthen (update_field read_count read_count_update (\<lambda>x. cost_overflow_div x divisor))
     (sthen (update_field read_length read_length_update (\<lambda>x. cost_overflow_div x divisor))
     (sthen (update_field write_length write_length_update (\<lambda>x. cost_overflow_div x divisor))
      (update_field write_count write_count_update (\<lambda>x. cost_overflow_div x divisor)))))"

definition exceeds :: "ExecutionCost \<Rightarrow> ExecutionCost \<Rightarrow> bool" where
  "exceeds a b \<longleftrightarrow>
     runtime a > runtime b \<or> write_length a > write_length b \<or> write_count a > write_count b \<or>
     read_count a > read_count b \<or> read_length a > read_length b"

definition max_cost :: "ExecutionCost \<Rightarrow> ExecutionCost \<Rightarrow> ExecutionCost" where
  "max_cost first second =
     \<lparr>write_length = max (write_length first) (write_length second),
      write_count = max (write_count first) (write_count second),
      read_length = max (read_length first) (read_length second),
      read_count = max (read_count first) (read_count second),
      runtime = max (runtime first) (runtime second)\<rparr>"

definition proportion_largest_dimension :: "ExecutionCost \<Rightarrow> ExecutionCost \<Rightarrow> u64" where
  "proportion_largest_dimension self numerator =
     Max (set [runtime numerator div max 1 (runtime self div 100),
               write_length numerator div max 1 (write_length self div 100),
               write_count numerator div max 1 (write_count self div 100),
               read_length numerator div max 1 (read_length self div 100),
               read_count numerator div max 1 (read_count self div 100)])"

definition is_zero_cost :: "ExecutionCost \<Rightarrow> bool" where
  "is_zero_cost c \<longleftrightarrow> c = ZERO_COST"

section \<open>Costs as vectors of natural numbers\<close>

text \<open>The five dimensions of a cost, in the order in which the in-place operations visit them.\<close>

definition dims :: "ExecutionCost \<Rightarrow> nat list" where
  "dims c = map unat [runtime c, read_count c, read_length c, write_length c, write_count c]"

lemma dims_inject: "dims a = dims b \<longleftrightarrow> a = b"
  by (cases a; cases b) (auto simp: dims_def word_unat_eq_iff)

lemma cost_overflow_add_Inr [simp]:
  "cost_overflow_add a b = Inr c \<longleftrightarrow> unat c = unat a + unat b"
  by (simp add: cost_overflow_add_def checked_add_eq_Some)

lemma cost_overflow_sub_Inr [simp]:
  "cost_overflow_sub a b = Inr c \<longleftrightarrow> unat a = unat c + unat b"
  by (simp add: cost_overflow_sub_def checked_sub_eq_Some)

lemma cost_overflow_mul_Inr [simp]:
  "cost_overflow_mul a b = Inr c \<longleftrightarrow> unat c = unat a * unat b"
  by (simp add: cost_overflow_mul_def checked_mul_eq_Some)

lemma update_field_Inr [simp]:
  "update_field get upd f s = (Inr u, t) \<longleftrightarrow> (\<exists>y. f (get s) = Inr y \<and> t = upd (\<lambda>_. y) s)"
  by (auto simp: update_field_def run_simps split: sum.splits)

lemma sthen_update_field_Inr:
  "sthen (update_field get upd f) n s = (Inr u, t) \<longleftrightarrow>
     (\<exists>y. f (get s) = Inr y \<and> n (upd (\<lambda>_. y) s) = (Inr u, t))"
  by auto

lemma cost_add_Inr:
  "cost_add other c = (Inr u, c') \<longleftrightarrow> dims c' = map2 (+) (dims c) (dims other)"
  by (cases c; cases c') (auto simp: cost_add_def dims_def sthen_update_field_Inr simp del: sthen_eq_Inr)

lemma cost_sub_Inr:
  "cost_sub other c = (Inr u, c') \<longleftrightarrow> dims c = map2 (+) (dims c') (dims other)"
  by (cases c; cases c') (auto simp: cost_sub_def dims_def sthen_update_field_Inr simp del: sthen_eq_Inr)

lemma cost_multiply_Inr:
  "cost_multiply k c = (Inr u, c') \<longleftrightarrow> dims c' = map (\<lambda>x. x * unat k) (dims c)"
  by (cases c; cases c') (auto simp: cost_multiply_def dims_def sthen_update_field_Inr simp del: sthen_eq_Inr)

lemma not_exceeds_iff: "\<not> exceeds a b \<longleftrightarrow> list_all2 (\<le>) (dims a) (dims b)"
  by (auto simp: exceeds_def dims_def word_le_nat_alt not_less)

lemma max_cost_bounds: "\<not> exceeds a (max_cost a b)" "\<not> exceeds b (max_cost a b)"
  by (auto simp: exceeds_def max_cost_def not_less)

end
