(* ===== verification/Errors.thy ===== *)
theory Errors
  imports ClarityTypes ExecutionCosts
begin

text \<open>
  Errors of the Clarity virtual machine (\<open>clarity/src/vm/errors.rs\<close>,
  \<open>clarity/src/vm/analysis/errors.rs\<close>). A string bounded for display is a string; the
  stack trace attached to a runtime error is not compared by the code and is left out, and an
  error whose message renders a value or another error carries that value or error instead. A
  Rust panic (\<open>expect\<close>, \<open>assert!\<close>) is the extra variant \<open>Panic\<close> of the execution error.
\<close>

datatype RuntimeCheckErrorKind =
    CheckCostOverflow
  | CheckCostBalanceExceeded ExecutionCost ExecutionCost
  | CheckMemoryBalanceExceeded u64 u64
  | RestrictAssetsMemoryExceeded u64 u64
  | CheckCostComputationFailed string
  | ExecutionResourceBudgetExceeded string
  | CheckValueTooLarge
  | CheckValueOutOfBounds
  | CheckTypeSignatureTooDeep
  | Unreachable string
  | PoxStxAssetMapOverwrite
  | ListTypesMustMatch
  | CheckSequenceElementArityMismatch nat nat
  | TypeError TypeSignature TypeSignature
  | TypeValueError TypeSignature Value
  | UnionTypeValueError "TypeSignature list" Value
  | ExpectedContractPrincipalValue Value
  | CheckCouldNotDetermineType
  | ReturnTypesMustMatch TypeSignature TypeSignature
  | CircularReference "string list"
  | NoSuchContract string
  | NoSuchPublicFunction string string
  | ContractCallExpectName
  | NameAlreadyUsed string
  | UndefinedFunction string
  | AtBlockUnavailable
  | WithAllAllowanceNotAllowed
  | IncorrectArgumentCount nat nat
  | TraitReferenceUnknown string
  | TraitMethodUnknown string string
  | BadTraitImplementation string string
  | InvalidCharactersDetected
  | InvalidUTF8Encoding

datatype VmInternalError =
    BadSymbolicRepresentation string
  | InvariantViolation string
  | FailedToConstructAssetTable
  | FailedToConstructEventBatch
  | SqliteError
  | BadFileName
  | FailedToCreateDataDirectory
  | MarfFailure string
  | InsufficientBalance
  | DBError string
  | Expect string

datatype RuntimeError =
    Arithmetic string
  | ArithmeticOverflow
  | ArithmeticUnderflow
  | SupplyOverflow u128 u128
  | SupplyUnderflow u128 u128
  | DivisionByZero
  | MaxStackDepthReached
  | MaxContextDepthReached
  | BadBlockHeight string
  | NoSuchToken
  | NotImplemented
  | NoCallerInContext
  | NoSenderInContext
  | UnknownBlockHeaderHash "u8 list"
  | BadBlockHash "u8 list"
  | UnwrapFailure
  | DefunctPoxContract
  | PoxAlreadyLocked
  | BlockTimeNotAvailable
  | BadTokenName string

datatype EarlyReturnError = UnwrapFailed Value | AssertionFailed Value

datatype VmExecutionError =
    RuntimeCheck RuntimeCheckErrorKind
  | Internal VmInternalError
  | Runtime RuntimeError
  | EarlyReturn EarlyReturnError
  | Panic string

type_synonym 'a vm_result = "VmExecutionError + 'a"

abbreviation expect_err :: "string \<Rightarrow> VmExecutionError" where
  "expect_err msg \<equiv> Internal (Expect msg)"

fun check_error_of_cost_error :: "CostErrors \<Rightarrow> RuntimeCheckErrorKind" where
  "check_error_of_cost_error CostOverflow = CheckCostOverflow"
| "check_error_of_cost_error (CostBalanceExceeded a b) = CheckCostBalanceExceeded a b"
| "check_error_of_cost_error (MemoryBalanceExceeded a b) = CheckMemoryBalanceExceeded a b"
| "check_error_of_cost_error (CostComputationFailed s) = CheckCostComputationFailed s"
| "check_error_of_cost_error CostContractLoadFailure =
     CheckCostComputationFailed ''Failed to load cost contract''"
| "check_error_of_cost_error InterpreterFailure =
     Unreachable ''Unexpected interpreter failure in cost computation''"
| "check_error_of_cost_error (CostExpect s) = Unreachable s"

fun vm_error_of_cost_error :: "CostErrors \<Rightarrow> VmExecutionError" where
  "vm_error_of_cost_error InterpreterFailure =
     expect_err ''Interpreter failure during cost calculation''"
| "vm_error_of_cost_error (CostExpect s) =
     expect_err (''Interpreter failure during cost calculation: '' @ s)"
| "vm_error_of_cost_error other = RuntimeCheck (check_error_of_cost_error other)"

end
