(* ===== verification/Serializable.thy ===== *)
theory Serializable
  imports Errors
begin

text \<open>
  The traits \<open>ClaritySerializable\<close> and \<open>ClarityDeserializable\<close>
  (\<open>clarity/src/vm/database/structures.rs\<close>): the values of the database are texts, written
  and read by a pair of functions. The locale states the contract of such a pair and what
  clients get from it; strings and \<open>u32\<close> (\<open>clarity/src/vm/types/serialization.rs\<close>) are
  instances here, account balances and contract commitments in their own theories.
\<close>

section \<open>The contract of a codec\<close>

locale clarity_codec =
  fixes serialize :: "'a \<Rightarrow> string"
    and deserialize :: "string \<Rightarrow> 'a vm_result"
    and storable :: "'a \<Rightarrow> bool"
  assumes deserialize_serialize: "storable x \<Longrightarrow> deserialize (serialize x) = Inr x"
begin

lemma serialize_inj: "storable x \<Longrightarrow> storable y \<Longrightarrow> serialize x = serialize y \<Longrightarrow> x = y"
  by (metis deserialize_serialize sum.inject(2))

lemma deserialize_option:
  "storable x \<Longrightarrow>
     (case Some (serialize x) of None \<Rightarrow> Inr None | Some s \<Rightarrow> rbind (deserialize s) (Inr \<circ> Some)) =
     Inr (Some x)"
  by (simp add: deserialize_serialize)

end

section \<open>Strings and 32-bit integers\<close>

definition string_serialize :: "string \<Rightarrow> string" where
  "string_serialize s = s"

definition string_deserialize :: "string \<Rightarrow> string vm_result" where
  "string_deserialize s = Inr s"

interpretation string_codec: clarity_codec string_serialize string_deserialize "\<lambda>_. True"
  by unfold_locales (simp add: string_serialize_def string_deserialize_def)

definition u32_serialize :: "u32 \<Rightarrow> string" where
  "u32_serialize x = to_hex (to_be_bytes x)"

text \<open>The length assertion is a panic; the slice conversion after it cannot fail.\<close>

definition u32_deserialize :: "string \<Rightarrow> u32 vm_result" where
  "u32_deserialize input =
     rbind (map_err (\<lambda>_. expect_err ''u32 deserialization: failed decoding bytes.'') (hex_bytes input))
       (\<lambda>bytes. if length bytes \<noteq> 4 then Inl (Panic ''assertion failed: bytes.len() == 4'')
                else Inr (from_be_bytes bytes))"

interpretation u32_codec: clarity_codec u32_serialize u32_deserialize "\<lambda>_. True"
  by unfold_locales (simp add: u32_serialize_def u32_deserialize_def)

section \<open>Integers in JSON\<close>

text \<open>
  \<open>u128\<close> and \<open>u64\<close> are written with \<open>serde_json\<close>, an external library: the decimal text of
  the number. The definitions that store such integers take the pair of functions as an
  argument; \<open>json_codec\<close> is what they rely on.
\<close>

definition deserialize_json :: "(string \<Rightarrow> 'a option) \<Rightarrow> string \<Rightarrow> 'a vm_result" where
  "deserialize_json from_str json =
     ok_or (from_str json) (expect_err ''Failed to deserialize vm.Value'')"

definition json_codec :: "('a \<Rightarrow> string) \<Rightarrow> (string \<Rightarrow> 'a option) \<Rightarrow> bool" where
  "json_codec to_string from_str \<longleftrightarrow> (\<forall>x. from_str (to_string x) = Some x)"

lemma json_codec_clarity:
  assumes "json_codec to_string from_str"
  shows "clarity_codec to_string (deserialize_json from_str) (\<lambda>_. True)"
  using assms by unfold_locales (simp add: json_codec_def deserialize_json_def)

text \<open>The decimal text of a number, read back digit by digit; it satisfies \<open>json_codec\<close>.\<close>

fun read_nat :: "nat \<Rightarrow> string \<Rightarrow> nat option" where
  "read_nat acc [] = Some acc"
| "read_nat acc (c # cs) =
     (let n = (of_char c :: nat) in
      if 48 \<le> n \<and> n \<le> 57 then read_nat (10 * acc + (n - 48)) cs else None)"

definition decimal_from_str :: "string \<Rightarrow> u128 option" where
  "decimal_from_str s = (if s = [] then None else map_option word_of_nat (read_nat 0 s))"

definition decimal_to_string :: "u128 \<Rightarrow> string" where
  "decimal_to_string x = show_nat (unat x)"

lemma read_nat_append: "read_nat acc (s @ t) = Option.bind (read_nat acc s) (\<lambda>a. read_nat a t)"
  by (induction acc s rule: read_nat.induct) (auto simp: Let_def)

lemma read_show_nat: "read_nat 0 (show_nat n) = Some n"
proof (induction n rule: show_nat.induct)
  case (1 n)
  have digit: "(of_char (char_of (48 + k mod 10) :: char) :: nat) = 48 + k mod 10" for k :: nat
    by (simp add: of_char_of)
  show ?case
  proof (cases "n < 10")
    case True
    then show ?thesis using digit [of n] by (simp add: show_nat.simps [of n])
  next
    case False
    with 1 show ?thesis
      using digit [of n] by (simp add: show_nat.simps [of n] read_nat_append Let_def)
  qed
qed

lemma show_nat_nonempty: "show_nat n \<noteq> []"
  by (simp add: show_nat.simps [of n])

lemma decimal_json_codec: "json_codec decimal_to_string decimal_from_str"
  by (simp add: json_codec_def decimal_to_string_def decimal_from_str_def read_show_nat
      show_nat_nonempty)

end
