(* ===== verification/BackingStores.thy ===== *)
theory BackingStores
  imports Serializable Principals
begin

text \<open>
  The storage below the Clarity database (\<open>clarity/src/vm/database/clarity_store.rs\<close>,
  \<open>clarity/src/vm/database/sqlite.rs\<close>). The trait \<open>ClarityBackingStore\<close> is a record of
  operations over a store type; the locale \<open>backing_store\<close> is what its clients rely on, with
  the stored data as a map. \<open>MemoryBackingStore\<close> is the implementation over the side store,
  whose two SQL tables are maps on their primary and unique keys; failures of the database
  engine are not represented. The locale is interpreted on it.
\<close>

type_synonym StacksBlockId = "u8 list"
type_synonym Sha512Trunc256Sum = "u8 list"
type_synonym metadata_key = "QualifiedContractIdentifier \<times> string"

section \<open>The trait\<close>

record 's ClarityBackingStore =
  bs_put_all_data :: "(string \<times> string) list \<Rightarrow> ('s, VmExecutionError, unit) meth"
  bs_get_data :: "string \<Rightarrow> ('s, VmExecutionError, string option) meth"
  bs_get_data_with_proof :: "string \<Rightarrow> ('s, VmExecutionError, (string \<times> u8 list) option) meth"
  bs_has_entry :: "string \<Rightarrow> ('s, VmExecutionError, bool) meth"
  bs_set_block_hash :: "StacksBlockId \<Rightarrow> ('s, VmExecutionError, StacksBlockId) meth"
  bs_get_block_at_height :: "u32 \<Rightarrow> 's \<Rightarrow> StacksBlockId option"
  bs_get_current_block_height :: "'s \<Rightarrow> u32"
  bs_get_open_chain_tip_height :: "'s \<Rightarrow> u32"
  bs_get_open_chain_tip :: "'s \<Rightarrow> StacksBlockId"
  bs_make_contract_commitment :: "Sha512Trunc256Sum \<Rightarrow> 's \<Rightarrow> string"
  bs_get_contract_hash ::
    "QualifiedContractIdentifier \<Rightarrow> ('s, VmExecutionError, StacksBlockId \<times> Sha512Trunc256Sum) meth"
  bs_insert_metadata ::
    "QualifiedContractIdentifier \<Rightarrow> string \<Rightarrow> string \<Rightarrow> ('s, VmExecutionError, unit) meth"
  bs_get_metadata ::
    "QualifiedContractIdentifier \<Rightarrow> string \<Rightarrow> ('s, VmExecutionError, string option) meth"
  bs_get_metadata_manual ::
    "u32 \<Rightarrow> QualifiedContractIdentifier \<Rightarrow> string \<Rightarrow> ('s, VmExecutionError, string option) meth"
  bs_put_all_metadata ::
    "(metadata_key \<times> string) list \<Rightarrow> ('s, VmExecutionError, unit) meth"

text \<open>The default methods of the trait, over the methods they call.\<close>

definition default_has_entry ::
  "(string \<Rightarrow> ('s, VmExecutionError, string option) meth) \<Rightarrow>
   string \<Rightarrow> ('s, VmExecutionError, bool) meth" where
  "default_has_entry get_data key = sbind (get_data key) (\<lambda>x. sret (x \<noteq> None))"

fun default_put_all_metadata ::
  "(QualifiedContractIdentifier \<Rightarrow> string \<Rightarrow> string \<Rightarrow> ('s, VmExecutionError, unit) meth) \<Rightarrow>
   (metadata_key \<times> string) list \<Rightarrow> ('s, VmExecutionError, unit) meth" where
  "default_put_all_metadata insert_metadata [] = sret ()"
| "default_put_all_metadata insert_metadata (((contract, key), value) # items) =
     sthen (insert_metadata contract key value) (default_put_all_metadata insert_metadata items)"

section \<open>Contract commitments\<close>

definition make_contract_hash_key ::
  "(u8 list \<Rightarrow> u8 list) \<Rightarrow> QualifiedContractIdentifier \<Rightarrow> string" where
  "make_contract_hash_key sha256 contract =
     ''clarity-contract::'' @ contract_identifier_to_string sha256 contract"

record ContractCommitment =
  cc_hash :: Sha512Trunc256Sum
  cc_block_height :: u32

definition contract_commitment_serialize :: "ContractCommitment \<Rightarrow> string" where
  "contract_commitment_serialize cc =
     to_hex (cc_hash cc) @ to_hex (to_be_bytes (cc_block_height cc))"

text \<open>\<open>from_hex\<close> of a 32-byte array type.\<close>

definition hash32_from_hex :: "string \<Rightarrow> HexError + u8 list" where
  "hash32_from_hex s =
     rbind (hex_bytes s) (\<lambda>bytes. if length bytes \<noteq> 32 then Inl (BadLength (length s)) else Inr bytes)"

definition contract_commitment_deserialize :: "string \<Rightarrow> ContractCommitment vm_result" where
  "contract_commitment_deserialize input =
     (if length input \<noteq> 72 then Inl (expect_err ''Unexpected input length'')
      else
        rbind (map_err (\<lambda>_. expect_err ''Hex decode fail.'') (hash32_from_hex (take 64 input)))
          (\<lambda>hash.
        rbind (map_err (\<lambda>_. expect_err ''Hex decode fail.'') (hex_bytes (drop 64 input)))
          (\<lambda>height_bytes.
             if length height_bytes \<noteq> 4 then Inl (expect_err ''Block height decode fail.'')
             else Inr \<lparr>cc_hash = hash, cc_block_height = from_be_bytes height_bytes\<rparr>)))"

definition make_contract_commitment_at :: "u32 \<Rightarrow> Sha512Trunc256Sum \<Rightarrow> string" where
  "make_contract_commitment_at block_height contract_hash =
     contract_commitment_serialize \<lparr>cc_hash = contract_hash, cc_block_height = block_height\<rparr>"

section \<open>The side store\<close>

record SideStore =
  data_table :: "string \<rightharpoonup> string"
  metadata_table :: "string \<times> StacksBlockId \<rightharpoonup> string"

definition SQL_FAIL_MESSAGE :: string where
  "SQL_FAIL_MESSAGE = ''PANIC: SQL Failure in Smart Contract VM.''"

definition sqlite_put :: "string \<Rightarrow> string \<Rightarrow> (SideStore, VmExecutionError, unit) meth" where
  "sqlite_put key value = smodify (data_table_update (\<lambda>t. t(key \<mapsto> value)))"

definition sqlite_get :: "string \<Rightarrow> (SideStore, VmExecutionError, string option) meth" where
  "sqlite_get key = sget (\<lambda>s. data_table s key)"

definition make_metadata_key :: "string \<Rightarrow> string \<Rightarrow> string" where
  "make_metadata_key contract_id key = ''clr-meta::'' @ contract_id @ ''::'' @ key"

text \<open>\<open>split_once("::")\<close>: the texts around the first double colon.\<close>

fun split_colons :: "string \<Rightarrow> (string \<times> string) option" where
  "split_colons (c # d # cs) =
     (if c = CHR '':'' \<and> d = CHR '':'' then Some ([], cs)
      else map_option (\<lambda>(a, b). (c # a, b)) (split_colons (d # cs)))"
| "split_colons _ = None"

definition parse_metadata_key :: "string \<Rightarrow> (string \<times> string) option" where
  "parse_metadata_key key =
     (if take 10 key = ''clr-meta::'' then split_colons (drop 10 key) else None)"

text \<open>An insertion that would violate the unique key fails.\<close>

definition sqlite_conn_insert_metadata ::
  "StacksBlockId \<Rightarrow> string \<Rightarrow> string \<Rightarrow> string \<Rightarrow> (SideStore, VmExecutionError, unit) meth" where
  "sqlite_conn_insert_metadata bhh contract_id key value = (\<lambda>s.
     let k = (make_metadata_key contract_id key, bhh) in
     if metadata_table s k \<noteq> None then (Inl (Internal (DBError SQL_FAIL_MESSAGE)), s)
     else (Inr (), metadata_table_update (\<lambda>t. t(k \<mapsto> value)) s))"

definition sqlite_conn_get_metadata ::
  "StacksBlockId \<Rightarrow> string \<Rightarrow> string \<Rightarrow> (SideStore, VmExecutionError, string option) meth" where
  "sqlite_conn_get_metadata bhh contract_id key =
     sget (\<lambda>s. metadata_table s (make_metadata_key contract_id key, bhh))"

definition commit_metadata_to ::
  "StacksBlockId \<Rightarrow> StacksBlockId \<Rightarrow> (SideStore, VmExecutionError, unit) meth" where
  "commit_metadata_to from to = (\<lambda>s.
     if from \<noteq> to \<and> (\<exists>k \<in> {k. metadata_table s (k, from) \<noteq> None}. metadata_table s (k, to) \<noteq> None)
     then (Inl (Internal (DBError SQL_FAIL_MESSAGE)), s)
     else (Inr (), metadata_table_update
        (\<lambda>t (k, b). if b = to \<and> t (k, from) \<noteq> None then t (k, from)
                    else if b = from then None else t (k, b)) s))"

definition drop_metadata :: "StacksBlockId \<Rightarrow> (SideStore, VmExecutionError, unit) meth" where
  "drop_metadata from = smodify (metadata_table_update (\<lambda>t (k, b). if b = from then None else t (k, b)))"

section \<open>The in-memory store\<close>

definition memory_chain_tip :: StacksBlockId where
  "memory_chain_tip = replicate 32 255"

fun memory_put_all_data :: "(string \<times> string) list \<Rightarrow> (SideStore, VmExecutionError, unit) meth" where
  "memory_put_all_data [] = sret ()"
| "memory_put_all_data ((key, value) # items) = sthen (sqlite_put key value) (memory_put_all_data items)"

definition memory_get_block_at_height :: "u32 \<Rightarrow> StacksBlockId option" where
  "memory_get_block_at_height height = (if height = 0 then Some memory_chain_tip else None)"

definition memory_get_contract_hash ::
  "(u8 list \<Rightarrow> u8 list) \<Rightarrow> QualifiedContractIdentifier \<Rightarrow>
   (SideStore, VmExecutionError, StacksBlockId \<times> Sha512Trunc256Sum) meth" where
  "memory_get_contract_hash sha256 contract =
     sbind (sqlite_get (make_contract_hash_key sha256 contract)) (\<lambda>stored.
       case stored of
         None \<Rightarrow> sfail (RuntimeCheck (NoSuchContract (contract_identifier_to_string sha256 contract)))
       | Some x \<Rightarrow>
           sbind (slift (contract_commitment_deserialize x)) (\<lambda>cc.
           sbind (slift (ok_or (memory_get_block_at_height (cc_block_height cc))
               (expect_err ''Should always be able to map from height to block hash when looking up contract information.'')))
             (\<lambda>bhh. sret (bhh, cc_hash cc))))"

definition memory_insert_metadata ::
  "(u8 list \<Rightarrow> u8 list) \<Rightarrow> QualifiedContractIdentifier \<Rightarrow> string \<Rightarrow> string \<Rightarrow>
   (SideStore, VmExecutionError, unit) meth" where
  "memory_insert_metadata sha256 contract key value =
     sqlite_conn_insert_metadata memory_chain_tip (contract_identifier_to_string sha256 contract) key value"

definition memory_get_metadata ::
  "(u8 list \<Rightarrow> u8 list) \<Rightarrow> QualifiedContractIdentifier \<Rightarrow> string \<Rightarrow>
   (SideStore, VmExecutionError, string option) meth" where
  "memory_get_metadata sha256 contract key =
     sbind (memory_get_contract_hash sha256 contract) (\<lambda>(bhh, _).
       sqlite_conn_get_metadata bhh (contract_identifier_to_string sha256 contract) key)"

definition memory_get_metadata_manual ::
  "(u8 list \<Rightarrow> u8 list) \<Rightarrow> u32 \<Rightarrow> QualifiedContractIdentifier \<Rightarrow> string \<Rightarrow>
   (SideStore, VmExecutionError, string option) meth" where
  "memory_get_metadata_manual sha256 at_height contract key =
     sbind (slift (ok_or (memory_get_block_at_height at_height)
              (Runtime (BadBlockHeight (show_nat (unat at_height)))))) (\<lambda>bhh.
       sqlite_conn_get_metadata bhh (contract_identifier_to_string sha256 contract) key)"

definition memory_store :: "(u8 list \<Rightarrow> u8 list) \<Rightarrow> SideStore ClarityBackingStore" where
  "memory_store sha256 =
     \<lparr>bs_put_all_data = memory_put_all_data,
      bs_get_data = sqlite_get,
      bs_get_data_with_proof = (\<lambda>key. sbind (sqlite_get key) (\<lambda>x. sret (map_option (\<lambda>v. (v, [])) x))),
      bs_has_entry = default_has_entry sqlite_get,
      bs_set_block_hash = (\<lambda>bhh. sfail (Runtime (UnknownBlockHeaderHash bhh))),
      bs_get_block_at_height = (\<lambda>height _. memory_get_block_at_height height),
      bs_get_current_block_height = (\<lambda>_. 1),
      bs_get_open_chain_tip_height = (\<lambda>_. 0),
      bs_get_open_chain_tip = (\<lambda>_. memory_chain_tip),
      bs_make_contract_commitment = (\<lambda>contract_hash _. make_contract_commitment_at 0 contract_hash),
      bs_get_contract_hash = memory_get_contract_hash sha256,
      bs_insert_metadata = memory_insert_metadata sha256,
      bs_get_metadata = memory_get_metadata sha256,
      bs_get_metadata_manual = memory_get_metadata_manual sha256,
      bs_put_all_metadata = default_put_all_metadata (memory_insert_metadata sha256)\<rparr>"

section \<open>The contract of a store\<close>

locale backing_store =
  fixes ops :: "'s ClarityBackingStore"
    and data :: "'s \<Rightarrow> string \<rightharpoonup> string"
    and valid :: "'s \<Rightarrow> bool"
  assumes get_data_law:
      "valid s \<Longrightarrow> \<exists>s'. bs_get_data ops k s = (Inr (data s k), s') \<and> data s' = data s \<and> valid s'"
    and put_all_data_law:
      "valid s \<Longrightarrow> \<exists>s'. bs_put_all_data ops items s = (Inr (), s') \<and>
         data s' = data s ++ map_of (rev items) \<and> valid s'"
    and has_entry_law:
      "valid s \<Longrightarrow> \<exists>s'. bs_has_entry ops k s = (Inr (data s k \<noteq> None), s') \<and>
         data s' = data s \<and> valid s'"
begin

lemma put_get:
  assumes "valid s" and "bs_put_all_data ops items s = (Inr u, s')"
  shows "\<exists>s''. bs_get_data ops k s' =
     (Inr (case map_of (rev items) k of None \<Rightarrow> data s k | Some v \<Rightarrow> Some v), s'')"
proof -
  from put_all_data_law [OF assms(1), of items] assms(2)
  have s': "data s' = data s ++ map_of (rev items)" "valid s'" by auto
  from get_data_law [OF s'(2), of k] s'(1) show ?thesis
    by (auto simp: map_add_def split: option.splits)
qed

end

lemma memory_put_all_data_run:
  "memory_put_all_data items s =
     (Inr (), s\<lparr>data_table := data_table s ++ map_of (rev items)\<rparr>)"
  by (induction items arbitrary: s rule: memory_put_all_data.induct)
    (simp_all add: run_simps sqlite_put_def)

interpretation memory: backing_store "memory_store sha256" data_table "\<lambda>_. True"
  by unfold_locales
    (auto simp: memory_store_def sqlite_get_def default_has_entry_def memory_put_all_data_run run_simps)

section \<open>Commitments and metadata keys read back\<close>

lemma contract_commitment_roundtrip:
  "length (cc_hash cc) = 32 \<Longrightarrow>
     contract_commitment_deserialize (contract_commitment_serialize cc) = Inr cc"
  by (simp add: contract_commitment_deserialize_def contract_commitment_serialize_def
      hash32_from_hex_def)

interpretation commitment_codec: clarity_codec contract_commitment_serialize
  contract_commitment_deserialize "\<lambda>cc. length (cc_hash cc) = 32"
  by unfold_locales (rule contract_commitment_roundtrip)

lemma split_colons_first:
  "CHR '':'' \<notin> set a \<Longrightarrow> split_colons (a @ CHR '':'' # CHR '':'' # b) = Some (a, b)"
proof (induction a)
  case (Cons x xs)
  then show ?case by (cases xs) auto
qed simp

lemma parse_make_metadata_key:
  "CHR '':'' \<notin> set contract_id \<Longrightarrow>
     parse_metadata_key (make_metadata_key contract_id key) = Some (contract_id, key)"
  by (simp add: parse_metadata_key_def make_metadata_key_def split_colons_first)

end
