(* ===== verification/RollbackWrappers.thy ===== *)
theory RollbackWrappers
  imports BackingStores "HOL-Library.Mapping" "HOL-Library.AList_Mapping"
begin

text \<open>
  Nested transactions over a backing store (\<open>clarity/src/vm/database/key_value_wrapper.rs\<close>).
  Every write is pushed on the history of its key in a lookup map, and its key on the edit
  log of the innermost context. Rolling a context back pops its edits from the histories;
  committing it hands the edits to the enclosing context, or writes them to the store.

  The stack is kept with the innermost context first. The optional value check of the edit
  log is off, as in the default build, so a log entry is a key. A method that can fail with
  an internal error reports it as an execution error, as its callers do. The derived debug
  text of a store error is left out of the message that wraps it.

  The abstract view of a wrapper is a list of layers of key/value writes, one per context;
  \<open>log_rel\<close> relates the histories and edit logs to it. The lemmas show that each method is
  the obvious operation on layers and that no internal error is ever reached.
\<close>

section \<open>Edit histories\<close>

type_synonym 'k histories = "('k, string list) mapping"

definition rollback_lookup_map :: "'k \<Rightarrow> ('k histories, VmExecutionError, string) meth" where
  "rollback_lookup_map key = (\<lambda>m.
     case Mapping.lookup m key of
       None \<Rightarrow> (Inl (expect_err ''ERROR: Clarity VM had edit log entry, but not lookup_map entry''), m)
     | Some key_edit_history \<Rightarrow>
         if key_edit_history = [] then (Inl (expect_err ''ERROR: expected value in edit history''), m)
         else
           (let popped_value = last key_edit_history;
                rest = butlast key_edit_history
            in (Inr popped_value,
                if rest = [] then Mapping.delete key m else Mapping.update key rest m)))"

text \<open>The loop over the reversed edits of a context that is rolled back.\<close>

fun rollback_edits :: "'k list \<Rightarrow> ('k histories, VmExecutionError, unit) meth" where
  "rollback_edits [] = sret ()"
| "rollback_edits (key # keys) = sthen (rollback_lookup_map key) (rollback_edits keys)"

fun collect_edits :: "'k list \<Rightarrow> ('k histories, VmExecutionError, ('k \<times> string) list) meth" where
  "collect_edits [] = sret []"
| "collect_edits (key # keys) =
     sbind (rollback_lookup_map key) (\<lambda>value.
     sbind (collect_edits keys) (\<lambda>rest. sret ((key, value) # rest)))"

definition rollback_check_pre_bottom_commit ::
  "'k list \<Rightarrow> ('k histories, VmExecutionError, ('k \<times> string) list) meth" where
  "rollback_check_pre_bottom_commit edits = (\<lambda>m.
     let m = Mapping.map_values (\<lambda>_ edit_history. rev edit_history) m;
         (output, m) = collect_edits edits m
     in if \<not> Mapping.is_empty m
        then (Inl (Panic ''assertion failed: lookup_map.is_empty()''), m)
        else (output, m))"

definition inner_put_data ::
  "'k \<Rightarrow> string \<Rightarrow> 'k histories \<times> 'k list \<Rightarrow> 'k histories \<times> 'k list" where
  "inner_put_data key value = (\<lambda>(lookup_map, edits).
     (Mapping.update key
        ((case Mapping.lookup lookup_map key of None \<Rightarrow> [] | Some h \<Rightarrow> h) @ [value]) lookup_map,
      edits @ [key]))"

section \<open>The wrapper\<close>

record RollbackContext =
  edits :: "string list"
  metadata_edits :: "metadata_key list"

record 's RollbackWrapper =
  store :: 's
  lookup_map :: "string histories"
  metadata_lookup_map :: "metadata_key histories"
  stack :: "RollbackContext list"
  query_pending_data :: bool

record RollbackWrapperPersistedLog =
  log_lookup_map :: "string histories"
  log_metadata_lookup_map :: "metadata_key histories"
  log_stack :: "RollbackContext list"

definition empty_context :: RollbackContext where
  "empty_context = \<lparr>edits = [], metadata_edits = []\<rparr>"

definition persisted_log_new :: RollbackWrapperPersistedLog where
  "persisted_log_new =
     \<lparr>log_lookup_map = Mapping.empty, log_metadata_lookup_map = Mapping.empty, log_stack = []\<rparr>"

definition persisted_log_nest :: "RollbackWrapperPersistedLog \<Rightarrow> RollbackWrapperPersistedLog" where
  "persisted_log_nest log = log\<lparr>log_stack := empty_context # log_stack log\<rparr>"

definition persisted_log_from :: "'s RollbackWrapper \<Rightarrow> RollbackWrapperPersistedLog" where
  "persisted_log_from o' =
     \<lparr>log_lookup_map = lookup_map o', log_metadata_lookup_map = metadata_lookup_map o',
      log_stack = stack o'\<rparr>"

definition rw_new :: "'s \<Rightarrow> 's RollbackWrapper" where
  "rw_new st =
     \<lparr>store = st, lookup_map = Mapping.empty, metadata_lookup_map = Mapping.empty, stack = [],
      query_pending_data = True\<rparr>"

definition from_persisted_log :: "'s \<Rightarrow> RollbackWrapperPersistedLog \<Rightarrow> 's RollbackWrapper" where
  "from_persisted_log st log =
     \<lparr>store = st, lookup_map = log_lookup_map log,
      metadata_lookup_map = log_metadata_lookup_map log, stack = log_stack log,
      query_pending_data = True\<rparr>"

definition rw_nest :: "'s RollbackWrapper \<Rightarrow> 's RollbackWrapper" where
  "rw_nest w = w\<lparr>stack := empty_context # stack w\<rparr>"

definition rw_depth :: "'s RollbackWrapper \<Rightarrow> nat" where
  "rw_depth w = length (stack w)"

definition pop_context :: "('s RollbackWrapper, VmExecutionError, RollbackContext) meth" where
  "pop_context = (\<lambda>w.
     case stack w of
       [] \<Rightarrow> (Inl (expect_err ''ERROR: Clarity VM attempted to commit past the stack.''), w)
     | last_item # rest \<Rightarrow> (Inr last_item, w\<lparr>stack := rest\<rparr>))"

definition rw_rollback :: "('s RollbackWrapper, VmExecutionError, unit) meth" where
  "rw_rollback =
     sbind pop_context (\<lambda>last_item.
     sthen (zoom lookup_map lookup_map_update (rollback_edits (rev (edits last_item))))
       (zoom metadata_lookup_map metadata_lookup_map_update
          (rollback_edits (rev (metadata_edits last_item)))))"

definition commit_failure :: "('s, VmExecutionError, unit) meth \<Rightarrow> ('s, VmExecutionError, unit) meth" where
  "commit_failure m = (\<lambda>s. case m s of
     (r, s') \<Rightarrow> (map_err (\<lambda>_. expect_err ''ERROR: Failed to commit data to sql store'') r, s'))"

definition rw_commit ::
  "'s ClarityBackingStore \<Rightarrow> ('s RollbackWrapper, VmExecutionError, unit) meth" where
  "rw_commit ops =
     sbind pop_context (\<lambda>last_item.
     sbind (sget stack) (\<lambda>rest.
       case rest of
         next_up # below \<Rightarrow>
           smodify (\<lambda>w. w\<lparr>stack :=
             next_up\<lparr>edits := edits next_up @ edits last_item,
                      metadata_edits := metadata_edits next_up @ metadata_edits last_item\<rparr> # below\<rparr>)
       | [] \<Rightarrow>
           sbind (zoom lookup_map lookup_map_update
                    (rollback_check_pre_bottom_commit (edits last_item))) (\<lambda>all_edits.
           sthen (if all_edits \<noteq> []
                  then zoom store store_update (commit_failure (bs_put_all_data ops all_edits))
                  else sret ())
           (sbind (zoom metadata_lookup_map metadata_lookup_map_update
                    (rollback_check_pre_bottom_commit (metadata_edits last_item))) (\<lambda>all_metadata_edits.
            if all_metadata_edits \<noteq> []
            then zoom store store_update (commit_failure (bs_put_all_metadata ops all_metadata_edits))
            else sret ())))))"

definition rw_put_data :: "string \<Rightarrow> string \<Rightarrow> ('s RollbackWrapper, VmExecutionError, unit) meth" where
  "rw_put_data key value = (\<lambda>w.
     case stack w of
       [] \<Rightarrow> (Inl (expect_err ''ERROR: Clarity VM attempted PUT on non-nested context.''), w)
     | current # rest \<Rightarrow>
         (let (m, es) = inner_put_data key value (lookup_map w, edits current)
          in (Inr (), w\<lparr>lookup_map := m, stack := current\<lparr>edits := es\<rparr> # rest\<rparr>)))"

definition is_retargeted :: "'s RollbackWrapper \<Rightarrow> bool" where
  "is_retargeted w \<longleftrightarrow> \<not> query_pending_data w"

definition rw_set_block_hash ::
  "'s ClarityBackingStore \<Rightarrow> StacksBlockId \<Rightarrow> bool \<Rightarrow>
   ('s RollbackWrapper, VmExecutionError, StacksBlockId) meth" where
  "rw_set_block_hash ops bhh query_pending =
     sbind (zoom store store_update (bs_set_block_hash ops bhh)) (\<lambda>prior.
     sthen (smodify (\<lambda>w. w\<lparr>query_pending_data := query_pending\<rparr>)) (sret prior))"

text \<open>\<open>Option<Result<T>>::transpose\<close> after deserialising.\<close>

definition deserialize_opt :: "(string \<Rightarrow> 'a vm_result) \<Rightarrow> string option \<Rightarrow> 'a option vm_result" where
  "deserialize_opt de x =
     (case x of None \<Rightarrow> Inr None | Some s \<Rightarrow> rbind (de s) (\<lambda>v. Inr (Some v)))"

definition check_nested_get :: "('s RollbackWrapper, VmExecutionError, unit) meth" where
  "check_nested_get = (\<lambda>w.
     if stack w = [] then (Inl (expect_err ''ERROR: Clarity VM attempted GET on non-nested context.''), w)
     else (Inr (), w))"

text \<open>The newest pending value of a key, when pending data is read at all.\<close>

definition pending :: "bool \<Rightarrow> 'k histories \<Rightarrow> 'k \<Rightarrow> string option" where
  "pending query m key =
     (if query then
        (case Mapping.lookup m key of
           None \<Rightarrow> None
         | Some h \<Rightarrow> if h = [] then None else Some (last h))
      else None)"

definition rw_get_data ::
  "'s ClarityBackingStore \<Rightarrow> (string \<Rightarrow> 'a vm_result) \<Rightarrow> string \<Rightarrow>
   ('s RollbackWrapper, VmExecutionError, 'a option) meth" where
  "rw_get_data ops de key =
     sthen check_nested_get
     (sbind (sget (\<lambda>w. pending (query_pending_data w) (lookup_map w) key)) (\<lambda>p.
        case p of
          Some pending_value \<Rightarrow> slift (rbind (de pending_value) (\<lambda>v. Inr (Some v)))
        | None \<Rightarrow>
            sbind (zoom store store_update (bs_get_data ops key)) (\<lambda>x. slift (deserialize_opt de x))))"

definition rw_get_data_with_proof ::
  "'s ClarityBackingStore \<Rightarrow> (string \<Rightarrow> 'a vm_result) \<Rightarrow> string \<Rightarrow>
   ('s RollbackWrapper, VmExecutionError, ('a \<times> u8 list) option) meth" where
  "rw_get_data_with_proof ops de key =
     sbind (zoom store store_update (bs_get_data_with_proof ops key)) (\<lambda>x.
       case x of
         None \<Rightarrow> sret None
       | Some (value, proof) \<Rightarrow> slift (rbind (de value) (\<lambda>v. Inr (Some (v, proof)))))"

definition rw_has_entry ::
  "'s ClarityBackingStore \<Rightarrow> string \<Rightarrow> ('s RollbackWrapper, VmExecutionError, bool) meth" where
  "rw_has_entry ops key =
     sthen check_nested_get
     (sbind (sget (\<lambda>w. query_pending_data w \<and> Mapping.lookup (lookup_map w) key \<noteq> None)) (\<lambda>b.
        if b then sret True else zoom store store_update (bs_has_entry ops key)))"

definition rw_get_contract_hash ::
  "'s ClarityBackingStore \<Rightarrow> (u8 list \<Rightarrow> u8 list) \<Rightarrow> QualifiedContractIdentifier \<Rightarrow>
   ('s RollbackWrapper, VmExecutionError, Sha512Trunc256Sum option) meth" where
  "rw_get_contract_hash ops sha256 contract =
     sbind (rw_get_data ops string_deserialize (make_contract_hash_key sha256 contract)) (\<lambda>x.
       case x of
         None \<Rightarrow> sret None
       | Some s \<Rightarrow> sbind (slift (contract_commitment_deserialize s)) (\<lambda>cc. sret (Some (cc_hash cc))))"

definition rw_prepare_for_contract_metadata ::
  "'s ClarityBackingStore \<Rightarrow> (u8 list \<Rightarrow> u8 list) \<Rightarrow> QualifiedContractIdentifier \<Rightarrow>
   Sha512Trunc256Sum \<Rightarrow> ('s RollbackWrapper, VmExecutionError, unit) meth" where
  "rw_prepare_for_contract_metadata ops sha256 contract content_hash =
     sbind (sget (\<lambda>w. bs_make_contract_commitment ops content_hash (store w))) (\<lambda>value.
       rw_put_data (make_contract_hash_key sha256 contract) value)"

definition rw_insert_metadata ::
  "QualifiedContractIdentifier \<Rightarrow> string \<Rightarrow> string \<Rightarrow>
   ('s RollbackWrapper, VmExecutionError, unit) meth" where
  "rw_insert_metadata contract key value = (\<lambda>w.
     case stack w of
       [] \<Rightarrow> (Inl (expect_err ''ERROR: Clarity VM attempted PUT on non-nested context.''), w)
     | current # rest \<Rightarrow>
         (let (m, es) = inner_put_data (contract, key) value
                          (metadata_lookup_map w, metadata_edits current)
          in (Inr (), w\<lparr>metadata_lookup_map := m,
                        stack := current\<lparr>metadata_edits := es\<rparr> # rest\<rparr>)))"

definition rw_get_metadata ::
  "'s ClarityBackingStore \<Rightarrow> QualifiedContractIdentifier \<Rightarrow> string \<Rightarrow>
   ('s RollbackWrapper, VmExecutionError, string option) meth" where
  "rw_get_metadata ops contract key =
     sthen check_nested_get
     (sbind (sget (\<lambda>w. pending (query_pending_data w) (metadata_lookup_map w) (contract, key))) (\<lambda>p.
        case p of
          Some x \<Rightarrow> sret (Some x)
        | None \<Rightarrow> zoom store store_update (bs_get_metadata ops contract key)))"

definition rw_get_metadata_manual ::
  "'s ClarityBackingStore \<Rightarrow> u32 \<Rightarrow> QualifiedContractIdentifier \<Rightarrow> string \<Rightarrow>
   ('s RollbackWrapper, VmExecutionError, string option) meth" where
  "rw_get_metadata_manual ops at_height contract key =
     sthen check_nested_get
     (sbind (sget (\<lambda>w. pending (query_pending_data w) (metadata_lookup_map w) (contract, key))) (\<lambda>p.
        case p of
          Some x \<Rightarrow> sret (Some x)
        | None \<Rightarrow> zoom store store_update (bs_get_metadata_manual ops at_height contract key)))"

definition has_pending_metadata ::
  "'s RollbackWrapper \<Rightarrow> QualifiedContractIdentifier \<Rightarrow> string list \<Rightarrow> bool" where
  "has_pending_metadata w contract keys =
     (if is_retargeted w then False
      else (\<exists>key \<in> set keys. Mapping.lookup (metadata_lookup_map w) (contract, key) \<noteq> None))"

definition rw_has_metadata_entry ::
  "'s ClarityBackingStore \<Rightarrow> QualifiedContractIdentifier \<Rightarrow> string \<Rightarrow>
   's RollbackWrapper \<Rightarrow> bool \<times> 's RollbackWrapper" where
  "rw_has_metadata_entry ops contract key w =
     (case rw_get_metadata ops contract key w of
        (Inr (Some _), w') \<Rightarrow> (True, w') | (_, w') \<Rightarrow> (False, w'))"

section \<open>Snapshots: the specification of nested transactions\<close>

text \<open>
  A client sees a stack of snapshots: opening a context copies the newest snapshot, a write
  changes the newest one, rolling back forgets it, and committing lets it replace the one
  below. The oldest snapshot is the stored data.
\<close>

datatype txn_op = Nest | Put string string | Get string | Rollback | Commit

fun snapshot_step ::
  "txn_op \<Rightarrow> (string \<rightharpoonup> string) list \<Rightarrow> string option vm_result \<times> (string \<rightharpoonup> string) list" where
  "snapshot_step Nest (v # vs) = (Inr None, v # v # vs)"
| "snapshot_step (Put k x) (v # u # vs) = (Inr None, v(k \<mapsto> x) # u # vs)"
| "snapshot_step (Put k x) vs =
     (Inl (expect_err ''ERROR: Clarity VM attempted PUT on non-nested context.''), vs)"
| "snapshot_step (Get k) (v # u # vs) = (Inr (v k), v # u # vs)"
| "snapshot_step (Get k) vs =
     (Inl (expect_err ''ERROR: Clarity VM attempted GET on non-nested context.''), vs)"
| "snapshot_step Rollback (v # u # vs) = (Inr None, u # vs)"
| "snapshot_step Commit (v # u # vs) = (Inr None, v # vs)"
| "snapshot_step _ vs =
     (Inl (expect_err ''ERROR: Clarity VM attempted to commit past the stack.''), vs)"

fun wrapper_step ::
  "'s ClarityBackingStore \<Rightarrow> txn_op \<Rightarrow> ('s RollbackWrapper, VmExecutionError, string option) meth" where
  "wrapper_step ops Nest = sthen (smodify rw_nest) (sret None)"
| "wrapper_step ops (Put k x) = sthen (rw_put_data k x) (sret None)"
| "wrapper_step ops (Get k) = rw_get_data ops string_deserialize k"
| "wrapper_step ops Rollback = sthen rw_rollback (sret None)"
| "wrapper_step ops Commit = sthen (rw_commit ops) (sret None)"

text \<open>Running a sequence of operations, with the results of all of them.\<close>

fun run_steps :: "('op \<Rightarrow> 's \<Rightarrow> 'r \<times> 's) \<Rightarrow> 'op list \<Rightarrow> 's \<Rightarrow> 'r list \<times> 's" where
  "run_steps f [] s = ([], s)"
| "run_steps f (x # xs) s =
     (let (r, s') = f x s; (rs, s'') = run_steps f xs s' in (r # rs, s''))"

section \<open>Histories of a log of writes\<close>

definition hist :: "('k \<times> string) list \<Rightarrow> 'k \<Rightarrow> string list" where
  "hist es k = map snd (filter (\<lambda>e. fst e = k) es)"

definition hist_map :: "('k \<times> string) list \<Rightarrow> 'k \<rightharpoonup> string list" where
  "hist_map es k = (if hist es k = [] then None else Some (hist es k))"

lemma hist_simps [simp]:
  "hist [] k = []"
  "hist (e # es) k = (if fst e = k then snd e # hist es k else hist es k)"
  "hist (es @ fs) k = hist es k @ hist fs k"
  by (simp_all add: hist_def)

lemma hist_map_Nil [simp]: "hist_map [] = Map.empty"
  by (simp add: hist_map_def fun_eq_iff)

text \<open>The newest value in the history of a key is the last write to the key.\<close>

lemma map_of_rev_hist:
  "map_of (rev es) k = (if hist es k = [] then None else Some (last (hist es k)))"
  by (induction es rule: rev_induct) auto

lemma lookup_delete_if: "Mapping.lookup (Mapping.delete k m) x = (if x = k then None else Mapping.lookup m x)"
  by (cases "x = k") auto

lemma rollback_lookup_map_last:
  assumes "Mapping.lookup m = hist_map (es @ [(k, v)])"
  shows "\<exists>m'. rollback_lookup_map k m = (Inr v, m') \<and> Mapping.lookup m' = hist_map es"
proof -
  have "Mapping.lookup m k = Some (hist es k @ [v])"
    using assms by (simp add: hist_map_def)
  moreover have "Mapping.lookup m x = hist_map es x" if "x \<noteq> k" for x
    using assms that by (simp add: hist_map_def)
  ultimately show ?thesis
    by (auto simp: rollback_lookup_map_def Let_def fun_eq_iff hist_map_def lookup_update' lookup_delete_if)
qed

lemma rollback_edits_layer:
  assumes "Mapping.lookup m = hist_map (es @ layer)"
  shows "\<exists>m'. rollback_edits (rev (map fst layer)) m = (Inr (), m') \<and>
           Mapping.lookup m' = hist_map es"
  using assms
proof (induction layer arbitrary: m rule: rev_induct)
  case (snoc e layer)
  then obtain m' where "rollback_lookup_map (fst e) m = (Inr (snd e), m')"
      and m': "Mapping.lookup m' = hist_map (es @ layer)"
    using rollback_lookup_map_last [of m "es @ layer" "fst e" "snd e"] by auto
  with snoc.IH [OF m'] show ?case by (auto simp: run_simps)
qed (simp add: run_simps)

lemma collect_edits_all:
  assumes "\<And>k. Mapping.lookup m k = map_option rev (hist_map es k)"
  shows "\<exists>m'. collect_edits (map fst es) m = (Inr es, m') \<and> Mapping.lookup m' = Map.empty"
  using assms
proof (induction es arbitrary: m)
  case Nil
  then show ?case by (auto simp: run_simps)
next
  case (Cons e es)
  obtain k v where e: "e = (k, v)" by force
  have "Mapping.lookup m k = Some (rev (hist es k) @ [v])"
    using Cons.prems [of k] e by (simp add: hist_map_def)
  then obtain m' where pop: "rollback_lookup_map k m = (Inr v, m')"
      and "\<And>x. Mapping.lookup m' x =
        (if x = k then (if hist es k = [] then None else Some (rev (hist es k))) else Mapping.lookup m x)"
    by (auto simp: rollback_lookup_map_def Let_def lookup_update' lookup_delete_if)
  then have "Mapping.lookup m' x = map_option rev (hist_map es x)" for x
    using Cons.prems [of x] e by (auto simp: hist_map_def)
  from Cons.IH [OF this] pop e show ?case by (auto simp: run_simps)
qed

lemma is_empty_lookup: "Mapping.is_empty m \<longleftrightarrow> Mapping.lookup m = Map.empty"
  by (simp add: Mapping.is_empty_def keys_dom_lookup)

lemma bottom_commit_log:
  assumes "Mapping.lookup m = hist_map es"
  shows "\<exists>m'. rollback_check_pre_bottom_commit (map fst es) m = (Inr es, m') \<and>
           Mapping.lookup m' = Map.empty"
proof -
  let ?m = "Mapping.map_values (\<lambda>_ h. rev h) m"
  have "Mapping.lookup ?m k = map_option rev (hist_map es k)" for k
    by (simp add: assms lookup_map_values)
  from collect_edits_all [OF this] show ?thesis
    by (auto simp: rollback_check_pre_bottom_commit_def Let_def is_empty_lookup)
qed

lemma inner_put_data_log:
  assumes "Mapping.lookup m = hist_map es"
  shows "\<exists>m'. inner_put_data k v (m, ks) = (m', ks @ [k]) \<and>
           Mapping.lookup m' = hist_map (es @ [(k, v)])"
  using assms by (auto simp: inner_put_data_def fun_eq_iff hist_map_def lookup_update')

lemma pending_log:
  assumes "Mapping.lookup m = hist_map es"
  shows "pending True m k = map_of (rev es) k"
  by (simp add: pending_def assms hist_map_def map_of_rev_hist)

section \<open>The layers of a wrapper\<close>

type_synonym layer = "(string \<times> string) list \<times> (metadata_key \<times> string) list"

definition context_of :: "layer \<Rightarrow> RollbackContext" where
  "context_of l = \<lparr>edits = map fst (fst l), metadata_edits = map fst (snd l)\<rparr>"

definition log_rel :: "'s RollbackWrapper \<Rightarrow> layer list \<Rightarrow> bool" where
  "log_rel w ls \<longleftrightarrow>
     stack w = map context_of ls \<and>
     Mapping.lookup (lookup_map w) = hist_map (concat (rev (map fst ls))) \<and>
     Mapping.lookup (metadata_lookup_map w) = hist_map (concat (rev (map snd ls)))"

lemma log_rel_new [simp]: "log_rel (rw_new st) []"
  by (simp add: log_rel_def rw_new_def fun_eq_iff lookup_empty)

lemma log_rel_nest: "log_rel w ls \<Longrightarrow> log_rel (rw_nest w) (([], []) # ls)"
  by (simp add: log_rel_def rw_nest_def context_of_def empty_context_def)

lemma log_rel_put:
  assumes "log_rel w ((d, md) # ls)"
  shows "\<exists>w'. rw_put_data k v w = (Inr (), w') \<and> log_rel w' ((d @ [(k, v)], md) # ls) \<and>
           store w' = store w \<and> query_pending_data w' = query_pending_data w"
proof -
  let ?es = "concat (rev (map fst ((d, md) # ls)))"
  obtain m' where "inner_put_data k v (lookup_map w, map fst d) = (m', map fst d @ [k])"
      and "Mapping.lookup m' = hist_map (?es @ [(k, v)])"
    using inner_put_data_log [of "lookup_map w" ?es k v "map fst d"] assms
    by (auto simp: log_rel_def)
  with assms show ?thesis
    by (auto simp: rw_put_data_def log_rel_def context_of_def)
qed

lemma log_rel_insert_metadata:
  assumes "log_rel w ((d, md) # ls)"
  shows "\<exists>w'. rw_insert_metadata c k v w = (Inr (), w') \<and>
           log_rel w' ((d, md @ [((c, k), v)]) # ls) \<and>
           store w' = store w \<and> query_pending_data w' = query_pending_data w"
proof -
  let ?es = "concat (rev (map snd ((d, md) # ls)))"
  obtain m' where "inner_put_data (c, k) v (metadata_lookup_map w, map fst md) =
        (m', map fst md @ [(c, k)])"
      and "Mapping.lookup m' = hist_map (?es @ [((c, k), v)])"
    using inner_put_data_log [of "metadata_lookup_map w" ?es "(c, k)" v "map fst md"] assms
    by (auto simp: log_rel_def)
  with assms show ?thesis
    by (auto simp: rw_insert_metadata_def log_rel_def context_of_def)
qed

lemma log_rel_rollback:
  assumes "log_rel w (l # ls)"
  shows "\<exists>w'. rw_rollback w = (Inr (), w') \<and> log_rel w' ls \<and>
           store w' = store w \<and> query_pending_data w' = query_pending_data w"
proof -
  obtain m where "rollback_edits (rev (map fst (fst l))) (lookup_map w) = (Inr (), m)"
      and "Mapping.lookup m = hist_map (concat (rev (map fst ls)))"
    using rollback_edits_layer [of "lookup_map w"] assms by (auto simp: log_rel_def)
  moreover obtain mm where
      "rollback_edits (rev (map fst (snd l))) (metadata_lookup_map w) = (Inr (), mm)"
      and "Mapping.lookup mm = hist_map (concat (rev (map snd ls)))"
    using rollback_edits_layer [of "metadata_lookup_map w"] assms by (auto simp: log_rel_def)
  ultimately show ?thesis
    using assms
    by (auto simp: rw_rollback_def pop_context_def run_simps log_rel_def context_of_def)
qed

lemma log_rel_commit_nested:
  assumes "log_rel w (l # l' # ls)"
  shows "\<exists>w'. rw_commit ops w = (Inr (), w') \<and>
           log_rel w' ((fst l' @ fst l, snd l' @ snd l) # ls) \<and>
           store w' = store w \<and> query_pending_data w' = query_pending_data w"
  using assms
  by (auto simp: rw_commit_def pop_context_def run_simps log_rel_def context_of_def)

lemma check_nested_get_run: "stack w \<noteq> [] \<Longrightarrow> check_nested_get w = (Inr (), w)"
  by (simp add: check_nested_get_def)

text \<open>The snapshots of a stack of layers over stored data.\<close>

fun snapshots :: "(string \<rightharpoonup> string) \<Rightarrow> layer list \<Rightarrow> (string \<rightharpoonup> string) list" where
  "snapshots base [] = [base]"
| "snapshots base (l # ls) = (hd (snapshots base ls) ++ map_of (rev (fst l))) # snapshots base ls"

lemma snapshots_hd:
  "hd (snapshots base ls) = base ++ map_of (rev (concat (rev (map fst ls))))"
  by (induction ls) auto

definition snapshot_rel ::
  "('s \<Rightarrow> string \<rightharpoonup> string) \<Rightarrow> ('s \<Rightarrow> bool) \<Rightarrow> 's RollbackWrapper \<Rightarrow> (string \<rightharpoonup> string) list \<Rightarrow> bool" where
  "snapshot_rel data valid w vs \<longleftrightarrow>
     (\<exists>ls. log_rel w ls \<and> (\<forall>l \<in> set ls. snd l = []) \<and> vs = snapshots (data (store w)) ls \<and>
       valid (store w) \<and> query_pending_data w)"

context backing_store
begin

lemma rw_get_data_view:
  assumes "log_rel w (l # ls)" and "query_pending_data w" and "valid (store w)"
  defines "base \<equiv> data (store w)"
  shows "\<exists>w'. rw_get_data ops de k w =
       (deserialize_opt de ((base ++ map_of (rev (concat (rev (map fst (l # ls)))))) k), w') \<and>
     log_rel w' (l # ls) \<and> data (store w') = base \<and> valid (store w') \<and> query_pending_data w'"
proof -
  define es where "es = concat (rev (map fst (l # ls)))"
  have nested: "stack w \<noteq> []" and m: "Mapping.lookup (lookup_map w) = hist_map es"
    using assms(1) by (auto simp: log_rel_def es_def)
  have p: "pending True (lookup_map w) k = map_of (rev es) k"
    using pending_log [OF m] .
  have "\<exists>w'. rw_get_data ops de k w = (deserialize_opt de ((base ++ map_of (rev es)) k), w') \<and>
     log_rel w' (l # ls) \<and> data (store w') = base \<and> valid (store w') \<and> query_pending_data w'"
  proof (cases "map_of (rev es) k")
    case (Some x)
    with p assms show ?thesis
      by (auto simp: rw_get_data_def check_nested_get_run [OF nested] run_simps
          deserialize_opt_def base_def map_add_def)
  next
    case None
    obtain s' where s': "bs_get_data ops k (store w) = (Inr (base k), s')" "data s' = base" "valid s'"
      using get_data_law [OF assms(3), of k] by (auto simp: base_def)
    then show ?thesis
      using None p assms(1,2)
      by (auto simp: rw_get_data_def check_nested_get_run [OF nested] run_simps
          map_add_def log_rel_def)
  qed
  then show ?thesis by (simp only: es_def)
qed

lemma log_rel_commit_bottom:
  assumes "log_rel w [(d, [])]" and "valid (store w)"
  shows "\<exists>w'. rw_commit ops w = (Inr (), w') \<and> log_rel w' [] \<and>
           data (store w') = data (store w) ++ map_of (rev d) \<and> valid (store w') \<and>
           query_pending_data w' = query_pending_data w"
proof -
  obtain m where m: "rollback_check_pre_bottom_commit (map fst d) (lookup_map w) = (Inr d, m)"
      "Mapping.lookup m = Map.empty"
    using bottom_commit_log [of "lookup_map w" d] assms(1) by (auto simp: log_rel_def)
  obtain mm where mm: "rollback_check_pre_bottom_commit [] (metadata_lookup_map w) = (Inr [], mm)"
      "Mapping.lookup mm = Map.empty"
    using bottom_commit_log [of "metadata_lookup_map w" "[]"] assms(1) by (auto simp: log_rel_def)
  obtain s' where s': "bs_put_all_data ops d (store w) = (Inr (), s')"
      "data s' = data (store w) ++ map_of (rev d)" "valid s'"
    using put_all_data_law [OF assms(2), of d] by auto
  from m mm s' assms show ?thesis
    by (cases "d = []")
      (auto simp: rw_commit_def pop_context_def run_simps log_rel_def context_of_def commit_failure_def)
qed

lemma deserialize_opt_string [simp]: "deserialize_opt string_deserialize x = Inr x"
  by (cases x) (simp_all add: deserialize_opt_def string_deserialize_def)

lemma step_nest:
  assumes "snapshot_rel data valid w vs"
  shows "snapshot_rel data valid (rw_nest w) (hd vs # vs)"
proof -
  from assms obtain ls where ls: "log_rel w ls" "\<forall>l \<in> set ls. snd l = []"
      "vs = snapshots (data (store w)) ls" "valid (store w)" "query_pending_data w"
    by (auto simp: snapshot_rel_def)
  then show ?thesis
    using log_rel_nest [OF ls(1)] unfolding snapshot_rel_def
    by (intro exI [of _ "([], []) # ls"]) (auto simp: rw_nest_def)
qed

lemma snapshot_rel_Cons:
  assumes "snapshot_rel data valid w vs"
  obtains "vs = [data (store w)]" and "log_rel w []" and "valid (store w)" and "query_pending_data w"
  | d ls where "log_rel w ((d, []) # ls)" and "\<forall>l \<in> set ls. snd l = []"
      and "vs = (hd (snapshots (data (store w)) ls) ++ map_of (rev d)) # snapshots (data (store w)) ls"
      and "valid (store w)" and "query_pending_data w"
proof -
  from assms obtain ls where ls: "log_rel w ls" "\<forall>l \<in> set ls. snd l = []"
      "vs = snapshots (data (store w)) ls" "valid (store w)" "query_pending_data w"
    by (auto simp: snapshot_rel_def)
  show ?thesis
  proof (cases ls)
    case Nil
    with ls that(1) show ?thesis by simp
  next
    case (Cons l ls')
    then show ?thesis using ls that(2) [of "fst l" ls'] by (cases l) auto
  qed
qed

lemma snapshots_nonempty: "snapshots base ls \<noteq> []"
  by (cases ls) auto

lemma not_nested_steps:
  assumes "log_rel w []"
  shows "rw_put_data k x w = (Inl (expect_err ''ERROR: Clarity VM attempted PUT on non-nested context.''), w)"
    and "rw_get_data ops de k w = (Inl (expect_err ''ERROR: Clarity VM attempted GET on non-nested context.''), w)"
    and "rw_rollback w = (Inl (expect_err ''ERROR: Clarity VM attempted to commit past the stack.''), w)"
    and "rw_commit ops w = (Inl (expect_err ''ERROR: Clarity VM attempted to commit past the stack.''), w)"
  using assms
  by (auto simp: log_rel_def rw_put_data_def rw_get_data_def check_nested_get_def rw_rollback_def
      rw_commit_def pop_context_def run_simps)

lemma step_snapshot:
  assumes "snapshot_rel data valid w vs"
  shows "\<exists>r w' vs'. wrapper_step ops a w = (r, w') \<and> snapshot_step a vs = (r, vs') \<and>
           snapshot_rel data valid w' vs'"
  using assms
proof (cases rule: snapshot_rel_Cons)
  case 1
  show ?thesis
  proof (cases a)
    case Nest
    then show ?thesis using step_nest [OF assms] 1(1) by (auto simp: run_simps)
  qed (use 1(1) assms in \<open>auto simp: run_simps not_nested_steps [OF 1(2)]\<close>)
next
  case (2 d ls)
  let ?base = "data (store w)"
  obtain u us where us: "snapshots ?base ls = u # us" by (cases "snapshots ?base ls") (auto simp: snapshots_nonempty)
  then have vs: "vs = (u ++ map_of (rev d)) # u # us" using 2(3) by simp
  show ?thesis
  proof (cases a)
    case Nest
    then show ?thesis using step_nest [OF assms] vs by (auto simp: run_simps)
  next
    case (Put k x)
    obtain w' where "rw_put_data k x w = (Inr (), w')" "log_rel w' ((d @ [(k, x)], []) # ls)"
        "store w' = store w" "query_pending_data w'"
      using log_rel_put [OF 2(1), of k x] 2(5) by auto
    moreover from this have "snapshot_rel data valid w' ((u ++ map_of (rev d))(k \<mapsto> x) # u # us)"
      unfolding snapshot_rel_def using 2 us by (intro exI [of _ "(d @ [(k, x)], []) # ls"]) auto
    ultimately show ?thesis using Put vs by (auto simp: run_simps)
  next
    case (Get k)
    obtain w' where "rw_get_data ops string_deserialize k w = (Inr ((u ++ map_of (rev d)) k), w')"
        "log_rel w' ((d, []) # ls)" "data (store w') = ?base" "valid (store w')" "query_pending_data w'"
      using rw_get_data_view [OF 2(1,5,4), of string_deserialize k] snapshots_hd [of ?base "(d, []) # ls"] us
      by auto
    moreover from this have "snapshot_rel data valid w' vs"
      unfolding snapshot_rel_def using 2 us vs by (intro exI [of _ "(d, []) # ls"]) auto
    ultimately show ?thesis using Get vs by auto
  next
    case Rollback
    obtain w' where "rw_rollback w = (Inr (), w')" "log_rel w' ls" "store w' = store w" "query_pending_data w'"
      using log_rel_rollback [OF 2(1)] 2(5) by auto
    moreover from this have "snapshot_rel data valid w' (u # us)"
      unfolding snapshot_rel_def using 2 us by (intro exI [of _ ls]) auto
    ultimately show ?thesis using Rollback vs by (auto simp: run_simps)
  next
    case Commit
    show ?thesis
    proof (cases ls)
      case Nil
      obtain w' where "rw_commit ops w = (Inr (), w')" "log_rel w' []"
          "data (store w') = ?base ++ map_of (rev d)" "valid (store w')" "query_pending_data w'"
        using log_rel_commit_bottom [of w d] 2 Nil by auto
      moreover from this have "snapshot_rel data valid w' [u ++ map_of (rev d)]"
        unfolding snapshot_rel_def using us Nil by (intro exI [of _ "[]"]) auto
      ultimately show ?thesis using Commit vs us Nil by (auto simp: run_simps)
    next
      case (Cons l ls')
      obtain e where l: "l = (e, [])" using 2(2) Cons by (cases l) auto
      obtain w' where "rw_commit ops w = (Inr (), w')" "log_rel w' ((e @ d, []) # ls')"
          "store w' = store w" "query_pending_data w'"
        using log_rel_commit_nested [of w "(d, [])" l ls' ops] 2 Cons l by auto
      moreover from this have "snapshot_rel data valid w' ((u ++ map_of (rev d)) # us)"
        unfolding snapshot_rel_def using 2 us Cons l by (intro exI [of _ "(e @ d, []) # ls'"]) auto
      ultimately show ?thesis using Commit vs by (auto simp: run_simps)
    qed
  qed
qed

lemma steps_snapshot:
  assumes "snapshot_rel data valid w vs"
  shows "\<exists>rs w' vs'. run_steps (wrapper_step ops) as w = (rs, w') \<and>
           run_steps snapshot_step as vs = (rs, vs') \<and> snapshot_rel data valid w' vs'"
  using assms
proof (induction as arbitrary: w vs)
  case (Cons a as)
  from step_snapshot [OF Cons.prems, of a] obtain r w1 vs1
    where 1: "wrapper_step ops a w = (r, w1)" "snapshot_step a vs = (r, vs1)" "snapshot_rel data valid w1 vs1"
    by auto
  from Cons.IH [OF 1(3)] 1(1,2) show ?case by auto
qed auto

lemma snapshot_rel_new: "valid s \<Longrightarrow> snapshot_rel data valid (rw_new s) [data s]"
  unfolding snapshot_rel_def by (intro exI [of _ "[]"]) (auto, auto simp: rw_new_def)

lemma snapshots_last: "last (snapshots base ls) = base"
  by (induction ls) (auto simp: snapshots_nonempty)

lemma fresh_wrapper_refines:
  assumes "valid s"
  shows "fst (run_steps (wrapper_step ops) as (rw_new s)) = fst (run_steps snapshot_step as [data s]) \<and>
     data (store (snd (run_steps (wrapper_step ops) as (rw_new s)))) =
       last (snd (run_steps snapshot_step as [data s]))"
  using steps_snapshot [OF snapshot_rel_new [OF assms], of as]
  by (auto simp: snapshot_rel_def snapshots_last)

end

text \<open>
  (C2) Nested transactions refine snapshots. Over the in-memory store, any sequence of
  opening, writing, reading, rolling back and committing gives the same results, including
  the same errors, as the stack of snapshots started from the stored data, and what has
  reached the store afterwards is the oldest snapshot.
\<close>
theorem rollback_wrapper_refines_snapshots:
  "fst (run_steps (wrapper_step (memory_store sha256)) as (rw_new s)) =
     fst (run_steps snapshot_step as [data_table s]) \<and>
   data_table (store (snd (run_steps (wrapper_step (memory_store sha256)) as (rw_new s)))) =
     last (snd (run_steps snapshot_step as [data_table s]))"
  by (rule memory.fresh_wrapper_refines) simp

end
