(* ===== verification/STXBalances.thy ===== *)
theory STXBalances
  imports Serializable
begin

text \<open>
  STX balances (the type \<open>STXBalance\<close> and its methods in
  \<open>clarity/src/vm/database/structures.rs\<close>): an account holds an unlocked amount and, while
  it stacks, a locked amount with the burnchain height at which it unlocks. Locks made by
  PoX versions one to four also end at the unlock height of their contract. The methods
  that take the four contract unlock heights are functions of those heights.

  The lemmas give the total balance as a number, show that canonicalisation preserves it,
  that locked and unlockable are exclusive, and that the stored text of a balance reads back
  as the balance.
\<close>

section \<open>Balances\<close>

datatype STXBalance =
    Unlocked u128
  | LockedPoxOne u128 u128 u64
  | LockedPoxTwo u128 u128 u64
  | LockedPoxThree u128 u128 u64
  | LockedPoxFour u128 u128 u64
  | LockedPoxFive u128 u128 u64

definition STXBalance_zero :: STXBalance where
  "STXBalance_zero = Unlocked 0"

definition STXBalance_initial :: "u128 \<Rightarrow> STXBalance" where
  "STXBalance_initial amount = Unlocked amount"

fun unlock_height :: "STXBalance \<Rightarrow> u64" where
  "unlock_height (Unlocked a) = 0"
| "unlock_height (LockedPoxOne a l h) = h"
| "unlock_height (LockedPoxTwo a l h) = h"
| "unlock_height (LockedPoxThree a l h) = h"
| "unlock_height (LockedPoxFour a l h) = h"
| "unlock_height (LockedPoxFive a l h) = h"

fun effective_unlock_height :: "STXBalance \<Rightarrow> u32 \<Rightarrow> u32 \<Rightarrow> u32 \<Rightarrow> u32 \<Rightarrow> u64" where
  "effective_unlock_height (Unlocked a) v1 v2 v3 v4 = 0"
| "effective_unlock_height (LockedPoxOne a l h) v1 v2 v3 v4 =
     (if h \<ge> ucast v1 then ucast v1 else h)"
| "effective_unlock_height (LockedPoxTwo a l h) v1 v2 v3 v4 =
     (if h \<ge> ucast v2 then ucast v2 else h)"
| "effective_unlock_height (LockedPoxThree a l h) v1 v2 v3 v4 =
     (if h \<ge> ucast v3 then ucast v3 else h)"
| "effective_unlock_height (LockedPoxFour a l h) v1 v2 v3 v4 =
     (if h \<ge> ucast v4 then ucast v4 else h)"
| "effective_unlock_height (LockedPoxFive a l h) v1 v2 v3 v4 =
     h"

fun amount_locked :: "STXBalance \<Rightarrow> u128" where
  "amount_locked (Unlocked a) = 0"
| "amount_locked (LockedPoxOne a l h) = l"
| "amount_locked (LockedPoxTwo a l h) = l"
| "amount_locked (LockedPoxThree a l h) = l"
| "amount_locked (LockedPoxFour a l h) = l"
| "amount_locked (LockedPoxFive a l h) = l"

fun amount_unlocked :: "STXBalance \<Rightarrow> u128" where
  "amount_unlocked (Unlocked a) = a"
| "amount_unlocked (LockedPoxOne a l h) = a"
| "amount_unlocked (LockedPoxTwo a l h) = a"
| "amount_unlocked (LockedPoxThree a l h) = a"
| "amount_unlocked (LockedPoxFour a l h) = a"
| "amount_unlocked (LockedPoxFive a l h) = a"

text \<open>The assignment through the pattern-bound reference to the unlocked amount.\<close>

fun set_amount_unlocked :: "STXBalance \<Rightarrow> u128 \<Rightarrow> STXBalance" where
  "set_amount_unlocked (Unlocked a) x = Unlocked x"
| "set_amount_unlocked (LockedPoxOne a l h) x = LockedPoxOne x l h"
| "set_amount_unlocked (LockedPoxTwo a l h) x = LockedPoxTwo x l h"
| "set_amount_unlocked (LockedPoxThree a l h) x = LockedPoxThree x l h"
| "set_amount_unlocked (LockedPoxFour a l h) x = LockedPoxFour x l h"
| "set_amount_unlocked (LockedPoxFive a l h) x = LockedPoxFive x l h"

definition debit_unlocked_amount :: "STXBalance \<Rightarrow> u128 \<Rightarrow> STXBalance vm_result" where
  "debit_unlocked_amount b delta =
     rbind (ok_or (checked_sub (amount_unlocked b) delta) (expect_err ''STX underflow''))
       (\<lambda>x. Inr (set_amount_unlocked b x))"

definition checked_add_unlocked_amount :: "STXBalance \<Rightarrow> u128 \<Rightarrow> STXBalance option" where
  "checked_add_unlocked_amount b delta =
     map_option (set_amount_unlocked b) (checked_add (amount_unlocked b) delta)"

definition get_total_balance :: "STXBalance \<Rightarrow> u128 vm_result" where
  "get_total_balance b =
     (let (unlocked, locked) = (amount_unlocked b, amount_locked b)
      in ok_or (checked_add unlocked locked) (expect_err ''STX overflow''))"

fun was_locked_by_v1 :: "STXBalance \<Rightarrow> bool" where
  "was_locked_by_v1 (LockedPoxOne a l h) \<longleftrightarrow> True"
| "was_locked_by_v1 _ \<longleftrightarrow> False"

fun was_locked_by_v2 :: "STXBalance \<Rightarrow> bool" where
  "was_locked_by_v2 (LockedPoxTwo a l h) \<longleftrightarrow> True"
| "was_locked_by_v2 _ \<longleftrightarrow> False"

fun was_locked_by_v3 :: "STXBalance \<Rightarrow> bool" where
  "was_locked_by_v3 (LockedPoxThree a l h) \<longleftrightarrow> True"
| "was_locked_by_v3 _ \<longleftrightarrow> False"

fun has_locked_tokens_at_burn_block ::
  "STXBalance \<Rightarrow> u64 \<Rightarrow> u32 \<Rightarrow> u32 \<Rightarrow> u32 \<Rightarrow> u32 \<Rightarrow> bool" where
  "has_locked_tokens_at_burn_block (Unlocked a) burn_height v1 v2 v3 v4 = False"
| "has_locked_tokens_at_burn_block (LockedPoxOne a l h) burn_height v1 v2 v3 v4 =
     (if l = 0 then False
      else if h \<le> burn_height then False
      else if ucast v1 \<le> burn_height then False
      else True)"
| "has_locked_tokens_at_burn_block (LockedPoxTwo a l h) burn_height v1 v2 v3 v4 =
     (if l = 0 then False
      else if h \<le> burn_height then False
      else if ucast v2 \<le> burn_height then False
      else True)"
| "has_locked_tokens_at_burn_block (LockedPoxThree a l h) burn_height v1 v2 v3 v4 =
     (if l = 0 then False
      else if h \<le> burn_height then False
      else if ucast v3 \<le> burn_height then False
      else True)"
| "has_locked_tokens_at_burn_block (LockedPoxFour a l h) burn_height v1 v2 v3 v4 =
     (if l = 0 then False
      else if h \<le> burn_height then False
      else if ucast v4 \<le> burn_height then False
      else True)"
| "has_locked_tokens_at_burn_block (LockedPoxFive a l h) burn_height v1 v2 v3 v4 =
     (if l = 0 then False
      else if h \<le> burn_height then False
      else True)"

fun has_unlockable_tokens_at_burn_block ::
  "STXBalance \<Rightarrow> u64 \<Rightarrow> u32 \<Rightarrow> u32 \<Rightarrow> u32 \<Rightarrow> u32 \<Rightarrow> bool" where
  "has_unlockable_tokens_at_burn_block (Unlocked a) burn_height v1 v2 v3 v4 = False"
| "has_unlockable_tokens_at_burn_block (LockedPoxOne a l h) burn_height v1 v2 v3 v4 =
     (if l = 0 then False
      else if h \<le> burn_height then True
      else if ucast v1 \<le> burn_height then True
      else False)"
| "has_unlockable_tokens_at_burn_block (LockedPoxTwo a l h) burn_height v1 v2 v3 v4 =
     (if l = 0 then False
      else if h \<le> burn_height then True
      else if ucast v2 \<le> burn_height then True
      else False)"
| "has_unlockable_tokens_at_burn_block (LockedPoxThree a l h) burn_height v1 v2 v3 v4 =
     (if l = 0 then False
      else if h \<le> burn_height then True
      else if ucast v3 \<le> burn_height then True
      else False)"
| "has_unlockable_tokens_at_burn_block (LockedPoxFour a l h) burn_height v1 v2 v3 v4 =
     (if l = 0 then False
      else if h \<le> burn_height then True
      else if ucast v4 \<le> burn_height then True
      else False)"
| "has_unlockable_tokens_at_burn_block (LockedPoxFive a l h) burn_height v1 v2 v3 v4 =
     (if l = 0 then False
      else if h \<le> burn_height then True
      else False)"

definition canonical_repr_at_block ::
  "STXBalance \<Rightarrow> u64 \<Rightarrow> u32 \<Rightarrow> u32 \<Rightarrow> u32 \<Rightarrow> u32 \<Rightarrow> (STXBalance \<times> u128) vm_result" where
  "canonical_repr_at_block b burn_height v1 v2 v3 v4 =
     (if has_unlockable_tokens_at_burn_block b burn_height v1 v2 v3 v4
      then rbind (get_total_balance b) (\<lambda>total. Inr (Unlocked total, amount_locked b))
      else Inr (b, 0))"

definition get_available_balance_at_burn_block ::
  "STXBalance \<Rightarrow> u64 \<Rightarrow> u32 \<Rightarrow> u32 \<Rightarrow> u32 \<Rightarrow> u32 \<Rightarrow> u128 vm_result" where
  "get_available_balance_at_burn_block b burn_height v1 v2 v3 v4 =
     (if has_unlockable_tokens_at_burn_block b burn_height v1 v2 v3 v4
      then get_total_balance b
      else Inr (amount_unlocked b))"

definition get_locked_balance_at_burn_block ::
  "STXBalance \<Rightarrow> u64 \<Rightarrow> u32 \<Rightarrow> u32 \<Rightarrow> u32 \<Rightarrow> u32 \<Rightarrow> u128 \<times> u64" where
  "get_locked_balance_at_burn_block b burn_height v1 v2 v3 v4 =
     (if has_unlockable_tokens_at_burn_block b burn_height v1 v2 v3 v4
      then (0, 0)
      else (amount_locked b, unlock_height b))"

definition can_transfer_at_burn_block ::
  "STXBalance \<Rightarrow> u128 \<Rightarrow> u64 \<Rightarrow> u32 \<Rightarrow> u32 \<Rightarrow> u32 \<Rightarrow> u32 \<Rightarrow> bool vm_result" where
  "can_transfer_at_burn_block b amount burn_height v1 v2 v3 v4 =
     rbind (get_available_balance_at_burn_block b burn_height v1 v2 v3 v4)
       (\<lambda>available. Inr (available \<ge> amount))"

section \<open>Stored form\<close>

definition unlocked_and_v1_size :: nat where
  "unlocked_and_v1_size = 40"

definition v2_to_v4_size :: nat where
  "v2_to_v4_size = 41"

definition pox_2_version :: u8 where
  "pox_2_version = 0"

definition pox_3_version :: u8 where
  "pox_3_version = 1"

definition pox_4_version :: u8 where
  "pox_4_version = 2"

definition pox_5_version :: u8 where
  "pox_5_version = 3"

fun stx_balance_bytes :: "STXBalance \<Rightarrow> u8 list" where
  "stx_balance_bytes (Unlocked a) =
     to_be_bytes a @ to_be_bytes (0 :: u128) @ to_be_bytes (0 :: u64)"
| "stx_balance_bytes (LockedPoxOne a l h) = to_be_bytes a @ to_be_bytes l @ to_be_bytes h"
| "stx_balance_bytes (LockedPoxTwo a l h) =
     [pox_2_version] @ to_be_bytes a @ to_be_bytes l @ to_be_bytes h"
| "stx_balance_bytes (LockedPoxThree a l h) =
     [pox_3_version] @ to_be_bytes a @ to_be_bytes l @ to_be_bytes h"
| "stx_balance_bytes (LockedPoxFour a l h) =
     [pox_4_version] @ to_be_bytes a @ to_be_bytes l @ to_be_bytes h"
| "stx_balance_bytes (LockedPoxFive a l h) =
     [pox_5_version] @ to_be_bytes a @ to_be_bytes l @ to_be_bytes h"

definition stx_balance_serialize :: "STXBalance \<Rightarrow> string" where
  "stx_balance_serialize b = to_hex (stx_balance_bytes b)"

definition slice :: "nat \<Rightarrow> nat \<Rightarrow> 'a list \<Rightarrow> 'a list" where
  "slice i j xs = take (j - i) (drop i xs)"

definition stx_balance_deserialize :: "string \<Rightarrow> STXBalance vm_result" where
  "stx_balance_deserialize input =
     rbind (map_err (\<lambda>_. expect_err ''STXBalance deserialization: failed decoding bytes.'')
              (hex_bytes input)) (\<lambda>bytes.
       if length bytes = unlocked_and_v1_size then
         (let a = from_be_bytes (slice 0 16 bytes);
              l = from_be_bytes (slice 16 32 bytes);
              h = from_be_bytes (slice 32 40 bytes)
          in if l = 0 then Inr (Unlocked a) else Inr (LockedPoxOne a l h))
       else if length bytes = v2_to_v4_size then
         (let version = bytes ! 0 in
          if version \<noteq> pox_2_version \<and> version \<noteq> pox_3_version \<and>
             version \<noteq> pox_4_version \<and> version \<noteq> pox_5_version
          then Inl (expect_err (''Bad version byte in STX Balance serialization = '' @
                  show_nat (unat version)))
          else
            (let a = from_be_bytes (slice 1 17 bytes);
                 l = from_be_bytes (slice 17 33 bytes);
                 h = from_be_bytes (slice 33 41 bytes)
             in if l = 0 then Inr (Unlocked a)
                else if version = pox_2_version then Inr (LockedPoxTwo a l h)
                else if version = pox_3_version then Inr (LockedPoxThree a l h)
                else if version = pox_4_version then Inr (LockedPoxFour a l h)
                else if version = pox_5_version then Inr (LockedPoxFive a l h)
                else Inl (expect_err ''Version is checked for pox-2, pox-3, pox-4, or pox-5 version compliance above'')))
       else Inl (expect_err (''Bad STX Balance serialization size = '' @ show_nat (length bytes))))"

section \<open>Balances as numbers\<close>

definition total :: "STXBalance \<Rightarrow> nat" where
  "total b = unat (amount_unlocked b) + unat (amount_locked b)"

lemma amounts_set_unlocked [simp]:
  "amount_unlocked (set_amount_unlocked b x) = x"
  "amount_locked (set_amount_unlocked b x) = amount_locked b"
  "unlock_height (set_amount_unlocked b x) = unlock_height b"
  by (cases b; simp)+

lemma has_locked_set_unlocked [simp]:
  "has_locked_tokens_at_burn_block (set_amount_unlocked b x) n v1 v2 v3 v4 \<longleftrightarrow>
     has_locked_tokens_at_burn_block b n v1 v2 v3 v4"
  by (cases b) auto

lemma has_unlockable_set_unlocked [simp]:
  "has_unlockable_tokens_at_burn_block (set_amount_unlocked b x) n v1 v2 v3 v4 \<longleftrightarrow>
     has_unlockable_tokens_at_burn_block b n v1 v2 v3 v4"
  by (cases b) auto

lemma get_total_balance_Inr [simp]: "get_total_balance b = Inr t \<longleftrightarrow> unat t = total b"
  by (simp add: get_total_balance_def total_def checked_add_eq_Some)

lemma get_total_balance_Inl:
  "get_total_balance b = Inl e \<longleftrightarrow> 2 ^ 128 \<le> total b \<and> e = expect_err ''STX overflow''"
  by (simp add: get_total_balance_def total_def checked_add_eq_None)

lemma debit_unlocked_amount_Inr [simp]:
  "debit_unlocked_amount b delta = Inr b' \<longleftrightarrow>
     delta \<le> amount_unlocked b \<and> b' = set_amount_unlocked b (amount_unlocked b - delta)"
  by (auto simp: debit_unlocked_amount_def checked_sub_def)

lemma checked_add_unlocked_amount_Some:
  "checked_add_unlocked_amount b delta = Some b' \<longleftrightarrow>
     unat (amount_unlocked b) + unat delta < 2 ^ 128 \<and>
     b' = set_amount_unlocked b (amount_unlocked b + delta)"
  by (auto simp: checked_add_unlocked_amount_def checked_add_def)

lemma total_debit: "debit_unlocked_amount b delta = Inr b' \<Longrightarrow> total b = total b' + unat delta"
  by (auto simp: total_def unat_sub word_le_nat_alt)

lemma total_add:
  "checked_add_unlocked_amount b delta = Some b' \<Longrightarrow> total b' = total b + unat delta"
  by (auto simp: checked_add_unlocked_amount_Some total_def unat_add_lem [symmetric])

lemma locked_unlockable_exclusive:
  "\<not> (has_locked_tokens_at_burn_block b n v1 v2 v3 v4 \<and>
       has_unlockable_tokens_at_burn_block b n v1 v2 v3 v4)"
  by (cases b) auto

lemma locked_or_unlockable:
  "amount_locked b \<noteq> 0 \<longleftrightarrow>
     has_locked_tokens_at_burn_block b n v1 v2 v3 v4 \<or>
     has_unlockable_tokens_at_burn_block b n v1 v2 v3 v4"
  by (cases b) auto

lemma canonical_total:
  "canonical_repr_at_block b n v1 v2 v3 v4 = Inr (b', unlocked) \<Longrightarrow> total b' = total b"
  by (auto simp: canonical_repr_at_block_def total_def [of "Unlocked x" for x] split: if_splits)

lemma canonical_not_unlockable:
  "canonical_repr_at_block b n v1 v2 v3 v4 = Inr (b', unlocked) \<Longrightarrow>
     \<not> has_unlockable_tokens_at_burn_block b' n v1 v2 v3 v4"
  by (auto simp: canonical_repr_at_block_def split: if_splits)

lemma canonical_available:
  "canonical_repr_at_block b n v1 v2 v3 v4 = Inr (b', unlocked) \<Longrightarrow>
     get_available_balance_at_burn_block b n v1 v2 v3 v4 = Inr (amount_unlocked b')"
  by (auto simp: canonical_repr_at_block_def get_available_balance_at_burn_block_def
      split: if_splits)

text \<open>
  (C23) The two questions the code asks about a lock agree with one number: a balance has
  unlockable tokens exactly when it has a non-zero locked amount whose effective unlock
  height has been reached, and it has locked tokens exactly when it has a non-zero locked
  amount whose effective unlock height is still ahead.
\<close>
theorem lock_status_effective_height:
  "(has_unlockable_tokens_at_burn_block b n v1 v2 v3 v4 \<longleftrightarrow>
      amount_locked b \<noteq> 0 \<and> effective_unlock_height b v1 v2 v3 v4 \<le> n) \<and>
   (has_locked_tokens_at_burn_block b n v1 v2 v3 v4 \<longleftrightarrow>
      amount_locked b \<noteq> 0 \<and> n < effective_unlock_height b v1 v2 v3 v4)"
  by (cases b) auto

section \<open>The stored form reads back\<close>

lemma stx_balance_roundtrip:
  "stx_balance_deserialize (stx_balance_serialize b) =
     Inr (if amount_locked b = 0 then Unlocked (amount_unlocked b) else b)"
  by (cases b)
    (simp_all add: stx_balance_deserialize_def stx_balance_serialize_def Let_def slice_def
      unlocked_and_v1_size_def v2_to_v4_size_def pox_2_version_def pox_3_version_def
      pox_4_version_def pox_5_version_def)

definition storable_balance :: "STXBalance \<Rightarrow> bool" where
  "storable_balance b \<longleftrightarrow> amount_locked b = 0 \<longrightarrow> b = Unlocked (amount_unlocked b)"

interpretation stx_codec: clarity_codec stx_balance_serialize stx_balance_deserialize storable_balance
  by unfold_locales (auto simp: stx_balance_roundtrip storable_balance_def)

end
