(* ===== verification/ClarityDB.thy ===== *)
theory ClarityDB
  imports RollbackWrappers STXBalances ExecutionCosts Epochs
begin

text \<open>
  The Clarity database (\<open>clarity/src/vm/database/clarity_db.rs\<close>): typed reads and writes over
  the rollback wrapper, the keys they use, the epoch and tenure height kept in the state,
  burnchain heights, account balances and nonces, and the supply and balances of fungible
  tokens. The traits \<open>HeadersDB\<close> and \<open>BurnStateDB\<close> are records of the queries used here. The
  execution cache of contract analyses is not part of the model.

  The lemmas show that keys of different kinds and of different accounts never collide, and
  what a read returns after a write.
\<close>

section \<open>Kinds of entries\<close>

datatype StoreType =
    DataMap | Variable | FungibleToken | CirculatingSupply | NonFungibleToken
  | DataMapMeta | VariableMeta | FungibleTokenMeta | NonFungibleTokenMeta | StoreContract
  | SimmedBlock | SimmedBlockHeight | Nonce | StoreSTXBalance | PoxSTXLockup | PoxUnlockHeight

fun store_type_u8 :: "StoreType \<Rightarrow> u8" where
  "store_type_u8 DataMap = 0x00"
| "store_type_u8 Variable = 0x01"
| "store_type_u8 FungibleToken = 0x02"
| "store_type_u8 CirculatingSupply = 0x03"
| "store_type_u8 NonFungibleToken = 0x04"
| "store_type_u8 DataMapMeta = 0x05"
| "store_type_u8 VariableMeta = 0x06"
| "store_type_u8 FungibleTokenMeta = 0x07"
| "store_type_u8 NonFungibleTokenMeta = 0x08"
| "store_type_u8 StoreContract = 0x09"
| "store_type_u8 SimmedBlock = 0x10"
| "store_type_u8 SimmedBlockHeight = 0x11"
| "store_type_u8 Nonce = 0x12"
| "store_type_u8 StoreSTXBalance = 0x13"
| "store_type_u8 PoxSTXLockup = 0x14"
| "store_type_u8 PoxUnlockHeight = 0x15"

text \<open>\<open>str::parse::<u8>\<close> with the messages of its error.\<close>

fun parse_u8_digits :: "nat \<Rightarrow> string \<Rightarrow> string + nat" where
  "parse_u8_digits acc [] = Inr acc"
| "parse_u8_digits acc (c # cs) =
     (let n = (of_char c :: nat) in
      if \<not> (48 \<le> n \<and> n \<le> 57) then Inl ''invalid digit found in string''
      else if 255 < 10 * acc + (n - 48) then Inl ''number too large to fit in target type''
      else parse_u8_digits (10 * acc + (n - 48)) cs)"

fun parse_u8 :: "string \<Rightarrow> string + u8" where
  "parse_u8 [] = Inl ''cannot parse integer from empty string''"
| "parse_u8 (c # cs) =
     (if c = CHR ''+'' \<and> cs = [] then Inl ''invalid digit found in string''
      else rbind (parse_u8_digits 0 (if c = CHR ''+'' then cs else c # cs)) (\<lambda>n. Inr (of_nat n)))"

definition store_type_try_from :: "string \<Rightarrow> string + StoreType" where
  "store_type_try_from value =
     rbind (parse_u8 value) (\<lambda>hex_value.
       if hex_value = 0x00 then Inr DataMap
       else if hex_value = 0x01 then Inr Variable
       else if hex_value = 0x02 then Inr FungibleToken
       else if hex_value = 0x03 then Inr CirculatingSupply
       else if hex_value = 0x04 then Inr NonFungibleToken
       else if hex_value = 0x05 then Inr DataMapMeta
       else if hex_value = 0x06 then Inr VariableMeta
       else if hex_value = 0x07 then Inr FungibleTokenMeta
       else if hex_value = 0x08 then Inr NonFungibleTokenMeta
       else if hex_value = 0x09 then Inr StoreContract
       else if hex_value = 0x10 then Inr SimmedBlock
       else if hex_value = 0x11 then Inr SimmedBlockHeight
       else if hex_value = 0x12 then Inr Nonce
       else if hex_value = 0x13 then Inr StoreSTXBalance
       else if hex_value = 0x14 then Inr PoxSTXLockup
       else if hex_value = 0x15 then Inr PoxUnlockHeight
       else Inl ''Invalid StoreType'')"

datatype ContractDataVarName = VarContract | VarContractSize | VarContractSrc | VarContractDataSize

fun contract_data_var_as_str :: "ContractDataVarName \<Rightarrow> string" where
  "contract_data_var_as_str VarContract = ''contract''"
| "contract_data_var_as_str VarContractSize = ''contract-size''"
| "contract_data_var_as_str VarContractSrc = ''contract-src''"
| "contract_data_var_as_str VarContractDataSize = ''contract-data-size''"

section \<open>Keys\<close>

text \<open>The text of a kind in a key: \<open>data as u8\<close>, in decimal.\<close>

definition show_store_type :: "StoreType \<Rightarrow> string" where
  "show_store_type data = show_nat (unat (store_type_u8 data))"

definition make_key_for_trip ::
  "(u8 list \<Rightarrow> u8 list) \<Rightarrow> QualifiedContractIdentifier \<Rightarrow> StoreType \<Rightarrow> string \<Rightarrow> string" where
  "make_key_for_trip sha256 contract_identifier data var_name =
     ''vm::'' @ contract_identifier_to_string sha256 contract_identifier @ ''::'' @
       show_store_type data @ ''::'' @ var_name"

definition db_make_metadata_key :: "StoreType \<Rightarrow> string \<Rightarrow> string" where
  "db_make_metadata_key data var_name =
     ''vm-metadata::'' @ show_store_type data @ ''::'' @ var_name"

definition clarity_state_epoch_key :: string where
  "clarity_state_epoch_key = ''vm-epoch::epoch-version''"

definition TENURE_HEIGHT_KEY :: string where
  "TENURE_HEIGHT_KEY = ''_stx-data::tenure_height''"

definition CLARITY_STORAGE_BLOCK_TIME_KEY :: string where
  "CLARITY_STORAGE_BLOCK_TIME_KEY = ''_stx-data::clarity_storage::block_time''"

definition make_key_for_quad ::
  "(u8 list \<Rightarrow> u8 list) \<Rightarrow> QualifiedContractIdentifier \<Rightarrow> StoreType \<Rightarrow> string \<Rightarrow> string \<Rightarrow> string" where
  "make_key_for_quad sha256 contract_identifier data var_name key_value =
     ''vm::'' @ contract_identifier_to_string sha256 contract_identifier @ ''::'' @
       show_store_type data @ ''::'' @ var_name @ ''::'' @ key_value"

definition make_key_for_account ::
  "(u8 list \<Rightarrow> u8 list) \<Rightarrow> PrincipalData \<Rightarrow> StoreType \<Rightarrow> string" where
  "make_key_for_account sha256 p data =
     ''vm-account::'' @ principal_to_string sha256 p @ ''::'' @ show_store_type data"

definition make_key_for_account_balance :: "(u8 list \<Rightarrow> u8 list) \<Rightarrow> PrincipalData \<Rightarrow> string" where
  "make_key_for_account_balance sha256 p =
     make_key_for_account sha256 p StoreSTXBalance"

definition make_key_for_account_nonce :: "(u8 list \<Rightarrow> u8 list) \<Rightarrow> PrincipalData \<Rightarrow> string" where
  "make_key_for_account_nonce sha256 p = make_key_for_account sha256 p Nonce"

definition make_key_for_account_stx_locked :: "(u8 list \<Rightarrow> u8 list) \<Rightarrow> PrincipalData \<Rightarrow> string" where
  "make_key_for_account_stx_locked sha256 p =
     make_key_for_account sha256 p PoxSTXLockup"

definition make_key_for_account_unlock_height :: "(u8 list \<Rightarrow> u8 list) \<Rightarrow> PrincipalData \<Rightarrow> string" where
  "make_key_for_account_unlock_height sha256 p =
     make_key_for_account sha256 p PoxUnlockHeight"

section \<open>The database\<close>

type_synonym SortitionId = "u8 list"
type_synonym db_epoch = "ExecutionCost StacksEpoch"

record HeadersDB =
  hdr_get_burn_block_height_for_block :: "StacksBlockId \<Rightarrow> u32 option"
  hdr_get_stacks_height_for_tenure_height :: "StacksBlockId \<Rightarrow> u32 \<Rightarrow> u32 option"

record BurnStateDB =
  burn_get_tip_burn_block_height :: "u32 option"
  burn_get_v1_unlock_height :: u32
  burn_get_v2_unlock_height :: u32
  burn_get_v3_unlock_height :: u32
  burn_get_pox_3_activation_height :: u32
  burn_get_pox_4_activation_height :: u32
  burn_get_pox_5_activation_height :: u32
  burn_get_burn_block_height :: "SortitionId \<Rightarrow> u32 option"
  burn_get_burn_start_height :: u32
  burn_get_stacks_epoch :: "u32 \<Rightarrow> db_epoch option"

record 's ClarityDatabase =
  db_store :: "'s RollbackWrapper"
  headers_db :: HeadersDB
  burn_state_db :: BurnStateDB

definition db_new :: "'s \<Rightarrow> HeadersDB \<Rightarrow> BurnStateDB \<Rightarrow> 's ClarityDatabase" where
  "db_new st hdrs burn = \<lparr>db_store = rw_new st, headers_db = hdrs, burn_state_db = burn\<rparr>"

definition db_new_with_rollback_wrapper ::
  "'s RollbackWrapper \<Rightarrow> HeadersDB \<Rightarrow> BurnStateDB \<Rightarrow> 's ClarityDatabase" where
  "db_new_with_rollback_wrapper w hdrs burn =
     \<lparr>db_store = w, headers_db = hdrs, burn_state_db = burn\<rparr>"

text \<open>
  The databases of a store with no chain behind it. The digest function of block ids comes
  from an external library.
\<close>

definition stacks_block_id_new :: "(u8 list \<Rightarrow> u8 list) \<Rightarrow> u8 list \<Rightarrow> u8 list \<Rightarrow> StacksBlockId" where
  "stacks_block_id_new sha512_256 sortition_consensus_hash block_hash =
     sha512_256 (block_hash @ sortition_consensus_hash)"

definition first_mined :: "(u8 list \<Rightarrow> u8 list) \<Rightarrow> StacksBlockId" where
  "first_mined sha512_256 = stacks_block_id_new sha512_256 (replicate 20 0) (replicate 32 0)"

definition null_headers_db :: "(u8 list \<Rightarrow> u8 list) \<Rightarrow> HeadersDB" where
  "null_headers_db sha512_256 =
     \<lparr>hdr_get_burn_block_height_for_block =
        (\<lambda>id_bhh. if id_bhh = first_mined sha512_256 then Some 0 else Some 1),
      hdr_get_stacks_height_for_tenure_height = (\<lambda>_ _. None)\<rparr>"

definition null_burn_state_db :: "StacksEpochId \<Rightarrow> BurnStateDB" where
  "null_burn_state_db epoch =
     \<lparr>burn_get_tip_burn_block_height = Some 0,
      burn_get_v1_unlock_height = - 1,
      burn_get_v2_unlock_height = - 1,
      burn_get_v3_unlock_height = - 1,
      burn_get_pox_3_activation_height = - 1,
      burn_get_pox_4_activation_height = - 1,
      burn_get_pox_5_activation_height = - 1,
      burn_get_burn_block_height = (\<lambda>_. None),
      burn_get_burn_start_height = 0,
      burn_get_stacks_epoch = (\<lambda>_. Some
        \<lparr>epoch_id = epoch, epoch_start_height = 0, epoch_end_height = - 1,
         block_limit = max_value_cost, epoch_network_epoch = 0\<rparr>)\<rparr>"

definition memory_store_new :: SideStore where
  "memory_store_new = \<lparr>data_table = Map.empty, metadata_table = Map.empty\<rparr>"

definition as_clarity_db :: "(u8 list \<Rightarrow> u8 list) \<Rightarrow> SideStore \<Rightarrow> SideStore ClarityDatabase" where
  "as_clarity_db sha512_256 st =
     db_new st (null_headers_db sha512_256) (null_burn_state_db Epoch20)"

text \<open>A method of the wrapper, called on the field \<open>store\<close>.\<close>

definition on_store ::
  "('s RollbackWrapper, 'e, 'a) meth \<Rightarrow> ('s ClarityDatabase, 'e, 'a) meth" where
  "on_store m = zoom db_store db_store_update m"

definition is_stack_empty :: "'s ClarityDatabase \<Rightarrow> bool" where
  "is_stack_empty db \<longleftrightarrow> rw_depth (db_store db) = 0"

definition db_begin :: "'s ClarityDatabase \<Rightarrow> 's ClarityDatabase" where
  "db_begin db = db\<lparr>db_store := rw_nest (db_store db)\<rparr>"

definition db_commit ::
  "'s ClarityBackingStore \<Rightarrow> ('s ClarityDatabase, VmExecutionError, unit) meth" where
  "db_commit ops = on_store (rw_commit ops)"

definition db_roll_back :: "('s ClarityDatabase, VmExecutionError, unit) meth" where
  "db_roll_back = on_store rw_rollback"

definition db_set_block_hash ::
  "'s ClarityBackingStore \<Rightarrow> StacksBlockId \<Rightarrow> bool \<Rightarrow>
   ('s ClarityDatabase, VmExecutionError, StacksBlockId) meth" where
  "db_set_block_hash ops bhh query_pending = on_store (rw_set_block_hash ops bhh query_pending)"

text \<open>The type class argument of \<open>put_data\<close> and \<open>get_data\<close> is the pair of codec functions.\<close>

definition put_data ::
  "('a \<Rightarrow> string) \<Rightarrow> string \<Rightarrow> 'a \<Rightarrow> ('s ClarityDatabase, VmExecutionError, unit) meth" where
  "put_data ser key value = on_store (rw_put_data key (ser value))"

definition get_data ::
  "'s ClarityBackingStore \<Rightarrow> (string \<Rightarrow> 'a vm_result) \<Rightarrow> string \<Rightarrow>
   ('s ClarityDatabase, VmExecutionError, 'a option) meth" where
  "get_data ops de key = on_store (rw_get_data ops de key)"

definition db_get_data_with_proof ::
  "'s ClarityBackingStore \<Rightarrow> (string \<Rightarrow> 'a vm_result) \<Rightarrow> string \<Rightarrow>
   ('s ClarityDatabase, VmExecutionError, ('a \<times> u8 list) option) meth" where
  "db_get_data_with_proof ops de key = on_store (rw_get_data_with_proof ops de key)"

definition db_get_contract_hash ::
  "'s ClarityBackingStore \<Rightarrow> (u8 list \<Rightarrow> u8 list) \<Rightarrow> QualifiedContractIdentifier \<Rightarrow>
   ('s ClarityDatabase, VmExecutionError, Sha512Trunc256Sum option) meth" where
  "db_get_contract_hash ops sha256 contract_identifier =
     on_store (rw_get_contract_hash ops sha256 contract_identifier)"

section \<open>Metadata\<close>

definition set_metadata ::
  "QualifiedContractIdentifier \<Rightarrow> string \<Rightarrow> string \<Rightarrow>
   ('s ClarityDatabase, VmExecutionError, unit) meth" where
  "set_metadata contract_identifier key data =
     on_store (rw_insert_metadata contract_identifier key data)"

definition insert_metadata ::
  "'s ClarityBackingStore \<Rightarrow> (u8 list \<Rightarrow> u8 list) \<Rightarrow> ('a \<Rightarrow> string) \<Rightarrow>
   QualifiedContractIdentifier \<Rightarrow> string \<Rightarrow> 'a \<Rightarrow> ('s ClarityDatabase, VmExecutionError, unit) meth" where
  "insert_metadata ops sha256 ser contract_identifier key data =
     sbind (\<lambda>db. let (b, w) = rw_has_metadata_entry ops contract_identifier key (db_store db)
                 in (Inr b, db\<lparr>db_store := w\<rparr>)) (\<lambda>exists.
       if exists
       then sfail (expect_err (''Metadata entry '' @ CHR 0x27 # key @ CHR 0x27 #
              '' already exists for contract: '' @
              contract_identifier_to_string sha256 contract_identifier))
       else on_store (rw_insert_metadata contract_identifier key (ser data)))"

definition fetch_metadata ::
  "'s ClarityBackingStore \<Rightarrow> (string \<Rightarrow> 'a vm_result) \<Rightarrow> QualifiedContractIdentifier \<Rightarrow> string \<Rightarrow>
   ('s ClarityDatabase, VmExecutionError, 'a option) meth" where
  "fetch_metadata ops de contract_identifier key =
     sbind (on_store (rw_get_metadata ops contract_identifier key)) (\<lambda>x_opt.
       slift (deserialize_opt de x_opt))"

definition fetch_metadata_manual ::
  "'s ClarityBackingStore \<Rightarrow> (string \<Rightarrow> 'a vm_result) \<Rightarrow> u32 \<Rightarrow> QualifiedContractIdentifier \<Rightarrow> string \<Rightarrow>
   ('s ClarityDatabase, VmExecutionError, 'a option) meth" where
  "fetch_metadata_manual ops de at_height contract_identifier key =
     sbind (on_store (rw_get_metadata_manual ops at_height contract_identifier key)) (\<lambda>x_opt.
       slift (deserialize_opt de x_opt))"

definition map_no_contract_as_none ::
  "('s, VmExecutionError, 'a option) meth \<Rightarrow> ('s, VmExecutionError, 'a option) meth" where
  "map_no_contract_as_none m = (\<lambda>s.
     case m s of
       (Inl (RuntimeCheck (NoSuchContract _)), s') \<Rightarrow> (Inr None, s')
     | (r, s') \<Rightarrow> (r, s'))"

section \<open>Epoch, block time and tenure height\<close>

definition get_clarity_epoch_version ::
  "'s ClarityBackingStore \<Rightarrow> ('s ClarityDatabase, VmExecutionError, StacksEpochId) meth" where
  "get_clarity_epoch_version ops =
     sbind (get_data ops u32_deserialize clarity_state_epoch_key) (\<lambda>x.
       case x of
         Some x \<Rightarrow> slift (map_err (\<lambda>_. expect_err ''Bad Clarity epoch version in stored Clarity state'')
                     (epoch_try_from x))
       | None \<Rightarrow> sret Epoch20)"

definition set_clarity_epoch_version ::
  "StacksEpochId \<Rightarrow> ('s ClarityDatabase, VmExecutionError, unit) meth" where
  "set_clarity_epoch_version epoch =
     put_data u32_serialize clarity_state_epoch_key (epoch_as_u32 epoch)"

text \<open>
  Integers and token metadata are written with \<open>serde_json\<close>; the argument \<open>serde\<close> holds its
  functions for the types stored here.
\<close>

record FungibleTokenMetadata =
  total_supply :: "u128 option"

record SerdeJson =
  json_u64 :: "(u64 \<Rightarrow> string) \<times> (string \<Rightarrow> u64 option)"
  json_u128 :: "(u128 \<Rightarrow> string) \<times> (string \<Rightarrow> u128 option)"
  json_principal :: "PrincipalData \<Rightarrow> string"
  json_ft_metadata :: "(FungibleTokenMetadata \<Rightarrow> string) \<times> (string \<Rightarrow> FungibleTokenMetadata option)"

definition setup_block_metadata ::
  "'s ClarityBackingStore \<Rightarrow> SerdeJson \<Rightarrow> u64 option \<Rightarrow>
   ('s ClarityDatabase, VmExecutionError, unit) meth" where
  "setup_block_metadata ops serde block_time =
     sbind (get_clarity_epoch_version ops) (\<lambda>epoch.
       if uses_marfed_block_time epoch
       then sbind (slift (ok_or block_time
                (expect_err ''FATAL: Marfed block time not provided to Clarity DB setup''))) (\<lambda>block_time.
              put_data (fst (json_u64 serde)) CLARITY_STORAGE_BLOCK_TIME_KEY block_time)
       else sret ())"

definition get_current_block_time ::
  "'s ClarityBackingStore \<Rightarrow> SerdeJson \<Rightarrow> ('s ClarityDatabase, VmExecutionError, u64) meth" where
  "get_current_block_time ops serde =
     sbind (get_data ops (deserialize_json (snd (json_u64 serde))) CLARITY_STORAGE_BLOCK_TIME_KEY) (\<lambda>x.
       case x of Some value \<Rightarrow> sret value | None \<Rightarrow> sfail (Runtime BlockTimeNotAvailable))"

definition db_get_current_block_height :: "'s ClarityBackingStore \<Rightarrow> 's ClarityDatabase \<Rightarrow> u32" where
  "db_get_current_block_height ops db = bs_get_current_block_height ops (store (db_store db))"

definition get_tenure_height ::
  "'s ClarityBackingStore \<Rightarrow> ('s ClarityDatabase, VmExecutionError, u32) meth" where
  "get_tenure_height ops =
     sbind (get_clarity_epoch_version ops) (\<lambda>epoch.
       if epoch < Epoch30 then sget (db_get_current_block_height ops)
       else sbind (get_data ops u32_deserialize TENURE_HEIGHT_KEY) (\<lambda>x.
              slift (ok_or x (expect_err ''No tenure height in stored Clarity state''))))"

definition set_tenure_height ::
  "'s ClarityBackingStore \<Rightarrow> u32 \<Rightarrow> ('s ClarityDatabase, VmExecutionError, unit) meth" where
  "set_tenure_height ops height =
     sbind (get_clarity_epoch_version ops) (\<lambda>epoch.
       if epoch < Epoch30
       then sfail (expect_err ''Setting tenure height in Clarity state is not supported before epoch 3.0'')
       else put_data u32_serialize TENURE_HEIGHT_KEY height)"

section \<open>Heights\<close>

definition get_index_block_header_hash ::
  "'s ClarityBackingStore \<Rightarrow> u32 \<Rightarrow> ('s ClarityDatabase, VmExecutionError, StacksBlockId) meth" where
  "get_index_block_header_hash ops block_height =
     sbind (sget (\<lambda>db. bs_get_block_at_height ops block_height (store (db_store db)))) (\<lambda>x.
       slift (ok_or x (expect_err ''Block header hash must return for provided block height'')))"

definition eval_tip_block_id ::
  "'s ClarityBackingStore \<Rightarrow> ('s ClarityDatabase, VmExecutionError, StacksBlockId) meth" where
  "eval_tip_block_id ops =
     sbind (sget (db_get_current_block_height ops)) (\<lambda>current_height.
       get_index_block_header_hash ops (saturating_sub current_height 1))"

definition get_v1_unlock_height :: "'s ClarityDatabase \<Rightarrow> u32" where
  "get_v1_unlock_height db = burn_get_v1_unlock_height (burn_state_db db)"

definition get_pox_3_activation_height :: "'s ClarityDatabase \<Rightarrow> u32" where
  "get_pox_3_activation_height db = burn_get_pox_3_activation_height (burn_state_db db)"

definition get_pox_4_activation_height :: "'s ClarityDatabase \<Rightarrow> u32" where
  "get_pox_4_activation_height db = burn_get_pox_4_activation_height (burn_state_db db)"

definition get_v2_unlock_height ::
  "'s ClarityBackingStore \<Rightarrow> ('s ClarityDatabase, VmExecutionError, u32) meth" where
  "get_v2_unlock_height ops =
     sbind (get_clarity_epoch_version ops) (\<lambda>epoch.
       if epoch \<ge> Epoch22 then sget (\<lambda>db. burn_get_v2_unlock_height (burn_state_db db))
       else sret (- 1))"

definition get_v3_unlock_height ::
  "'s ClarityBackingStore \<Rightarrow> ('s ClarityDatabase, VmExecutionError, u32) meth" where
  "get_v3_unlock_height ops =
     sbind (get_clarity_epoch_version ops) (\<lambda>epoch.
       if epoch \<ge> Epoch25 then sget (\<lambda>db. burn_get_v3_unlock_height (burn_state_db db))
       else sret (- 1))"

definition get_v4_unlock_height ::
  "'s ClarityBackingStore \<Rightarrow> ('s ClarityDatabase, VmExecutionError, u32) meth" where
  "get_v4_unlock_height ops =
     sbind (get_clarity_epoch_version ops) (\<lambda>epoch.
       if epoch \<ge> Epoch40 then sget (\<lambda>db. burn_get_pox_5_activation_height (burn_state_db db))
       else sret (- 1))"

definition get_burnchain_block_height :: "'s ClarityDatabase \<Rightarrow> StacksBlockId \<Rightarrow> u32 option" where
  "get_burnchain_block_height db id_bhh =
     hdr_get_burn_block_height_for_block (headers_db db) id_bhh"

definition get_burn_block_height :: "'s ClarityDatabase \<Rightarrow> SortitionId \<Rightarrow> u32 option" where
  "get_burn_block_height db sortition_id =
     burn_get_burn_block_height (burn_state_db db) sortition_id"

definition get_stacks_epoch :: "'s ClarityDatabase \<Rightarrow> u32 \<Rightarrow> db_epoch option" where
  "get_stacks_epoch db height = burn_get_stacks_epoch (burn_state_db db) height"

definition get_stacks_epoch_for_block ::
  "'s ClarityDatabase \<Rightarrow> StacksBlockId \<Rightarrow> StacksEpochId vm_result" where
  "get_stacks_epoch_for_block db id_bhh =
     rbind (ok_or (get_burnchain_block_height db id_bhh)
              (expect_err (''FATAL: no burnchain block height found for Stacks block '' @ to_hex id_bhh)))
       (\<lambda>burn_block.
     rbind (ok_or (get_stacks_epoch db burn_block) (expect_err ''Failed to get block data.''))
       (\<lambda>epoch. Inr (epoch_id epoch)))"

definition get_block_height_for_tenure_height ::
  "'s ClarityBackingStore \<Rightarrow> u32 \<Rightarrow> ('s ClarityDatabase, VmExecutionError, u32 option) meth" where
  "get_block_height_for_tenure_height ops tenure_height =
     sbind (get_tenure_height ops) (\<lambda>current_tenure_height.
       if current_tenure_height < tenure_height then sret None
       else sbind (sget (db_get_current_block_height ops)) (\<lambda>current_height.
         if current_height \<le> tenure_height then sret None
         else sbind (get_index_block_header_hash ops tenure_height) (\<lambda>id_bhh.
              sbind (\<lambda>db. (get_stacks_epoch_for_block db id_bhh, db)) (\<lambda>epoch.
              if \<not> uses_nakamoto_blocks epoch then sret (Some tenure_height)
              else sbind (eval_tip_block_id ops) (\<lambda>query_tip.
                   sget (\<lambda>db. hdr_get_stacks_height_for_tenure_height (headers_db db)
                                query_tip tenure_height))))))"

definition get_current_burnchain_block_height ::
  "'s ClarityBackingStore \<Rightarrow> ('s ClarityDatabase, VmExecutionError, u32) meth" where
  "get_current_burnchain_block_height ops =
     sbind (sget (db_get_current_block_height ops)) (\<lambda>cur_stacks_height.
     sbind (get_clarity_epoch_version ops) (\<lambda>epoch.
       if \<not> clarity_uses_tip_burn_block epoch then
         (if cur_stacks_height = 0
          then sget (\<lambda>db. burn_get_burn_start_height (burn_state_db db))
          else sbind (get_index_block_header_hash ops (cur_stacks_height - 1)) (\<lambda>last_mined_bhh.
               sbind (sget (\<lambda>db. get_burnchain_block_height db last_mined_bhh)) (\<lambda>h.
               slift (ok_or h (expect_err (''Block header hash '' @ CHR 0x27 # to_hex last_mined_bhh @
                 CHR 0x27 # '' must return for provided stacks block height '' @
                 show_nat (unat cur_stacks_height)))))))
       else sbind (sget (\<lambda>db. burn_get_tip_burn_block_height (burn_state_db db))) (\<lambda>h.
              slift (ok_or h (expect_err ''Failed to get burnchain tip height.'')))))"

section \<open>Accounts\<close>

definition get_account_stx_balance ::
  "'s ClarityBackingStore \<Rightarrow> (u8 list \<Rightarrow> u8 list) \<Rightarrow> PrincipalData \<Rightarrow>
   ('s ClarityDatabase, VmExecutionError, STXBalance) meth" where
  "get_account_stx_balance ops sha256 p =
     sbind (get_data ops stx_balance_deserialize (make_key_for_account_balance sha256 p)) (\<lambda>result.
       sret (case result of Some b \<Rightarrow> b | None \<Rightarrow> STXBalance_zero))"

definition get_account_nonce ::
  "'s ClarityBackingStore \<Rightarrow> (u8 list \<Rightarrow> u8 list) \<Rightarrow> SerdeJson \<Rightarrow> PrincipalData \<Rightarrow>
   ('s ClarityDatabase, VmExecutionError, u64) meth" where
  "get_account_nonce ops sha256 serde p =
     sbind (get_data ops (deserialize_json (snd (json_u64 serde)))
              (make_key_for_account_nonce sha256 p)) (\<lambda>result.
       sret (case result of Some n \<Rightarrow> n | None \<Rightarrow> 0))"

definition set_account_nonce ::
  "(u8 list \<Rightarrow> u8 list) \<Rightarrow> SerdeJson \<Rightarrow> PrincipalData \<Rightarrow> u64 \<Rightarrow>
   ('s ClarityDatabase, VmExecutionError, unit) meth" where
  "set_account_nonce sha256 serde p nonce =
     put_data (fst (json_u64 serde)) (make_key_for_account_nonce sha256 p) nonce"

section \<open>Fungible tokens\<close>

definition supply_key ::
  "(u8 list \<Rightarrow> u8 list) \<Rightarrow> QualifiedContractIdentifier \<Rightarrow> string \<Rightarrow> string" where
  "supply_key sha256 contract_identifier token_name =
     make_key_for_trip sha256 contract_identifier CirculatingSupply token_name"

definition ft_balance_key ::
  "(u8 list \<Rightarrow> u8 list) \<Rightarrow> SerdeJson \<Rightarrow> QualifiedContractIdentifier \<Rightarrow> string \<Rightarrow>
   PrincipalData \<Rightarrow> string" where
  "ft_balance_key sha256 serde contract_identifier token_name p =
     make_key_for_quad sha256 contract_identifier FungibleToken token_name (json_principal serde p)"

definition create_fungible_token ::
  "'s ClarityBackingStore \<Rightarrow> (u8 list \<Rightarrow> u8 list) \<Rightarrow> SerdeJson \<Rightarrow> QualifiedContractIdentifier \<Rightarrow>
   string \<Rightarrow> u128 option \<Rightarrow> ('s ClarityDatabase, VmExecutionError, FungibleTokenMetadata) meth" where
  "create_fungible_token ops sha256 serde contract_identifier token_name supply =
     (let data = \<lparr>total_supply = supply\<rparr>;
          key = db_make_metadata_key FungibleTokenMeta token_name
      in sthen (insert_metadata ops sha256 (fst (json_ft_metadata serde)) contract_identifier key data)
         (sthen (put_data (fst (json_u128 serde))
                   (supply_key sha256 contract_identifier token_name) 0)
         (sret data)))"

definition load_ft ::
  "'s ClarityBackingStore \<Rightarrow> SerdeJson \<Rightarrow> QualifiedContractIdentifier \<Rightarrow> string \<Rightarrow>
   ('s ClarityDatabase, VmExecutionError, FungibleTokenMetadata) meth" where
  "load_ft ops serde contract_identifier token_name =
     sbind (map_no_contract_as_none
              (fetch_metadata ops (deserialize_json (snd (json_ft_metadata serde)))
                 contract_identifier (db_make_metadata_key FungibleTokenMeta token_name))) (\<lambda>x.
       slift (ok_or x (RuntimeCheck (Unreachable (''No such FT: '' @ token_name)))))"

definition get_ft_supply ::
  "'s ClarityBackingStore \<Rightarrow> (u8 list \<Rightarrow> u8 list) \<Rightarrow> SerdeJson \<Rightarrow> QualifiedContractIdentifier \<Rightarrow>
   string \<Rightarrow> ('s ClarityDatabase, VmExecutionError, u128) meth" where
  "get_ft_supply ops sha256 serde contract_identifier token_name =
     sbind (get_data ops (deserialize_json (snd (json_u128 serde)))
              (supply_key sha256 contract_identifier token_name)) (\<lambda>supply.
       slift (ok_or supply (expect_err ''ERROR: Clarity VM failed to track token supply.'')))"

definition checked_increase_token_supply ::
  "'s ClarityBackingStore \<Rightarrow> (u8 list \<Rightarrow> u8 list) \<Rightarrow> SerdeJson \<Rightarrow> QualifiedContractIdentifier \<Rightarrow>
   string \<Rightarrow> u128 \<Rightarrow> FungibleTokenMetadata \<Rightarrow> ('s ClarityDatabase, VmExecutionError, unit) meth" where
  "checked_increase_token_supply ops sha256 serde contract_identifier token_name amount descriptor =
     (let key = supply_key sha256 contract_identifier token_name
      in sbind (get_data ops (deserialize_json (snd (json_u128 serde))) key) (\<lambda>x.
         sbind (slift (ok_or x (expect_err ''ERROR: Clarity VM failed to track token supply.'')))
           (\<lambda>current_supply.
         sbind (slift (ok_or (checked_add current_supply amount) (Runtime ArithmeticOverflow)))
           (\<lambda>new_supply.
         case total_supply descriptor of
           Some limit \<Rightarrow>
             if new_supply > limit then sfail (Runtime (SupplyOverflow new_supply limit))
             else put_data (fst (json_u128 serde)) key new_supply
         | None \<Rightarrow> put_data (fst (json_u128 serde)) key new_supply))))"

definition checked_decrease_token_supply ::
  "'s ClarityBackingStore \<Rightarrow> (u8 list \<Rightarrow> u8 list) \<Rightarrow> SerdeJson \<Rightarrow> QualifiedContractIdentifier \<Rightarrow>
   string \<Rightarrow> u128 \<Rightarrow> ('s ClarityDatabase, VmExecutionError, unit) meth" where
  "checked_decrease_token_supply ops sha256 serde contract_identifier token_name amount =
     (let key = supply_key sha256 contract_identifier token_name
      in sbind (get_data ops (deserialize_json (snd (json_u128 serde))) key) (\<lambda>x.
         sbind (slift (ok_or x (expect_err ''ERROR: Clarity VM failed to track token supply.'')))
           (\<lambda>current_supply.
         if amount > current_supply
         then sfail (Runtime (SupplyUnderflow current_supply amount))
         else put_data (fst (json_u128 serde)) key (current_supply - amount))))"

definition get_ft_balance ::
  "'s ClarityBackingStore \<Rightarrow> (u8 list \<Rightarrow> u8 list) \<Rightarrow> SerdeJson \<Rightarrow> QualifiedContractIdentifier \<Rightarrow>
   string \<Rightarrow> PrincipalData \<Rightarrow> FungibleTokenMetadata option \<Rightarrow>
   ('s ClarityDatabase, VmExecutionError, u128) meth" where
  "get_ft_balance ops sha256 serde contract_identifier token_name p descriptor =
     sthen (if descriptor = None
            then sthen (load_ft ops serde contract_identifier token_name) (sret ())
            else sret ())
     (sbind (get_data ops (deserialize_json (snd (json_u128 serde)))
               (ft_balance_key sha256 serde contract_identifier token_name p)) (\<lambda>result.
        sret (case result of None \<Rightarrow> 0 | Some balance \<Rightarrow> balance)))"

definition set_ft_balance ::
  "(u8 list \<Rightarrow> u8 list) \<Rightarrow> SerdeJson \<Rightarrow> QualifiedContractIdentifier \<Rightarrow> string \<Rightarrow>
   PrincipalData \<Rightarrow> u128 \<Rightarrow> ('s ClarityDatabase, VmExecutionError, unit) meth" where
  "set_ft_balance sha256 serde contract_identifier token_name p balance =
     put_data (fst (json_u128 serde))
       (ft_balance_key sha256 serde contract_identifier token_name p) balance"

section \<open>What readers see\<close>

text \<open>
  \<open>sees data valid db v vs\<close>: a context is open, reads of \<open>db\<close> see \<open>v\<close>, and \<open>vs\<close> are the
  older snapshots, so that rolling back makes readers see the first of them.
\<close>

definition sees ::
  "('s \<Rightarrow> string \<rightharpoonup> string) \<Rightarrow> ('s \<Rightarrow> bool) \<Rightarrow> 's ClarityDatabase \<Rightarrow>
   (string \<rightharpoonup> string) \<Rightarrow> (string \<rightharpoonup> string) list \<Rightarrow> bool" where
  "sees data valid db v vs \<longleftrightarrow>
     (\<exists>l ls. log_rel (db_store db) (l # ls) \<and>
        v # vs = snapshots (data (store (db_store db))) (l # ls) \<and>
        valid (store (db_store db)) \<and> query_pending_data (db_store db))"

definition same_chain :: "'s ClarityDatabase \<Rightarrow> 's ClarityDatabase \<Rightarrow> bool" where
  "same_chain db db' \<longleftrightarrow> headers_db db' = headers_db db \<and> burn_state_db db' = burn_state_db db"

lemma same_chain_refl [simp]: "same_chain db db"
  by (simp add: same_chain_def)

lemma same_chain_trans: "same_chain db db' \<Longrightarrow> same_chain db' db'' \<Longrightarrow> same_chain db db''"
  by (simp add: same_chain_def)

text \<open>
  \<open>reads data valid m f\<close>: where readers see \<open>v\<close> over the burnchain state \<open>c\<close>, the operation
  \<open>m\<close> returns \<open>f c v\<close> and leaves what readers see as it was.
\<close>

definition reads ::
  "('s \<Rightarrow> string \<rightharpoonup> string) \<Rightarrow> ('s \<Rightarrow> bool) \<Rightarrow> ('s ClarityDatabase, VmExecutionError, 'a) meth \<Rightarrow>
   (BurnStateDB \<Rightarrow> (string \<rightharpoonup> string) \<Rightarrow> 'a vm_result) \<Rightarrow> bool" where
  "reads data valid m f \<longleftrightarrow>
     (\<forall>db v vs. sees data valid db v vs \<longrightarrow>
        (\<exists>db'. m db = (f (burn_state_db db) v, db') \<and> sees data valid db' v vs \<and> same_chain db db'))"

lemma readsE:
  assumes "reads data valid m f" and "sees data valid db v vs"
  obtains db' where "m db = (f (burn_state_db db) v, db')" and "sees data valid db' v vs"
    and "same_chain db db'"
  using assms unfolding reads_def by blast

lemma reads_sret: "reads data valid (sret x) (\<lambda>_ _. Inr x)"
  by (auto simp: reads_def run_simps)

lemma reads_slift: "reads data valid (slift r) (\<lambda>_ _. r)"
  by (auto simp: reads_def run_simps)

lemma reads_sget_burn: "reads data valid (sget (\<lambda>db. g (burn_state_db db))) (\<lambda>c _. Inr (g c))"
  by (auto simp: reads_def run_simps)

lemma reads_sbind:
  assumes "reads data valid m f" and "\<And>x. reads data valid (n x) (g x)"
  shows "reads data valid (sbind m n) (\<lambda>c v. rbind (f c v) (\<lambda>x. g x c v))"
  unfolding reads_def
proof (intro allI impI)
  fix db v vs
  assume "sees data valid db v vs"
  with assms(1) obtain db' where db': "m db = (f (burn_state_db db) v, db')" "sees data valid db' v vs"
      "same_chain db db'"
    by (rule readsE)
  show "\<exists>db'. sbind m n db = (rbind (f (burn_state_db db) v) (\<lambda>x. g x (burn_state_db db) v), db') \<and>
          sees data valid db' v vs \<and> same_chain db db'"
  proof (cases "f (burn_state_db db) v")
    case (Inl e)
    with db' show ?thesis by (simp add: run_simps)
  next
    case (Inr x)
    obtain db'' where "n x db' = (g x (burn_state_db db') v, db'')" "sees data valid db'' v vs"
        "same_chain db' db''"
      using assms(2) db'(2) by (rule readsE)
    with db' Inr show ?thesis
      by (auto simp: run_simps same_chain_def)
  qed
qed

lemma reads_if:
  assumes "b \<Longrightarrow> reads data valid m f" and "\<not> b \<Longrightarrow> reads data valid n g"
  shows "reads data valid (if b then m else n) (\<lambda>c v. if b then f c v else g c v)"
  using assms by (auto simp: reads_def)

lemma db_put_data_sees:
  assumes "sees data valid db v vs"
  shows "\<exists>db'. put_data ser k x db = (Inr (), db') \<and>
           sees data valid db' (v(k \<mapsto> ser x)) vs \<and> same_chain db db'"
proof -
  from assms obtain d md ls where db: "log_rel (db_store db) ((d, md) # ls)"
      "v # vs = snapshots (data (store (db_store db))) ((d, md) # ls)"
      "valid (store (db_store db))" "query_pending_data (db_store db)"
    by (auto simp: sees_def)
  obtain w where "rw_put_data k (ser x) (db_store db) = (Inr (), w)"
      "log_rel w ((d @ [(k, ser x)], md) # ls)" "store w = store (db_store db)"
      "query_pending_data w = query_pending_data (db_store db)"
    using log_rel_put [OF db(1), of k "ser x"] by auto
  then have put: "put_data ser k x db = (Inr (), db\<lparr>db_store := w\<rparr>)"
    and "log_rel w ((d @ [(k, ser x)], md) # ls)" "store w = store (db_store db)"
      "query_pending_data w"
    using db(4) by (simp_all add: put_data_def on_store_def run_simps)
  then have "sees data valid (db\<lparr>db_store := w\<rparr>) (v(k \<mapsto> ser x)) vs"
    unfolding sees_def using db
    by (intro exI [of _ "(d @ [(k, ser x)], md)"] exI [of _ ls]) auto
  with put show ?thesis by (auto simp: same_chain_def)
qed

lemma db_begin_sees: "sees data valid db v vs \<Longrightarrow> sees data valid (db_begin db) v (v # vs)"
  by (force simp: sees_def db_begin_def rw_nest_def intro: log_rel_nest [unfolded rw_nest_def])

lemma db_new_sees:
  assumes "valid st"
  shows "sees data valid (db_begin (db_new st hdrs burn)) (data st) [data st]"
  unfolding sees_def db_begin_def db_new_def
  using assms log_rel_nest [OF log_rel_new, of st]
  by (intro exI [of _ "([], [])"] exI [of _ "[]"]) (auto simp: rw_nest_def rw_new_def)

lemma db_roll_back_sees:
  assumes "sees data valid db v (u # w # vs)"
  shows "\<exists>db'. db_roll_back db = (Inr (), db') \<and> sees data valid db' u (w # vs) \<and> same_chain db db'"
proof -
  from assms obtain l ls where db: "log_rel (db_store db) (l # ls)"
      "v # u # w # vs = snapshots (data (store (db_store db))) (l # ls)"
      "valid (store (db_store db))" "query_pending_data (db_store db)"
    by (auto simp: sees_def)
  then obtain a b ls' where ls: "ls = (a, b) # ls'" by (cases ls) auto
  obtain w' where "rw_rollback (db_store db) = (Inr (), w')" "log_rel w' ls"
      "store w' = store (db_store db)" "query_pending_data w' = query_pending_data (db_store db)"
    using log_rel_rollback [OF db(1)] by auto
  moreover from this db ls have "sees data valid (db\<lparr>db_store := w'\<rparr>) u (w # vs)"
    unfolding sees_def by (intro exI [of _ "(a, b)"] exI [of _ ls']) simp
  ultimately show ?thesis
    by (auto simp: db_roll_back_def on_store_def run_simps same_chain_def)
qed

context backing_store
begin

lemma reads_get_data: "reads data valid (get_data ops de k) (\<lambda>_ v. deserialize_opt de (v k))"
  unfolding reads_def
proof (intro allI impI)
  fix db v vs
  assume "sees data valid db v vs"
  then obtain l ls where db: "log_rel (db_store db) (l # ls)"
      "v # vs = snapshots (data (store (db_store db))) (l # ls)"
      "valid (store (db_store db))" "query_pending_data (db_store db)"
    by (auto simp: sees_def)
  have v: "v = data (store (db_store db)) ++ map_of (rev (concat (rev (map fst (l # ls)))))"
    using snapshots_hd [of "data (store (db_store db))" "l # ls"] db(2) by (metis list.sel(1))
  obtain w where w: "rw_get_data ops de k (db_store db) = (deserialize_opt de (v k), w)"
      "log_rel w (l # ls)" "data (store w) = data (store (db_store db))" "valid (store w)"
      "query_pending_data w"
    using rw_get_data_view [OF db(1,4,3), of de k] v by auto
  then have "sees data valid (db\<lparr>db_store := w\<rparr>) v vs"
    unfolding sees_def using db by (intro exI [of _ l] exI [of _ ls]) simp
  with w show "\<exists>db'. get_data ops de k db = (deserialize_opt de (v k), db') \<and>
          sees data valid db' v vs \<and> same_chain db db'"
    by (auto simp: get_data_def on_store_def run_simps same_chain_def)
qed

end

section \<open>Reads as functions of what is seen\<close>

definition epoch_in :: "(string \<rightharpoonup> string) \<Rightarrow> StacksEpochId vm_result" where
  "epoch_in v =
     rbind (deserialize_opt u32_deserialize (v clarity_state_epoch_key)) (\<lambda>x.
       case x of
         Some x \<Rightarrow> map_err (\<lambda>_. expect_err ''Bad Clarity epoch version in stored Clarity state'')
                     (epoch_try_from x)
       | None \<Rightarrow> Inr Epoch20)"

definition v2_height_in :: "BurnStateDB \<Rightarrow> (string \<rightharpoonup> string) \<Rightarrow> u32 vm_result" where
  "v2_height_in c v =
     rbind (epoch_in v) (\<lambda>e. Inr (if e \<ge> Epoch22 then burn_get_v2_unlock_height c else - 1))"

definition v3_height_in :: "BurnStateDB \<Rightarrow> (string \<rightharpoonup> string) \<Rightarrow> u32 vm_result" where
  "v3_height_in c v =
     rbind (epoch_in v) (\<lambda>e. Inr (if e \<ge> Epoch25 then burn_get_v3_unlock_height c else - 1))"

definition v4_height_in :: "BurnStateDB \<Rightarrow> (string \<rightharpoonup> string) \<Rightarrow> u32 vm_result" where
  "v4_height_in c v =
     rbind (epoch_in v) (\<lambda>e. Inr (if e \<ge> Epoch40 then burn_get_pox_5_activation_height c else - 1))"

definition balance_in :: "(u8 list \<Rightarrow> u8 list) \<Rightarrow> (string \<rightharpoonup> string) \<Rightarrow> PrincipalData \<Rightarrow> STXBalance vm_result" where
  "balance_in sha256 v p =
     rbind (deserialize_opt stx_balance_deserialize (v (make_key_for_account_balance sha256 p)))
       (\<lambda>x. Inr (case x of Some b \<Rightarrow> b | None \<Rightarrow> STXBalance_zero))"

definition u128_in :: "SerdeJson \<Rightarrow> (string \<rightharpoonup> string) \<Rightarrow> string \<Rightarrow> u128 option vm_result" where
  "u128_in serde v k = deserialize_opt (deserialize_json (snd (json_u128 serde))) (v k)"

lemma reads_cong: "reads data valid m f \<Longrightarrow> (\<And>c v. f c v = g c v) \<Longrightarrow> reads data valid m g"
  by (simp add: reads_def)

context backing_store
begin

lemma reads_epoch: "reads data valid (get_clarity_epoch_version ops) (\<lambda>_. epoch_in)"
  unfolding get_clarity_epoch_version_def epoch_in_def
  by (rule reads_sbind [OF reads_get_data, THEN reads_cong])
    (auto intro: reads_slift reads_sret split: option.split)

lemma reads_epoch_gate:
  "reads data valid
     (sbind (get_clarity_epoch_version ops) (\<lambda>e. if P e then sget (\<lambda>db. g (burn_state_db db)) else sret d))
     (\<lambda>c v. rbind (epoch_in v) (\<lambda>e. Inr (if P e then g c else d)))"
  by (rule reads_sbind [OF reads_epoch, of _ "\<lambda>e c v. Inr (if P e then g c else d)"])
    (simp add: reads_sget_burn reads_sret)

lemmas reads_heights =
  reads_epoch_gate [of "\<lambda>e. e \<ge> Epoch22" burn_get_v2_unlock_height "- 1",
    folded get_v2_unlock_height_def v2_height_in_def]
  reads_epoch_gate [of "\<lambda>e. e \<ge> Epoch25" burn_get_v3_unlock_height "- 1",
    folded get_v3_unlock_height_def v3_height_in_def]
  reads_epoch_gate [of "\<lambda>e. e \<ge> Epoch40" burn_get_pox_5_activation_height "- 1",
    folded get_v4_unlock_height_def v4_height_in_def]

lemma reads_account_balance:
  "reads data valid (get_account_stx_balance ops sha256 p) (\<lambda>_ v. balance_in sha256 v p)"
  unfolding get_account_stx_balance_def balance_in_def
  by (rule reads_sbind [OF reads_get_data reads_sret])

lemma reads_ft_supply:
  "reads data valid (get_ft_supply ops sha256 serde contract token)
     (\<lambda>_ v. rbind (u128_in serde v (supply_key sha256 contract token)) (\<lambda>x.
        ok_or x (expect_err ''ERROR: Clarity VM failed to track token supply.'')))"
  unfolding get_ft_supply_def u128_in_def by (rule reads_sbind [OF reads_get_data reads_slift])

lemma reads_ft_balance:
  "reads data valid (get_ft_balance ops sha256 serde contract token p (Some descriptor))
     (\<lambda>_ v. rbind (u128_in serde v (ft_balance_key sha256 serde contract token p)) (\<lambda>x.
        Inr (case x of None \<Rightarrow> 0 | Some b \<Rightarrow> b)))"
proof -
  have "get_ft_balance ops sha256 serde contract token p (Some descriptor) =
     sbind (get_data ops (deserialize_json (snd (json_u128 serde)))
               (ft_balance_key sha256 serde contract token p)) (\<lambda>result.
        sret (case result of None \<Rightarrow> 0 | Some b \<Rightarrow> b))"
    by (simp add: get_ft_balance_def sthen_def sbind_def sret_def)
  then show ?thesis
    unfolding u128_in_def by (simp only:) (rule reads_sbind [OF reads_get_data reads_sret])
qed

end

section \<open>Keys do not collide\<close>

lemma c32_no_colon: "d < 32 \<Longrightarrow> C32_CHARACTERS ! d \<noteq> CHR '':''"
proof -
  have "\<forall>d \<in> set [0..<32]. C32_CHARACTERS ! d \<noteq> CHR '':''" by code_simp
  then show "d < 32 \<Longrightarrow> ?thesis" by simp
qed

lemma c32_encode_no_colon: "CHR '':'' \<notin> set (c32_encode bs)"
proof (rule c32_encode_digits [of bs])
  fix es
  assume "c32_encode bs = c32_text es" and "\<forall>d \<in> set es. d < 32"
  then show ?thesis using c32_no_colon by (fastforce simp: c32_text_def)
qed

lemma to_address_no_colon:
  assumes "wf_standard p"
  shows "CHR '':'' \<notin> set (to_address sha256 p)"
proof -
  have v: "spd_version p < 32" using assms by (simp add: wf_standard_def)
  then have "unat (spd_version p) < 32" by (simp add: word_less_nat_alt)
  with v show ?thesis
    using c32_encode_no_colon c32_no_colon [THEN not_sym]
    by (simp add: to_address_def c32_address_def c32_check_encode_def Let_def leD)
qed

lemma contract_name_no_colon: "contract_name_try_from s = Inr t \<Longrightarrow> CHR '':'' \<notin> set s"
  by (auto simp: contract_name_try_from_def contract_name_regex_def is_letter_def is_digit_def
      split: if_splits list.splits)

lemma principal_no_colon: "wf_principal p \<Longrightarrow> CHR '':'' \<notin> set (principal_to_string sha256 p)"
  by (cases p) (auto simp: to_address_no_colon dest: contract_name_no_colon)

lemma contract_identifier_no_colon:
  "wf_principal (Contract c) \<Longrightarrow> CHR '':'' \<notin> set (contract_identifier_to_string sha256 c)"
  using principal_no_colon [of "Contract c" sha256] by (simp add: contract_identifier_to_string_def)

lemma append_colon_inj:
  assumes "a @ CHR '':'' # b = a' @ CHR '':'' # b'" and "CHR '':'' \<notin> set a" and "CHR '':'' \<notin> set a'"
  shows "a = a'" and "b = b'"
proof -
  have "takeWhile (\<lambda>c. c \<noteq> CHR '':'') (a @ CHR '':'' # b) = a"
    using assms(2) by (subst takeWhile_append2) auto
  moreover have "takeWhile (\<lambda>c. c \<noteq> CHR '':'') (a' @ CHR '':'' # b') = a'"
    using assms(3) by (subst takeWhile_append2) auto
  ultimately show "a = a'" using assms(1) by simp
  then show "b = b'" using assms(1) by simp
qed

lemma show_store_type_values:
  "show_store_type d =
     (case d of DataMap \<Rightarrow> ''0'' | Variable \<Rightarrow> ''1'' | FungibleToken \<Rightarrow> ''2'' | CirculatingSupply \<Rightarrow> ''3''
      | NonFungibleToken \<Rightarrow> ''4'' | DataMapMeta \<Rightarrow> ''5'' | VariableMeta \<Rightarrow> ''6'' | FungibleTokenMeta \<Rightarrow> ''7''
      | NonFungibleTokenMeta \<Rightarrow> ''8'' | StoreContract \<Rightarrow> ''9'' | SimmedBlock \<Rightarrow> ''16''
      | SimmedBlockHeight \<Rightarrow> ''17'' | Nonce \<Rightarrow> ''18'' | StoreSTXBalance \<Rightarrow> ''19'' | PoxSTXLockup \<Rightarrow> ''20''
      | PoxUnlockHeight \<Rightarrow> ''21'')"
  by (cases d; hypsubst; code_simp)

lemma show_store_type_inj: "show_store_type d = show_store_type d' \<longleftrightarrow> d = d'"
  by (cases d; cases d'; simp add: show_store_type_values)

lemma show_store_type_no_colon: "CHR '':'' \<notin> set (show_store_type d)"
  by (cases d; simp add: show_store_type_values)

lemma make_key_for_account_inj:
  assumes "wf_principal p" and "wf_principal q" and "\<And>x. length (sha256 x) = 32"
  shows "make_key_for_account sha256 p d = make_key_for_account sha256 q d' \<longleftrightarrow> p = q \<and> d = d'"
proof
  assume "make_key_for_account sha256 p d = make_key_for_account sha256 q d'"
  then have "principal_to_string sha256 p @ CHR '':'' # CHR '':'' # show_store_type d =
      principal_to_string sha256 q @ CHR '':'' # CHR '':'' # show_store_type d'"
    by (simp add: make_key_for_account_def)
  note eq = append_colon_inj [OF this principal_no_colon [OF assms(1)] principal_no_colon [OF assms(2)]]
  show "p = q \<and> d = d'"
    using eq principal_to_string_inj [of p q sha256] assms by (simp add: show_store_type_inj)
qed simp

lemma account_key_not_epoch_key: "make_key_for_account sha256 p d \<noteq> clarity_state_epoch_key"
  by (simp add: make_key_for_account_def clarity_state_epoch_key_def)

lemma account_key_not_contract_key:
  "make_key_for_account sha256 p d \<noteq> make_key_for_trip sha256' c d' n"
  "make_key_for_account sha256 p d \<noteq> make_key_for_quad sha256' c d' n k"
  by (simp_all add: make_key_for_account_def make_key_for_trip_def make_key_for_quad_def)

lemmas account_key_defs = make_key_for_account_balance_def make_key_for_account_nonce_def
  make_key_for_account_stx_locked_def make_key_for_account_unlock_height_def

lemma balance_key_inj:
  assumes "wf_principal p" and "wf_principal q" and "\<And>x. length (sha256 x) = 32"
  shows "make_key_for_account_balance sha256 p = make_key_for_account_balance sha256 q \<longleftrightarrow> p = q"
  using make_key_for_account_inj [of p q sha256] assms by (simp add: account_key_defs)

lemma store_type_roundtrip: "store_type_try_from (show_store_type d) = Inr d"
  by (cases d; hypsubst; code_simp)

text \<open>
  (C20) Account entries never share a key: the keys of two entries of well-formed principals are
  equal only for the same principal and the same kind of entry, and no account entry shares a
  key with the epoch marker or with an entry of a contract.
\<close>
theorem account_keys_disjoint:
  assumes "wf_principal p" and "wf_principal q" and "\<And>x. length (sha256 x) = 32"
  shows "(make_key_for_account sha256 p d = make_key_for_account sha256 q d' \<longleftrightarrow> p = q \<and> d = d') \<and>
    make_key_for_account sha256 p d \<noteq> clarity_state_epoch_key \<and>
    make_key_for_account sha256 p d \<noteq> make_key_for_trip sha256 c d'' n \<and>
    make_key_for_account sha256 p d \<noteq> make_key_for_quad sha256 c d'' n k"
  using make_key_for_account_inj [of p q sha256] assms
  by (simp add: account_key_not_epoch_key account_key_not_contract_key)

theorem account_keys_disjoint_witness:
  "make_key_for_account (\<lambda>_. replicate 32 7) (Standard (StandardPrincipalData 22 (replicate 20 3))) Nonce \<noteq>
   make_key_for_account (\<lambda>_. replicate 32 7) (Standard (StandardPrincipalData 22 (replicate 20 4))) Nonce"
  using account_keys_disjoint [of "Standard (StandardPrincipalData 22 (replicate 20 3))"
      "Standard (StandardPrincipalData 22 (replicate 20 4))" "\<lambda>_. replicate 32 7" Nonce Nonce]
  by (simp add: wf_standard_def replicate_eq_replicate)

end
