(* ===== verification/STXSnapshots.thy ===== *)
theory STXSnapshots
  imports ClarityDB
begin

text \<open>
  Balance snapshots (the type \<open>STXBalanceSnapshot\<close> in \<open>clarity/src/vm/database/structures.rs\<close>
  and its constructors in \<open>clarity/src/vm/database/clarity_db.rs\<close>): a balance is read once, changed
  in memory by transfers, debits, credits and the lock operations of the five PoX contracts,
  and saved. The exclusive reference to the database is the field \<open>db_ref\<close>: a method that
  consumes the snapshot leaves the database in that field.

  The lemmas follow every operation on the account's total and on what readers of the
  database see.
\<close>

section \<open>Snapshots\<close>

record 's STXBalanceSnapshot =
  snap_principal :: PrincipalData
  balance :: STXBalance
  burn_block_height :: u64
  db_ref :: "'s ClarityDatabase"

type_synonym ('s, 'a) snapshot_method = "('s STXBalanceSnapshot, VmExecutionError, 'a) meth"

definition snapshot_new ::
  "PrincipalData \<Rightarrow> STXBalance \<Rightarrow> u64 \<Rightarrow> 's ClarityDatabase \<Rightarrow> 's STXBalanceSnapshot" where
  "snapshot_new p b burn_height db =
     \<lparr>snap_principal = p, balance = b, burn_block_height = burn_height, db_ref = db\<rparr>"

definition get_stx_balance_snapshot ::
  "'s ClarityBackingStore \<Rightarrow> (u8 list \<Rightarrow> u8 list) \<Rightarrow> PrincipalData \<Rightarrow>
   ('s ClarityDatabase, VmExecutionError, 's STXBalanceSnapshot) meth" where
  "get_stx_balance_snapshot ops sha256 p =
     sbind (get_account_stx_balance ops sha256 p) (\<lambda>stx_balance.
     sbind (get_current_burnchain_block_height ops) (\<lambda>cur_burn_height.
       sget (snapshot_new p stx_balance (ucast cur_burn_height))))"

definition get_stx_balance_snapshot_genesis ::
  "'s ClarityBackingStore \<Rightarrow> (u8 list \<Rightarrow> u8 list) \<Rightarrow> PrincipalData \<Rightarrow>
   ('s ClarityDatabase, VmExecutionError, 's STXBalanceSnapshot) meth" where
  "get_stx_balance_snapshot_genesis ops sha256 p =
     sbind (get_account_stx_balance ops sha256 p) (\<lambda>stx_balance.
       sget (snapshot_new p stx_balance 0))"

definition on_db :: "('s ClarityDatabase, VmExecutionError, 'a) meth \<Rightarrow> ('s, 'a) snapshot_method" where
  "on_db m = zoom db_ref db_ref_update m"

definition snapshot_save :: "(u8 list \<Rightarrow> u8 list) \<Rightarrow> ('s, unit) snapshot_method" where
  "snapshot_save sha256 = (\<lambda>s.
     on_db (put_data stx_balance_serialize
              (make_key_for_account_balance sha256 (snap_principal s)) (balance s)) s)"

text \<open>The four contract unlock heights, read in the order of the source.\<close>

definition unlock_heights ::
  "'s ClarityBackingStore \<Rightarrow> ('s, u32 \<times> u32 \<times> u32 \<times> u32) snapshot_method" where
  "unlock_heights ops =
     sbind (sget (\<lambda>s. get_v1_unlock_height (db_ref s))) (\<lambda>v1.
     sbind (on_db (get_v2_unlock_height ops)) (\<lambda>v2.
     sbind (on_db (get_v3_unlock_height ops)) (\<lambda>v3.
     sbind (on_db (get_v4_unlock_height ops)) (\<lambda>v4.
       sret (v1, v2, v3, v4)))))"

definition snapshot_get_available_balance :: "'s ClarityBackingStore \<Rightarrow> ('s, u128) snapshot_method" where
  "snapshot_get_available_balance ops =
     sbind (unlock_heights ops) (\<lambda>(v1, v2, v3, v4) s.
       (get_available_balance_at_burn_block (balance s) (burn_block_height s) v1 v2 v3 v4, s))"

definition canonical_balance_repr :: "'s ClarityBackingStore \<Rightarrow> ('s, STXBalance) snapshot_method" where
  "canonical_balance_repr ops =
     sbind (unlock_heights ops) (\<lambda>(v1, v2, v3, v4) s.
       (rbind (canonical_repr_at_block (balance s) (burn_block_height s) v1 v2 v3 v4)
          (\<lambda>(b, _). Inr b), s))"

definition has_locked_tokens :: "'s ClarityBackingStore \<Rightarrow> ('s, bool) snapshot_method" where
  "has_locked_tokens ops =
     sbind (unlock_heights ops) (\<lambda>(v1, v2, v3, v4).
       sget (\<lambda>s. has_locked_tokens_at_burn_block (balance s) (burn_block_height s) v1 v2 v3 v4))"

definition has_unlockable_tokens :: "'s ClarityBackingStore \<Rightarrow> ('s, bool) snapshot_method" where
  "has_unlockable_tokens ops =
     sbind (unlock_heights ops) (\<lambda>(v1, v2, v3, v4).
       sget (\<lambda>s. has_unlockable_tokens_at_burn_block (balance s) (burn_block_height s) v1 v2 v3 v4))"

definition can_transfer :: "'s ClarityBackingStore \<Rightarrow> u128 \<Rightarrow> ('s, bool) snapshot_method" where
  "can_transfer ops amount =
     sbind (snapshot_get_available_balance ops) (\<lambda>available. sret (available \<ge> amount))"

definition set_balance :: "STXBalance \<Rightarrow> 's STXBalanceSnapshot \<Rightarrow> 's STXBalanceSnapshot" where
  "set_balance b s = s\<lparr>balance := b\<rparr>"

definition unlock_available_tokens_if_any :: "'s ClarityBackingStore \<Rightarrow> ('s, u128) snapshot_method" where
  "unlock_available_tokens_if_any ops =
     sbind (unlock_heights ops) (\<lambda>(v1, v2, v3, v4).
     sbind (\<lambda>s. (canonical_repr_at_block (balance s) (burn_block_height s) v1 v2 v3 v4, s))
       (\<lambda>(new_balance, unlocked).
     sthen (smodify (set_balance new_balance)) (sret unlocked)))"

definition debit :: "'s ClarityBackingStore \<Rightarrow> u128 \<Rightarrow> ('s, unit) snapshot_method" where
  "debit ops amount =
     sthen (unlock_available_tokens_if_any ops)
     (sbind (\<lambda>s. (debit_unlocked_amount (balance s) amount, s)) (\<lambda>b. smodify (set_balance b)))"

definition credit :: "'s ClarityBackingStore \<Rightarrow> u128 \<Rightarrow> ('s, unit) snapshot_method" where
  "credit ops amount =
     sthen (unlock_available_tokens_if_any ops)
     (sbind (\<lambda>s. (ok_or (checked_add_unlocked_amount (balance s) amount)
                     (expect_err ''STX balance overflow''), s)) (\<lambda>b. smodify (set_balance b)))"

definition transfer_to ::
  "'s ClarityBackingStore \<Rightarrow> (u8 list \<Rightarrow> u8 list) \<Rightarrow> PrincipalData \<Rightarrow> u128 \<Rightarrow> ('s, unit) snapshot_method" where
  "transfer_to ops sha256 recipient amount =
     sbind (can_transfer ops amount) (\<lambda>ok.
       if \<not> ok then sfail (Internal InsufficientBalance)
       else
         sbind (on_db (get_data ops stx_balance_deserialize
                  (make_key_for_account_balance sha256 recipient))) (\<lambda>x.
         sbind (slift (ok_or (checked_add_unlocked_amount
                  (case x of Some b \<Rightarrow> b | None \<Rightarrow> STXBalance_zero) amount)
                  (Runtime ArithmeticOverflow))) (\<lambda>recipient_balance.
         sthen (debit ops amount)
         (sthen (on_db (put_data stx_balance_serialize
                   (make_key_for_account_balance sha256 recipient) recipient_balance))
         (snapshot_save sha256)))))"

section \<open>Locks\<close>

text \<open>An early return with an error.\<close>

definition fail_if :: "('s \<Rightarrow> bool) \<Rightarrow> VmExecutionError \<Rightarrow> ('s, VmExecutionError, unit) meth" where
  "fail_if b e = (\<lambda>s. (if b s then Inl e else Inr (), s))"

definition fail_if_locked :: "'s ClarityBackingStore \<Rightarrow> ('s, unit) snapshot_method" where
  "fail_if_locked ops =
     sbind (has_locked_tokens ops) (\<lambda>locked.
       fail_if (\<lambda>_. locked) (expect_err ''FATAL: account already has locked tokens''))"

definition fail_if_not_locked :: "'s ClarityBackingStore \<Rightarrow> ('s, unit) snapshot_method" where
  "fail_if_not_locked ops =
     sbind (has_locked_tokens ops) (\<lambda>locked.
       fail_if (\<lambda>_. \<not> locked) (expect_err ''FATAL: account does not have locked tokens''))"

definition fail_if_expired :: "u64 \<Rightarrow> VmExecutionError \<Rightarrow> ('s, unit) snapshot_method" where
  "fail_if_expired unlock_burn_height e =
     fail_if (\<lambda>s. unlock_burn_height \<le> burn_block_height s) e"

abbreviation expired_err :: VmExecutionError where
  "expired_err \<equiv> expect_err ''FATAL: cannot set a lock with expired unlock burn height''"

text \<open>
  The amount left unlocked when \<open>amount_to_lock\<close> of the total is locked, with the error of
  each version for locking more than the account has.
\<close>

definition total_minus :: "VmExecutionError \<Rightarrow> u128 \<Rightarrow> ('s, u128) snapshot_method" where
  "total_minus e amount_to_lock = (\<lambda>s.
     (rbind (get_total_balance (balance s)) (\<lambda>t. ok_or (checked_sub t amount_to_lock) e), s))"

definition unlocked_after_increase ::
  "(string \<Rightarrow> VmExecutionError) \<Rightarrow> u128 \<Rightarrow> ('s, u128) snapshot_method" where
  "unlocked_after_increase err new_total_locked = (\<lambda>s.
     (rbind (ok_or (checked_add (amount_unlocked (balance s)) (amount_locked (balance s)))
               (err ''STX balance overflowed u128'')) (\<lambda>total_amount.
      ok_or (checked_sub total_amount new_total_locked)
        (err ''STX underflow: more is locked than total balance'')), s))"

definition lock_tokens_v1 :: "'s ClarityBackingStore \<Rightarrow> u128 \<Rightarrow> u64 \<Rightarrow> ('s, unit) snapshot_method" where
  "lock_tokens_v1 ops amount_to_lock unlock_burn_height =
     sthen (unlock_available_tokens_if_any ops)
     (sthen (fail_if (\<lambda>_. amount_to_lock = 0) (expect_err ''BUG: cannot lock 0 tokens''))
     (sthen (fail_if_expired unlock_burn_height expired_err)
     (sthen (fail_if_locked ops)
     (sbind (total_minus (expect_err ''STX underflow'') amount_to_lock)
       (\<lambda>new_amount_unlocked.
     smodify (set_balance (LockedPoxOne new_amount_unlocked amount_to_lock unlock_burn_height)))))))"

text \<open>PoX-2.\<close>

definition lock_tokens_v2 :: "'s ClarityBackingStore \<Rightarrow> u128 \<Rightarrow> u64 \<Rightarrow> ('s, unit) snapshot_method" where
  "lock_tokens_v2 ops amount_to_lock unlock_burn_height =
     sthen (unlock_available_tokens_if_any ops)
     (sthen (fail_if (\<lambda>_. amount_to_lock = 0) (expect_err ''BUG: cannot lock 0 tokens''))
     (sthen (fail_if_expired unlock_burn_height expired_err)
     (sthen (fail_if_locked ops)
     (sbind (total_minus (expect_err ''STX underflow'') amount_to_lock)
       (\<lambda>new_amount_unlocked.
     smodify (set_balance (LockedPoxTwo new_amount_unlocked amount_to_lock unlock_burn_height)))))))"

definition is_v2_locked :: "'s ClarityBackingStore \<Rightarrow> ('s, bool) snapshot_method" where
  "is_v2_locked ops =
     sbind (canonical_balance_repr ops) (\<lambda>b.
       sret (case b of LockedPoxTwo _ _ _ \<Rightarrow> True | _ \<Rightarrow> False))"

definition increase_lock_v2 :: "'s ClarityBackingStore \<Rightarrow> u128 \<Rightarrow> ('s, unit) snapshot_method" where
  "increase_lock_v2 ops new_total_locked =
     sthen (unlock_available_tokens_if_any ops)
     (sthen (fail_if_not_locked ops)
     (sbind (is_v2_locked ops) (\<lambda>b.
     sthen (fail_if (\<lambda>_. \<not> b) (expect_err ''FATAL: account must be locked by pox-2''))
     (sthen (fail_if (\<lambda>s. amount_locked (balance s) > new_total_locked)
              (expect_err ''FATAL: account must lock more after `increase_lock_v2`''))
     (sbind (unlocked_after_increase expect_err new_total_locked) (\<lambda>new_unlocked.
     smodify (\<lambda>s. set_balance
       (LockedPoxTwo new_unlocked new_total_locked (unlock_height (balance s))) s)))))))"

definition extend_lock_v2 :: "'s ClarityBackingStore \<Rightarrow> u64 \<Rightarrow> ('s, unit) snapshot_method" where
  "extend_lock_v2 ops unlock_burn_height =
     sthen (unlock_available_tokens_if_any ops)
     (sthen (fail_if_not_locked ops)
     (sthen (fail_if_expired unlock_burn_height expired_err)
     (smodify (\<lambda>s. set_balance
       (LockedPoxTwo (amount_unlocked (balance s)) (amount_locked (balance s)) unlock_burn_height) s))))"

text \<open>PoX-3.\<close>

definition lock_tokens_v3 :: "'s ClarityBackingStore \<Rightarrow> u128 \<Rightarrow> u64 \<Rightarrow> ('s, unit) snapshot_method" where
  "lock_tokens_v3 ops amount_to_lock unlock_burn_height =
     sthen (unlock_available_tokens_if_any ops)
     (sthen (fail_if (\<lambda>_. amount_to_lock = 0) (expect_err ''BUG: cannot lock 0 tokens''))
     (sthen (fail_if_expired unlock_burn_height expired_err)
     (sthen (fail_if_locked ops)
     (sbind (total_minus (expect_err ''FATAL: account locks more STX than balance possessed'') amount_to_lock)
       (\<lambda>new_amount_unlocked.
     smodify (set_balance (LockedPoxThree new_amount_unlocked amount_to_lock unlock_burn_height)))))))"

definition is_v3_locked :: "'s ClarityBackingStore \<Rightarrow> ('s, bool) snapshot_method" where
  "is_v3_locked ops =
     sbind (canonical_balance_repr ops) (\<lambda>b.
       sret (case b of LockedPoxThree _ _ _ \<Rightarrow> True | _ \<Rightarrow> False))"

definition increase_lock_v3 :: "'s ClarityBackingStore \<Rightarrow> u128 \<Rightarrow> ('s, unit) snapshot_method" where
  "increase_lock_v3 ops new_total_locked =
     sthen (unlock_available_tokens_if_any ops)
     (sthen (fail_if_not_locked ops)
     (sbind (is_v3_locked ops) (\<lambda>b.
     sthen (fail_if (\<lambda>_. \<not> b) (expect_err ''FATAL: account must be locked by pox-3''))
     (sthen (fail_if (\<lambda>s. amount_locked (balance s) > new_total_locked)
              (expect_err ''FATAL: account must lock more after `increase_lock_v3`''))
     (sbind (unlocked_after_increase expect_err new_total_locked) (\<lambda>new_unlocked.
     smodify (\<lambda>s. set_balance
       (LockedPoxThree new_unlocked new_total_locked (unlock_height (balance s))) s)))))))"

definition extend_lock_v3 :: "'s ClarityBackingStore \<Rightarrow> u64 \<Rightarrow> ('s, unit) snapshot_method" where
  "extend_lock_v3 ops unlock_burn_height =
     sthen (unlock_available_tokens_if_any ops)
     (sthen (fail_if_not_locked ops)
     (sthen (fail_if_expired unlock_burn_height expired_err)
     (smodify (\<lambda>s. set_balance
       (LockedPoxThree (amount_unlocked (balance s)) (amount_locked (balance s)) unlock_burn_height) s))))"

text \<open>PoX-4.\<close>

definition lock_tokens_v4 :: "'s ClarityBackingStore \<Rightarrow> u128 \<Rightarrow> u64 \<Rightarrow> ('s, unit) snapshot_method" where
  "lock_tokens_v4 ops amount_to_lock unlock_burn_height =
     sthen (unlock_available_tokens_if_any ops)
     (sthen (fail_if (\<lambda>_. amount_to_lock = 0) (expect_err ''BUG: cannot lock 0 tokens''))
     (sthen (fail_if_expired unlock_burn_height (expect_err ''FATAL: account must be locked by pox-3''))
     (sthen (fail_if_locked ops)
     (sbind (total_minus (Panic ''FATAL: account locks more STX than balance possessed'') amount_to_lock)
       (\<lambda>new_amount_unlocked.
     smodify (set_balance (LockedPoxFour new_amount_unlocked amount_to_lock unlock_burn_height)))))))"

definition is_v4_locked :: "'s ClarityBackingStore \<Rightarrow> ('s, bool) snapshot_method" where
  "is_v4_locked ops =
     sbind (canonical_balance_repr ops) (\<lambda>b.
       sret (case b of LockedPoxFour _ _ _ \<Rightarrow> True | _ \<Rightarrow> False))"

definition increase_lock_v4 :: "'s ClarityBackingStore \<Rightarrow> u128 \<Rightarrow> ('s, unit) snapshot_method" where
  "increase_lock_v4 ops new_total_locked =
     sthen (unlock_available_tokens_if_any ops)
     (sthen (fail_if_not_locked ops)
     (sbind (is_v4_locked ops) (\<lambda>b.
     sthen (fail_if (\<lambda>_. \<not> b) (expect_err ''FATAL: account must be locked by pox-4''))
     (sthen (fail_if (\<lambda>s. amount_locked (balance s) > new_total_locked)
              (expect_err ''FATAL: account must lock more after `increase_lock_v4`''))
     (sbind (unlocked_after_increase Panic new_total_locked) (\<lambda>new_unlocked.
     smodify (\<lambda>s. set_balance
       (LockedPoxFour new_unlocked new_total_locked (unlock_height (balance s))) s)))))))"

definition extend_lock_v4 :: "'s ClarityBackingStore \<Rightarrow> u64 \<Rightarrow> ('s, unit) snapshot_method" where
  "extend_lock_v4 ops unlock_burn_height =
     sthen (unlock_available_tokens_if_any ops)
     (sthen (fail_if_not_locked ops)
     (sthen (fail_if_expired unlock_burn_height expired_err)
     (smodify (\<lambda>s. set_balance
       (LockedPoxFour (amount_unlocked (balance s)) (amount_locked (balance s)) unlock_burn_height) s))))"

text \<open>PoX-5.\<close>

definition lock_tokens_v5 :: "'s ClarityBackingStore \<Rightarrow> u128 \<Rightarrow> u64 \<Rightarrow> ('s, unit) snapshot_method" where
  "lock_tokens_v5 ops amount_to_lock unlock_burn_height =
     sthen (unlock_available_tokens_if_any ops)
     (sthen (fail_if (\<lambda>_. amount_to_lock = 0) (expect_err ''BUG: cannot lock 0 tokens''))
     (sthen (fail_if_expired unlock_burn_height expired_err)
     (sthen (fail_if_locked ops)
     (sbind (total_minus (expect_err ''FATAL: account locks more STX than balance possessed'') amount_to_lock)
       (\<lambda>new_amount_unlocked.
     smodify (set_balance (LockedPoxFive new_amount_unlocked amount_to_lock unlock_burn_height)))))))"

definition is_v5_locked :: "'s ClarityBackingStore \<Rightarrow> ('s, bool) snapshot_method" where
  "is_v5_locked ops =
     sbind (canonical_balance_repr ops) (\<lambda>b.
       sret (case b of LockedPoxFive _ _ _ \<Rightarrow> True | _ \<Rightarrow> False))"

definition increase_lock_v5 :: "'s ClarityBackingStore \<Rightarrow> u128 \<Rightarrow> ('s, unit) snapshot_method" where
  "increase_lock_v5 ops new_total_locked =
     sthen (unlock_available_tokens_if_any ops)
     (sthen (fail_if_not_locked ops)
     (sbind (is_v5_locked ops) (\<lambda>b.
     sthen (fail_if (\<lambda>_. \<not> b) (expect_err ''FATAL: account must be locked by pox-5''))
     (sthen (fail_if (\<lambda>s. amount_locked (balance s) > new_total_locked)
              (expect_err ''FATAL: account must lock more after `increase_lock_v5`''))
     (sbind (unlocked_after_increase expect_err new_total_locked) (\<lambda>new_unlocked.
     smodify (\<lambda>s. set_balance
       (LockedPoxFive new_unlocked new_total_locked (unlock_height (balance s))) s)))))))"

definition update_unlock_v5 :: "'s ClarityBackingStore \<Rightarrow> u64 \<Rightarrow> ('s, unit) snapshot_method" where
  "update_unlock_v5 ops unlock_burn_height =
     sthen (unlock_available_tokens_if_any ops)
     (sthen (fail_if_not_locked ops)
     (sthen (fail_if_expired unlock_burn_height expired_err)
     (smodify (\<lambda>s. set_balance
       (LockedPoxFive (amount_unlocked (balance s)) (amount_locked (balance s)) unlock_burn_height) s))))"

definition set_lock_v5 :: "'s ClarityBackingStore \<Rightarrow> u128 \<Rightarrow> u64 \<Rightarrow> ('s, unit) snapshot_method" where
  "set_lock_v5 ops new_total_locked unlock_burn_height =
     sthen (unlock_available_tokens_if_any ops)
     (sthen (fail_if_not_locked ops)
     (sbind (is_v5_locked ops) (\<lambda>b.
     sthen (fail_if (\<lambda>_. \<not> b) (expect_err ''FATAL: account must be locked by pox-5''))
     (sthen (fail_if_expired unlock_burn_height expired_err)
     (sbind (unlocked_after_increase expect_err new_total_locked) (\<lambda>new_unlocked.
     smodify (set_balance (LockedPoxFive new_unlocked new_total_locked unlock_burn_height))))))))"

text \<open>The addition to the burn height is on \<open>u64\<close>, unchecked.\<close>

definition accelerate_unlock :: "'s ClarityBackingStore \<Rightarrow> ('s, unit) snapshot_method" where
  "accelerate_unlock ops =
     sthen (unlock_available_tokens_if_any ops)
     (sbind (sget (\<lambda>s. (balance s, burn_block_height s + 1))) (\<lambda>(b, new_unlock_height).
       case b of
         Unlocked a \<Rightarrow> smodify (set_balance (Unlocked a))
       | LockedPoxOne a l h \<Rightarrow>
           sfail (expect_err ''Attempted to accelerate the unlock of a lockup created by PoX-1'')
       | LockedPoxTwo a l h \<Rightarrow> smodify (set_balance (LockedPoxTwo a l new_unlock_height))
       | LockedPoxThree a l h \<Rightarrow> smodify (set_balance (LockedPoxThree a l new_unlock_height))
       | LockedPoxFour a l h \<Rightarrow> smodify (set_balance (LockedPoxFour a l new_unlock_height))
       | LockedPoxFive a l h \<Rightarrow> smodify (set_balance (LockedPoxFive a l new_unlock_height))))"

section \<open>Snapshot methods act on the balance\<close>

definition heights_in :: "BurnStateDB \<Rightarrow> (string \<rightharpoonup> string) \<Rightarrow> (u32 \<times> u32 \<times> u32 \<times> u32) vm_result" where
  "heights_in c v =
     rbind (v2_height_in c v) (\<lambda>v2. rbind (v3_height_in c v) (\<lambda>v3. rbind (v4_height_in c v) (\<lambda>v4.
       Inr (burn_get_v1_unlock_height c, v2, v3, v4))))"

text \<open>
  \<open>acts data valid m f\<close>: the method \<open>m\<close> only reads the database, and what it returns and does to
  the balance is the function \<open>f\<close> of the contract unlock heights and the burn height.
\<close>

definition acts ::
  "('s \<Rightarrow> string \<rightharpoonup> string) \<Rightarrow> ('s \<Rightarrow> bool) \<Rightarrow> ('s, 'a) snapshot_method \<Rightarrow>
   ((u32 \<times> u32 \<times> u32 \<times> u32) vm_result \<Rightarrow> u64 \<Rightarrow> (STXBalance, VmExecutionError, 'a) meth) \<Rightarrow> bool" where
  "acts data valid m f \<longleftrightarrow>
     (\<forall>s v vs. sees data valid (db_ref s) v vs \<longrightarrow>
        (\<exists>db'. sees data valid db' v vs \<and> same_chain (db_ref s) db' \<and>
           m s = (case f (heights_in (burn_state_db (db_ref s)) v) (burn_block_height s) (balance s) of
                    (r, b) \<Rightarrow> (r, s\<lparr>balance := b, db_ref := db'\<rparr>))))"

lemma actsE:
  assumes "acts data valid m f" and "sees data valid (db_ref s) v vs"
  obtains r b db' where "f (heights_in (burn_state_db (db_ref s)) v) (burn_block_height s) (balance s) = (r, b)"
    and "m s = (r, s\<lparr>balance := b, db_ref := db'\<rparr>)" and "sees data valid db' v vs"
    and "same_chain (db_ref s) db'"
proof -
  let ?p = "f (heights_in (burn_state_db (db_ref s)) v) (burn_block_height s) (balance s)"
  from assms obtain db' where db': "sees data valid db' v vs" "same_chain (db_ref s) db'"
      "m s = (case ?p of (r, b) \<Rightarrow> (r, s\<lparr>balance := b, db_ref := db'\<rparr>))"
    unfolding acts_def by blast
  obtain r b where "?p = (r, b)" by (cases ?p)
  with db' that show ?thesis by simp
qed

lemma acts_slift: "acts data valid (slift r) (\<lambda>H n. slift r)"
  by (auto simp: acts_def run_simps)

lemma acts_sret: "acts data valid (sret x) (\<lambda>H n. sret x)"
  by (auto simp: acts_def run_simps)

lemma acts_balance:
  "acts data valid (\<lambda>s. (g (balance s) (burn_block_height s), s)) (\<lambda>H n b. (g b n, b))"
  by (auto simp: acts_def run_simps)

lemma acts_update:
  "acts data valid (smodify (\<lambda>s. set_balance (g (balance s)) s)) (\<lambda>H n. smodify g)"
  by (auto simp: acts_def run_simps set_balance_def)

lemma acts_sbind:
  fixes m :: "('s, 'a) snapshot_method"
  assumes "acts data valid m f" and "\<And>x. acts data valid (k x) (g x)"
  shows "acts data valid (sbind m k) (\<lambda>H n. sbind (f H n) (\<lambda>x. g x H n))"
  unfolding acts_def
proof (intro allI impI)
  fix s :: "'s STXBalanceSnapshot" and v vs
  let ?H = "heights_in (burn_state_db (db_ref s)) v" and ?n = "burn_block_height s"
  assume "sees data valid (db_ref s) v vs"
  with assms(1) obtain r b db' where m: "f ?H ?n (balance s) = (r, b)"
      "m s = (r, s\<lparr>balance := b, db_ref := db'\<rparr>)" "sees data valid db' v vs" "same_chain (db_ref s) db'"
    by (rule actsE)
  show "\<exists>db'. sees data valid db' v vs \<and> same_chain (db_ref s) db' \<and>
           sbind m k s = (case sbind (f ?H ?n) (\<lambda>x. g x ?H ?n) (balance s) of
                    (r, b) \<Rightarrow> (r, s\<lparr>balance := b, db_ref := db'\<rparr>))"
  proof (cases r)
    case (Inl e)
    with m show ?thesis by (auto simp: run_simps)
  next
    case (Inr x)
    let ?s = "s\<lparr>balance := b, db_ref := db'\<rparr>"
    have H: "heights_in (burn_state_db (db_ref ?s)) v = ?H"
      using m(4) by (simp add: same_chain_def)
    have "sees data valid (db_ref ?s) v vs" using m(3) by simp
    with assms(2) obtain r2 b2 db2 where k: "g x (heights_in (burn_state_db (db_ref ?s)) v)
        (burn_block_height ?s) (balance ?s) = (r2, b2)"
        "k x ?s = (r2, ?s\<lparr>balance := b2, db_ref := db2\<rparr>)" "sees data valid db2 v vs"
        "same_chain (db_ref ?s) db2"
      by (rule actsE)
    have "same_chain (db_ref s) db2" using m(4) k(4) by (auto intro: same_chain_trans)
    moreover have "sbind m k s = (r2, s\<lparr>balance := b2, db_ref := db2\<rparr>)"
      using m(2) k(2) Inr by (simp add: sbind_run)
    moreover have "sbind (f ?H ?n) (\<lambda>x. g x ?H ?n) (balance s) = (r2, b2)"
      using m(1) k(1) Inr unfolding H by (simp add: sbind_run)
    ultimately show ?thesis using k(3) by (intro exI [of _ db2]) simp
  qed
qed

lemma acts_sthen:
  assumes "acts data valid m f" and "acts data valid k g"
  shows "acts data valid (sthen m k) (\<lambda>H n. sthen (f H n) (g H n))"
  unfolding sthen_def using assms by (rule acts_sbind)

lemma acts_fail_if:
  "acts data valid (fail_if (\<lambda>s. P (balance s) (burn_block_height s)) e) (\<lambda>H n. fail_if (\<lambda>b. P b n) e)"
  by (auto simp: acts_def fail_if_def)

text \<open>The three reads of a snapshot's lock status, as functions of the heights.\<close>

definition unlock_of ::
  "(u32 \<times> u32 \<times> u32 \<times> u32) vm_result \<Rightarrow> u64 \<Rightarrow> (STXBalance, VmExecutionError, u128) meth" where
  "unlock_of H n = (\<lambda>b.
     case rbind H (\<lambda>(v1, v2, v3, v4). canonical_repr_at_block b n v1 v2 v3 v4) of
       Inl e \<Rightarrow> (Inl e, b) | Inr (b', unlocked) \<Rightarrow> (Inr unlocked, b'))"

definition canonical_of ::
  "(u32 \<times> u32 \<times> u32 \<times> u32) vm_result \<Rightarrow> u64 \<Rightarrow> (STXBalance, VmExecutionError, STXBalance) meth" where
  "canonical_of H n = (\<lambda>b.
     (rbind H (\<lambda>(v1, v2, v3, v4). rbind (canonical_repr_at_block b n v1 v2 v3 v4) (\<lambda>(b', _). Inr b')), b))"

definition locked_of ::
  "(u32 \<times> u32 \<times> u32 \<times> u32) vm_result \<Rightarrow> u64 \<Rightarrow> (STXBalance, VmExecutionError, bool) meth" where
  "locked_of H n = (\<lambda>b.
     (rbind H (\<lambda>(v1, v2, v3, v4). Inr (has_locked_tokens_at_burn_block b n v1 v2 v3 v4)), b))"

definition available_of ::
  "(u32 \<times> u32 \<times> u32 \<times> u32) vm_result \<Rightarrow> u64 \<Rightarrow> (STXBalance, VmExecutionError, u128) meth" where
  "available_of H n = (\<lambda>b.
     (rbind H (\<lambda>(v1, v2, v3, v4). get_available_balance_at_burn_block b n v1 v2 v3 v4), b))"

lemma acts_cong:
  "acts data valid m f \<Longrightarrow> (\<And>H n b. f H n b = g H n b) \<Longrightarrow> acts data valid m g"
  by (simp add: acts_def)

lemma acts_set_const: "acts data valid (smodify (set_balance c)) (\<lambda>H n. smodify (\<lambda>_. c))"
  by (auto simp: acts_def run_simps set_balance_def)

lemma acts_fail_const: "acts data valid (fail_if (\<lambda>_. c) e) (\<lambda>H n. fail_if (\<lambda>_. c) e)"
  by (auto simp: acts_def fail_if_def)

lemma acts_fail_expired: "acts data valid (fail_if_expired h e) (\<lambda>H n. fail_if (\<lambda>_. h \<le> n) e)"
  by (auto simp: acts_def fail_if_def fail_if_expired_def)

lemma acts_fail_amount:
  "acts data valid (fail_if (\<lambda>s. amount_locked (balance s) > x) e) (\<lambda>H n. fail_if (\<lambda>b. amount_locked b > x) e)"
  by (auto simp: acts_def fail_if_def)

lemma acts_total_minus:
  "acts data valid (total_minus e x)
     (\<lambda>H n b. (rbind (get_total_balance b) (\<lambda>t. ok_or (checked_sub t x) e), b))"
  by (auto simp: acts_def total_minus_def)

lemma acts_after_increase:
  "acts data valid (unlocked_after_increase err x)
     (\<lambda>H n b. (rbind (ok_or (checked_add (amount_unlocked b) (amount_locked b))
               (err ''STX balance overflowed u128'')) (\<lambda>total_amount.
      ok_or (checked_sub total_amount x)
        (err ''STX underflow: more is locked than total balance'')), b))"
  by (auto simp: acts_def unlocked_after_increase_def)

lemmas acts_intros = acts_sret acts_slift acts_set_const acts_fail_const acts_fail_expired
  acts_fail_amount acts_total_minus acts_after_increase

context backing_store
begin

lemma acts_unlock_heights: "acts data valid (unlock_heights ops) (\<lambda>H n. slift H)"
  unfolding acts_def
proof (intro allI impI)
  fix s :: "'s STXBalanceSnapshot" and v vs
  assume s: "sees data valid (db_ref s) v vs"
  let ?c = "burn_state_db (db_ref s)"
  obtain db2 where 2: "get_v2_unlock_height ops (db_ref s) = (v2_height_in ?c v, db2)"
      "sees data valid db2 v vs" "same_chain (db_ref s) db2"
    using reads_heights(1) s by (rule readsE)
  obtain db3 where "get_v3_unlock_height ops db2 = (v3_height_in (burn_state_db db2) v, db3)"
      "sees data valid db3 v vs" "same_chain db2 db3"
    using reads_heights(2) 2(2) by (rule readsE)
  then have 3: "get_v3_unlock_height ops db2 = (v3_height_in ?c v, db3)"
      "sees data valid db3 v vs" "same_chain (db_ref s) db3"
    using 2(3) by (simp_all add: same_chain_def)
  obtain db4 where "get_v4_unlock_height ops db3 = (v4_height_in (burn_state_db db3) v, db4)"
      "sees data valid db4 v vs" "same_chain db3 db4"
    using reads_heights(3) 3(2) by (rule readsE)
  then have 4: "get_v4_unlock_height ops db3 = (v4_height_in ?c v, db4)"
      "sees data valid db4 v vs" "same_chain (db_ref s) db4"
    using 3(3) by (simp_all add: same_chain_def)
  note runs = unlock_heights_def on_db_def run_simps heights_in_def get_v1_unlock_height_def
  show "\<exists>db'. sees data valid db' v vs \<and> same_chain (db_ref s) db' \<and>
          unlock_heights ops s = (case slift (heights_in ?c v) (balance s) of
                    (r, b) \<Rightarrow> (r, s\<lparr>balance := b, db_ref := db'\<rparr>))"
  proof (cases "v2_height_in ?c v")
    case (Inl e)
    then show ?thesis using 2 by (intro exI [of _ db2]) (simp add: runs)
  next
    case Inr2: (Inr a)
    show ?thesis
    proof (cases "v3_height_in ?c v")
      case (Inl e)
      then show ?thesis using 2(1) 3 Inr2 by (intro exI [of _ db3]) (simp add: runs)
    next
      case (Inr a)
      then show ?thesis using 2(1) 3(1) 4 Inr2
        by (intro exI [of _ db4]) (cases "v4_height_in ?c v"; simp add: runs)
    qed
  qed
qed

lemma acts_with_heights:
  "acts data valid
     (sbind (unlock_heights ops) (\<lambda>(v1, v2, v3, v4) s. (g v1 v2 v3 v4 (balance s) (burn_block_height s), s)))
     (\<lambda>H n b. (rbind H (\<lambda>(v1, v2, v3, v4). g v1 v2 v3 v4 b n), b))"
proof (rule acts_sbind [OF acts_unlock_heights, THEN acts_cong])
  show "acts data valid ((\<lambda>(v1, v2, v3, v4) s. (g v1 v2 v3 v4 (balance s) (burn_block_height s), s)) x)
    ((\<lambda>(v1, v2, v3, v4) H n b. (g v1 v2 v3 v4 b n, b)) x)" for x
    by (cases x) (auto simp: acts_def)
qed (auto simp: run_simps split: sum.split)

lemma acts_canonical: "acts data valid (canonical_balance_repr ops) canonical_of"
  unfolding canonical_balance_repr_def canonical_of_def [abs_def] by (rule acts_with_heights)

lemma acts_locked: "acts data valid (has_locked_tokens ops) locked_of"
  unfolding has_locked_tokens_def locked_of_def [abs_def] sget_def by (rule acts_with_heights)

lemma acts_available: "acts data valid (snapshot_get_available_balance ops) available_of"
  unfolding snapshot_get_available_balance_def available_of_def [abs_def] by (rule acts_with_heights)

lemma acts_unlock: "acts data valid (unlock_available_tokens_if_any ops) unlock_of"
  unfolding unlock_available_tokens_if_any_def
proof (rule acts_sbind [OF acts_unlock_heights, THEN acts_cong])
  show "acts data valid ((\<lambda>(v1, v2, v3, v4). sbind
        (\<lambda>s. (canonical_repr_at_block (balance s) (burn_block_height s) v1 v2 v3 v4, s))
        (\<lambda>(new_balance, unlocked). sthen (smodify (set_balance new_balance)) (sret unlocked))) x)
    ((\<lambda>(v1, v2, v3, v4) H n b. case canonical_repr_at_block b n v1 v2 v3 v4 of
       Inl e \<Rightarrow> (Inl e, b) | Inr (b', unlocked) \<Rightarrow> (Inr unlocked, b')) x)" for x
    by (cases x) (auto simp: acts_def run_simps set_balance_def split: sum.split prod.split)
qed (auto simp: run_simps unlock_of_def split: sum.split)

lemma acts_fail_locked:
  "acts data valid (fail_if_locked ops)
     (\<lambda>H n. sbind (locked_of H n) (\<lambda>l. fail_if (\<lambda>_. l) (expect_err ''FATAL: account already has locked tokens'')))"
  unfolding fail_if_locked_def by (intro acts_sbind acts_locked acts_fail_const)

lemma acts_fail_not_locked:
  "acts data valid (fail_if_not_locked ops)
     (\<lambda>H n. sbind (locked_of H n)
        (\<lambda>l. fail_if (\<lambda>_. \<not> l) (expect_err ''FATAL: account does not have locked tokens'')))"
  unfolding fail_if_not_locked_def by (intro acts_sbind acts_locked acts_fail_const)

lemmas acts_rules = acts_sthen acts_sbind acts_unlock acts_canonical acts_fail_locked
  acts_fail_not_locked acts_intros

end

section \<open>Locking keeps the total\<close>

text \<open>The operations of the PoX contracts on an account.\<close>

datatype pox_op =
    LockV1 u128 u64 | LockV2 u128 u64 | LockV3 u128 u64 | LockV4 u128 u64 | LockV5 u128 u64
  | ExtendV2 u64 | ExtendV3 u64 | ExtendV4 u64 | UpdateUnlockV5 u64
  | IncreaseV2 u128 | IncreaseV3 u128 | IncreaseV4 u128 | IncreaseV5 u128
  | SetLockV5 u128 u64 | AccelerateUnlock

fun run_pox_op :: "'s ClarityBackingStore \<Rightarrow> pox_op \<Rightarrow> ('s, unit) snapshot_method" where
  "run_pox_op ops (LockV1 a h) = lock_tokens_v1 ops a h"
| "run_pox_op ops (LockV2 a h) = lock_tokens_v2 ops a h"
| "run_pox_op ops (LockV3 a h) = lock_tokens_v3 ops a h"
| "run_pox_op ops (LockV4 a h) = lock_tokens_v4 ops a h"
| "run_pox_op ops (LockV5 a h) = lock_tokens_v5 ops a h"
| "run_pox_op ops (ExtendV2 h) = extend_lock_v2 ops h"
| "run_pox_op ops (ExtendV3 h) = extend_lock_v3 ops h"
| "run_pox_op ops (ExtendV4 h) = extend_lock_v4 ops h"
| "run_pox_op ops (UpdateUnlockV5 h) = update_unlock_v5 ops h"
| "run_pox_op ops (IncreaseV2 a) = increase_lock_v2 ops a"
| "run_pox_op ops (IncreaseV3 a) = increase_lock_v3 ops a"
| "run_pox_op ops (IncreaseV4 a) = increase_lock_v4 ops a"
| "run_pox_op ops (IncreaseV5 a) = increase_lock_v5 ops a"
| "run_pox_op ops (SetLockV5 a h) = set_lock_v5 ops a h"
| "run_pox_op ops AccelerateUnlock = accelerate_unlock ops"

definition keeps_total ::
  "((u32 \<times> u32 \<times> u32 \<times> u32) vm_result \<Rightarrow> u64 \<Rightarrow> (STXBalance, VmExecutionError, 'a) meth) \<Rightarrow> bool" where
  "keeps_total f \<longleftrightarrow> (\<forall>H n b. total (snd (f H n b)) = total b)"

lemma keeps_unlock: "total (snd (unlock_of H n b)) = total b"
  by (auto simp: unlock_of_def canonical_total split: sum.split prod.split)

lemma keeps_total_unlock_then:
  assumes "\<And>H n b. total (snd (g H n b)) = total b"
  shows "keeps_total (\<lambda>H n. sthen (unlock_of H n) (g H n))"
  using assms keeps_unlock
  by (auto simp: keeps_total_def sthen_run split: prod.split sum.split) (metis snd_conv)+

lemma total_relock:
  assumes "checked_sub t a = Some u" and "unat t = total b"
  shows "total (LockedPoxOne u a h) = total b" and "total (LockedPoxTwo u a h) = total b"
    and "total (LockedPoxThree u a h) = total b" and "total (LockedPoxFour u a h) = total b"
    and "total (LockedPoxFive u a h) = total b"
  using assms by (auto simp: total_def checked_sub_eq_Some)

context backing_store
begin

lemma acts_is_locked:
  "acts data valid (is_v2_locked ops)
     (\<lambda>H n. sbind (canonical_of H n) (\<lambda>b. sret (case b of LockedPoxTwo _ _ _ \<Rightarrow> True | _ \<Rightarrow> False)))"
  "acts data valid (is_v3_locked ops)
     (\<lambda>H n. sbind (canonical_of H n) (\<lambda>b. sret (case b of LockedPoxThree _ _ _ \<Rightarrow> True | _ \<Rightarrow> False)))"
  "acts data valid (is_v4_locked ops)
     (\<lambda>H n. sbind (canonical_of H n) (\<lambda>b. sret (case b of LockedPoxFour _ _ _ \<Rightarrow> True | _ \<Rightarrow> False)))"
  "acts data valid (is_v5_locked ops)
     (\<lambda>H n. sbind (canonical_of H n) (\<lambda>b. sret (case b of LockedPoxFive _ _ _ \<Rightarrow> True | _ \<Rightarrow> False)))"
  unfolding is_v2_locked_def is_v3_locked_def is_v4_locked_def is_v5_locked_def
  by (intro acts_sbind acts_canonical acts_sret)+

lemmas pure_simps = run_simps fail_if_def locked_of_def canonical_of_def total_relock

lemma lock_tokens_keep:
  "\<exists>f. acts data valid (lock_tokens_v1 ops a h) f \<and> keeps_total f"
  "\<exists>f. acts data valid (lock_tokens_v2 ops a h) f \<and> keeps_total f"
  "\<exists>f. acts data valid (lock_tokens_v3 ops a h) f \<and> keeps_total f"
  "\<exists>f. acts data valid (lock_tokens_v4 ops a h) f \<and> keeps_total f"
  "\<exists>f. acts data valid (lock_tokens_v5 ops a h) f \<and> keeps_total f"
  unfolding lock_tokens_v1_def lock_tokens_v2_def lock_tokens_v3_def lock_tokens_v4_def lock_tokens_v5_def
  by (intro exI conjI, (rule acts_rules)+, rule keeps_total_unlock_then,
      (auto simp: pure_simps split: sum.split prod.split)[1])+

lemma total_extend:
  "total (LockedPoxTwo (amount_unlocked b) (amount_locked b) h) = total b"
  "total (LockedPoxThree (amount_unlocked b) (amount_locked b) h) = total b"
  "total (LockedPoxFour (amount_unlocked b) (amount_locked b) h) = total b"
  "total (LockedPoxFive (amount_unlocked b) (amount_locked b) h) = total b"
  by (simp_all add: total_def)

lemma extend_locks_keep:
  "\<exists>f. acts data valid (extend_lock_v2 ops h) f \<and> keeps_total f"
  "\<exists>f. acts data valid (extend_lock_v3 ops h) f \<and> keeps_total f"
  "\<exists>f. acts data valid (extend_lock_v4 ops h) f \<and> keeps_total f"
  "\<exists>f. acts data valid (update_unlock_v5 ops h) f \<and> keeps_total f"
  unfolding extend_lock_v2_def extend_lock_v3_def extend_lock_v4_def update_unlock_v5_def
  by (intro exI conjI, (rule acts_rules acts_update)+, rule keeps_total_unlock_then,
      (auto simp: pure_simps total_extend split: sum.split prod.split)[1])+

lemma total_reset:
  assumes "checked_add (amount_unlocked b) (amount_locked b) = Some t"
    and "checked_sub t a = Some u"
  shows "total (LockedPoxTwo u a h) = total b" and "total (LockedPoxThree u a h) = total b"
    and "total (LockedPoxFour u a h) = total b" and "total (LockedPoxFive u a h) = total b"
  using assms by (auto simp: total_def checked_sub_eq_Some checked_add_eq_Some)

lemma increase_locks_keep:
  "\<exists>f. acts data valid (increase_lock_v2 ops a) f \<and> keeps_total f"
  "\<exists>f. acts data valid (increase_lock_v3 ops a) f \<and> keeps_total f"
  "\<exists>f. acts data valid (increase_lock_v4 ops a) f \<and> keeps_total f"
  "\<exists>f. acts data valid (increase_lock_v5 ops a) f \<and> keeps_total f"
  "\<exists>f. acts data valid (set_lock_v5 ops a h) f \<and> keeps_total f"
  unfolding increase_lock_v2_def increase_lock_v3_def increase_lock_v4_def increase_lock_v5_def
    set_lock_v5_def
  by (intro exI conjI, (rule acts_rules acts_is_locked acts_update)+, rule keeps_total_unlock_then,
      (auto simp: pure_simps total_reset split: sum.split prod.split)[1])+

lemma accelerate_keeps: "\<exists>f. acts data valid (accelerate_unlock ops) f \<and> keeps_total f"
proof -
  define step where "step = (\<lambda>(n :: u64) b. case b of
         Unlocked a \<Rightarrow> (Inr (), Unlocked a)
       | LockedPoxOne a l h \<Rightarrow>
           (Inl (expect_err ''Attempted to accelerate the unlock of a lockup created by PoX-1''), b)
       | LockedPoxTwo a l h \<Rightarrow> (Inr (), LockedPoxTwo a l (n + 1))
       | LockedPoxThree a l h \<Rightarrow> (Inr (), LockedPoxThree a l (n + 1))
       | LockedPoxFour a l h \<Rightarrow> (Inr (), LockedPoxFour a l (n + 1))
       | LockedPoxFive a l h \<Rightarrow> (Inr (), LockedPoxFive a l (n + 1)))"
  have "acts data valid (accelerate_unlock ops) (\<lambda>H n. sthen (unlock_of H n) (step n))"
    unfolding accelerate_unlock_def
    by (rule acts_sthen [OF acts_unlock])
      (auto simp: acts_def run_simps set_balance_def step_def split: STXBalance.split)
  moreover have "keeps_total (\<lambda>H n. sthen (unlock_of H n) (step n))"
    by (rule keeps_total_unlock_then) (auto simp: step_def total_def split: STXBalance.split)
  ultimately show ?thesis by blast
qed

lemma pox_op_keeps: "\<exists>f. acts data valid (run_pox_op ops p) f \<and> keeps_total f"
  by (cases p) (simp_all add: lock_tokens_keep extend_locks_keep increase_locks_keep accelerate_keeps)

lemma pox_op_total:
  assumes "sees data valid (db_ref s) v vs" and "run_pox_op ops p s = (r, s')"
  shows "total (balance s') = total (balance s) \<and> sees data valid (db_ref s') v vs \<and>
     snap_principal s' = snap_principal s \<and> burn_block_height s' = burn_block_height s"
proof -
  obtain f where f: "acts data valid (run_pox_op ops p) f" "keeps_total f"
    using pox_op_keeps by blast
  from f(1) assms(1) obtain r' b db' where
      "f (heights_in (burn_state_db (db_ref s)) v) (burn_block_height s) (balance s) = (r', b)"
      "run_pox_op ops p s = (r', s\<lparr>balance := b, db_ref := db'\<rparr>)" "sees data valid db' v vs"
    by (rule actsE)
  with assms(2) f(2) show ?thesis by (auto simp: keeps_total_def) (metis snd_conv)+
qed

lemma pox_ops_total:
  assumes "sees data valid (db_ref s) v vs" and "run_steps (run_pox_op ops) ps s = (rs, s')"
  shows "total (balance s') = total (balance s) \<and> sees data valid (db_ref s') v vs"
  using assms
proof (induction ps arbitrary: s rs)
  case (Cons p ps)
  obtain r s1 where 1: "run_pox_op ops p s = (r, s1)" by fastforce
  with Cons.prems(2) obtain rs' where "run_steps (run_pox_op ops) ps s1 = (rs', s')"
    by (auto split: prod.splits)
  with pox_op_total [OF Cons.prems(1) 1] Cons.IH show ?case by auto
qed auto

end

text \<open>
  (C3) No sequence of lock, extend, increase, reschedule and accelerate operations of any of
  the five PoX contracts, succeeding or failing, changes the total balance of an account
  snapshot or anything that readers of the database see.
\<close>
theorem pox_operations_keep_total:
  assumes "sees data_table (\<lambda>_. True) (db_ref s) v vs"
    and "run_steps (run_pox_op (memory_store sha256)) ps s = (rs, s')"
  shows "total (balance s') = total (balance s) \<and> sees data_table (\<lambda>_. True) (db_ref s') v vs"
  using assms by (rule memory.pox_ops_total)

theorem pox_operations_keep_total_witness:
  "total (balance (snd (run_steps (run_pox_op (memory_store (\<lambda>_. replicate 32 7)))
     [LockV5 100 200, IncreaseV5 150, AccelerateUnlock]
     (snapshot_new (Standard (StandardPrincipalData 22 (replicate 20 3))) (Unlocked 1000) 50
        (db_begin (as_clarity_db (\<lambda>_. replicate 32 7) memory_store_new)))))) = 1000"
proof -
  let ?ops = "memory_store (\<lambda>_. replicate 32 7)" and ?ps = "[LockV5 100 200, IncreaseV5 150, AccelerateUnlock]"
  let ?s = "snapshot_new (Standard (StandardPrincipalData 22 (replicate 20 3))) (Unlocked 1000) 50
      (db_begin (as_clarity_db (\<lambda>_. replicate 32 7) memory_store_new))"
  have "sees data_table (\<lambda>_. True) (db_ref ?s) (data_table memory_store_new) [data_table memory_store_new]"
    unfolding as_clarity_db_def using db_new_sees [of "\<lambda>_. True" memory_store_new data_table]
    by (simp add: snapshot_new_def)
  then have "total (balance (snd (run_steps (run_pox_op ?ops) ?ps ?s))) = total (balance ?s)"
    using pox_operations_keep_total [of ?s _ _ "\<lambda>_. replicate 32 7" ?ps] by (metis prod.collapse)
  then show ?thesis by (simp add: snapshot_new_def total_def)
qed

section \<open>Transfers\<close>

lemma debit_of:
  assumes "available_of H n b = (Inr avail, b)" and "amount \<le> avail"
  shows "\<exists>b'. sthen (unlock_of H n) (sbind (\<lambda>b. (debit_unlocked_amount b amount, b)) (\<lambda>b'. smodify (\<lambda>_. b'))) b
       = (Inr (), b') \<and> total b = total b' + unat amount"
proof -
  from assms(1) obtain v1 v2 v3 v4 where H: "H = Inr (v1, v2, v3, v4)"
      and av: "get_available_balance_at_burn_block b n v1 v2 v3 v4 = Inr avail"
    by (auto simp: available_of_def)
  have "\<exists>b1 u. canonical_repr_at_block b n v1 v2 v3 v4 = Inr (b1, u)"
    using av by (auto simp: canonical_repr_at_block_def get_available_balance_at_burn_block_def)
  then obtain b1 u where c: "canonical_repr_at_block b n v1 v2 v3 v4 = Inr (b1, u)" by blast
  then have "amount_unlocked b1 = avail" and "total b1 = total b"
    using av by (simp_all add: canonical_available canonical_total)
  define b2 where "b2 = set_amount_unlocked b1 (amount_unlocked b1 - amount)"
  have d: "debit_unlocked_amount b1 amount = Inr b2"
    using assms(2) \<open>amount_unlocked b1 = avail\<close> by (simp add: b2_def)
  then have "total b = total b2 + unat amount"
    using total_debit \<open>total b1 = total b\<close> by metis
  then show ?thesis
    by (intro exI [of _ b2]) (simp add: unlock_of_def run_simps d H c del: debit_unlocked_amount_Inr)
qed

lemma balance_in_put:
  "balance_in sha256 (v(make_key_for_account_balance sha256 p \<mapsto> stx_balance_serialize b)) p =
     Inr (if amount_locked b = 0 then Unlocked (amount_unlocked b) else b)"
  by (simp add: balance_in_def deserialize_opt_def stx_balance_roundtrip)

lemma total_stored: "total (if amount_locked b = 0 then Unlocked (amount_unlocked b) else b) = total b"
  by (simp add: total_def)

context backing_store
begin

lemma acts_debit:
  "acts data valid (debit ops amount)
     (\<lambda>H n. sthen (unlock_of H n) (sbind (\<lambda>b. (debit_unlocked_amount b amount, b)) (\<lambda>b'. smodify (\<lambda>_. b'))))"
  unfolding debit_def
  by (intro acts_sthen acts_sbind acts_unlock acts_set_const) (auto simp: acts_def)

lemma acts_can_transfer:
  "acts data valid (can_transfer ops amount)
     (\<lambda>H n. sbind (available_of H n) (\<lambda>available. sret (available \<ge> amount)))"
  unfolding can_transfer_def by (intro acts_sbind acts_available acts_sret)

lemma can_transfer_run:
  fixes s :: "'s STXBalanceSnapshot"
  assumes "sees data valid (db_ref s) v vs"
    and "available_of (heights_in (burn_state_db (db_ref s)) v) (burn_block_height s) (balance s) =
           (Inr avail, balance s)"
  obtains db1 where "can_transfer ops amount s = (Inr (amount \<le> avail), s\<lparr>db_ref := db1\<rparr>)"
    and "sees data valid db1 v vs" and "same_chain (db_ref s) db1"
  using acts_can_transfer [of amount] assms(1)
proof (rule actsE)
  fix r b db'
  assume "sbind (available_of (heights_in (burn_state_db (db_ref s)) v) (burn_block_height s))
        (\<lambda>available. sret (amount \<le> available)) (balance s) = (r, b)"
    and "can_transfer ops amount s = (r, s\<lparr>balance := b, db_ref := db'\<rparr>)"
    and "sees data valid db' v vs" and "same_chain (db_ref s) db'"
  with assms(2) that show thesis by (auto simp: run_simps)
qed

lemma debit_run:
  fixes s :: "'s STXBalanceSnapshot"
  assumes "sees data valid (db_ref s) v vs"
    and "available_of (heights_in (burn_state_db (db_ref s)) v) (burn_block_height s) (balance s) =
           (Inr avail, balance s)" and "amount \<le> avail"
  obtains db1 b where "debit ops amount s = (Inr (), s\<lparr>balance := b, db_ref := db1\<rparr>)"
    and "total (balance s) = total b + unat amount"
    and "sees data valid db1 v vs" and "same_chain (db_ref s) db1"
  using acts_debit [of amount] assms(1)
proof (rule actsE)
  fix r b db'
  assume "sthen (unlock_of (heights_in (burn_state_db (db_ref s)) v) (burn_block_height s))
        (sbind (\<lambda>b. (debit_unlocked_amount b amount, b)) (\<lambda>b'. smodify (\<lambda>_. b'))) (balance s) = (r, b)"
    and "debit ops amount s = (r, s\<lparr>balance := b, db_ref := db'\<rparr>)"
    and "sees data valid db' v vs" and "same_chain (db_ref s) db'"
  with debit_of [OF assms(2,3)] that show thesis by auto
qed

lemma transfer_run:
  fixes s :: "'s STXBalanceSnapshot"
  assumes s: "sees data valid (db_ref s) v vs"
    and H: "heights_in (burn_state_db (db_ref s)) v = Inr (v1, v2, v3, v4)"
    and av: "get_available_balance_at_burn_block (balance s) (burn_block_height s) v1 v2 v3 v4 = Inr avail"
    and bq: "balance_in sha256 v q = Inr bq"
  defines "kp \<equiv> make_key_for_account_balance sha256 (snap_principal s)"
    and "kq \<equiv> make_key_for_account_balance sha256 q"
  shows "(if avail < amount then
       (\<exists>s'. transfer_to ops sha256 q amount s = (Inl (Internal InsufficientBalance), s') \<and>
             sees data valid (db_ref s') v vs)
     else if 2 ^ 128 \<le> unat (amount_unlocked bq) + unat amount then
       (\<exists>s'. transfer_to ops sha256 q amount s = (Inl (Runtime ArithmeticOverflow), s') \<and>
             sees data valid (db_ref s') v vs)
     else
       (\<exists>s' b bq'. transfer_to ops sha256 q amount s = (Inr (), s') \<and>
             total (balance s) = total b + unat amount \<and> total bq' = total bq + unat amount \<and>
             sees data valid (db_ref s')
               (v(kq \<mapsto> stx_balance_serialize bq', kp \<mapsto> stx_balance_serialize b)) vs))"
proof -
  have avail: "available_of (heights_in (burn_state_db (db_ref s)) v) (burn_block_height s) (balance s) =
      (Inr avail, balance s)"
    using H av by (simp add: available_of_def)
  obtain db1 where 1: "can_transfer ops amount s = (Inr (amount \<le> avail), s\<lparr>db_ref := db1\<rparr>)"
      "sees data valid db1 v vs" "same_chain (db_ref s) db1"
    using can_transfer_run [OF s avail] .
  obtain x where x: "deserialize_opt stx_balance_deserialize (v kq) = Inr x"
      "bq = (case x of Some b \<Rightarrow> b | None \<Rightarrow> STXBalance_zero)"
    using bq by (auto simp: balance_in_def kq_def)
  obtain db2 where g0: "get_data ops stx_balance_deserialize kq db1 = (Inr x, db2)"
      and 2: "sees data valid db2 v vs" "same_chain db1 db2"
    using readsE [OF reads_get_data [of stx_balance_deserialize kq] 1(2)] x(1) by metis
  then have get: "on_db (get_data ops stx_balance_deserialize kq) (s\<lparr>db_ref := db1\<rparr>) =
      (Inr x, s\<lparr>db_ref := db2\<rparr>)"
    by (simp add: on_db_def run_simps)
  note runs = transfer_to_def run_simps 1(1) get [unfolded kq_def] x(2) [symmetric] kq_def
  consider "avail < amount"
    | "amount \<le> avail" "2 ^ 128 \<le> unat (amount_unlocked bq) + unat amount"
    | "amount \<le> avail" "unat (amount_unlocked bq) + unat amount < 2 ^ 128"
    by (meson not_less)
  then show ?thesis
  proof cases
    case 1
    then have "\<not> amount \<le> avail" by (simp only: not_le)
    then show ?thesis using 1 \<open>sees data valid db1 v vs\<close> by (simp add: runs)
  next
    case 2
    then have "checked_add_unlocked_amount bq amount = None"
      by (simp add: checked_add_unlocked_amount_def checked_add_eq_None)
    with 2 \<open>sees data valid db2 v vs\<close> show ?thesis by (simp add: runs leD)
  next
    case 3
    then obtain bq' where add: "checked_add_unlocked_amount bq amount = Some bq'"
        and tq: "total bq' = total bq + unat amount"
      by (metis checked_add_unlocked_amount_Some total_add)
    have "sees data valid (db_ref (s\<lparr>db_ref := db2\<rparr>)) v vs" using \<open>sees data valid db2 v vs\<close> by simp
    moreover have "available_of (heights_in (burn_state_db (db_ref (s\<lparr>db_ref := db2\<rparr>))) v)
        (burn_block_height (s\<lparr>db_ref := db2\<rparr>)) (balance (s\<lparr>db_ref := db2\<rparr>)) =
        (Inr avail, balance (s\<lparr>db_ref := db2\<rparr>))"
      using avail \<open>same_chain (db_ref s) db1\<close> \<open>same_chain db1 db2\<close> by (simp add: same_chain_def)
    ultimately obtain db3 b where d: "debit ops amount (s\<lparr>db_ref := db2\<rparr>) =
          (Inr (), s\<lparr>db_ref := db2, balance := b, db_ref := db3\<rparr>)"
        "total (balance (s\<lparr>db_ref := db2\<rparr>)) = total b + unat amount" "sees data valid db3 v vs"
      using debit_run 3(1) by metis
    obtain db4 where p4: "put_data stx_balance_serialize kq bq' db3 = (Inr (), db4)"
        "sees data valid db4 (v(kq \<mapsto> stx_balance_serialize bq')) vs"
      using db_put_data_sees [OF d(3), of stx_balance_serialize kq bq'] by blast
    obtain db5 where p5: "put_data stx_balance_serialize kp b db4 = (Inr (), db5)"
        "sees data valid db5 (v(kq \<mapsto> stx_balance_serialize bq', kp \<mapsto> stx_balance_serialize b)) vs"
      using db_put_data_sees [OF p4(2), of stx_balance_serialize kp b] by blast
    have "transfer_to ops sha256 q amount s = (Inr (), s\<lparr>balance := b, db_ref := db5\<rparr>)"
      using 3(1) add d(1) p4(1) p5(1)
      by (simp add: runs g0 [unfolded kq_def] snapshot_save_def on_db_def kp_def)
    then show ?thesis using 3 tq d(2) p5(2) by (auto simp: leD)
  qed
qed

lemma transfer_success:
  fixes s :: "'s STXBalanceSnapshot"
  assumes s: "sees data valid (db_ref s) v vs"
    and t: "transfer_to ops sha256 q amount s = (Inr (), s')"
  obtains v1 v2 v3 v4 avail bq
  where "heights_in (burn_state_db (db_ref s)) v = Inr (v1, v2, v3, v4)"
    and "get_available_balance_at_burn_block (balance s) (burn_block_height s) v1 v2 v3 v4 = Inr avail"
    and "balance_in sha256 v q = Inr bq"
proof -
  let ?H = "heights_in (burn_state_db (db_ref s)) v"
  let ?kq = "make_key_for_account_balance sha256 q"
  from t obtain ok s1 x s2 where c: "can_transfer ops amount s = (Inr ok, s1)"
      and g: "on_db (get_data ops stx_balance_deserialize ?kq) s1 = (Inr x, s2)"
    by (auto simp: transfer_to_def sfail_run split: if_splits)
  obtain r b db' where r: "sbind (available_of ?H (burn_block_height s))
        (\<lambda>available. sret (amount \<le> available)) (balance s) = (r, b)"
      "can_transfer ops amount s = (r, s\<lparr>balance := b, db_ref := db'\<rparr>)" "sees data valid db' v vs"
    using acts_can_transfer [of amount] s by (rule actsE)
  from r(1,2) c obtain avail v1 v2 v3 v4 where "?H = Inr (v1, v2, v3, v4)"
      and "get_available_balance_at_burn_block (balance s) (burn_block_height s) v1 v2 v3 v4 = Inr avail"
    by (auto simp: available_of_def)
  moreover obtain db2 where "get_data ops stx_balance_deserialize ?kq db' =
      (deserialize_opt stx_balance_deserialize (v ?kq), db2)"
    using reads_get_data r(3) by (rule readsE)
  with g c r(2) have "deserialize_opt stx_balance_deserialize (v ?kq) = Inr x"
    by (auto simp: on_db_def run_simps)
  then have "\<exists>bq. balance_in sha256 v q = Inr bq" by (simp add: balance_in_def)
  ultimately show ?thesis using that by blast
qed

lemma snapshot_sees:
  fixes db :: "'s ClarityDatabase"
  assumes "sees data valid db v vs"
    and "get_stx_balance_snapshot ops sha256 p db = (Inr snap, db0)"
  shows "sees data valid (db_ref snap) v vs \<and> same_chain db (db_ref snap) \<and>
     balance_in sha256 v p = Inr (balance snap) \<and> snap_principal snap = p"
proof -
  from assms(2) obtain b db1 h db2 where b: "get_account_stx_balance ops sha256 p db = (Inr b, db1)"
      and h: "get_current_burnchain_block_height ops db1 = (Inr h, db2)"
      and snap: "snap = snapshot_new p b (ucast h) db2"
    by (auto simp: get_stx_balance_snapshot_def sget_run)
  obtain db' where "get_account_stx_balance ops sha256 p db = (balance_in sha256 v p, db')"
      "sees data valid db' v vs" "same_chain db db'"
    using reads_account_balance assms(1) by (rule readsE)
  with b have 1: "balance_in sha256 v p = Inr b" "sees data valid db1 v vs" "same_chain db db1" by auto
  obtain db'' where e: "get_clarity_epoch_version ops db1 = (epoch_in v, db'')"
      "sees data valid db'' v vs" "same_chain db1 db''"
    using reads_epoch 1(2) by (rule readsE)
  with h have "db2 = db''"
    by (auto simp: get_current_burnchain_block_height_def get_index_block_header_hash_def
        sget_run slift_run split: if_splits)
  with e 1 snap show ?thesis by (auto simp: snapshot_new_def intro: same_chain_trans)
qed

end

definition account_total :: "(u8 list \<Rightarrow> u8 list) \<Rightarrow> (string \<rightharpoonup> string) \<Rightarrow> PrincipalData \<Rightarrow> nat" where
  "account_total sha256 v p = (case balance_in sha256 v p of Inr b \<Rightarrow> total b | Inl _ \<Rightarrow> 0)"

lemma balance_in_other:
  "k \<noteq> make_key_for_account_balance sha256 p \<Longrightarrow> balance_in sha256 (v(k \<mapsto> x)) p = balance_in sha256 v p"
  by (simp add: balance_in_def)

lemma sum_move:
  fixes f :: "'a \<Rightarrow> nat"
  assumes "finite A" and "p \<in> A" and "q \<in> A" and "p \<noteq> q"
    and "g p + n = f p" and "g q = f q + n" and "\<And>r. r \<in> A \<Longrightarrow> r \<noteq> p \<Longrightarrow> r \<noteq> q \<Longrightarrow> g r = f r"
  shows "sum g A = sum f A"
proof -
  have A: "sum h A = h p + (h q + sum h (A - {p} - {q}))" for h :: "'a \<Rightarrow> nat"
    using assms(1-4) by (simp add: sum.remove [of A p] sum.remove [of "A - {p}" q])
  have "sum g (A - {p} - {q}) = sum f (A - {p} - {q})"
    using assms(7) by (intro sum.cong) auto
  with A [of g] A [of f] assms(5,6) show ?thesis by simp
qed

text \<open>A database with one funded account, for the concrete instances below.\<close>

abbreviation demo_digest :: "u8 list \<Rightarrow> u8 list" where
  "demo_digest \<equiv> (\<lambda>_. replicate 32 7)"

abbreviation alice :: PrincipalData where
  "alice \<equiv> Standard (StandardPrincipalData 22 (replicate 20 3))"

abbreviation bob :: PrincipalData where
  "bob \<equiv> Standard (StandardPrincipalData 22 (replicate 20 4))"

definition demo_view :: "string \<rightharpoonup> string" where
  "demo_view = [make_key_for_account_balance demo_digest alice \<mapsto> stx_balance_serialize (Unlocked 1000)]"

definition demo_db :: "SideStore ClarityDatabase" where
  "demo_db = db_begin (as_clarity_db (\<lambda>_. []) \<lparr>data_table = demo_view, metadata_table = Map.empty\<rparr>)"

lemma demo_sees: "sees data_table (\<lambda>_. True) demo_db demo_view [demo_view]"
  unfolding demo_db_def as_clarity_db_def
  using db_new_sees [of "\<lambda>_. True" "\<lparr>data_table = demo_view, metadata_table = Map.empty\<rparr>" data_table]
  by simp

lemma demo_key: "make_key_for_account_balance demo_digest alice \<noteq> make_key_for_account_balance demo_digest bob"
  using balance_key_inj [of alice bob demo_digest] by (simp add: wf_standard_def replicate_eq_replicate)

lemma demo_balances:
  "balance_in demo_digest demo_view alice = Inr (Unlocked 1000)"
  "balance_in demo_digest demo_view bob = Inr (Unlocked 0)"
  using demo_key
  by (simp_all add: demo_view_def balance_in_put)
    (simp add: balance_in_def deserialize_opt_def STXBalance_zero_def)

lemma demo_epoch: "epoch_in demo_view = Inr Epoch20"
  using account_key_not_epoch_key [of demo_digest alice StoreSTXBalance, THEN not_sym]
  by (simp add: epoch_in_def deserialize_opt_def demo_view_def account_key_defs)

lemma demo_heights: "heights_in c demo_view = Inr (burn_get_v1_unlock_height c, - 1, - 1, - 1)"
  by (simp add: heights_in_def v2_height_in_def v3_height_in_def v4_height_in_def demo_epoch
      less_eq_StacksEpochId_def)

lemma snapshot_of_demo:
  assumes db: "sees data_table (\<lambda>_. True) db demo_view vs" "headers_db db = null_headers_db (\<lambda>_. [])"
  shows "\<exists>snap db0. get_stx_balance_snapshot (memory_store demo_digest) demo_digest alice db = (Inr snap, db0) \<and>
     sees data_table (\<lambda>_. True) (db_ref snap) demo_view vs \<and> balance snap = Unlocked 1000"
proof -
  obtain db1 where 1: "get_account_stx_balance (memory_store demo_digest) demo_digest alice db =
        (Inr (Unlocked 1000), db1)" "sees data_table (\<lambda>_. True) db1 demo_view vs"
      "same_chain db db1"
    using readsE [OF memory.reads_account_balance db(1), of demo_digest demo_digest alice] demo_balances
    by (metis (no_types, lifting))
  obtain db2 where 2: "get_clarity_epoch_version (memory_store demo_digest) db1 = (Inr Epoch20, db2)"
      "sees data_table (\<lambda>_. True) db2 demo_view vs" "same_chain db1 db2"
    using readsE [OF memory.reads_epoch 1(2), of demo_digest] demo_epoch by (metis (no_types, lifting))
  have "headers_db db2 = null_headers_db (\<lambda>_. [])"
    using 1(3) 2(3) db(2) by (simp add: same_chain_def)
  then have "\<exists>h. get_current_burnchain_block_height (memory_store demo_digest) db1 = (Inr h, db2)"
    using 2(1)
    by (simp add: get_current_burnchain_block_height_def run_simps clarity_uses_tip_burn_block_def
        less_eq_StacksEpochId_def db_get_current_block_height_def memory_store_def
        get_index_block_header_hash_def memory_get_block_at_height_def get_burnchain_block_height_def
        null_headers_db_def)
  with 1(1) 2(2) show ?thesis
    by (auto simp: get_stx_balance_snapshot_def run_simps snapshot_new_def)
qed

lemma demo_snapshot:
  "\<exists>snap db0. get_stx_balance_snapshot (memory_store demo_digest) demo_digest alice demo_db = (Inr snap, db0) \<and>
     sees data_table (\<lambda>_. True) (db_ref snap) demo_view [demo_view] \<and> balance snap = Unlocked 1000"
  by (rule snapshot_of_demo [OF demo_sees]) (simp add: demo_db_def db_begin_def as_clarity_db_def db_new_def)

text \<open>A successful transfer from a snapshot that agrees with the database.\<close>

lemma transfer_moves:
  assumes "finite A" and "\<And>r. r \<in> A \<Longrightarrow> wf_principal r" and "p \<in> A" and "q \<in> A" and "p \<noteq> q"
    and "\<And>x. length (sha256 x) = 32"
    and snap: "sees data_table (\<lambda>_. True) (db_ref snap) v vs" "balance_in sha256 v p = Inr (balance snap)"
      "snap_principal snap = p"
    and t: "transfer_to (memory_store sha256) sha256 q amount snap = (Inr (), snap')"
  shows "\<exists>v'. sees data_table (\<lambda>_. True) (db_ref snap') v' vs \<and>
     (\<Sum>r\<in>A. account_total sha256 v' r) = (\<Sum>r\<in>A. account_total sha256 v r) \<and>
     account_total sha256 v' p + unat amount = account_total sha256 v p \<and>
     account_total sha256 v' q = account_total sha256 v q + unat amount \<and>
     (\<forall>r \<in> A - {p, q}. balance_in sha256 v' r = balance_in sha256 v r)"
proof -
  let ?k = "make_key_for_account_balance sha256"
  have key: "?k a = ?k b \<longleftrightarrow> a = b" if "a \<in> A" "b \<in> A" for a b
    using balance_key_inj [of a b sha256] assms(2,6) that by simp
  obtain v1 v2 v3 v4 avail bq where ok: "heights_in (burn_state_db (db_ref snap)) v = Inr (v1, v2, v3, v4)"
      "get_available_balance_at_burn_block (balance snap) (burn_block_height snap) v1 v2 v3 v4 = Inr avail"
      "balance_in sha256 v q = Inr bq"
    using snap(1) t by (rule memory.transfer_success)
  define result where "result b bq' = v(?k q \<mapsto> stx_balance_serialize bq', ?k p \<mapsto> stx_balance_serialize b)"
    for b bq'
  obtain b bq' where v': "sees data_table (\<lambda>_. True) (db_ref snap') (result b bq') vs"
      "total (balance snap) = total b + unat amount" "total bq' = total bq + unat amount"
    using memory.transfer_run [OF snap(1) ok, of amount sha256] t snap(3)
    by (auto simp: result_def split: if_splits)
  have p: "balance_in sha256 (result b bq') p = Inr (if amount_locked b = 0 then Unlocked (amount_unlocked b) else b)"
    by (simp add: result_def balance_in_put)
  have q: "balance_in sha256 (result b bq') q =
      Inr (if amount_locked bq' = 0 then Unlocked (amount_unlocked bq') else bq')"
    using key [of p q] assms(3,4,5) by (simp add: result_def balance_in_put balance_in_other)
  have others: "balance_in sha256 (result b bq') r = balance_in sha256 v r" if "r \<in> A - {p, q}" for r
    using key [of p r] key [of q r] that assms(3,4) by (auto simp: result_def balance_in_other)
  have tp: "account_total sha256 (result b bq') p + unat amount = account_total sha256 v p"
    using p snap(2) v'(2) by (simp add: account_total_def total_stored)
  have tq: "account_total sha256 (result b bq') q = account_total sha256 v q + unat amount"
    using q ok(3) v'(3) by (simp add: account_total_def total_stored)
  have "(\<Sum>r\<in>A. account_total sha256 (result b bq') r) = (\<Sum>r\<in>A. account_total sha256 v r)"
    using assms(1,3,4,5) tp tq by (rule sum_move) (simp add: account_total_def others)
  with v'(1) tp tq others show ?thesis by blast
qed

text \<open>
  (C1) A successful STX transfer moves exactly the amount: among any finite set of well-formed
  accounts that contains the sender and a different recipient, the sum of all totals is
  unchanged, the sender's total falls and the recipient's total grows by the amount, and every
  other account reads as before. The older snapshots, to which a rollback returns, are unchanged.
\<close>
theorem stx_transfer_conserves_supply:
  assumes "finite A" and "\<And>r. r \<in> A \<Longrightarrow> wf_principal r" and "p \<in> A" and "q \<in> A" and "p \<noteq> q"
    and "\<And>x. length (sha256 x) = 32"
    and "sees data_table (\<lambda>_. True) db v vs"
    and "get_stx_balance_snapshot (memory_store sha256) sha256 p db = (Inr snap, db0)"
    and "transfer_to (memory_store sha256) sha256 q amount snap = (Inr (), snap')"
  shows "\<exists>v'. sees data_table (\<lambda>_. True) (db_ref snap') v' vs \<and>
     (\<Sum>r\<in>A. account_total sha256 v' r) = (\<Sum>r\<in>A. account_total sha256 v r) \<and>
     account_total sha256 v' p + unat amount = account_total sha256 v p \<and>
     account_total sha256 v' q = account_total sha256 v q + unat amount \<and>
     (\<forall>r \<in> A - {p, q}. balance_in sha256 v' r = balance_in sha256 v r)"
proof -
  have "sees data_table (\<lambda>_. True) (db_ref snap) v vs" "balance_in sha256 v p = Inr (balance snap)"
      "snap_principal snap = p"
    using memory.snapshot_sees [OF assms(7,8)] by auto
  from transfer_moves [OF assms(1-6) this assms(9)] show ?thesis .
qed

theorem stx_transfer_conserves_supply_witness:
  "\<exists>snap db0 snap' v'.
     get_stx_balance_snapshot (memory_store demo_digest) demo_digest alice demo_db = (Inr snap, db0) \<and>
     transfer_to (memory_store demo_digest) demo_digest bob 400 snap = (Inr (), snap') \<and>
     sees data_table (\<lambda>_. True) (db_ref snap') v' [demo_view] \<and>
     account_total demo_digest v' alice = 600 \<and> account_total demo_digest v' bob = 400"
proof -
  obtain snap db0 where snap:
      "get_stx_balance_snapshot (memory_store demo_digest) demo_digest alice demo_db = (Inr snap, db0)"
      "sees data_table (\<lambda>_. True) (db_ref snap) demo_view [demo_view]" "balance snap = Unlocked 1000"
    using demo_snapshot by blast
  obtain snap' where t: "transfer_to (memory_store demo_digest) demo_digest bob 400 snap = (Inr (), snap')"
    using memory.transfer_run [OF snap(2) demo_heights _ demo_balances(2), of 1000 400 demo_digest] snap(3)
    by (auto simp: get_available_balance_at_burn_block_def)
  have "\<exists>v'. sees data_table (\<lambda>_. True) (db_ref snap') v' [demo_view] \<and>
     (\<Sum>r\<in>{alice, bob}. account_total demo_digest v' r) =
       (\<Sum>r\<in>{alice, bob}. account_total demo_digest demo_view r) \<and>
     account_total demo_digest v' alice + unat (400 :: u128) = account_total demo_digest demo_view alice \<and>
     account_total demo_digest v' bob = account_total demo_digest demo_view bob + unat (400 :: u128) \<and>
     (\<forall>r \<in> {alice, bob} - {alice, bob}. balance_in demo_digest v' r = balance_in demo_digest demo_view r)"
    by (rule stx_transfer_conserves_supply [OF _ _ _ _ _ _ demo_sees snap(1) t])
      (auto simp: wf_standard_def replicate_eq_replicate)
  then show ?thesis
    using snap(1) t by (auto simp: account_total_def demo_balances total_def)
qed

text \<open>
  (C4) When a transfer succeeds: on a database whose epoch and recipient balance can be read, it
  fails with an insufficient balance exactly when the amount exceeds the sender's available
  balance, fails with an overflow exactly when the recipient's unlocked amount would leave 128
  bits, and succeeds otherwise; a failed transfer changes nothing that readers see.
\<close>
theorem stx_transfer_outcome:
  assumes "sees data_table (\<lambda>_. True) (db_ref s) v vs"
    and "heights_in (burn_state_db (db_ref s)) v = Inr (v1, v2, v3, v4)"
    and "get_available_balance_at_burn_block (balance s) (burn_block_height s) v1 v2 v3 v4 = Inr avail"
    and "balance_in sha256 v q = Inr bq"
    and "transfer_to (memory_store sha256) sha256 q amount s = (r, s')"
  shows "r = (if avail < amount then Inl (Internal InsufficientBalance)
              else if 2 ^ 128 \<le> unat (amount_unlocked bq) + unat amount then Inl (Runtime ArithmeticOverflow)
              else Inr ()) \<and>
         (r \<noteq> Inr () \<longrightarrow> sees data_table (\<lambda>_. True) (db_ref s') v vs)"
  using memory.transfer_run [OF assms(1-4), of amount sha256] assms(5) by (auto split: if_splits)

theorem stx_transfer_outcome_witness:
  "\<exists>snap s'. balance snap = Unlocked 1000 \<and>
     transfer_to (memory_store demo_digest) demo_digest bob 1001 snap = (Inl (Internal InsufficientBalance), s') \<and>
     sees data_table (\<lambda>_. True) (db_ref s') demo_view [demo_view]"
proof -
  obtain snap :: "SideStore STXBalanceSnapshot" where snap: "sees data_table (\<lambda>_. True) (db_ref snap) demo_view [demo_view]"
      "balance snap = Unlocked 1000"
    using demo_snapshot by blast
  obtain r s' where t: "transfer_to (memory_store demo_digest) demo_digest bob 1001 snap = (r, s')"
    by fastforce
  have "r = Inl (Internal InsufficientBalance) \<and> sees data_table (\<lambda>_. True) (db_ref s') demo_view [demo_view]"
    using stx_transfer_outcome [OF snap(1) demo_heights _ demo_balances(2) t, of 1000] snap(2)
    by (auto simp: get_available_balance_at_burn_block_def)
  with snap(2) t show ?thesis by blast
qed

end
