(* ===== verification/CostTrackers.thy ===== *)
theory CostTrackers
  imports Values ExecutionCosts Errors
begin

text \<open>
  Tracking of execution costs (\<open>clarity/src/vm/costs/mod.rs\<close>): the tracker with its limits, the
  charges for costs and memory, and the parsing of the result of a cost contract. The tables of
  cost functions and the evaluation of cost contracts are not modelled, so a tracker is its two
  totals with their limits. The model is of a build without the feature \<open>disable-costs\<close>.
\<close>

definition CLARITY_MEMORY_LIMIT :: u64 where
  "CLARITY_MEMORY_LIMIT = 100000000"

definition COSTS_1_NAME :: string where "COSTS_1_NAME = ''costs''"
definition COSTS_2_NAME :: string where "COSTS_2_NAME = ''costs-2''"
definition COSTS_3_NAME :: string where "COSTS_3_NAME = ''costs-3''"
definition COSTS_4_NAME :: string where "COSTS_4_NAME = ''costs-4''"
definition COSTS_5_NAME :: string where "COSTS_5_NAME = ''costs-5''"

datatype DefaultVersion = Costs1 | Costs2 | Costs2Testnet | Costs3 | Costs4 | Costs5

definition default_version_try_from :: "bool \<Rightarrow> QualifiedContractIdentifier \<Rightarrow> string + DefaultVersion" where
  "default_version_try_from mainnet value =
     (if \<not> is_boot value then Inl ''Not a boot contract''
      else if qci_name value = COSTS_1_NAME then Inr Costs1
      else if qci_name value = COSTS_2_NAME then (if mainnet then Inr Costs2 else Inr Costs2Testnet)
      else if qci_name value = COSTS_3_NAME then Inr Costs3
      else if qci_name value = COSTS_4_NAME then Inr Costs4
      else if qci_name value = COSTS_5_NAME then Inr Costs5
      else Inl (''Unknown default contract '' @ qci_name value))"

fun default_cost_contract_for_epoch :: "StacksEpochId \<Rightarrow> CostErrors + string" where
  "default_cost_contract_for_epoch Epoch10 =
     Inl (CostExpect ''Attempted to get default cost functions for Epoch 1.0 where Clarity does not exist'')"
| "default_cost_contract_for_epoch Epoch20 = Inr COSTS_1_NAME"
| "default_cost_contract_for_epoch Epoch2_05 = Inr COSTS_2_NAME"
| "default_cost_contract_for_epoch Epoch21 = Inr COSTS_3_NAME"
| "default_cost_contract_for_epoch Epoch22 = Inr COSTS_3_NAME"
| "default_cost_contract_for_epoch Epoch23 = Inr COSTS_3_NAME"
| "default_cost_contract_for_epoch Epoch24 = Inr COSTS_3_NAME"
| "default_cost_contract_for_epoch Epoch25 = Inr COSTS_3_NAME"
| "default_cost_contract_for_epoch Epoch30 = Inr COSTS_3_NAME"
| "default_cost_contract_for_epoch Epoch31 = Inr COSTS_3_NAME"
| "default_cost_contract_for_epoch Epoch32 = Inr COSTS_3_NAME"
| "default_cost_contract_for_epoch Epoch33 = Inr COSTS_4_NAME"
| "default_cost_contract_for_epoch Epoch34 = Inr COSTS_4_NAME"
| "default_cost_contract_for_epoch Epoch40 = Inr COSTS_5_NAME"
| "default_cost_contract_for_epoch Epoch41 = Inr COSTS_5_NAME"

section \<open>The tracker\<close>

record TrackerData =
  td_total :: ExecutionCost
  td_limit :: ExecutionCost
  td_memory :: u64
  td_memory_limit :: u64

datatype LimitedCostTracker = Limited TrackerData | Free

definition tracker_data_new :: "ExecutionCost \<Rightarrow> TrackerData" where
  "tracker_data_new limit =
     \<lparr>td_total = ZERO_COST, td_limit = limit, td_memory = 0, td_memory_limit = CLARITY_MEMORY_LIMIT\<rparr>"

definition new_free :: LimitedCostTracker where
  "new_free = Free"

fun get_total :: "LimitedCostTracker \<Rightarrow> ExecutionCost" where
  "get_total (Limited data) = td_total data"
| "get_total Free = ZERO_COST"

text \<open>\<open>None\<close> is the panic on a free tracker.\<close>

fun set_total :: "LimitedCostTracker \<Rightarrow> ExecutionCost \<Rightarrow> LimitedCostTracker option" where
  "set_total (Limited data) t = Some (Limited (data\<lparr>td_total := t\<rparr>))"
| "set_total Free t = None"

fun get_limit :: "LimitedCostTracker \<Rightarrow> ExecutionCost" where
  "get_limit (Limited data) = td_limit data"
| "get_limit Free = max_value_cost"

fun get_memory :: "LimitedCostTracker \<Rightarrow> u64" where
  "get_memory (Limited data) = td_memory data"
| "get_memory Free = 0"

fun get_memory_limit :: "LimitedCostTracker \<Rightarrow> u64" where
  "get_memory_limit (Limited data) = td_memory_limit data"
| "get_memory_limit Free = - 1"

definition data_add_cost :: "ExecutionCost \<Rightarrow> (TrackerData, CostErrors, unit) meth" where
  "data_add_cost cost =
     sthen (zoom td_total td_total_update (cost_add cost)) (\<lambda>s.
       if exceeds (td_total s) (td_limit s) then (Inl (CostBalanceExceeded (td_total s) (td_limit s)), s)
       else (Inr (), s))"

definition data_add_memory :: "u64 \<Rightarrow> (TrackerData, CostErrors, unit) meth" where
  "data_add_memory memory =
     sthen (update_field td_memory td_memory_update (\<lambda>m. cost_overflow_add m memory)) (\<lambda>s.
       if td_memory s > td_memory_limit s then (Inl (MemoryBalanceExceeded (td_memory s) (td_memory_limit s)), s)
       else (Inr (), s))"

definition data_drop_memory :: "u64 \<Rightarrow> (TrackerData, CostErrors, unit) meth" where
  "data_drop_memory memory =
     update_field td_memory td_memory_update
       (\<lambda>m. ok_or (checked_sub m memory) (CostExpect ''Underflowed dropped memory''))"

text \<open>A method of the data of a limited tracker; a free one ignores it.\<close>

fun on_data :: "(TrackerData, CostErrors, unit) meth \<Rightarrow> (LimitedCostTracker, CostErrors, unit) meth" where
  "on_data m Free = (Inr (), Free)"
| "on_data m (Limited data) = (case m data of (r, data') \<Rightarrow> (r, Limited data'))"

definition tracker_add_cost :: "ExecutionCost \<Rightarrow> (LimitedCostTracker, CostErrors, unit) meth" where
  "tracker_add_cost cost = on_data (data_add_cost cost)"

definition tracker_add_memory :: "u64 \<Rightarrow> (LimitedCostTracker, CostErrors, unit) meth" where
  "tracker_add_memory memory = on_data (data_add_memory memory)"

definition tracker_drop_memory :: "u64 \<Rightarrow> (LimitedCostTracker, CostErrors, unit) meth" where
  "tracker_drop_memory memory = on_data (data_drop_memory memory)"

fun reset_memory :: "LimitedCostTracker \<Rightarrow> LimitedCostTracker" where
  "reset_memory Free = Free"
| "reset_memory (Limited data) = Limited (data\<lparr>td_memory := 0\<rparr>)"

section \<open>Costs as values\<close>

text \<open>\<open>try_into().unwrap_or(u64::MAX)\<close>\<close>

definition u64_or_max :: "u128 \<Rightarrow> u64" where
  "u64_or_max x = (if unat x < 2 ^ 64 then ucast x else - 1)"

definition parse_cost :: "string \<Rightarrow> (VmExecutionError \<Rightarrow> string) \<Rightarrow> Value vm_result \<Rightarrow> CostErrors + ExecutionCost" where
  "parse_cost cost_function_name show_error eval_result =
     (case eval_result of
        Inr (Tuple _ data_map) \<Rightarrow>
          (case (map_of data_map ''write_length'', map_of data_map ''write_count'', map_of data_map ''runtime'',
                 map_of data_map ''read_length'', map_of data_map ''read_count'') of
             (Some (UInt wl), Some (UInt wc), Some (UInt rt), Some (UInt rl), Some (UInt rc)) \<Rightarrow>
               Inr \<lparr>write_length = u64_or_max wl, write_count = u64_or_max wc, read_length = u64_or_max rl,
                    read_count = u64_or_max rc, runtime = u64_or_max rt\<rparr>
           | _ \<Rightarrow> Inl (CostComputationFailed ''Execution Cost tuple does not contain only UInts''))
      | Inr _ \<Rightarrow> Inl (CostComputationFailed ''Clarity cost function returned something other than a Cost tuple'')
      | Inl e \<Rightarrow> Inl (CostComputationFailed
          (''Error evaluating result of cost function '' @ cost_function_name @ '': '' @ show_error e)))"

definition get_memory_use :: "Value \<Rightarrow> StacksEpochId \<Rightarrow> CostErrors + u64" where
  "get_memory_use v epoch =
     (case value_charged_size v epoch of
        Inl ValueTooLarge \<Rightarrow> Inl CostOverflow
      | Inl _ \<Rightarrow> Inl InterpreterFailure
      | Inr n \<Rightarrow> Inr (ucast n))"

section \<open>Limits are kept\<close>

datatype charge = AddCost ExecutionCost | AddMemory u64 | DropMemory u64 | ResetMemory

fun apply_charge :: "charge \<Rightarrow> (LimitedCostTracker, CostErrors, unit) meth" where
  "apply_charge (AddCost c) = tracker_add_cost c"
| "apply_charge (AddMemory m) = tracker_add_memory m"
| "apply_charge (DropMemory m) = tracker_drop_memory m"
| "apply_charge ResetMemory = smodify reset_memory"

fun apply_charges :: "charge list \<Rightarrow> (LimitedCostTracker, CostErrors, unit) meth" where
  "apply_charges [] = sret ()"
| "apply_charges (c # cs) = sthen (apply_charge c) (apply_charges cs)"

definition within_limits :: "LimitedCostTracker \<Rightarrow> bool" where
  "within_limits t \<longleftrightarrow> \<not> exceeds (get_total t) (get_limit t) \<and> get_memory t \<le> get_memory_limit t"

fun charged :: "charge \<Rightarrow> nat list" where
  "charged (AddCost c) = dims c"
| "charged _ = [0, 0, 0, 0, 0]"

lemma data_add_cost_Inr:
  "data_add_cost c d = (Inr u, d') \<longleftrightarrow>
     (\<exists>t. dims t = map2 (+) (dims (td_total d)) (dims c) \<and> d' = d\<lparr>td_total := t\<rparr> \<and> \<not> exceeds t (td_limit d))"
proof -
  obtain r t where rt: "cost_add c (td_total d) = (r, t)" by fastforce
  have ok: "(\<exists>u. r = Inr u) \<and> t = t' \<longleftrightarrow> dims t' = map2 (+) (dims (td_total d)) (dims c)" for t'
    using cost_add_Inr [of c "td_total d" _ t'] rt by auto
  show ?thesis
    by (cases r) (auto simp: data_add_cost_def sthen_def sbind_def zoom_def rt ok [symmetric])
qed

lemma data_add_memory_Inr:
  "data_add_memory m d = (Inr u, d') \<longleftrightarrow>
     (\<exists>y. unat y = unat (td_memory d) + unat m \<and> d' = d\<lparr>td_memory := y\<rparr> \<and> y \<le> td_memory_limit d)"
  by (auto simp: data_add_memory_def sthen_update_field_Inr not_less simp del: sthen_eq_Inr split: if_splits)

lemma data_drop_memory_Inr:
  "data_drop_memory m d = (Inr u, d') \<longleftrightarrow>
     (\<exists>y. unat (td_memory d) = unat y + unat m \<and> d' = d\<lparr>td_memory := y\<rparr>)"
  by (auto simp: data_drop_memory_def checked_sub_eq_Some)

lemma on_data_Inr: "on_data m (Limited d) = (Inr u, t') \<longleftrightarrow> (\<exists>d'. m d = (Inr u, d') \<and> t' = Limited d')"
  by (auto split: prod.splits)

lemma map2_add_zero: "length xs = 5 \<Longrightarrow> map2 (+) xs [0, 0, 0, 0, 0 :: nat] = xs"
  by (auto simp: length_Suc_conv eval_nat_numeral)

lemma length_dims [simp]: "length (dims c) = 5"
  by (simp add: dims_def)

lemmas charge_defs = tracker_add_cost_def tracker_add_memory_def tracker_drop_memory_def on_data_Inr
  data_add_cost_Inr data_add_memory_Inr data_drop_memory_Inr within_limits_def

lemma charge_step:
  assumes "within_limits t" "apply_charge c t = (Inr u, t')"
  shows "within_limits t' \<and> get_limit t' = get_limit t \<and> get_memory_limit t' = get_memory_limit t \<and>
    (t \<noteq> Free \<longrightarrow> t' \<noteq> Free \<and> dims (get_total t') = map2 (+) (dims (get_total t)) (charged c))"
proof (cases t)
  case Free
  with assms show ?thesis by (cases c) (auto simp: charge_defs run_simps)
next
  case (Limited d)
  with assms show ?thesis
    by (cases c) (auto simp: charge_defs map2_add_zero run_simps word_le_nat_alt simp del: on_data.simps(2))
qed

text \<open>
  (C16) A tracker never lets more be spent than its limits: along any sequence of charges that all
  succeed, the total stays within the limit in each of the five dimensions and the memory within
  the memory limit, the limits do not change, and the total of a limited tracker grows by exactly
  the costs charged.
\<close>

theorem successful_charges_stay_within_limits:
  assumes "within_limits t" "apply_charges cs t = (Inr u, t')"
  shows "within_limits t' \<and> get_limit t' = get_limit t \<and> get_memory_limit t' = get_memory_limit t \<and>
    (t \<noteq> Free \<longrightarrow> dims (get_total t') = foldl (map2 (+)) (dims (get_total t)) (map charged cs))"
  using assms
proof (induction cs arbitrary: t)
  case (Cons c cs)
  then obtain t1 where c: "apply_charge c t = (Inr (), t1)" "apply_charges cs t1 = (Inr u, t')" by auto
  from charge_step [OF Cons.prems(1) c(1)] Cons.IH [OF _ c(2)] show ?case by auto
qed (simp add: sret_def)

theorem successful_charges_stay_within_limits_witness:
  "let t = Limited (tracker_data_new (runtime_cost_of 10))
   in \<exists>t'. apply_charges [AddCost (runtime_cost_of 4), AddMemory 7, AddCost (runtime_cost_of 6)] t = (Inr (), t') \<and>
        within_limits t' \<and> dims (get_total t') = [10, 0, 0, 0, 0]"
proof -
  let ?t = "Limited (tracker_data_new (runtime_cost_of 10))"
  let ?cs = "[AddCost (runtime_cost_of 4), AddMemory 7, AddCost (runtime_cost_of 6)]"
  have "\<exists>t'. apply_charges ?cs ?t = (Inr (), t')"
    by (simp add: tracker_add_cost_def tracker_add_memory_def data_add_cost_def data_add_memory_def cost_add_def
        update_field_def run_simps cost_overflow_add_def checked_add_def exceeds_def tracker_data_new_def
        runtime_cost_of_def ZERO_COST_def CLARITY_MEMORY_LIMIT_def)
  then obtain t' where t': "apply_charges ?cs ?t = (Inr (), t')" by blast
  have "within_limits ?t"
    by (simp add: within_limits_def tracker_data_new_def runtime_cost_of_def ZERO_COST_def exceeds_def)
  from successful_charges_stay_within_limits [OF this t']
  have "within_limits t'" "dims (get_total t') = [10, 0, 0, 0, 0]"
    by (simp_all add: dims_def tracker_data_new_def runtime_cost_of_def ZERO_COST_def)
  with t' show ?thesis unfolding Let_def by blast
qed

text \<open>Vectors of natural numbers below a cost are costs.\<close>

lemma dims_surj: "list_all2 (\<le>) xs (dims l) \<Longrightarrow> \<exists>t. dims t = xs"
proof -
  assume le: "list_all2 (\<le>) xs (dims l)"
  then obtain a b c d e where xs: "xs = [a, b, c, d, e]"
    by (auto simp: dims_def list_all2_Cons2)
  have "x \<le> unat w \<Longrightarrow> unat (word_of_nat x :: u64) = x" for x and w :: u64
    using unat_lt_exp [of w] by (simp add: unat_of_nat)
  with le show ?thesis unfolding xs
    by (intro exI [of _ "\<lparr>write_length = word_of_nat d, write_count = word_of_nat e, read_length = word_of_nat c,
        read_count = word_of_nat b, runtime = word_of_nat a\<rparr>"]) (auto simp: dims_def)
qed

lemma list_all2_le_trans: "list_all2 (\<le>) xs ys \<Longrightarrow> list_all2 (\<le>) ys zs \<Longrightarrow> list_all2 (\<le>) xs (zs :: nat list)"
  by (rule list_all2_trans [of "(\<le>)" "(\<le>)"]) auto

lemma sum_dims_grows: "length xs = 5 \<Longrightarrow> list_all2 (\<le>) xs (foldl (map2 (+)) xs (map dims cs))"
proof (induction cs arbitrary: xs)
  case (Cons c cs)
  have "list_all2 (\<le>) xs (map2 (+) xs (dims c))"
    using Cons.prems by (simp add: list_all2_conv_all_nth)
  with Cons.IH [of "map2 (+) xs (dims c)"] Cons.prems list_all2_le_trans show ?case by fastforce
qed (simp add: list.rel_refl)

lemma charges_Cons: "apply_charges (c # cs) t = (case apply_charge c t of (Inl e, t') \<Rightarrow> (Inl e, t') | (Inr _, t') \<Rightarrow> apply_charges cs t')"
  by (simp add: sthen_def sbind_def split: prod.splits sum.splits)

text \<open>
  (C17) Costs are accepted exactly while they fit: a sequence of costs charged to a limited tracker
  succeeds if and only if the sum of the costs and of the total so far is within the limit in each
  dimension, so neither the order nor the grouping of the charges matters.
\<close>

theorem costs_accepted_iff_sum_fits:
  assumes "within_limits (Limited d)"
  shows "fst (apply_charges (map AddCost cs) (Limited d)) = Inr () \<longleftrightarrow>
    list_all2 (\<le>) (foldl (map2 (+)) (dims (td_total d)) (map dims cs)) (dims (td_limit d))"
  using assms
proof (induction cs arbitrary: d)
  case (Cons c cs)
  let ?sum = "map2 (+) (dims (td_total d)) (dims c)"
  show ?case
  proof (cases "list_all2 (\<le>) ?sum (dims (td_limit d))")
    case True
    then obtain t where t: "dims t = ?sum" using dims_surj by blast
    let ?d = "d\<lparr>td_total := t\<rparr>"
    have fits: "\<not> exceeds t (td_limit d)" using True t by (simp add: not_exceeds_iff)
    then have "data_add_cost c d = (Inr (), ?d)" unfolding data_add_cost_Inr using t by blast
    then have "apply_charges (map AddCost (c # cs)) (Limited d) = apply_charges (map AddCost cs) (Limited ?d)"
      by (simp add: charges_Cons tracker_add_cost_def del: apply_charges.simps)
    moreover have "within_limits (Limited ?d)" using Cons.prems fits by (simp add: within_limits_def)
    ultimately show ?thesis using Cons.IH [of ?d] t by simp
  next
    case False
    then have "data_add_cost c d \<noteq> (Inr (), d')" for d'
      by (auto simp: data_add_cost_Inr not_exceeds_iff)
    then have "fst (apply_charges (map AddCost (c # cs)) (Limited d)) \<noteq> Inr ()"
      by (auto simp: charges_Cons tracker_add_cost_def simp del: apply_charges.simps split: prod.splits sum.splits)
    moreover have "\<not> list_all2 (\<le>) (foldl (map2 (+)) (dims (td_total d)) (map dims (c # cs))) (dims (td_limit d))"
      using False sum_dims_grows [of ?sum cs] list_all2_le_trans [of ?sum] by auto
    ultimately show ?thesis by simp
  qed
next
  case Nil
  then show ?case by (simp add: sret_def within_limits_def not_exceeds_iff)
qed

theorem costs_accepted_iff_sum_fits_witness:
  "fst (apply_charges (map AddCost [runtime_cost_of 6, runtime_cost_of 5]) (Limited (tracker_data_new (runtime_cost_of 10)))) \<noteq> Inr ()"
proof -
  have "within_limits (Limited (tracker_data_new (runtime_cost_of 10)))"
    by (simp add: within_limits_def tracker_data_new_def runtime_cost_of_def ZERO_COST_def exceeds_def)
  from costs_accepted_iff_sum_fits [OF this, of "[runtime_cost_of 6, runtime_cost_of 5]"] show ?thesis
    by (simp add: dims_def tracker_data_new_def runtime_cost_of_def ZERO_COST_def)
qed

end
