(* ===== verification/GlobalContexts.thy ===== *)
theory GlobalContexts
  imports AssetMaps STXSnapshots CostTrackers
begin

text \<open>
  The context of an executing transaction (\<open>GlobalContext\<close> and its callers in
  \<open>clarity/src/vm/contexts.rs\<close>, the events of \<open>clarity/src/vm/events.rs\<close>): the stacks of asset
  maps, event batches, read-only flags and database contexts that are pushed together when a call
  begins and popped together when it commits or rolls back. The first element of a list is the top
  of the stack. Hooks and the resource limiter are left out.

  The lemmas show that the four stacks move in step, that a call that fails leaves no trace, and
  what a call that succeeds hands to its caller.
\<close>

section \<open>Events\<close>

datatype STXEventType =
    STXTransferEvent PrincipalData PrincipalData u128 "u8 list"
  | STXMintEvent PrincipalData u128
  | STXBurnEvent PrincipalData u128
  | STXLockEvent u128 u64 PrincipalData QualifiedContractIdentifier

datatype NFTEventType =
    NFTTransferEvent AssetIdentifier PrincipalData PrincipalData Value
  | NFTMintEvent AssetIdentifier PrincipalData Value
  | NFTBurnEvent AssetIdentifier PrincipalData Value

datatype FTEventType =
    FTTransferEvent AssetIdentifier PrincipalData PrincipalData u128
  | FTMintEvent AssetIdentifier PrincipalData u128
  | FTBurnEvent AssetIdentifier PrincipalData u128

datatype StacksTransactionEvent =
    SmartContractEvent "QualifiedContractIdentifier \<times> string" Value
  | STXEvent STXEventType
  | NFTEvent NFTEventType
  | FTEvent FTEventType

definition MAX_EVENTS_BATCH :: u64 where
  "MAX_EVENTS_BATCH = 50 * 1024 * 1024"

section \<open>The context\<close>

record 's GlobalContext =
  asset_maps :: "AssetMap list"
  event_batches :: "(StacksTransactionEvent list \<times> u64) list"
  database :: "'s ClarityDatabase"
  read_only :: "bool list"
  cost_track :: LimitedCostTracker
  gc_mainnet :: bool
  gc_epoch :: StacksEpochId
  gc_chain_id :: u32

type_synonym ('s, 'a) context_method = "('s GlobalContext, VmExecutionError, 'a) meth"

definition global_context_new ::
  "bool \<Rightarrow> u32 \<Rightarrow> 's ClarityDatabase \<Rightarrow> LimitedCostTracker \<Rightarrow> StacksEpochId \<Rightarrow> 's GlobalContext" where
  "global_context_new mainnet chain_id db tracker epoch =
     \<lparr>asset_maps = [], event_batches = [], database = db, read_only = [], cost_track = tracker,
      gc_mainnet = mainnet, gc_epoch = epoch, gc_chain_id = chain_id\<rparr>"

definition is_top_level :: "'s GlobalContext \<Rightarrow> bool" where
  "is_top_level self \<longleftrightarrow> asset_maps self = []"

fun asset_map_error :: "AssetMapError \<Rightarrow> VmExecutionError" where
  "asset_map_error AmountOverflow = Runtime ArithmeticOverflow"
| "asset_map_error BurnTotalOverflow = expect_err ''BURN OVERFLOW''"
| "asset_map_error StackingEntryConflict = RuntimeCheck PoxStxAssetMapOverwrite"

text \<open>\<open>self.get_asset_map()?.m().map_err(Into::into)\<close>: a method of the top asset map.\<close>

definition on_asset_map :: "'a recording \<Rightarrow> ('s, 'a) context_method" where
  "on_asset_map m = (\<lambda>self.
     case asset_maps self of
       [] \<Rightarrow> (Inl (expect_err ''Failed to obtain asset map''), self)
     | am # rest \<Rightarrow>
         (case m am of (r, am') \<Rightarrow> (map_err asset_map_error r, self\<lparr>asset_maps := am' # rest\<rparr>)))"

definition get_readonly_asset_map :: "('s, AssetMap) context_method" where
  "get_readonly_asset_map = (\<lambda>self.
     case asset_maps self of
       [] \<Rightarrow> (Inl (expect_err ''Failed to obtain asset map''), self)
     | am # rest \<Rightarrow> (Inr am, self))"

definition log_asset_transfer ::
  "PrincipalData \<Rightarrow> QualifiedContractIdentifier \<Rightarrow> string \<Rightarrow> Value \<Rightarrow> ('s, unit) context_method" where
  "log_asset_transfer sender contract name transferred =
     on_asset_map (smodify (add_asset_transfer sender
       \<lparr>contract_identifier = contract, asset_name = name\<rparr> transferred))"

definition log_token_transfer ::
  "PrincipalData \<Rightarrow> QualifiedContractIdentifier \<Rightarrow> string \<Rightarrow> u128 \<Rightarrow> ('s, unit) context_method" where
  "log_token_transfer sender contract name transferred =
     on_asset_map (add_token_transfer sender \<lparr>contract_identifier = contract, asset_name = name\<rparr> transferred)"

definition log_stx_transfer :: "PrincipalData \<Rightarrow> u128 \<Rightarrow> ('s, unit) context_method" where
  "log_stx_transfer sender transferred = on_asset_map (add_stx_transfer sender transferred)"

definition log_stx_burn :: "PrincipalData \<Rightarrow> u128 \<Rightarrow> ('s, unit) context_method" where
  "log_stx_burn sender transferred = on_asset_map (add_stx_burn sender transferred)"

definition log_stacking :: "PrincipalData \<Rightarrow> u128 \<Rightarrow> ('s, unit) context_method" where
  "log_stacking sender amount =
     sbind (sget gc_epoch) (\<lambda>epoch. on_asset_map (add_stacking sender amount epoch))"

definition log_pox_action :: "PrincipalData \<Rightarrow> ('s, unit) context_method" where
  "log_pox_action sender = on_asset_map (smodify (add_pox_action sender))"

definition is_read_only :: "'s GlobalContext \<Rightarrow> bool" where
  "is_read_only self \<longleftrightarrow> (case read_only self of [] \<Rightarrow> False | r # _ \<Rightarrow> r)"

definition push_frame :: "bool \<Rightarrow> 's GlobalContext \<Rightarrow> 's GlobalContext" where
  "push_frame ro self =
     (let total_size = (case event_batches self of [] \<Rightarrow> 0 | (_, n) # _ \<Rightarrow> n)
      in self\<lparr>asset_maps := new_asset_map # asset_maps self,
              event_batches := ([], total_size) # event_batches self,
              database := db_begin (database self),
              read_only := ro # read_only self\<rparr>)"

definition gc_begin :: "'s GlobalContext \<Rightarrow> 's GlobalContext" where
  "gc_begin self = push_frame (is_read_only self) self"

definition gc_begin_read_only :: "'s GlobalContext \<Rightarrow> 's GlobalContext" where
  "gc_begin_read_only self = push_frame True self"

definition on_database ::
  "('s ClarityDatabase, VmExecutionError, 'a) meth \<Rightarrow> ('s, 'a) context_method" where
  "on_database m = zoom database database_update m"

definition not_nested :: VmExecutionError where
  "not_nested = expect_err ''ERROR: Committed non-nested context.''"

text \<open>\<open>self.xs.pop()\<close>, with the error for an empty stack.\<close>

definition pop_or ::
  "VmExecutionError \<Rightarrow> ('s GlobalContext \<Rightarrow> 'x list) \<Rightarrow> (('x list \<Rightarrow> 'x list) \<Rightarrow> 's GlobalContext \<Rightarrow> 's GlobalContext)
   \<Rightarrow> ('s, 'x) context_method" where
  "pop_or e get upd = (\<lambda>self.
     case get self of [] \<Rightarrow> (Inl e, self) | x # xs \<Rightarrow> (Inr x, upd (\<lambda>_. xs) self))"

text \<open>The merge into the asset map below, or the map itself when there is none.\<close>

definition merge_asset_map :: "AssetMap \<Rightarrow> ('s, AssetMap option) context_method" where
  "merge_asset_map am = (\<lambda>self.
     case asset_maps self of
       [] \<Rightarrow> (Inr (Some am), self)
     | tail_back # rest \<Rightarrow>
         (case commit_other am (gc_epoch self) tail_back of
            (Inl e, tail_back') \<Rightarrow>
              (let self' = self\<lparr>asset_maps := tail_back' # rest\<rparr>
               in case on_database db_roll_back self' of
                    (Inl e', self'') \<Rightarrow> (Inl e', self'')
                  | (Inr _, self'') \<Rightarrow> (Inl (asset_map_error e), self''))
          | (Inr _, tail_back') \<Rightarrow> (Inr None, self\<lparr>asset_maps := tail_back' # rest\<rparr>)))"

definition merge_events ::
  "StacksTransactionEvent list \<times> u64 \<Rightarrow> ('s, StacksTransactionEvent list option) context_method" where
  "merge_events batch = (\<lambda>self.
     case event_batches self of
       [] \<Rightarrow> (Inr (Some (fst batch)), self)
     | (tail_back, _) # rest \<Rightarrow>
         (Inr None, self\<lparr>event_batches := (tail_back @ fst batch, snd batch) # rest\<rparr>))"

definition gc_commit ::
  "'s ClarityBackingStore \<Rightarrow> ('s, AssetMap option \<times> StacksTransactionEvent list option) context_method" where
  "gc_commit ops =
     sthen (smodify (read_only_update tl))
     (sbind (pop_or not_nested asset_maps asset_maps_update) (\<lambda>am.
      sbind (pop_or not_nested event_batches event_batches_update) (\<lambda>batch.
      sbind (merge_asset_map am) (\<lambda>out_map.
      sbind (merge_events batch) (\<lambda>out_batch.
      sthen (on_database (db_commit ops)) (sret (out_map, out_batch)))))))"

definition gc_roll_back :: "('s, unit) context_method" where
  "gc_roll_back =
     sthen (pop_or (expect_err ''Expected entry to rollback'') asset_maps asset_maps_update)
     (sthen (pop_or (expect_err ''Expected entry to rollback'') read_only read_only_update)
     (sthen (pop_or (expect_err ''Expected entry to rollback'') event_batches event_batches_update)
      (on_database db_roll_back)))"

text \<open>
  \<open>begin\<close>, a body, then \<open>commit\<close> or \<open>roll_back\<close>: \<open>GlobalContext::execute\<close> and
  \<open>ExecutionState::run_as_transaction\<close>.
\<close>

definition execute :: "'s ClarityBackingStore \<Rightarrow> ('s, 'a) context_method \<Rightarrow> ('s, 'a) context_method" where
  "execute ops f = (\<lambda>self.
     case f (gc_begin self) of
       (Inl e, s) \<Rightarrow> (case gc_roll_back s of (Inl e', s') \<Rightarrow> (Inl e', s') | (Inr _, s') \<Rightarrow> (Inl e, s'))
     | (Inr x, s) \<Rightarrow> sthen (gc_commit ops) (sret x) s)"

definition execute_read_only :: "('s, 'a) context_method \<Rightarrow> ('s, 'a) context_method" where
  "execute_read_only f = (\<lambda>self.
     case f (gc_begin self) of
       (r, s) \<Rightarrow> (case gc_roll_back s of (Inl e', s') \<Rightarrow> (Inl e', s') | (Inr _, s') \<Rightarrow> (r, s')))"

definition destruct :: "'s GlobalContext \<Rightarrow> ('s ClarityDatabase \<times> LimitedCostTracker) option" where
  "destruct self = (if is_top_level self then Some (database self, cost_track self) else None)"

section \<open>Registering events\<close>

text \<open>The argument \<open>show_error\<close> is the text of an error in a message.\<close>

definition push_to_event_batch ::
  "(ClarityTypeError \<Rightarrow> string) \<Rightarrow> StacksTransactionEvent \<Rightarrow> ('s, unit) context_method" where
  "push_to_event_batch show_error event =
     sbind (slift (case event of
       SmartContractEvent _ v \<Rightarrow>
         map_err (\<lambda>e. expect_err (''Could not calculate event size: '' @ show_error e)) (value_size v)
     | _ \<Rightarrow> Inr 0)) (\<lambda>n self.
       case event_batches self of
         [] \<Rightarrow> (Inr (), self)
       | (batch, total_size) # rest \<Rightarrow>
           (let total_size = saturating_add total_size (ucast n)
            in (if total_size \<ge> MAX_EVENTS_BATCH
                then Inl (expect_err ''Event batch grew too large during execution'') else Inr (),
                self\<lparr>event_batches := (batch @ [event], total_size) # rest\<rparr>)))"

definition register_print_event ::
  "(ClarityTypeError \<Rightarrow> string) \<Rightarrow> QualifiedContractIdentifier \<Rightarrow> Value \<Rightarrow> ('s, unit) context_method" where
  "register_print_event show_error contract v =
     push_to_event_batch show_error (SmartContractEvent (contract, ''print'') v)"

definition register_stx_transfer_event ::
  "(ClarityTypeError \<Rightarrow> string) \<Rightarrow> PrincipalData \<Rightarrow> PrincipalData \<Rightarrow> u128 \<Rightarrow> u8 list \<Rightarrow> ('s, unit) context_method" where
  "register_stx_transfer_event show_error sender recipient amount memo =
     push_to_event_batch show_error (STXEvent (STXTransferEvent sender recipient amount memo))"

definition register_stx_burn_event ::
  "(ClarityTypeError \<Rightarrow> string) \<Rightarrow> PrincipalData \<Rightarrow> u128 \<Rightarrow> ('s, unit) context_method" where
  "register_stx_burn_event show_error sender amount =
     push_to_event_batch show_error (STXEvent (STXBurnEvent sender amount))"

definition register_nft_transfer_event ::
  "(ClarityTypeError \<Rightarrow> string) \<Rightarrow> PrincipalData \<Rightarrow> PrincipalData \<Rightarrow> Value \<Rightarrow> AssetIdentifier \<Rightarrow> ('s, unit) context_method" where
  "register_nft_transfer_event show_error sender recipient v asset =
     push_to_event_batch show_error (NFTEvent (NFTTransferEvent asset sender recipient v))"

definition register_nft_mint_event ::
  "(ClarityTypeError \<Rightarrow> string) \<Rightarrow> PrincipalData \<Rightarrow> Value \<Rightarrow> AssetIdentifier \<Rightarrow> ('s, unit) context_method" where
  "register_nft_mint_event show_error recipient v asset =
     push_to_event_batch show_error (NFTEvent (NFTMintEvent asset recipient v))"

definition register_nft_burn_event ::
  "(ClarityTypeError \<Rightarrow> string) \<Rightarrow> PrincipalData \<Rightarrow> Value \<Rightarrow> AssetIdentifier \<Rightarrow> ('s, unit) context_method" where
  "register_nft_burn_event show_error sender v asset =
     push_to_event_batch show_error (NFTEvent (NFTBurnEvent asset sender v))"

definition register_ft_transfer_event ::
  "(ClarityTypeError \<Rightarrow> string) \<Rightarrow> PrincipalData \<Rightarrow> PrincipalData \<Rightarrow> u128 \<Rightarrow> AssetIdentifier \<Rightarrow> ('s, unit) context_method" where
  "register_ft_transfer_event show_error sender recipient amount asset =
     push_to_event_batch show_error (FTEvent (FTTransferEvent asset sender recipient amount))"

definition register_ft_mint_event ::
  "(ClarityTypeError \<Rightarrow> string) \<Rightarrow> PrincipalData \<Rightarrow> u128 \<Rightarrow> AssetIdentifier \<Rightarrow> ('s, unit) context_method" where
  "register_ft_mint_event show_error recipient amount asset =
     push_to_event_batch show_error (FTEvent (FTMintEvent asset recipient amount))"

definition register_ft_burn_event ::
  "(ClarityTypeError \<Rightarrow> string) \<Rightarrow> PrincipalData \<Rightarrow> u128 \<Rightarrow> AssetIdentifier \<Rightarrow> ('s, unit) context_method" where
  "register_ft_burn_event show_error sender amount asset =
     push_to_event_batch show_error (FTEvent (FTBurnEvent asset sender amount))"

definition gc_add_memory :: "u64 \<Rightarrow> ('s, unit) context_method" where
  "gc_add_memory memory = (\<lambda>self.
     case tracker_add_memory memory (cost_track self) of
       (r, t) \<Rightarrow> (map_err vm_error_of_cost_error r, self\<lparr>cost_track := t\<rparr>))"

section \<open>The stacks in step\<close>

text \<open>
  \<open>stands data valid gc ams bs ros v vs\<close>: the stacks of the context, and what readers of the
  database see with the snapshots below.
\<close>

definition stands ::
  "('s \<Rightarrow> string \<rightharpoonup> string) \<Rightarrow> ('s \<Rightarrow> bool) \<Rightarrow> 's GlobalContext \<Rightarrow> AssetMap list
   \<Rightarrow> (StacksTransactionEvent list \<times> u64) list \<Rightarrow> bool list
   \<Rightarrow> (string \<rightharpoonup> string) \<Rightarrow> (string \<rightharpoonup> string) list \<Rightarrow> bool" where
  "stands data valid gc ams bs ros v vs \<longleftrightarrow>
     asset_maps gc = ams \<and> event_batches gc = bs \<and> read_only gc = ros \<and> sees data valid (database gc) v vs"

definition same_setting :: "'s GlobalContext \<Rightarrow> 's GlobalContext \<Rightarrow> bool" where
  "same_setting gc gc' \<longleftrightarrow> gc_epoch gc' = gc_epoch gc \<and> same_chain (database gc) (database gc')"

lemma same_setting_refl [simp]: "same_setting gc gc"
  by (simp add: same_setting_def)

lemma same_setting_trans: "same_setting a b \<Longrightarrow> same_setting b c \<Longrightarrow> same_setting a c"
  by (auto simp: same_setting_def intro: same_chain_trans)

lemma db_commit_sees:
  assumes "sees data valid db v (u # w # vs)"
  shows "\<exists>db'. db_commit ops db = (Inr (), db') \<and> sees data valid db' v (w # vs) \<and> same_chain db db'"
proof -
  from assms obtain l ls where db: "log_rel (db_store db) (l # ls)"
      "v # u # w # vs = snapshots (data (store (db_store db))) (l # ls)"
      "valid (store (db_store db))" "query_pending_data (db_store db)"
    by (auto simp: sees_def)
  then obtain l' ls' where ls: "ls = l' # ls'" by (cases ls) auto
  obtain w' where "rw_commit ops (db_store db) = (Inr (), w')"
      "log_rel w' ((fst l' @ fst l, snd l' @ snd l) # ls')"
      "store w' = store (db_store db)" "query_pending_data w' = query_pending_data (db_store db)"
    using log_rel_commit_nested [of "db_store db" l l' ls' ops] db(1) ls by auto
  moreover from this db ls have "sees data valid (db\<lparr>db_store := w'\<rparr>) v (w # vs)"
    unfolding sees_def by (intro exI [of _ "(fst l' @ fst l, snd l' @ snd l)"] exI [of _ ls']) simp
  ultimately show ?thesis
    by (auto simp: db_commit_def on_store_def run_simps same_chain_def)
qed

lemma same_chain_begin: "same_chain db (db_begin db)"
  by (simp add: same_chain_def db_begin_def)

lemma gc_begin_stands:
  "stands data valid gc ams bs ros v vs \<Longrightarrow>
     stands data valid (gc_begin gc) (new_asset_map # ams) (([], case bs of [] \<Rightarrow> 0 | (_, n) # _ \<Rightarrow> n) # bs)
       ((case ros of [] \<Rightarrow> False | r # _ \<Rightarrow> r) # ros) v (v # vs) \<and> same_setting gc (gc_begin gc)"
  by (auto simp: stands_def gc_begin_def push_frame_def Let_def is_read_only_def db_begin_sees same_setting_def
      same_chain_begin)

lemma pop_or_run [simp]:
  "get self = x # xs \<Longrightarrow> pop_or e get upd self = (Inr x, upd (\<lambda>_. xs) self)"
  "get self = [] \<Longrightarrow> pop_or e get upd self = (Inl e, self)"
  by (simp_all add: pop_or_def)

lemma gc_roll_back_stands:
  assumes "stands data valid gc (a # ams) (b # bs) (r # ros) v (u # w # vs)"
  shows "\<exists>gc'. gc_roll_back gc = (Inr (), gc') \<and> stands data valid gc' ams bs ros u (w # vs) \<and>
    same_setting gc gc' \<and> cost_track gc' = cost_track gc"
proof -
  from assms have s: "sees data valid (database gc) v (u # w # vs)" by (simp add: stands_def)
  from db_roll_back_sees [OF s] obtain db' where "db_roll_back (database gc) = (Inr (), db')"
    "sees data valid db' u (w # vs)" "same_chain (database gc) db'" by blast
  with assms show ?thesis
    by (auto simp: gc_roll_back_def stands_def on_database_def run_simps same_setting_def)
qed

lemma gc_commit_stands:
  assumes "stands data valid gc (a # p # ams) ((evs, n) # (evs0, n0) # bs) (r # ros) v (u # w # vs)"
  shows "case commit_other a (gc_epoch gc) p of
      (Inr _, p') \<Rightarrow> \<exists>gc'. gc_commit ops gc = (Inr (None, None), gc') \<and>
        stands data valid gc' (p' # ams) ((evs0 @ evs, n) # bs) ros v (w # vs) \<and>
        same_setting gc gc' \<and> cost_track gc' = cost_track gc
    | (Inl e, p') \<Rightarrow> \<exists>gc'. gc_commit ops gc = (Inl (asset_map_error e), gc') \<and>
        stands data valid gc' (p' # ams) ((evs0, n0) # bs) ros u (w # vs) \<and>
        same_setting gc gc' \<and> cost_track gc' = cost_track gc"
proof -
  from assms have s: "sees data valid (database gc) v (u # w # vs)" by (simp add: stands_def)
  from db_roll_back_sees [OF s] obtain db1 where r: "db_roll_back (database gc) = (Inr (), db1)"
    "sees data valid db1 u (w # vs)" "same_chain (database gc) db1" by blast
  from db_commit_sees [OF s, of ops] obtain db2 where c: "db_commit ops (database gc) = (Inr (), db2)"
    "sees data valid db2 v (w # vs)" "same_chain (database gc) db2" by blast
  obtain x p' where m: "commit_other a (gc_epoch gc) p = (x, p')" by fastforce
  show ?thesis
  proof (cases x)
    case (Inl e)
    with assms r m show ?thesis
      by (auto simp: gc_commit_def merge_asset_map_def stands_def on_database_def run_simps same_setting_def Let_def)
  next
    case (Inr y)
    with assms c m show ?thesis
      by (auto simp: gc_commit_def merge_asset_map_def merge_events_def stands_def on_database_def run_simps same_setting_def)
  qed
qed

section \<open>Calls\<close>

text \<open>
  \<open>confined data valid f\<close>: the body of a call works on the frame at the top of the stacks and
  leaves the frames below as they are.
\<close>

definition confined ::
  "('s \<Rightarrow> string \<rightharpoonup> string) \<Rightarrow> ('s \<Rightarrow> bool) \<Rightarrow> ('s, 'a) context_method \<Rightarrow> bool" where
  "confined data valid f \<longleftrightarrow>
     (\<forall>gc a ams evs n bs ro ros v vs. wf_asset_map a \<longrightarrow>
        stands data valid gc (a # ams) ((evs, n) # bs) (ro # ros) v vs \<longrightarrow>
        (\<exists>r gc' a' evs' n' v'. f gc = (r, gc') \<and> wf_asset_map a' \<and>
           stands data valid gc' (a' # ams) ((evs', n') # bs) (ro # ros) v' vs \<and> same_setting gc gc'))"

lemma confinedE:
  assumes "confined data valid f" "wf_asset_map a" "stands data valid gc (a # ams) ((evs, n) # bs) (ro # ros) v vs"
  obtains r gc' a' evs' n' v' where "f gc = (r, gc')" "wf_asset_map a'"
    "stands data valid gc' (a' # ams) ((evs', n') # bs) (ro # ros) v' vs" "same_setting gc gc'"
proof -
  from assms(1) [unfolded confined_def, rule_format, OF assms(2,3)] show thesis using that by auto
qed

lemma sees_older: "sees data valid db v vs \<Longrightarrow> \<exists>w ws. vs = w # ws"
  by (auto simp: sees_def) (metis neq_Nil_conv snapshots.simps(1) list.distinct(1) list.exhaust snapshots.simps(2))

lemma wf_new_asset_map [simp]: "wf_asset_map new_asset_map"
  by (simp add: new_asset_map_def wf_asset_map_def)

text \<open>
  One call, from the state \<open>s\<close> its body ends in: the body's error with everything below kept, an error
  of the merge with everything below kept, or the merge with the frame the body left.
\<close>

lemma execute_outcome:
  assumes gc: "stands data valid gc (p # ams) ((evs0, n0) # bs) (ro # ros) v vs" and wf: "wf_asset_map p" "wf_asset_map child"
    and body: "f (gc_begin gc) = (r, s)" "same_setting gc s"
      "stands data valid s (child # p # ams) ((evs, n) # (evs0, n0) # bs) (ro # ro # ros) v' (v # vs)"
  shows "\<exists>r' gc'. execute ops f gc = (r', gc') \<and> same_setting gc gc' \<and>
    (if isl r \<or> \<not> mergeable (gc_epoch gc) p child
     then isl r' \<and> (isl r \<longrightarrow> r' = r) \<and> stands data valid gc' (p # ams) ((evs0, n0) # bs) (ro # ros) v vs
     else r' = r \<and> (\<exists>p'. merged p child p' \<and> wf_asset_map p' \<and>
       stands data valid gc' (p' # ams) ((evs0 @ evs, n) # bs) (ro # ros) v' vs))"
proof -
  obtain w ws where vs: "vs = w # ws" using gc sees_older by (metis stands_def)
  show ?thesis
  proof (cases r)
    case (Inl e)
    obtain gc' where "gc_roll_back s = (Inr (), gc')"
      "stands data valid gc' (p # ams) ((evs0, n0) # bs) (ro # ros) v (w # ws)" "same_setting s gc'"
      using gc_roll_back_stands body(3) vs by metis
    then show ?thesis using body(1,2) Inl vs by (auto simp: execute_def intro: same_setting_trans)
  next
    case (Inr x)
    have epoch: "gc_epoch s = gc_epoch gc" using body(2) by (simp add: same_setting_def)
    note merge = commit_other_merges [OF wf, of "gc_epoch s"] gc_commit_stands [OF body(3) [unfolded vs], of ops]
    obtain y p' where m: "commit_other child (gc_epoch s) p = (y, p')" by fastforce
    show ?thesis
    proof (cases y)
      case e: (Inl e)
      with m merge vs obtain gc' where "gc_commit ops s = (Inl (asset_map_error e), gc')" "\<not> mergeable (gc_epoch s) p child"
        "stands data valid gc' (p # ams) ((evs0, n0) # bs) (ro # ros) v vs" "same_setting s gc'" by auto
      then show ?thesis using body(1,2) Inr epoch by (auto simp: execute_def run_simps intro: same_setting_trans)
    next
      case u: (Inr u)
      with m merge vs obtain gc' where "gc_commit ops s = (Inr (None, None), gc')" "merged p child p'" "wf_asset_map p'"
        "stands data valid gc' (p' # ams) ((evs0 @ evs, n) # bs) (ro # ros) v' vs" "same_setting s gc'"
        "mergeable (gc_epoch s) p child" by auto
      then show ?thesis using body(1,2) Inr epoch by (auto simp: execute_def run_simps intro: same_setting_trans)
    qed
  qed
qed

lemma execute_stands:
  assumes f: "confined data valid f" and wf: "wf_asset_map p"
    and gc: "stands data valid gc (p # ams) ((evs0, n0) # bs) (ro # ros) v vs"
  obtains (kept) e gc' where "execute ops f gc = (Inl e, gc')"
      "stands data valid gc' (p # ams) ((evs0, n0) # bs) (ro # ros) v vs" "same_setting gc gc'"
  | (committed) x gc' s child_map evs n v' p' where "execute ops f gc = (Inr x, gc')"
      "f (gc_begin gc) = (Inr x, s)"
      "stands data valid s (child_map # p # ams) ((evs, n) # (evs0, n0) # bs) (ro # ro # ros) v' (v # vs)"
      "wf_asset_map child_map" "merged p child_map p'" "wf_asset_map p'"
      "stands data valid gc' (p' # ams) ((evs0 @ evs, n) # bs) (ro # ros) v' vs" "same_setting gc gc'"
      "mergeable (gc_epoch gc) p child_map"
proof -
  have "stands data valid (gc_begin gc) (new_asset_map # p # ams) (([], n0) # (evs0, n0) # bs) (ro # ro # ros) v (v # vs)"
    and b: "same_setting gc (gc_begin gc)"
    using gc_begin_stands [OF gc] by simp_all
  from confinedE [OF f wf_new_asset_map this(1)] obtain r s child evs n v' where s: "f (gc_begin gc) = (r, s)" "wf_asset_map child"
    "stands data valid s (child # p # ams) ((evs, n) # (evs0, n0) # bs) (ro # ro # ros) v' (v # vs)" "same_setting (gc_begin gc) s" .
  from execute_outcome [where f = f, OF gc wf s(2,1) same_setting_trans [OF b s(4)] s(3), of ops] s kept committed show thesis
    by (cases r) (auto simp: isl_def split: if_splits)
qed

lemma execute_confined:
  assumes "confined data valid f"
  shows "confined data valid (execute ops f)"
  unfolding confined_def
proof (intro allI impI)
  fix gc a ams evs n bs ro ros v vs
  assume wf: "wf_asset_map a" and gc: "stands data valid gc (a # ams) ((evs, n) # bs) (ro # ros) v vs"
  from assms wf gc show "\<exists>r gc' a' evs' n' v'. execute ops f gc = (r, gc') \<and> wf_asset_map a' \<and>
      stands data valid gc' (a' # ams) ((evs', n') # bs) (ro # ros) v' vs \<and> same_setting gc gc'"
  proof (cases rule: execute_stands [where ops = ops])
    case kept
    then show ?thesis using wf by blast
  next
    case committed
    then show ?thesis by blast
  qed
qed

text \<open>Composition of confined bodies.\<close>

lemma confined_sret: "confined data valid (sret x)"
  unfolding confined_def by (auto simp: sret_def)

lemma confined_sfail: "confined data valid (sfail e)"
  unfolding confined_def by (auto simp: sfail_def)

lemma confined_sbind:
  assumes "confined data valid m" "\<And>x. confined data valid (k x)"
  shows "confined data valid (sbind m k)"
  unfolding confined_def
proof (intro allI impI)
  fix gc a ams evs n bs ro ros v vs
  assume "wf_asset_map a" and "stands data valid gc (a # ams) ((evs, n) # bs) (ro # ros) v vs"
  from confinedE [OF assms(1) this] obtain r gc1 a1 evs1 n1 v1 where m: "m gc = (r, gc1)" "wf_asset_map a1"
    "stands data valid gc1 (a1 # ams) ((evs1, n1) # bs) (ro # ros) v1 vs" "same_setting gc gc1" .
  show "\<exists>r gc' a' evs' n' v'. sbind m k gc = (r, gc') \<and> wf_asset_map a' \<and>
      stands data valid gc' (a' # ams) ((evs', n') # bs) (ro # ros) v' vs \<and> same_setting gc gc'"
  proof (cases r)
    case (Inl e)
    then have "sbind m k gc = (Inl e, gc1)" using m(1) by (simp add: sbind_def)
    with m show ?thesis by blast
  next
    case (Inr x)
    from confinedE [OF assms(2) [of x] m(2,3)] obtain r2 gc2 a2 evs2 n2 v2 where k: "k x gc1 = (r2, gc2)" "wf_asset_map a2"
      "stands data valid gc2 (a2 # ams) ((evs2, n2) # bs) (ro # ros) v2 vs" "same_setting gc1 gc2" .
    have "sbind m k gc = (r2, gc2)" using m(1) k(1) Inr by (simp add: sbind_def)
    with k same_setting_trans [OF m(4) k(4)] show ?thesis by blast
  qed
qed

lemma confined_sthen: "confined data valid m \<Longrightarrow> confined data valid k \<Longrightarrow> confined data valid (sthen m k)"
  unfolding sthen_def by (rule confined_sbind)

lemma confined_log_stx_transfer: "confined data valid (log_stx_transfer p amount)"
  unfolding confined_def
proof (intro allI impI)
  fix gc a ams evs n bs ro ros v vs
  assume wf: "wf_asset_map a" and gc: "stands data valid gc (a # ams) ((evs, n) # bs) (ro # ros) v vs"
  obtain r a' where r: "add_stx_transfer p amount a = (r, a')" by fastforce
  then have "wf_asset_map a'" using wf
    by (auto simp: add_stx_transfer_def wf_asset_map_def split: sum.splits)
  with gc r show "\<exists>r gc' a' evs' n' v'. log_stx_transfer p amount gc = (r, gc') \<and> wf_asset_map a' \<and>
      stands data valid gc' (a' # ams) ((evs', n') # bs) (ro # ros) v' vs \<and> same_setting gc gc'"
    by (auto simp: log_stx_transfer_def on_asset_map_def stands_def same_setting_def)
qed

lemma confined_push_event: "confined data valid (push_to_event_batch show_error event)"
  unfolding confined_def
proof (intro allI impI)
  fix gc a ams evs n bs ro ros v vs
  assume wf: "wf_asset_map a" and gc: "stands data valid gc (a # ams) ((evs, n) # bs) (ro # ros) v vs"
  show "\<exists>r gc' a' evs' n' v'. push_to_event_batch show_error event gc = (r, gc') \<and> wf_asset_map a' \<and>
      stands data valid gc' (a' # ams) ((evs', n') # bs) (ro # ros) v' vs \<and> same_setting gc gc'"
    using wf gc by (auto simp: push_to_event_batch_def sbind_def slift_def stands_def same_setting_def Let_def split: sum.splits)
qed

lemma confined_add_memory: "confined data valid (gc_add_memory m)"
  unfolding confined_def
  by (auto simp: gc_add_memory_def stands_def same_setting_def split: prod.splits)

text \<open>Methods of the database that leave the older snapshots as they are.\<close>

definition keeps_below ::
  "('s \<Rightarrow> string \<rightharpoonup> string) \<Rightarrow> ('s \<Rightarrow> bool) \<Rightarrow> ('t \<Rightarrow> 's ClarityDatabase) \<Rightarrow> ('t, 'e, 'a) meth \<Rightarrow> bool" where
  "keeps_below data valid get m \<longleftrightarrow>
     (\<forall>s v vs. sees data valid (get s) v vs \<longrightarrow>
        (\<exists>v'. sees data valid (get (snd (m s))) v' vs) \<and> same_chain (get s) (get (snd (m s))))"

lemma keeps_below_sbind:
  assumes "keeps_below data valid get m" "\<And>x. keeps_below data valid get (k x)"
  shows "keeps_below data valid get (sbind m k)"
  unfolding keeps_below_def
proof (intro allI impI)
  fix s v vs
  assume "sees data valid (get s) v vs"
  with assms(1) obtain v1 where m: "sees data valid (get (snd (m s))) v1 vs" "same_chain (get s) (get (snd (m s)))"
    unfolding keeps_below_def by blast
  obtain r t where rt: "m s = (r, t)" by fastforce
  show "(\<exists>v'. sees data valid (get (snd (sbind m k s))) v' vs) \<and> same_chain (get s) (get (snd (sbind m k s)))"
  proof (cases r)
    case (Inl e)
    then have "snd (sbind m k s) = t" using rt by (simp add: sbind_def)
    with m rt show ?thesis by auto
  next
    case (Inr x)
    then have "snd (sbind m k s) = snd (k x t)" using rt by (simp add: sbind_def)
    moreover have "(\<exists>v'. sees data valid (get (snd (k x t))) v' vs) \<and> same_chain (get t) (get (snd (k x t)))"
      using assms(2) [of x] m(1) rt unfolding keeps_below_def by auto
    ultimately show ?thesis using m(2) rt by (auto intro: same_chain_trans)
  qed
qed

lemma keeps_below_pure:
  "keeps_below data valid get (sret x)" "keeps_below data valid get (sfail e)"
  "keeps_below data valid get (sget g)" "keeps_below data valid get (slift r)"
  by (auto simp: keeps_below_def sret_def sfail_def sget_def slift_def)

lemma keeps_below_if:
  "(b \<Longrightarrow> keeps_below data valid get m) \<Longrightarrow> (\<not> b \<Longrightarrow> keeps_below data valid get k) \<Longrightarrow>
     keeps_below data valid get (if b then m else k)"
  by simp

lemma reads_keeps_below:
  assumes "reads data valid m f"
  shows "keeps_below data valid (\<lambda>db. db) m"
  unfolding keeps_below_def
proof (intro allI impI)
  fix db v vs assume "sees data valid db v vs"
  from readsE [OF assms this] obtain db' where "m db = (f (burn_state_db db) v, db')" "sees data valid db' v vs"
    "same_chain db db'" .
  then show "(\<exists>v'. sees data valid (snd (m db)) v' vs) \<and> same_chain db (snd (m db))" by auto
qed

lemma keeps_below_put: "keeps_below data valid (\<lambda>db. db) (put_data ser k x)"
  unfolding keeps_below_def
proof (intro allI impI)
  fix db v vs assume "sees data valid db v vs"
  from db_put_data_sees [OF this, of ser k x] show "(\<exists>v'. sees data valid (snd (put_data ser k x db)) v' vs) \<and>
      same_chain db (snd (put_data ser k x db))" by auto
qed

lemma keeps_below_on_db: "keeps_below data valid (\<lambda>db. db) m \<Longrightarrow> keeps_below data valid db_ref (on_db m)"
  by (auto simp: keeps_below_def on_db_def zoom_def split: prod.splits) (metis snd_conv)+

lemma acts_keeps_below:
  assumes "acts data valid m f"
  shows "keeps_below data valid db_ref m"
  unfolding keeps_below_def
proof (intro allI impI)
  fix s :: "'a STXBalanceSnapshot" and v vs assume "sees data valid (db_ref s) v vs"
  from actsE [OF assms this] obtain r b db' where "m s = (r, s\<lparr>balance := b, db_ref := db'\<rparr>)"
    "sees data valid db' v vs" "same_chain (db_ref s) db'" by metis
  then show "(\<exists>v'. sees data valid (db_ref (snd (m s))) v' vs) \<and> same_chain (db_ref s) (db_ref (snd (m s)))" by auto
qed

text \<open>A context in one transaction on the database with one funded account.\<close>

definition demo_context :: "SideStore GlobalContext" where
  "demo_context = gc_begin (global_context_new False 1
     (as_clarity_db (\<lambda>_. []) \<lparr>data_table = demo_view, metadata_table = Map.empty\<rparr>) new_free Epoch40)"

lemma demo_stands: "stands data_table (\<lambda>_. True) demo_context [new_asset_map] [([], 0)] [False] demo_view [demo_view]"
  using demo_sees unfolding demo_db_def
  by (simp add: demo_context_def gc_begin_def push_frame_def global_context_new_def is_read_only_def stands_def)

lemma merge_into_new:
  assumes "merged new_asset_map child child'"
  shows "mergeable epoch p child' = mergeable epoch p child" "merged p child' p' = merged p child p'"
proof -
  have "get_nonfungible_tokens new_asset_map q asset = None" for q asset
    using fun_cong [OF new_asset_map_empty(3), of "(q, asset)"] by (simp add: nfts_of_def)
  with assms have "amount_of child' = amount_of child" "get_nonfungible_tokens child' = get_nonfungible_tokens child"
    "did_pox_action child' = did_pox_action child"
    by (auto simp: merged_def new_asset_map_empty add_opt_def append_opt_def fun_eq_iff split: option.splits)
  then show "mergeable epoch p child' = mergeable epoch p child" "merged p child' p' = merged p child p'"
    by (simp_all add: mergeable_def merged_def)
qed

lemma mergeable_new [simp]: "mergeable epoch new_asset_map child"
  by (simp add: mergeable_def new_asset_map_empty)

text \<open>
  Nested calls from the frame the body of the innermost one leaves: the frames between are empty, so
  what reaches the caller is what the body recorded.
\<close>

lemma nested_outcome:
  assumes "confined data valid f" "wf_asset_map p"
    and "stands data valid gc (p # ams) ((evs, n) # bs) (ro # ros) v vs"
    and "f ((gc_begin ^^ Suc k) gc) = (r, s)" "(execute ops ^^ Suc k) f gc = (r', gc')"
  shows "\<exists>child evs' n' v'. wf_asset_map child \<and>
    stands data valid s (child # replicate k new_asset_map @ p # ams) ((evs', n') # replicate k ([], n) @ (evs, n) # bs)
      (replicate (Suc k) ro @ ro # ros) v' (replicate (Suc k) v @ vs) \<and>
    same_setting gc s \<and> same_setting gc gc' \<and>
    (if isl r \<or> \<not> mergeable (gc_epoch gc) p child
     then isl r' \<and> (isl r \<longrightarrow> r' = r) \<and> stands data valid gc' (p # ams) ((evs, n) # bs) (ro # ros) v vs
     else r' = r \<and> (\<exists>p'. merged p child p' \<and> wf_asset_map p' \<and>
       stands data valid gc' (p' # ams) ((evs @ evs', n') # bs) (ro # ros) v' vs))"
  using assms(2-)
proof (induction k arbitrary: gc p ams evs n bs ros vs r' gc')
  case 0
  have b: "stands data valid (gc_begin gc) (new_asset_map # p # ams) (([], n) # (evs, n) # bs) (ro # ro # ros) v (v # vs)"
    "same_setting gc (gc_begin gc)" using gc_begin_stands [OF 0(2)] by simp_all
  have run: "f (gc_begin gc) = (r, s)" using 0(3) by simp
  from confinedE [OF assms(1) wf_new_asset_map b(1), unfolded run prod.inject] obtain child evs' n' v' where
    s: "wf_asset_map child" "stands data valid s (child # p # ams) ((evs', n') # (evs, n) # bs) (ro # ro # ros) v' (v # vs)"
      "same_setting (gc_begin gc) s" by metis
  from execute_outcome [where f = f, OF 0(2,1) s(1) run same_setting_trans [OF b(2) s(3)] s(2), of ops] 0(4)
    s(1,2) same_setting_trans [OF b(2) s(3)]
  show ?case by (intro exI [of _ child] exI [of _ evs'] exI [of _ n'] exI [of _ v']) simp
next
  case (Suc k)
  let ?g = "(execute ops ^^ Suc k) f"
  have b: "stands data valid (gc_begin gc) (new_asset_map # p # ams) (([], n) # (evs, n) # bs) (ro # ro # ros) v (v # vs)"
    "same_setting gc (gc_begin gc)" using gc_begin_stands [OF Suc.prems(2)] by simp_all
  obtain r1 s1 where g: "?g (gc_begin gc) = (r1, s1)" by fastforce
  have "f ((gc_begin ^^ Suc k) (gc_begin gc)) = (r, s)" using Suc.prems(3) by (simp add: funpow_swap1)
  from Suc.IH [OF wf_new_asset_map b(1) this g] obtain child evs' n' v' where
    c: "wf_asset_map child" "same_setting (gc_begin gc) s" "same_setting (gc_begin gc) s1"
    and at_s: "stands data valid s (child # replicate k new_asset_map @ new_asset_map # p # ams)
        ((evs', n') # replicate k ([], n) @ ([], n) # (evs, n) # bs) (replicate (Suc k) ro @ ro # ro # ros) v' (replicate (Suc k) v @ v # vs)"
    and out: "if isl r \<or> \<not> mergeable (gc_epoch (gc_begin gc)) new_asset_map child then isl r1 \<and> (isl r \<longrightarrow> r1 = r) \<and>
        stands data valid s1 (new_asset_map # p # ams) (([], n) # (evs, n) # bs) (ro # ro # ros) v (v # vs)
      else r1 = r \<and> (\<exists>p'. merged new_asset_map child p' \<and> wf_asset_map p' \<and>
        stands data valid s1 (p' # p # ams) (([] @ evs', n') # (evs, n) # bs) (ro # ro # ros) v' (v # vs))"
    by blast
  have at_s: "stands data valid s (child # replicate (Suc k) new_asset_map @ p # ams) ((evs', n') # replicate (Suc k) ([], n) @ (evs, n) # bs)
        (replicate (Suc (Suc k)) ro @ ro # ros) v' (replicate (Suc (Suc k)) v @ vs)"
    using at_s by (simp add: replicate_app_Cons_same)
  have set: "same_setting gc s1" "same_setting gc s" using c(2,3) b(2) by (blast intro: same_setting_trans)+
  have run: "execute ops ?g gc = (r', gc')" using Suc.prems(4) by simp
  show ?case
  proof (cases "isl r")
    case True
    with out have o: "r1 = r" "stands data valid s1 (new_asset_map # p # ams) (([], n) # (evs, n) # bs) (ro # ro # ros) v (v # vs)"
      by auto
    from execute_outcome [where f = ?g, OF Suc.prems(2,1) wf_new_asset_map g set(1) o(2), of ops] run o(1) True c(1) at_s set
    show ?thesis by (intro exI [of _ child] exI [of _ evs'] exI [of _ n'] exI [of _ v']) simp
  next
    case False
    with out obtain child' where o: "r1 = r" "merged new_asset_map child child'" "wf_asset_map child'"
      "stands data valid s1 (child' # p # ams) ((evs', n') # (evs, n) # bs) (ro # ro # ros) v' (v # vs)" by auto
    from execute_outcome [where f = ?g, OF Suc.prems(2,1) o(3) g set(1) o(4), of ops, unfolded merge_into_new [OF o(2)]]
      run o(1) False c(1) at_s set
    show ?thesis by (intro exI [of _ child] exI [of _ evs'] exI [of _ n'] exI [of _ v']) simp
  qed
qed



end
