(* ===== verification/TokenTransfers.thy ===== *)
theory TokenTransfers
  imports GlobalContexts
begin

text \<open>
  STX transfers (\<open>stx_transfer_consolidated\<close> of \<open>clarity/src/vm/functions/assets.rs\<close> and
  \<open>ExecutionState::stx_transfer\<close> of \<open>clarity/src/vm/contexts.rs\<close>): the composition of the balance
  snapshots of the database with the asset map, the events and the memory charges of the context.
\<close>

datatype StxErrorCodes = NOT_ENOUGH_BALANCE | SENDER_IS_RECIPIENT | NON_POSITIVE_AMOUNT | SENDER_IS_NOT_TX_SENDER

fun stx_error_code :: "StxErrorCodes \<Rightarrow> u128" where
  "stx_error_code NOT_ENOUGH_BALANCE = 1"
| "stx_error_code SENDER_IS_RECIPIENT = 2"
| "stx_error_code NON_POSITIVE_AMOUNT = 3"
| "stx_error_code SENDER_IS_NOT_TX_SENDER = 4"

definition clarity_ecode :: "StxErrorCodes \<Rightarrow> ('s, Value) context_method" where
  "clarity_ecode thing = sret (err_uint (stx_error_code thing))"

text \<open>A snapshot borrows the database: what its methods leave is the database of the context.\<close>

definition with_snapshot ::
  "'s ClarityBackingStore \<Rightarrow> (u8 list \<Rightarrow> u8 list) \<Rightarrow> PrincipalData \<Rightarrow> ('s, 'a) snapshot_method
   \<Rightarrow> ('s, 'a) context_method" where
  "with_snapshot ops sha256 p m = (\<lambda>self.
     case get_stx_balance_snapshot ops sha256 p (database self) of
       (Inl e, db) \<Rightarrow> (Inl e, self\<lparr>database := db\<rparr>)
     | (Inr snap, _) \<Rightarrow> (case m snap of (r, snap') \<Rightarrow> (r, self\<lparr>database := db_ref snap'\<rparr>)))"

definition stx_transfer_consolidated ::
  "'s ClarityBackingStore \<Rightarrow> (u8 list \<Rightarrow> u8 list) \<Rightarrow> (ClarityTypeError \<Rightarrow> string) \<Rightarrow> PrincipalData option
   \<Rightarrow> PrincipalData \<Rightarrow> PrincipalData \<Rightarrow> u128 \<Rightarrow> u8 list \<Rightarrow> ('s, Value) context_method" where
  "stx_transfer_consolidated ops sha256 show_error tx_sender from_p to_p amount memo =
     (if amount = 0 then clarity_ecode NON_POSITIVE_AMOUNT
      else if from_p = to_p then clarity_ecode SENDER_IS_RECIPIENT
      else if Some from_p \<noteq> tx_sender then clarity_ecode SENDER_IS_NOT_TX_SENDER
      else
        sthen (gc_add_memory (ucast PRINCIPAL_SIZE))
        (sthen (gc_add_memory (ucast PRINCIPAL_SIZE))
        (sthen (gc_add_memory (word_of_nat unlocked_and_v1_size))
        (sthen (gc_add_memory (word_of_nat unlocked_and_v1_size))
        (sbind
          (with_snapshot ops sha256 from_p
            (sbind (can_transfer ops amount) (\<lambda>ok.
               if \<not> ok then sret False
               else sthen (transfer_to ops sha256 to_p amount) (sret True))))
          (\<lambda>transferred.
            if \<not> transferred then clarity_ecode NOT_ENOUGH_BALANCE
            else
              sthen (log_stx_transfer from_p amount)
              (sthen (register_stx_transfer_event show_error from_p to_p amount memo)
                (sret okay_true))))))))"

definition stx_transfer ::
  "'s ClarityBackingStore \<Rightarrow> (u8 list \<Rightarrow> u8 list) \<Rightarrow> (ClarityTypeError \<Rightarrow> string) \<Rightarrow> PrincipalData option
   \<Rightarrow> PrincipalData \<Rightarrow> PrincipalData \<Rightarrow> u128 \<Rightarrow> u8 list \<Rightarrow> ('s, Value) context_method" where
  "stx_transfer ops sha256 show_error tx_sender from_p to_p amount memo = (\<lambda>self.
     case stx_transfer_consolidated ops sha256 show_error tx_sender from_p to_p amount memo (gc_begin self) of
       (Inr val, s) \<Rightarrow>
         (case expect_result val of
            Inl _ \<Rightarrow> (Inl (expect_err ''Expected result''), s)
          | Inr (Inr _) \<Rightarrow> sthen (gc_commit ops) (sret val) s
          | Inr (Inl _) \<Rightarrow> sthen gc_roll_back (sfail (Internal InsufficientBalance)) s)
     | (Inl e, s) \<Rightarrow> sthen gc_roll_back (sfail e) s)"

section \<open>The pieces are confined\<close>

context backing_store
begin

lemma keeps_below_snapshot: "keeps_below data valid (\<lambda>db. db) (get_stx_balance_snapshot ops sha256 p)"
  unfolding get_stx_balance_snapshot_def get_current_burnchain_block_height_def get_index_block_header_hash_def
  by (intro keeps_below_sbind keeps_below_if keeps_below_pure reads_keeps_below [OF reads_account_balance]
      reads_keeps_below [OF reads_epoch])

lemma keeps_below_transfer: "keeps_below data valid db_ref (transfer_to ops sha256 q amount)"
  unfolding transfer_to_def sthen_def snapshot_save_def
proof (intro keeps_below_sbind keeps_below_if keeps_below_pure acts_keeps_below [OF acts_can_transfer]
      acts_keeps_below [OF acts_debit] keeps_below_on_db [OF reads_keeps_below [OF reads_get_data]]
      keeps_below_on_db [OF keeps_below_put])
  show "keeps_below data valid db_ref (\<lambda>s. on_db (put_data stx_balance_serialize
      (make_key_for_account_balance sha256 (snap_principal s)) (balance s)) s)"
    using keeps_below_on_db [OF keeps_below_put, of data valid stx_balance_serialize] by (simp add: keeps_below_def)
qed

lemma confined_with_snapshot:
  assumes m: "keeps_below data valid db_ref m"
  shows "confined data valid (with_snapshot ops sha256 p m)"
  unfolding confined_def
proof (intro allI impI)
  fix gc a ams evs n bs ro ros v vs
  assume wf: "wf_asset_map a" and gc: "stands data valid gc (a # ams) ((evs, n) # bs) (ro # ros) v vs"
  then have s: "sees data valid (database gc) v vs" by (simp add: stands_def)
  obtain r db where r: "get_stx_balance_snapshot ops sha256 p (database gc) = (r, db)" by fastforce
  have "\<exists>r gc' v'. with_snapshot ops sha256 p m gc = (r, gc') \<and> gc' = gc\<lparr>database := database gc'\<rparr> \<and>
      sees data valid (database gc') v' vs \<and> same_chain (database gc) (database gc')"
  proof (cases r)
    case (Inl e)
    with keeps_below_snapshot s r obtain v' where "sees data valid db v' vs" "same_chain (database gc) db"
      unfolding keeps_below_def by (metis snd_conv)
    with r Inl show ?thesis by (auto simp: with_snapshot_def)
  next
    case (Inr snap)
    with snapshot_sees [OF s] r have snap: "sees data valid (db_ref snap) v vs" "same_chain (database gc) (db_ref snap)" by auto
    obtain x snap' where x: "m snap = (x, snap')" by fastforce
    with m snap(1) obtain v' where "sees data valid (db_ref snap') v' vs" "same_chain (db_ref snap) (db_ref snap')"
      unfolding keeps_below_def by (metis snd_conv)
    with r Inr x snap show ?thesis by (auto simp: with_snapshot_def intro: same_chain_trans)
  qed
  with wf gc show "\<exists>r gc' a' evs' n' v'. with_snapshot ops sha256 p m gc = (r, gc') \<and> wf_asset_map a' \<and>
      stands data valid gc' (a' # ams) ((evs', n') # bs) (ro # ros) v' vs \<and> same_setting gc gc'"
    unfolding stands_def same_setting_def by (metis GlobalContext.ext_inject GlobalContext.surjective GlobalContext.update_convs(3))
qed

lemma confined_consolidated: "confined data valid (stx_transfer_consolidated ops sha256 show_error s p q amount memo)"
proof -
  have "keeps_below data valid db_ref (sbind (can_transfer ops amount) (\<lambda>ok.
      if \<not> ok then sret False else sthen (transfer_to ops sha256 q amount) (sret True)))"
    unfolding sthen_def
    by (intro keeps_below_sbind keeps_below_if keeps_below_pure keeps_below_transfer acts_keeps_below [OF acts_can_transfer])
  then show ?thesis
    unfolding stx_transfer_consolidated_def clarity_ecode_def register_stx_transfer_event_def
    by (auto intro!: confined_sret confined_sthen confined_sbind confined_add_memory confined_with_snapshot
        confined_log_stx_transfer confined_push_event)
qed

end

section \<open>Outcomes\<close>

text \<open>The top-level transfer is a call whose body fails when the inner transfer reports an error code.\<close>

definition transfer_body ::
  "'s ClarityBackingStore \<Rightarrow> (u8 list \<Rightarrow> u8 list) \<Rightarrow> (ClarityTypeError \<Rightarrow> string) \<Rightarrow> PrincipalData option
   \<Rightarrow> PrincipalData \<Rightarrow> PrincipalData \<Rightarrow> u128 \<Rightarrow> u8 list \<Rightarrow> ('s, Value) context_method" where
  "transfer_body ops sha256 show_error tx_sender p q amount memo =
     sbind (stx_transfer_consolidated ops sha256 show_error tx_sender p q amount memo) (\<lambda>val.
       if val = okay_true then sret val else sfail (Internal InsufficientBalance))"

lemma err_not_ok [simp]: "err_uint k \<noteq> okay_true"
  by (simp add: err_uint_def okay_true_def)

lemma consolidated_values:
  assumes "stx_transfer_consolidated ops sha256 show_error tx_sender p q amount memo gc = (Inr val, gc')"
  shows "val = okay_true \<or> (\<exists>k. val = err_uint k)"
  using assms unfolding stx_transfer_consolidated_def clarity_ecode_def
  by (auto simp: sret_run split: if_splits)

lemma stx_transfer_execute:
  "stx_transfer ops sha256 show_error tx_sender p q amount memo =
     execute ops (transfer_body ops sha256 show_error tx_sender p q amount memo)"
proof
  fix gc
  obtain r s where r: "stx_transfer_consolidated ops sha256 show_error tx_sender p q amount memo (gc_begin gc) = (r, s)"
    by fastforce
  show "stx_transfer ops sha256 show_error tx_sender p q amount memo gc =
      execute ops (transfer_body ops sha256 show_error tx_sender p q amount memo) gc"
  proof (cases r)
    case (Inl e)
    with r show ?thesis
      by (simp add: stx_transfer_def execute_def transfer_body_def sbind_def sthen_def sfail_def split: prod.splits sum.splits)
  next
    case (Inr val)
    with consolidated_values [of ops sha256 show_error tx_sender p q amount memo "gc_begin gc" "val" s] r
    consider "val = okay_true" | k where "val = err_uint k" by auto
    then show ?thesis
      by cases (use r Inr in \<open>simp_all add: stx_transfer_def execute_def transfer_body_def sbind_def sthen_def sfail_def sret_def
          okay_true_def err_uint_def split: prod.splits sum.splits\<close>)
  qed
qed

context backing_store
begin

lemma confined_body: "confined data valid (transfer_body ops sha256 show_error s p q amount memo)"
  unfolding transfer_body_def by (auto intro!: confined_sbind confined_consolidated confined_sret confined_sfail)

end

lemma gc_add_memory_Inr: "gc_add_memory m gc = (Inr u, gc') \<Longrightarrow> \<exists>t. gc' = gc\<lparr>cost_track := t\<rparr>"
  by (auto simp: gc_add_memory_def split: prod.splits)

lemma with_snapshot_Inr:
  assumes "with_snapshot ops sha256 p m gc = (Inr x, gc')"
  obtains snap db0 snap' where "get_stx_balance_snapshot ops sha256 p (database gc) = (Inr snap, db0)"
    "m snap = (Inr x, snap')" "gc' = gc\<lparr>database := db_ref snap'\<rparr>"
  using assms by (auto simp: with_snapshot_def split: prod.splits sum.splits)

lemma log_stx_transfer_Inr:
  assumes "log_stx_transfer p amount gc = (Inr u, gc')" "asset_maps gc = a # ams"
  shows "\<exists>c. next_amount (amount_of a (Moved p)) amount = Inr c \<and> gc' = gc\<lparr>asset_maps := set_amount (Moved p) c a # ams\<rparr>"
  using assms by (auto simp: log_stx_transfer_def on_asset_map_def add_stx_transfer_def get_stx_def split: sum.splits)

lemma register_stx_transfer_Inr:
  assumes "register_stx_transfer_event show_error p q amount memo gc = (Inr u, gc')" "event_batches gc = (evs, n) # bs"
  shows "\<exists>n'. gc' = gc\<lparr>event_batches := (evs @ [STXEvent (STXTransferEvent p q amount memo)], n') # bs\<rparr>"
  using assms by (auto simp: register_stx_transfer_event_def push_to_event_batch_def Let_def slift_run split: if_splits)

text \<open>What the totals of accounts say of a transfer.\<close>

definition moved_stx ::
  "(u8 list \<Rightarrow> u8 list) \<Rightarrow> PrincipalData set \<Rightarrow> PrincipalData \<Rightarrow> PrincipalData \<Rightarrow> u128
   \<Rightarrow> (string \<rightharpoonup> string) \<Rightarrow> (string \<rightharpoonup> string) \<Rightarrow> bool" where
  "moved_stx sha256 A p q amount v v' \<longleftrightarrow>
     (\<Sum>r\<in>A. account_total sha256 v' r) = (\<Sum>r\<in>A. account_total sha256 v r) \<and>
     account_total sha256 v' p + unat amount = account_total sha256 v p \<and>
     account_total sha256 v' q = account_total sha256 v q + unat amount \<and>
     (\<forall>r \<in> A - {p, q}. balance_in sha256 v' r = balance_in sha256 v r)"

lemma consolidated_success:
  assumes A: "finite A" "\<And>r. r \<in> A \<Longrightarrow> wf_principal r" "p \<in> A" "q \<in> A" "\<And>x. length (sha256 x) = 32"
    and gc: "stands data_table (\<lambda>_. True) gc (a # ams) ((evs, n) # bs) ros v vs"
    and run: "stx_transfer_consolidated (memory_store sha256) sha256 show_error tx_sender p q amount memo gc = (Inr okay_true, s)"
  shows "amount \<noteq> 0 \<and> p \<noteq> q \<and> tx_sender = Some p \<and>
    (\<exists>c n' v'. next_amount (amount_of a (Moved p)) amount = Inr c \<and> moved_stx sha256 A p q amount v v' \<and>
       stands data_table (\<lambda>_. True) s (set_amount (Moved p) c a # ams)
         ((evs @ [STXEvent (STXTransferEvent p q amount memo)], n') # bs) ros v' vs)"
proof -
  have ok: "amount \<noteq> 0" "p \<noteq> q" "tx_sender = Some p"
    using run by (auto simp: stx_transfer_consolidated_def clarity_ecode_def sret_run err_not_ok [symmetric] split: if_splits
        dest: sym)
  from run ok obtain g1 g2 g3 g4 g5 g6 where
    m: "gc_add_memory (ucast PRINCIPAL_SIZE) gc = (Inr (), g1)" "gc_add_memory (ucast PRINCIPAL_SIZE) g1 = (Inr (), g2)"
      "gc_add_memory (word_of_nat unlocked_and_v1_size) g2 = (Inr (), g3)"
      "gc_add_memory (word_of_nat unlocked_and_v1_size) g3 = (Inr (), g4)"
    and w: "with_snapshot (memory_store sha256) sha256 p (sbind (can_transfer (memory_store sha256) amount) (\<lambda>ok.
         if \<not> ok then sret False else sthen (transfer_to (memory_store sha256) sha256 q amount) (sret True))) g4 = (Inr True, g5)"
    and l: "log_stx_transfer p amount g5 = (Inr (), g6)"
    and e: "register_stx_transfer_event show_error p q amount memo g6 = (Inr (), s)"
    unfolding stx_transfer_consolidated_def clarity_ecode_def by (auto simp: sret_run split: if_splits)
  obtain t where g4: "g4 = gc\<lparr>cost_track := t\<rparr>" using m gc_add_memory_Inr by (metis GlobalContext.update_convs(5) GlobalContext.surjective)
  from w obtain snap db0 snap' where snap: "get_stx_balance_snapshot (memory_store sha256) sha256 p (database gc) = (Inr snap, db0)"
    "sbind (can_transfer (memory_store sha256) amount) (\<lambda>ok.
         if \<not> ok then sret False else sthen (transfer_to (memory_store sha256) sha256 q amount) (sret True)) snap = (Inr True, snap')"
    "g5 = g4\<lparr>database := db_ref snap'\<rparr>"
    by (rule with_snapshot_Inr) (simp add: g4)
  then obtain snap1 where can: "can_transfer (memory_store sha256) amount snap = (Inr True, snap1)"
    and tr: "transfer_to (memory_store sha256) sha256 q amount snap1 = (Inr (), snap')"
    by (auto simp: sret_run split: if_splits)
  have s0: "sees data_table (\<lambda>_. True) (database gc) v vs" using gc by (simp add: stands_def)
  note seen = memory.snapshot_sees [OF s0 snap(1)]
  have "sees data_table (\<lambda>_. True) (db_ref snap1) v vs \<and> balance snap1 = balance snap \<and> snap_principal snap1 = snap_principal snap"
    using memory.acts_can_transfer [of sha256 amount] conjunct1 [OF seen]
    by (rule actsE) (use can in \<open>auto simp: available_of_def run_simps split: sum.splits\<close>)
  with seen transfer_moves [OF A(1-4) ok(2) A(5) _ _ _ tr, of v vs] obtain v' where v':
    "sees data_table (\<lambda>_. True) (db_ref snap') v' vs" "moved_stx sha256 A p q amount v v'"
    unfolding moved_stx_def by auto
  have "asset_maps g5 = a # ams" using gc by (simp add: snap(3) g4 stands_def)
  from log_stx_transfer_Inr [OF l this] obtain c where c: "next_amount (amount_of a (Moved p)) amount = Inr c"
    "g6 = g5\<lparr>asset_maps := set_amount (Moved p) c a # ams\<rparr>" by blast
  have "event_batches g6 = (evs, n) # bs" using gc by (simp add: c(2) snap(3) g4 stands_def)
  from register_stx_transfer_Inr [OF e this] obtain n' where
    "s = g6\<lparr>event_batches := (evs @ [STXEvent (STXTransferEvent p q amount memo)], n') # bs\<rparr>" by blast
  then have "stands data_table (\<lambda>_. True) s (set_amount (Moved p) c a # ams)
      ((evs @ [STXEvent (STXTransferEvent p q amount memo)], n') # bs) ros v' vs"
    using gc v'(1) by (simp add: c(2) snap(3) g4 stands_def)
  with ok c(1) v'(2) show ?thesis by blast
qed

lemma add_opt_None: "add_opt x None = x" "append_opt y None = y"
  by (simp_all add: add_opt_def append_opt_def split: option.splits)

lemma sees_unique: "sees data valid db v vs \<Longrightarrow> sees data valid db v' vs' \<Longrightarrow> v = v'"
proof -
  have "u = data (store (db_store db)) ++ pending True (lookup_map (db_store db))" if "sees data valid db u us" for u us
  proof -
    from that obtain l ls where l: "log_rel (db_store db) (l # ls)" "u # us = snapshots (data (store (db_store db))) (l # ls)"
      by (auto simp: sees_def)
    have "u = hd (snapshots (data (store (db_store db))) (l # ls))" unfolding l(2) [symmetric] by simp
    moreover have "pending True (lookup_map (db_store db)) = map_of (rev (concat (rev (map fst (l # ls)))))"
      by (rule ext, rule pending_log) (use l(1) in \<open>simp add: log_rel_def\<close>)
    ultimately show ?thesis by (simp only: snapshots_hd)
  qed
  then show "sees data valid db v vs \<Longrightarrow> sees data valid db v' vs' \<Longrightarrow> v = v'" by blast
qed

text \<open>
  (C5) A top-level STX transfer composes the database, the asset map and the events into one
  all-or-nothing step. If it fails, for whatever reason, the asset map, the batch of events and
  what readers of the database see are those from before. If it succeeds then the amount is
  positive, the sender is the sender of the transaction and not the recipient, the balances of
  exactly the two accounts change by the amount and their sum is conserved, exactly one event is
  appended, and the asset map gains the amount for the sender and nothing else.
\<close>

theorem token_transfer_all_or_nothing:
  assumes "finite A" and "\<And>r. r \<in> A \<Longrightarrow> wf_principal r" and "p \<in> A" and "q \<in> A" and "\<And>x. length (sha256 x) = 32"
    and "wf_asset_map a"
    and "stands data_table (\<lambda>_. True) gc (a # ams) ((evs, n) # bs) (ro # ros) v vs"
    and "stx_transfer (memory_store sha256) sha256 show_error tx_sender p q amount memo gc = (r, gc')"
  shows "case r of
      Inl _ \<Rightarrow> stands data_table (\<lambda>_. True) gc' (a # ams) ((evs, n) # bs) (ro # ros) v vs
    | Inr val \<Rightarrow> val = okay_true \<and> amount \<noteq> 0 \<and> p \<noteq> q \<and> tx_sender = Some p \<and>
        (\<exists>a' n' v'. event_fits (Add (Moved p) amount) a \<and> event_added (Add (Moved p) amount) a a' \<and>
           moved_stx sha256 A p q amount v v' \<and>
           stands data_table (\<lambda>_. True) gc' (a' # ams)
             ((evs @ [STXEvent (STXTransferEvent p q amount memo)], n') # bs) (ro # ros) v' vs)"
proof -
  let ?f = "transfer_body (memory_store sha256) sha256 show_error tx_sender p q amount memo"
  have r: "execute (memory_store sha256) ?f gc = (r, gc')" using assms(8) by (simp add: stx_transfer_execute)
  have f: "confined data_table (\<lambda>_. True) ?f" by (rule memory.confined_body)
  from f assms(6,7) show ?thesis
  proof (cases rule: execute_stands [where ops = "memory_store sha256"])
    case (kept e gc1)
    with r show ?thesis by auto
  next
    case (committed x gc1 s child evs1 n1 v1 a1)
    then have x: "x = okay_true" and s: "stx_transfer_consolidated (memory_store sha256) sha256 show_error tx_sender p q amount memo
        (gc_begin gc) = (Inr okay_true, s)"
      by (auto simp: transfer_body_def sret_run sfail_run split: if_splits)
    have "stands data_table (\<lambda>_. True) (gc_begin gc) (new_asset_map # a # ams) (([], n) # (evs, n) # bs) (ro # ro # ros) v (v # vs)"
      using gc_begin_stands [OF assms(7)] by simp
    from consolidated_success [OF assms(1-5) this s] obtain c n' v' where
      ok: "amount \<noteq> 0" "p \<noteq> q" "tx_sender = Some p" and c: "next_amount None amount = Inr c"
      and v': "moved_stx sha256 A p q amount v v'"
      and st: "stands data_table (\<lambda>_. True) s (set_amount (Moved p) c new_asset_map # a # ams)
         (([STXEvent (STXTransferEvent p q amount memo)], n') # (evs, n) # bs) (ro # ro # ros) v' (v # vs)"
      by (auto simp: new_asset_map_empty)
    from c have "c = amount" by (simp add: next_amount_eq add_opt_def)
    with st committed(3) have child: "child = set_amount (Moved p) amount new_asset_map"
      "evs1 = [STXEvent (STXTransferEvent p q amount memo)]" "n1 = n'" by (auto simp: stands_def)
    have "v1 = v'" using st committed(3) unfolding stands_def by (auto dest: sees_unique)
    have contents: "amount_of child = [Moved p \<mapsto> amount]" "nfts_of child = (\<lambda>_. None)" "did_pox_action child = (\<lambda>_. False)"
      unfolding child(1) set_amount_contents new_asset_map_empty by simp_all
    have added: "event_fits (Add (Moved p) amount) a" "event_added (Add (Moved p) amount) a a1"
      using committed(9) committed(5)
      by (auto simp: mergeable_def merged_iff contents add_opt_None simp del: amount_of.simps)
    have "r = Inr okay_true" "stands data_table (\<lambda>_. True) gc' (a1 # ams)
        ((evs @ [STXEvent (STXTransferEvent p q amount memo)], n') # bs) (ro # ros) v' vs"
      using committed(1,7) r x child \<open>v1 = v'\<close> by auto
    with ok v' added show ?thesis by (simp only: sum.case) blast
  qed
qed

lemma gc_add_memory_free: "cost_track gc = Free \<Longrightarrow> gc_add_memory m gc = (Inr (), gc)"
  by (simp add: gc_add_memory_def tracker_add_memory_def)

lemma demo_accounts: "r \<in> {alice, bob} \<Longrightarrow> wf_principal r"
  by (auto simp: wf_standard_def)

lemma demo_transfer:
  "\<exists>gc'. stx_transfer (memory_store demo_digest) demo_digest (\<lambda>_. []) (Some alice) alice bob 400 [] demo_context =
     (Inr okay_true, gc')"
proof -
  let ?ops = "memory_store demo_digest"
  let ?m = "sbind (can_transfer ?ops 400) (\<lambda>ok. if \<not> ok then sret False else sthen (transfer_to ?ops demo_digest bob 400) (sret True))"
  let ?gc = "gc_begin demo_context"
  have gc: "stands data_table (\<lambda>_. True) ?gc [new_asset_map, new_asset_map] [([], 0), ([], 0)] [False, False] demo_view [demo_view, demo_view]"
    using gc_begin_stands [OF demo_stands] by simp
  have free: "cost_track ?gc = Free" and head: "headers_db (database ?gc) = null_headers_db (\<lambda>_. [])"
    by (simp_all add: demo_context_def gc_begin_def push_frame_def global_context_new_def new_free_def db_begin_def as_clarity_db_def
        db_new_def)
  obtain snap db0 where snap: "get_stx_balance_snapshot ?ops demo_digest alice (database ?gc) = (Inr snap, db0)"
    "sees data_table (\<lambda>_. True) (db_ref snap) demo_view [demo_view, demo_view]" "balance snap = Unlocked 1000"
    using snapshot_of_demo [OF _ head, of "[demo_view, demo_view]"] gc unfolding stands_def by blast
  obtain db1 where can: "can_transfer ?ops 400 snap = (Inr True, snap\<lparr>db_ref := db1\<rparr>)"
    "sees data_table (\<lambda>_. True) db1 demo_view [demo_view, demo_view]"
    using memory.can_transfer_run [OF snap(2), of 1000 demo_digest 400] snap(3)
    by (auto simp: available_of_def demo_heights get_available_balance_at_burn_block_def)
  obtain snap' where t: "transfer_to ?ops demo_digest bob 400 (snap\<lparr>db_ref := db1\<rparr>) = (Inr (), snap')"
    using memory.transfer_run [of "snap\<lparr>db_ref := db1\<rparr>", OF _ demo_heights _ demo_balances(2), of _ 1000 400 demo_digest] can(2) snap(3)
    by (auto simp: get_available_balance_at_burn_block_def)
  have w: "with_snapshot ?ops demo_digest alice ?m ?gc = (Inr True, ?gc\<lparr>database := db_ref snap'\<rparr>)"
    using snap(1) can(1) t by (simp add: with_snapshot_def run_simps)
  have "\<exists>s. stx_transfer_consolidated ?ops demo_digest (\<lambda>_. []) (Some alice) alice bob 400 [] ?gc = (Inr okay_true, s)"
    using gc by (simp add: stx_transfer_consolidated_def run_simps gc_add_memory_free [OF free] w log_stx_transfer_def
        on_asset_map_def add_stx_transfer_def register_stx_transfer_event_def push_to_event_batch_def stands_def
        new_asset_map_def get_stx_def next_amount_def MAX_EVENTS_BATCH_def saturating_add_def checked_add_def replicate_eq_replicate)
  then obtain s where s: "stx_transfer_consolidated ?ops demo_digest (\<lambda>_. []) (Some alice) alice bob 400 [] ?gc = (Inr okay_true, s)" ..
  obtain c n' v' where st: "stands data_table (\<lambda>_. True) s (set_amount (Moved alice) c new_asset_map # [new_asset_map])
       (([] @ [STXEvent (STXTransferEvent alice bob 400 [])], n') # [([], 0)]) [False, False] v' [demo_view, demo_view]"
    using consolidated_success [OF _ _ _ _ _ gc s, of "{alice, bob}"] demo_accounts by auto
  have "mergeable e new_asset_map x" for e x by (simp add: mergeable_def new_asset_map_empty)
  then obtain p' where "commit_other (set_amount (Moved alice) c new_asset_map) (gc_epoch s) new_asset_map = (Inr (), p')"
    using commit_other_merges [OF new_asset_map_empty(1) set_amount_wf [OF new_asset_map_empty(1)], of "gc_epoch s" "Moved alice" c]
    by (auto split: prod.splits sum.splits)
  with gc_commit_stands [OF st, of ?ops] s show ?thesis
    by (auto simp: stx_transfer_def okay_true_def run_simps)
qed

theorem token_transfer_all_or_nothing_witness:
  "\<exists>gc' a' n' v'. stx_transfer (memory_store demo_digest) demo_digest (\<lambda>_. []) (Some alice) alice bob 400 [] demo_context =
       (Inr okay_true, gc') \<and>
     asset_maps gc' = [a'] \<and> get_stx a' alice = Some 400 \<and>
     event_batches gc' = [([STXEvent (STXTransferEvent alice bob 400 [])], n')] \<and>
     sees data_table (\<lambda>_. True) (database gc') v' [demo_view] \<and>
     account_total demo_digest v' alice = 600 \<and> account_total demo_digest v' bob = 400"
proof -
  let ?ops = "memory_store demo_digest"
  obtain gc' where r: "stx_transfer ?ops demo_digest (\<lambda>_. []) (Some alice) alice bob 400 [] demo_context = (Inr okay_true, gc')"
    using demo_transfer ..
  obtain a' n' v' where "event_added (Add (Moved alice) 400) new_asset_map a'"
    "moved_stx demo_digest {alice, bob} alice bob 400 demo_view v'"
    "stands data_table (\<lambda>_. True) gc' [a'] [([STXEvent (STXTransferEvent alice bob 400 [])], n')] [False] v' [demo_view]"
    using token_transfer_all_or_nothing [OF _ _ _ _ _ new_asset_map_empty(1) demo_stands r, of "{alice, bob}"] demo_accounts by auto
  with r show ?thesis
    by (auto simp: stands_def new_asset_map_empty add_opt_def moved_stx_def account_total_def demo_balances total_def
        dest: fun_cong [of _ _ "Moved alice"])
qed

end
