(* ===== verification/MethodLaws.thy ===== *)
theory MethodLaws
  imports Prelude
begin

text \<open>Equational laws of stateful operations.\<close>

lemma sbind_assoc: "sbind (sbind m f) g = sbind m (\<lambda>x. sbind (f x) g)"
  by (auto simp: sbind_def fun_eq_iff split: prod.splits sum.splits)

lemma sbind_sret [simp]: "sbind (sret x) f = f x"
  by (simp add: sbind_def sret_def)

lemma sbind_sfail [simp]: "sbind (sfail e) f = sfail e"
  by (simp add: sbind_def sfail_def)

lemma sbind_slift_Inr [simp]: "sbind (slift (Inr x)) f = f x"
  by (simp add: sbind_def slift_def)

lemma sbind_slift_Inl [simp]: "sbind (slift (Inl e)) f = sfail e"
  by (simp add: sbind_def slift_def sfail_def)

lemma sbind_run_Inr: "m s = (Inr x, s') \<Longrightarrow> sbind m f s = f x s'"
  by (simp add: sbind_def)

lemma sbind_run_Inl: "m s = (Inl e, s') \<Longrightarrow> sbind m f s = (Inl e, s')"
  by (simp add: sbind_def)

lemma sbind_cong_run:
  assumes "\<And>x s'. m s = (Inr x, s') \<Longrightarrow> f x s' = g x s'"
  shows "sbind m f s = sbind m g s"
  using assms by (auto simp: sbind_def split: prod.splits sum.splits)

lemma sbind_sret_right [simp]: "sbind m sret = m"
  by (auto simp: sbind_def sret_def fun_eq_iff split: prod.splits sum.splits)

end
