(* ===== verification/SequenceFiltering.thy ===== *)
theory SequenceFiltering
  imports Values MethodLaws
begin

text \<open>
  The filter of sequences: \<open>try_retain\<close> compacts the elements in place with swaps; the
  reference below asks the predicate from left to right and keeps the elements it accepts.
\<close>

fun filter_elements ::
  "('t \<Rightarrow> ClarityTypeError + Value) \<Rightarrow> (Value \<Rightarrow> ('s, 'e, bool) meth) \<Rightarrow> 't list
   \<Rightarrow> ('s, 'e RetainValuesError, 't list) meth" where
  "filter_elements to_value p [] = sret []"
| "filter_elements to_value p (x # xs) =
     sbind (slift (map_err RetainInternal (to_value x))) (\<lambda>v.
     sbind (lift_err RetainPredicate (p v)) (\<lambda>keep.
     sbind (filter_elements to_value p xs) (\<lambda>ys. sret (if keep then x # ys else ys))))"

lemma sbind_if:
  "(if keep then sbind m (\<lambda>ys. sret (pre @ x # ys)) else sbind m (\<lambda>ys. sret (pre @ ys))) =
     sbind m (\<lambda>ys. sret (pre @ (if keep then x # ys else ys)))"
  by simp

lemma retain_loop_filter:
  "wr \<le> rd \<Longrightarrow> rd \<le> length data \<Longrightarrow>
   retain_loop to_value p rd wr data =
     sbind (filter_elements to_value p (drop rd data)) (\<lambda>ys. sret (take wr data @ ys))"
proof (induction "length data - rd" arbitrary: rd wr data)
  case 0
  then show ?case by (simp add: retain_loop.simps)
next
  case (Suc n)
  then have lt: "rd < length data" by simp
  let ?kept = "if wr \<noteq> rd then swap wr rd data else data"
  have kept: "length ?kept = length data" "drop (Suc rd) ?kept = drop (Suc rd) data"
    "take (Suc wr) ?kept = take wr data @ [data ! rd]"
    using lt Suc.prems by (auto simp: swap_def take_Suc_conv_app_nth)
  have "retain_loop to_value p (Suc rd) (Suc wr) ?kept =
      sbind (filter_elements to_value p (drop (Suc rd) data)) (\<lambda>ys. sret (take wr data @ (data ! rd) # ys))"
    using Suc.hyps(1) [of ?kept "Suc rd" "Suc wr"] Suc.hyps(2) Suc.prems lt kept by simp
  moreover have "retain_loop to_value p (Suc rd) wr data =
      sbind (filter_elements to_value p (drop (Suc rd) data)) (\<lambda>ys. sret (take wr data @ ys))"
    using Suc.hyps(1) [of data "Suc rd" wr] Suc.hyps(2) Suc.prems lt by simp
  moreover have "drop rd data = data ! rd # drop (Suc rd) data"
    using lt by (rule Cons_nth_drop_Suc [symmetric])
  ultimately show ?case
    using lt by (subst retain_loop.simps) (simp add: sbind_assoc sbind_if cong: if_cong split del: if_split)
qed

text \<open>
  (C36) Filtering a sequence in place is a left-to-right filter: on every kind of sequence the
  predicate sees each element once, in order, the result holds the accepted elements in order,
  and the first failing conversion or predicate call ends it, with the changes the predicate
  made to its environment so far.
\<close>

theorem try_retain_filters:
  "try_retain (Buffer bytes) p = sbind (filter_elements byte_to_value p bytes) (\<lambda>d. sret (Buffer d)) \<and>
   try_retain (List items l) p = sbind (filter_elements list_item_to_value p items) (\<lambda>d. sret (List d l)) \<and>
   try_retain (String (CharASCII bytes)) p = sbind (filter_elements ascii_to_value p bytes) (\<lambda>d. sret (String (CharASCII d))) \<and>
   try_retain (String (CharUTF8 chars)) p = sbind (filter_elements utf8_to_value p chars) (\<lambda>d. sret (String (CharUTF8 d)))"
  by (simp add: retain_loop_filter sbind_assoc)

end
