(* ===== verification/ValueSerialization.thy ===== *)
theory ValueSerialization
  imports Values
begin

text \<open>
  The consensus serialisation of Clarity values
  (\<open>clarity-types/src/types/serialization.rs\<close>): the writer, the reader with its explicit stack
  of unfinished containers over a bounded reader (\<open>stacks-common/src/util/retry.rs\<close>), the
  epoch-aware entry points and the bound on the length of the output.
\<close>

section \<open>Errors and type prefixes\<close>

datatype io_error = UnexpectedEof | OtherIO string

datatype SerializationError =
    IOError io_error
  | BadTypeError ClarityTypeError
  | DeserializeExpected TypeSignature
  | LeftoverBytesInDeserialization
  | SerializationFailure string
  | DeserializationFailure string
  | UnexpectedSerialization

datatype TypePrefix =
    PrefixInt
  | PrefixUInt
  | PrefixBuffer
  | PrefixBoolTrue
  | PrefixBoolFalse
  | PrefixPrincipalStandard
  | PrefixPrincipalContract
  | PrefixResponseOk
  | PrefixResponseErr
  | PrefixOptionalNone
  | PrefixOptionalSome
  | PrefixList
  | PrefixTuple
  | PrefixStringASCII
  | PrefixStringUTF8

fun prefix_to_u8 :: "TypePrefix \<Rightarrow> u8" where
  "prefix_to_u8 PrefixInt = 0"
| "prefix_to_u8 PrefixUInt = 1"
| "prefix_to_u8 PrefixBuffer = 2"
| "prefix_to_u8 PrefixBoolTrue = 3"
| "prefix_to_u8 PrefixBoolFalse = 4"
| "prefix_to_u8 PrefixPrincipalStandard = 5"
| "prefix_to_u8 PrefixPrincipalContract = 6"
| "prefix_to_u8 PrefixResponseOk = 7"
| "prefix_to_u8 PrefixResponseErr = 8"
| "prefix_to_u8 PrefixOptionalNone = 9"
| "prefix_to_u8 PrefixOptionalSome = 10"
| "prefix_to_u8 PrefixList = 11"
| "prefix_to_u8 PrefixTuple = 12"
| "prefix_to_u8 PrefixStringASCII = 13"
| "prefix_to_u8 PrefixStringUTF8 = 14"

definition ALL_PREFIXES :: "TypePrefix list" where
  "ALL_PREFIXES =
     [PrefixInt, PrefixUInt, PrefixBuffer, PrefixBoolTrue, PrefixBoolFalse, PrefixPrincipalStandard,
      PrefixPrincipalContract, PrefixResponseOk, PrefixResponseErr, PrefixOptionalNone,
      PrefixOptionalSome, PrefixList, PrefixTuple, PrefixStringASCII, PrefixStringUTF8]"

definition prefix_from_u8 :: "u8 \<Rightarrow> TypePrefix option" where
  "prefix_from_u8 v = List.find (\<lambda>p. v = prefix_to_u8 p) ALL_PREFIXES"

fun principal_prefix :: "PrincipalData \<Rightarrow> TypePrefix" where
  "principal_prefix (Standard _) = PrefixPrincipalStandard"
| "principal_prefix (Contract _) = PrefixPrincipalContract"

fun value_prefix :: "Value \<Rightarrow> TypePrefix" where
  "value_prefix (Value.Int _) = PrefixInt"
| "value_prefix (UInt _) = PrefixUInt"
| "value_prefix (Bool b) = (if b then PrefixBoolTrue else PrefixBoolFalse)"
| "value_prefix (Principal p) = principal_prefix p"
| "value_prefix (Response committed _) = (if committed then PrefixResponseOk else PrefixResponseErr)"
| "value_prefix (Optional None) = PrefixOptionalNone"
| "value_prefix (Optional (Some _)) = PrefixOptionalSome"
| "value_prefix (Tuple _ _) = PrefixTuple"
| "value_prefix (Sequence (Buffer _)) = PrefixBuffer"
| "value_prefix (Sequence (List _ _)) = PrefixList"
| "value_prefix (Sequence (String (CharASCII _))) = PrefixStringASCII"
| "value_prefix (Sequence (String (CharUTF8 _))) = PrefixStringUTF8"
| "value_prefix (CallableContract _) = PrefixPrincipalContract"

section \<open>Writing\<close>

definition string_bytes :: "string \<Rightarrow> u8 list" where
  "string_bytes s = map (\<lambda>c. word_of_nat (of_char c)) s"

definition bytes_string :: "u8 list \<Rightarrow> string" where
  "bytes_string bs = map (\<lambda>b. char_of (unat b)) bs"

definition write_standard_principal :: "StandardPrincipalData \<Rightarrow> u8 list" where
  "write_standard_principal p = spd_version p # spd_bytes p"

text \<open>Names are written with a length byte; their length is at most 128.\<close>

definition write_name :: "string \<Rightarrow> u8 list" where
  "write_name name = word_of_nat (length name) # string_bytes name"

definition write_contract :: "QualifiedContractIdentifier \<Rightarrow> u8 list" where
  "write_contract c = write_standard_principal (issuer c) @ write_name (qci_name c)"

definition i128_to_be_bytes :: "int \<Rightarrow> u8 list" where
  "i128_to_be_bytes i = to_be_bytes (word_of_int i :: u128)"

definition i128_from_be_bytes :: "u8 list \<Rightarrow> int" where
  "i128_from_be_bytes bs = sint (from_be_bytes bs :: u128)"

fun write_each :: "('e + u8 list) list \<Rightarrow> 'e + u8 list" where
  "write_each [] = Inr []"
| "write_each (w # ws) = rbind w (\<lambda>bs. rbind (write_each ws) (\<lambda>cs. Inr (bs @ cs)))"

text \<open>The length prefix of a buffer or ASCII string.\<close>

definition write_len :: "nat \<Rightarrow> SerializationError + u8 list" where
  "write_len n =
     rbind (map_err (\<lambda>_. SerializationFailure ''ValueTooLarge'') (buffer_length_try_from (int n)))
       (\<lambda>len. Inr (to_be_bytes len))"

definition utf8_total_len :: "u8 list list \<Rightarrow> u32" where
  "utf8_total_len data = fold (\<lambda>c len. len + word_of_nat (length c)) data 0"

definition with_prefix :: "Value \<Rightarrow> SerializationError + u8 list \<Rightarrow> SerializationError + u8 list" where
  "with_prefix v body = rbind body (\<lambda>bs. Inr (prefix_to_u8 (value_prefix v) # bs))"

primrec serialize_write :: "Value \<Rightarrow> SerializationError + u8 list"
  and serialize_seq :: "SequenceData \<Rightarrow> SerializationError + u8 list"
where
  "serialize_write (Value.Int i) = with_prefix (Value.Int i) (Inr (i128_to_be_bytes i))"
| "serialize_write (UInt u) = with_prefix (UInt u) (Inr (to_be_bytes u))"
| "serialize_write (Bool b) = with_prefix (Bool b) (Inr [])"
| "serialize_write (Sequence s) = with_prefix (Sequence s) (serialize_seq s)"
| "serialize_write (Principal p) =
     with_prefix (Principal p)
       (Inr (case p of Standard data \<Rightarrow> write_standard_principal data | Contract c \<Rightarrow> write_contract c))"
| "serialize_write (Tuple t m) =
     with_prefix (Tuple t m)
       (case u32_try_from (length m) of
          None \<Rightarrow> Inl (SerializationFailure ''out of range integral type conversion attempted'')
        | Some len \<Rightarrow>
            rbind (write_each (map (\<lambda>(key, w). rbind w (\<lambda>bs. Inr (write_name key @ bs)))
                     (map (map_prod id serialize_write) m)))
              (\<lambda>bs. Inr (to_be_bytes len @ bs)))"
| "serialize_write (Optional v) =
     with_prefix (Optional v) (case map_option serialize_write v of None \<Rightarrow> Inr [] | Some w \<Rightarrow> w)"
| "serialize_write (Response committed v) = with_prefix (Response committed v) (serialize_write v)"
| "serialize_write (CallableContract c) =
     with_prefix (CallableContract c) (Inr (write_contract (cd_contract_identifier c)))"
| "serialize_seq (Buffer data) = rbind (write_len (length data)) (\<lambda>len. Inr (len @ data))"
| "serialize_seq (List data l) =
     rbind (ok_or (u32_try_from (length data)) (SerializationFailure ''ValueTooLarge'')) (\<lambda>len.
     rbind (write_each (map serialize_write data)) (\<lambda>bs. Inr (to_be_bytes len @ bs)))"
| "serialize_seq (String s) =
     (case s of
        CharUTF8 data \<Rightarrow> Inr (to_be_bytes (utf8_total_len data) @ concat data)
      | CharASCII data \<Rightarrow> rbind (write_len (length data)) (\<lambda>len. Inr (len @ data)))"

definition serialize_to_vec :: "Value \<Rightarrow> SerializationError + u8 list" where
  "serialize_to_vec v = serialize_write v"

definition serialize_to_hex :: "Value \<Rightarrow> SerializationError + string" where
  "serialize_to_hex v = rbind (serialize_to_vec v) (\<lambda>bs. Inr (to_hex bs))"

definition serialized_size :: "Value \<Rightarrow> SerializationError + u32" where
  "serialized_size v =
     (let failure = DeserializationFailure ''Error: Failed to count serialization length of Clarity value''
      in rbind (map_err (\<lambda>_. failure) (serialize_write v)) (\<lambda>bs. ok_or (u32_try_from (length bs)) failure))"

section \<open>Bound on the length of the output\<close>

definition add_prefix_size :: "u32 \<Rightarrow> ClarityTypeError + u32" where
  "add_prefix_size n = ok_or (checked_add n 1) ValueTooLarge"

text \<open>A part that has no serialised form counts as empty where the other part is used.\<close>

definition size_or_zero :: "ClarityTypeError + u32 \<Rightarrow> ClarityTypeError + u32 \<times> bool" where
  "size_or_zero r =
     (case r of
        Inr n \<Rightarrow> Inr (n, False)
      | Inl CouldNotDetermineSerializationType \<Rightarrow> Inr (0, True)
      | Inl e \<Rightarrow> Inl e)"

fun sum_serialized_fields :: "(string \<times> (ClarityTypeError + u32)) list \<Rightarrow> u32 \<Rightarrow> ClarityTypeError + u32" where
  "sum_serialized_fields [] acc = Inr acc"
| "sum_serialized_fields ((key, size_of) # fs) acc =
     rbind size_of (\<lambda>value_size.
     rbind (ok_or (Option.bind (checked_add acc 1) (\<lambda>x.
                   Option.bind (checked_add x (word_of_nat (length key))) (\<lambda>x.
                   checked_add x value_size))) ValueTooLarge)
       (sum_serialized_fields fs))"

primrec max_serialized_size :: "TypeSignature \<Rightarrow> ClarityTypeError + u32"
  and seq_max_serialized_size :: "SequenceSubtype \<Rightarrow> ClarityTypeError + u32"
  and list_max_serialized_size :: "ListTypeData \<Rightarrow> ClarityTypeError + u32"
  and tuple_max_serialized_size :: "TupleTypeSignature \<Rightarrow> ClarityTypeError + u32"
where
  "max_serialized_size NoType = Inl CouldNotDetermineSerializationType"
| "max_serialized_size IntType = add_prefix_size 16"
| "max_serialized_size UIntType = add_prefix_size 16"
| "max_serialized_size BoolType = add_prefix_size 0"
| "max_serialized_size (SequenceType s) = rbind (seq_max_serialized_size s) add_prefix_size"
| "max_serialized_size PrincipalType = add_prefix_size (ucast MAX_STRING_LEN + 21 + 1)"
| "max_serialized_size (TupleType t) = rbind (tuple_max_serialized_size t) add_prefix_size"
| "max_serialized_size (OptionalType t) =
     rbind (size_or_zero (max_serialized_size t)) (\<lambda>(n, _). add_prefix_size n)"
| "max_serialized_size (ResponseType t s) =
     rbind (size_or_zero (max_serialized_size t)) (\<lambda>(ok_size, no_ok_type).
     rbind (size_or_zero (max_serialized_size s)) (\<lambda>(err_size, no_err_type).
       if no_err_type \<and> no_ok_type then Inl CouldNotDetermineSerializationType
       else add_prefix_size (max ok_size err_size)))"
| "max_serialized_size (CallableType c) = add_prefix_size (ucast MAX_STRING_LEN + 21 + 1)"
| "max_serialized_size (ListUnionType l) = Inl CouldNotDetermineSerializationType"
| "max_serialized_size (TraitReferenceType t) = add_prefix_size (ucast MAX_STRING_LEN + 21 + 1)"
| "seq_max_serialized_size (BufferType n) = ok_or (checked_add n 4) ValueTooLarge"
| "seq_max_serialized_size (ListType l) = list_max_serialized_size l"
| "seq_max_serialized_size (StringType s) =
     (case s of
        ASCII n \<Rightarrow> ok_or (checked_add n 4) ValueTooLarge
      | UTF8 n \<Rightarrow> ok_or (Option.bind (checked_mul n 4) (\<lambda>x. checked_add x 4)) ValueTooLarge)"
| "list_max_serialized_size (ListTypeData n t s) =
     rbind (max_serialized_size t) (\<lambda>item.
     ok_or (Option.bind (checked_mul n item) (\<lambda>x. checked_add x 4)) ValueTooLarge)"
| "tuple_max_serialized_size (TupleTypeSignature m s) =
     sum_serialized_fields (map (map_prod id max_serialized_size) m) 4"

section \<open>The bounded reader\<close>

text \<open>
  A reader over a byte slice that stops after \<open>max_len\<close> bytes. The byte counters are natural
  numbers; the overflow check of the source is written out.
\<close>

record BoundReader =
  br_fd :: "u8 list"
  br_max_len :: nat
  br_read_so_far :: nat

type_synonym 'a reads_bytes = "(BoundReader, SerializationError, 'a) meth"

definition from_reader :: "u8 list \<Rightarrow> nat \<Rightarrow> BoundReader" where
  "from_reader bytes max_len = \<lparr>br_fd = bytes, br_max_len = max_len, br_read_so_far = 0\<rparr>"

definition bound_read :: "nat \<Rightarrow> (BoundReader, io_error, u8 list) meth" where
  "bound_read n = (\<lambda>self.
     let intended_read = br_read_so_far self + n
     in if intended_read \<ge> 2 ^ 64 then (Inl (OtherIO ''Read would overflow u64''), self)
        else
          let max_read = (if intended_read > br_max_len self then br_max_len self - br_read_so_far self else n);
              buf = take max_read (br_fd self)
          in (Inr buf, self\<lparr>br_fd := drop max_read (br_fd self),
                           br_read_so_far := br_read_so_far self + length buf\<rparr>))"

text \<open>The standard library's \<open>read_exact\<close>: read until the buffer is full or a read returns nothing.\<close>

function read_exact :: "nat \<Rightarrow> u8 list reads_bytes" where
  "read_exact n = (\<lambda>r.
     if n = 0 then (Inr [], r)
     else case bound_read n r of
       (Inl e, r') \<Rightarrow> (Inl (IOError e), r')
     | (Inr buf, r') \<Rightarrow>
         if buf = [] then (Inl (IOError UnexpectedEof), r')
         else (case read_exact (n - length buf) r' of
                 (Inl e, r'') \<Rightarrow> (Inl e, r'')
               | (Inr rest, r'') \<Rightarrow> (Inr (buf @ rest), r'')))"
  by auto
termination
  by (relation "measure id") auto

declare read_exact.simps [simp del]

section \<open>Reading principals and names\<close>

abbreviation bad_data :: "string \<Rightarrow> SerializationError" where
  "bad_data \<equiv> DeserializationFailure"

definition read_standard_principal :: "StandardPrincipalData reads_bytes" where
  "read_standard_principal =
     sbind (read_exact 1) (\<lambda>version.
     sbind (read_exact 20) (\<lambda>data.
     slift (map_err (\<lambda>_. UnexpectedSerialization) (standard_principal_new (version ! 0) data))))"

definition read_guarded_string :: "(string \<Rightarrow> ClarityTypeError + string) \<Rightarrow> string reads_bytes" where
  "read_guarded_string try_from =
     sbind (read_exact 1) (\<lambda>len.
     if len ! 0 > MAX_STRING_LEN then sfail (bad_data ''String too long'')
     else sbind (read_exact (unat (len ! 0))) (\<lambda>data.
       if utf8_chars data = None then sfail (bad_data ''Non-UTF8 string data'')
       else slift (map_err (\<lambda>_. bad_data ''Illegal Clarity string'') (try_from (bytes_string data)))))"

definition read_clarity_name :: "string reads_bytes" where
  "read_clarity_name = read_guarded_string clarity_name_try_from"

definition read_contract_name :: "string reads_bytes" where
  "read_contract_name = read_guarded_string contract_name_try_from"

datatype ContractNameLimit = LegacyLimit | EnforcedLimit

definition contract_name_limit :: "StacksEpochId \<Rightarrow> ContractNameLimit" where
  "contract_name_limit epoch =
     (if enforces_contract_name_length_limit epoch then EnforcedLimit else LegacyLimit)"

text \<open>Principals on their own: the codec used in transactions.\<close>

definition principal_serialize :: "PrincipalData \<Rightarrow> u8 list" where
  "principal_serialize p =
     prefix_to_u8 (principal_prefix p) #
     (case p of Standard data \<Rightarrow> write_standard_principal data | Contract c \<Rightarrow> write_contract c)"

definition principal_deserialize :: "PrincipalData reads_bytes" where
  "principal_deserialize =
     sbind (read_exact 1) (\<lambda>header.
     case prefix_from_u8 (header ! 0) of
       None \<Rightarrow> sfail (bad_data ''Bad principal prefix'')
     | Some PrefixPrincipalStandard \<Rightarrow> sbind read_standard_principal (\<lambda>p. sret (Standard p))
     | Some PrefixPrincipalContract \<Rightarrow>
         sbind read_standard_principal (\<lambda>p.
         sbind read_contract_name (\<lambda>name.
         sret (Contract \<lparr>issuer = p, qci_name = name\<rparr>)))
     | Some _ \<Rightarrow> sfail (bad_data ''Bad principal prefix''))"

section \<open>Reading values\<close>

definition DESERIALIZATION_TYPE_CHECK_EPOCH :: StacksEpochId where
  "DESERIALIZATION_TYPE_CHECK_EPOCH = Epoch21"

definition SANITIZATION_READ_BOUND :: nat where
  "SANITIZATION_READ_BOUND = 15000000"

definition UNSANITIZED_DEPTH_CHECK :: nat where
  "UNSANITIZED_DEPTH_CHECK = 16"

text \<open>The options of one call of the reader.\<close>

record read_options =
  opt_sanitize :: bool
  opt_behavior :: TupleFieldsBehavior
  opt_name_limit :: ContractNameLimit

definition depth_check :: "read_options \<Rightarrow> nat" where
  "depth_check opts = (if opt_sanitize opts then unat MAX_TYPE_DEPTH else UNSANITIZED_DEPTH_CHECK)"

text \<open>Unfinished containers; the stack has the innermost one first.\<close>

datatype DeserializeStackItem =
    DList "Value list" u32 "ListTypeData option"
  | DTuple "(string \<times> Value) list" u64 u64 "TupleTypeSignature option" string bool
  | DOptionSome "TypeSignature option"
  | DResponseOk "TypeSignature option"
  | DResponseErr "TypeSignature option"
  | DTopLevel "TypeSignature option"

fun next_expected_type :: "DeserializeStackItem \<Rightarrow> SerializationError + TypeSignature option" where
  "next_expected_type (DList _ _ expected_type) = Inr (map_option ltd_entry_type expected_type)"
| "next_expected_type (DTuple _ _ _ None _ _) = Inr None"
| "next_expected_type (DTuple _ _ _ (Some some_tuple) next_name next_sanitize) =
     (if next_sanitize then Inr None
      else rbind (ok_or (field_type some_tuple next_name) (DeserializeExpected (TupleType some_tuple)))
        (\<lambda>t. Inr (Some t)))"
| "next_expected_type (DOptionSome inner_expected_type) = Inr inner_expected_type"
| "next_expected_type (DResponseOk inner_expected_type) = Inr inner_expected_type"
| "next_expected_type (DResponseErr inner_expected_type) = Inr inner_expected_type"
| "next_expected_type (DTopLevel expected_type) = Inr expected_type"

definition check_match :: "(TypeSignature \<Rightarrow> bool) \<Rightarrow> TypeSignature option \<Rightarrow> unit reads_bytes" where
  "check_match pattern item =
     (case item of
        None \<Rightarrow> sret ()
      | Some x \<Rightarrow> if pattern x then sret () else sfail (DeserializeExpected x))"

definition read_u32 :: "u32 reads_bytes" where
  "read_u32 = sbind (read_exact 4) (\<lambda>bs. sret (from_be_bytes bs))"

definition read_buffer_length :: "u32 reads_bytes" where
  "read_buffer_length = sbind read_u32 (\<lambda>n. slift (map_err BadTypeError (buffer_length_try_from (uint n))))"

definition finish_list :: "Value list \<Rightarrow> ListTypeData option \<Rightarrow> Value reads_bytes" where
  "finish_list items list_type =
     slift (map_err (\<lambda>_. bad_data ''Illegal list type'')
       (case list_type of
          Some list_type \<Rightarrow> list_with_type DESERIALIZATION_TYPE_CHECK_EPOCH items list_type
        | None \<Rightarrow> cons_list_unsanitized items))"

definition finish_tuple ::
  "read_options \<Rightarrow> (string \<times> Value) list \<Rightarrow> TupleTypeSignature option \<Rightarrow> Value reads_bytes" where
  "finish_tuple opts items tuple_type =
     slift (map_err (\<lambda>_. bad_data ''Illegal tuple type'')
       (case tuple_type of
          Some tuple_type \<Rightarrow>
            tuple_from_data_typed DESERIALIZATION_TYPE_CHECK_EPOCH items tuple_type (opt_behavior opts)
        | None \<Rightarrow> tuple_from_data items))"

text \<open>Whether the field named by the key is to be dropped.\<close>

definition elides :: "read_options \<Rightarrow> TupleTypeSignature option \<Rightarrow> string \<Rightarrow> bool" where
  "elides opts tuple_type key \<longleftrightarrow>
     opt_sanitize opts \<and> (case tuple_type of Some tt \<Rightarrow> field_type tt key = None | None \<Rightarrow> False)"

text \<open>
  The match on the prefix of one item: either a finished value, or the frame of a container to
  push on the stack.
\<close>

definition read_buffer_item :: "TypeSignature option \<Rightarrow> (Value + DeserializeStackItem) reads_bytes" where
  "read_buffer_item expected_type =
     sbind read_buffer_length (\<lambda>buffer_len.
     sthen (check_match (\<lambda>t. case t of SequenceType (BufferType n) \<Rightarrow> buffer_len \<le> n | _ \<Rightarrow> False) expected_type)
       (sbind (read_exact (unat buffer_len)) (\<lambda>data.
        slift (map_err (\<lambda>_. bad_data ''Bad buffer'') (rbind (buff_from data) (\<lambda>v. Inr (Inl v)))))))"

definition read_contract_item ::
  "read_options \<Rightarrow> TypeSignature option \<Rightarrow> (Value + DeserializeStackItem) reads_bytes" where
  "read_contract_item opts expected_type =
     sthen (check_match (\<lambda>t. t = PrincipalType) expected_type)
       (sbind read_standard_principal (\<lambda>p.
        sbind read_contract_name (\<lambda>name.
        if opt_name_limit opts = EnforcedLimit \<and> length name > CONTRACT_MAX_NAME_LENGTH
        then sfail (bad_data ''Contract name too long'')
        else sret (Inl (Principal (Contract \<lparr>issuer = p, qci_name = name\<rparr>))))))"

definition read_response_item ::
  "bool \<Rightarrow> TypeSignature option \<Rightarrow> (Value + DeserializeStackItem) reads_bytes" where
  "read_response_item committed expected_type =
     sthen (check_match (\<lambda>t. case t of ResponseType _ _ \<Rightarrow> True | _ \<Rightarrow> False) expected_type)
       (sret (Inr
         (if committed
          then DResponseOk (case expected_type of Some (ResponseType t s) \<Rightarrow> Some t | _ \<Rightarrow> None)
          else DResponseErr (case expected_type of Some (ResponseType t s) \<Rightarrow> Some s | _ \<Rightarrow> None))))"

definition read_some_item :: "TypeSignature option \<Rightarrow> (Value + DeserializeStackItem) reads_bytes" where
  "read_some_item expected_type =
     sthen (check_match (\<lambda>t. case t of OptionalType _ \<Rightarrow> True | _ \<Rightarrow> False) expected_type)
       (sret (Inr (DOptionSome (case expected_type of Some (OptionalType t) \<Rightarrow> Some t | _ \<Rightarrow> None))))"

definition read_list_item :: "TypeSignature option \<Rightarrow> (Value + DeserializeStackItem) reads_bytes" where
  "read_list_item expected_type =
     sbind read_u32 (\<lambda>len.
     if len > MAX_VALUE_SIZE then sfail (bad_data ''Illegal list type'')
     else
       sthen (check_match (\<lambda>t. case t of SequenceType (ListType l) \<Rightarrow> len \<le> ltd_max_len l | _ \<Rightarrow> False) expected_type)
         (let list_type = (case expected_type of Some (SequenceType (ListType l)) \<Rightarrow> Some l | _ \<Rightarrow> None)
          in if len > 0 then sret (Inr (DList [] len list_type))
             else sbind (finish_list [] list_type) (\<lambda>v. sret (Inl v))))"

definition read_tuple_item ::
  "read_options \<Rightarrow> TypeSignature option \<Rightarrow> (Value + DeserializeStackItem) reads_bytes" where
  "read_tuple_item opts expected_type =
     sbind read_u32 (\<lambda>len.
     if len > MAX_VALUE_SIZE then sfail (bad_data ''Illegal tuple type'')
     else
       sthen (check_match (\<lambda>t. case t of
                 TupleType tt \<Rightarrow> if opt_sanitize opts then \<not> ucast len < tuple_len tt else ucast len = tuple_len tt
               | _ \<Rightarrow> False) expected_type)
         (let tuple_type = (case expected_type of Some (TupleType tt) \<Rightarrow> Some tt | _ \<Rightarrow> None)
          in if len > 0 then
               sbind read_clarity_name (\<lambda>first_key.
               sret (Inr (DTuple [] (ucast len) 0 tuple_type first_key (elides opts tuple_type first_key))))
             else sbind (finish_tuple opts [] tuple_type) (\<lambda>v. sret (Inl v))))"

definition read_ascii_item :: "TypeSignature option \<Rightarrow> (Value + DeserializeStackItem) reads_bytes" where
  "read_ascii_item expected_type =
     sbind read_buffer_length (\<lambda>buffer_len.
     sthen (check_match (\<lambda>t. case t of SequenceType (StringType (ASCII n)) \<Rightarrow> buffer_len \<le> n | _ \<Rightarrow> False) expected_type)
       (sbind (read_exact (unat buffer_len)) (\<lambda>data.
        slift (map_err (\<lambda>_. bad_data ''Bad string'') (rbind (string_ascii_from_bytes data) (\<lambda>v. Inr (Inl v)))))))"

definition read_utf8_item :: "TypeSignature option \<Rightarrow> (Value + DeserializeStackItem) reads_bytes" where
  "read_utf8_item expected_type =
     sbind read_buffer_length (\<lambda>total_len.
     sbind (read_exact (unat total_len)) (\<lambda>data.
     let v = map_err (\<lambda>_. bad_data ''Illegal string_utf8 type'') (string_utf8_from_bytes data)
     in sthen (check_match (\<lambda>t. case (t, v) of
                 (SequenceType (StringType (UTF8 n)), Inr (Sequence (String (CharUTF8 utf8)))) \<Rightarrow>
                   word_of_nat (length utf8) \<le> n
               | _ \<Rightarrow> False) expected_type)
          (slift (rbind v (\<lambda>v. Inr (Inl v))))))"

definition read_item ::
  "read_options \<Rightarrow> TypeSignature option \<Rightarrow> TypePrefix \<Rightarrow> (Value + DeserializeStackItem) reads_bytes" where
  "read_item opts expected_type prefix =
     (case prefix of
        PrefixInt \<Rightarrow>
          sthen (check_match (\<lambda>t. t = IntType) expected_type)
            (sbind (read_exact 16) (\<lambda>buffer. sret (Inl (Value.Int (i128_from_be_bytes buffer)))))
      | PrefixUInt \<Rightarrow>
          sthen (check_match (\<lambda>t. t = UIntType) expected_type)
            (sbind (read_exact 16) (\<lambda>buffer. sret (Inl (UInt (from_be_bytes buffer)))))
      | PrefixBuffer \<Rightarrow> read_buffer_item expected_type
      | PrefixBoolTrue \<Rightarrow>
          sthen (check_match (\<lambda>t. t = BoolType) expected_type) (sret (Inl (Bool True)))
      | PrefixBoolFalse \<Rightarrow>
          sthen (check_match (\<lambda>t. t = BoolType) expected_type) (sret (Inl (Bool False)))
      | PrefixPrincipalStandard \<Rightarrow>
          sthen (check_match (\<lambda>t. t = PrincipalType) expected_type)
            (sbind read_standard_principal (\<lambda>p. sret (Inl (Principal (Standard p)))))
      | PrefixPrincipalContract \<Rightarrow> read_contract_item opts expected_type
      | PrefixResponseOk \<Rightarrow> read_response_item True expected_type
      | PrefixResponseErr \<Rightarrow> read_response_item False expected_type
      | PrefixOptionalNone \<Rightarrow>
          sthen (check_match (\<lambda>t. case t of OptionalType _ \<Rightarrow> True | _ \<Rightarrow> False) expected_type) (sret (Inl none))
      | PrefixOptionalSome \<Rightarrow> read_some_item expected_type
      | PrefixList \<Rightarrow> read_list_item expected_type
      | PrefixTuple \<Rightarrow> read_tuple_item opts expected_type
      | PrefixStringASCII \<Rightarrow> read_ascii_item expected_type
      | PrefixStringUTF8 \<Rightarrow> read_utf8_item expected_type)"

lemmas read_item_defs = read_item_def read_buffer_item_def read_contract_item_def read_response_item_def
  read_some_item_def read_list_item_def read_tuple_item_def read_ascii_item_def read_utf8_item_def

text \<open>
  The inner loop: a finished item goes into the container on top of the stack, which may be
  finished in turn. The result is the value of the whole input, or the stack to go on with.
\<close>

definition push_entry :: "read_options \<Rightarrow> TupleTypeSignature option \<Rightarrow> bool \<Rightarrow> bool" where
  "push_entry opts expected_type next_sanitize \<longleftrightarrow>
     (if opt_sanitize opts then (if expected_type \<noteq> None then \<not> next_sanitize else True) else True)"

definition complete_tuple ::
  "read_options \<Rightarrow> (string \<times> Value) list \<Rightarrow> TupleTypeSignature option \<Rightarrow> Value reads_bytes" where
  "complete_tuple opts items expected_type =
     (case expected_type of
        Some tuple_type \<Rightarrow>
          if length items \<noteq> unat (tuple_len tuple_type) then sfail (DeserializeExpected (TupleType tuple_type))
          else finish_tuple opts items expected_type
      | None \<Rightarrow> finish_tuple opts items expected_type)"

definition too_large :: "ClarityTypeError + Value \<Rightarrow> Value reads_bytes" where
  "too_large r = slift (map_err (\<lambda>_. bad_data ''Value too large'') r)"

fun finish_item ::
  "read_options \<Rightarrow> Value \<Rightarrow> DeserializeStackItem list \<Rightarrow> (Value + DeserializeStackItem list) reads_bytes" where
  "finish_item opts item [] =
     sfail (bad_data ''Deserializer processed item, but deserializer stack does not expect another value'')"
| "finish_item opts item (DTopLevel _ # stack) = sret (Inl item)"
| "finish_item opts item (DList items expected_len expected_type # stack) =
     (let items = items @ [item]
      in if unat expected_len \<le> length items then
           sbind (finish_list items expected_type) (\<lambda>finished_list. finish_item opts finished_list stack)
         else sret (Inr (DList items expected_len expected_type # stack)))"
| "finish_item opts item (DTuple items expected_len processed_entries expected_type next_name next_sanitize # stack) =
     (let entries = (if push_entry opts expected_type next_sanitize then items @ [(next_name, item)] else items);
          processed_entries = processed_entries + 1
      in if expected_len \<le> processed_entries then
           sbind (complete_tuple opts entries expected_type) (\<lambda>finished_tuple.
           finish_item opts finished_tuple stack)
         else
           sbind read_clarity_name (\<lambda>key.
           sret (Inr (DTuple entries expected_len processed_entries expected_type key
                        (elides opts expected_type key) # stack))))"
| "finish_item opts item (DOptionSome _ # stack) =
     sbind (too_large (value_some item)) (\<lambda>finished_some. finish_item opts finished_some stack)"
| "finish_item opts item (DResponseOk _ # stack) =
     sbind (too_large (okay item)) (\<lambda>finished_some. finish_item opts finished_some stack)"
| "finish_item opts item (DResponseErr _ # stack) =
     sbind (too_large (error item)) (\<lambda>finished_some. finish_item opts finished_some stack)"

text \<open>One round of the outer loop, on a stack that is not empty.\<close>

definition read_prefix :: "TypePrefix reads_bytes" where
  "read_prefix =
     sbind (read_exact 1) (\<lambda>header. slift (ok_or (prefix_from_u8 (header ! 0)) (bad_data ''Bad type prefix'')))"

definition deserialize_round ::
  "read_options \<Rightarrow> DeserializeStackItem list \<Rightarrow> (Value + DeserializeStackItem list) reads_bytes" where
  "deserialize_round opts stack =
     (if length stack > depth_check opts then sfail (BadTypeError TypeSignatureTooDeep)
      else
        sbind (slift (next_expected_type (hd stack))) (\<lambda>expected_type.
        sbind read_prefix (\<lambda>prefix.
        sbind (read_item opts expected_type prefix) (\<lambda>r.
        case r of
          Inl item \<Rightarrow> finish_item opts item stack
        | Inr frame \<Rightarrow> sret (Inr (frame # stack))))))"

subsection \<open>Every round consumes input\<close>

text \<open>
  What a reader may still take: the rest of the input, up to its bound. A successful read moves the
  reader on by some bytes within that budget.
\<close>

definition budget :: "BoundReader \<Rightarrow> nat" where
  "budget r = min (length (br_fd r)) (br_max_len r - br_read_so_far r)"

definition advance :: "nat \<Rightarrow> BoundReader \<Rightarrow> BoundReader" where
  "advance k r = r\<lparr>br_fd := drop k (br_fd r), br_read_so_far := br_read_so_far r + k\<rparr>"

definition consumes :: "'a reads_bytes \<Rightarrow> bool" where
  "consumes m \<longleftrightarrow> (\<forall>r x r'. m r = (Inr x, r') \<longrightarrow> (\<exists>k \<le> budget r. r' = advance k r))"

lemma advance_simps [simp]:
  "advance 0 r = r" "advance j (advance k r) = advance (k + j) r" "budget (advance k r) = budget r - k"
  by (auto simp: advance_def budget_def add.commute)

lemma bound_read_advances: "bound_read n r = (Inr buf, r') \<Longrightarrow> length buf \<le> budget r \<and> r' = advance (length buf) r"
  by (auto simp: bound_read_def budget_def advance_def Let_def min_def drop_all split: if_splits)

lemma bound_read_length: "bound_read n r = (Inr buf, r') \<Longrightarrow> length (br_fd r') + length buf = length (br_fd r)"
  by (auto simp: bound_read_def Let_def split: if_splits)

lemma read_exact_length: "read_exact n r = (Inr bs, r') \<Longrightarrow> length (br_fd r') + length bs = length (br_fd r) \<and> length bs = n"
proof (induction n arbitrary: r bs r' rule: less_induct)
  case (less n)
  show ?case
  proof (cases "n = 0")
    case False
    with less.prems obtain buf s rest where buf: "bound_read n r = (Inr buf, s)" "buf \<noteq> []"
      and rest: "read_exact (n - length buf) s = (Inr rest, r')" "bs = buf @ rest"
      by (subst (asm) read_exact.simps) (auto split: prod.splits sum.splits if_splits)
    have "length buf \<le> n"
      using buf by (auto simp: bound_read_def Let_def split: if_splits)
    moreover have "length (br_fd r') + length rest = length (br_fd s) \<and> length rest = n - length buf"
      using less.IH [of "n - length buf" s rest r'] buf(2) rest False by auto
    ultimately show ?thesis
      using bound_read_length [OF buf(1)] rest(2) by auto
  qed (use less.prems in \<open>simp add: read_exact.simps\<close>)
qed

lemma read_exact_advances: "read_exact n r = (Inr bs, r') \<Longrightarrow> length bs \<le> budget r \<and> r' = advance (length bs) r"
proof (induction n arbitrary: r bs r' rule: less_induct)
  case (less n)
  show ?case
  proof (cases "n = 0")
    case False
    with less.prems obtain buf s rest where buf: "bound_read n r = (Inr buf, s)" "buf \<noteq> []"
      and rest: "read_exact (n - length buf) s = (Inr rest, r')" "bs = buf @ rest"
      by (subst (asm) read_exact.simps) (auto split: prod.splits sum.splits if_splits)
    with less.IH [of "n - length buf" s rest r'] False have "length rest \<le> budget s" "r' = advance (length rest) s" by auto
    with bound_read_advances [OF buf(1)] rest(2) show ?thesis by auto
  qed (use less.prems in \<open>simp add: read_exact.simps\<close>)
qed

lemma consumes_read_exact [intro]: "consumes (read_exact n)"
  unfolding consumes_def using read_exact_advances by blast

lemma consumes_basic [intro]: "consumes (sret x)" "consumes (sfail e)" "consumes (slift r)"
  by (auto simp: consumes_def run_simps intro!: exI [of _ 0])

lemma consumes_sbind [intro]:
  assumes "consumes m" "\<And>x. consumes (f x)"
  shows "consumes (sbind m f)"
  unfolding consumes_def
proof (intro allI impI)
  fix r y r' assume "sbind m f r = (Inr y, r')"
  then obtain x s where "m r = (Inr x, s)" "f x s = (Inr y, r')" by auto
  with assms obtain j k where "j \<le> budget r" "s = advance j r" "k \<le> budget s" "r' = advance k s"
    unfolding consumes_def by meson
  then show "\<exists>k \<le> budget r. r' = advance k r" by (intro exI [of _ "j + k"]) auto
qed

lemma consumes_sthen [intro]: "consumes m \<Longrightarrow> consumes n \<Longrightarrow> consumes (sthen m n)"
  unfolding sthen_def by (rule consumes_sbind)

lemma consumes_if [intro]: "consumes m \<Longrightarrow> consumes n \<Longrightarrow> consumes (if b then m else n)"
  by simp

lemmas consumes_intros = consumes_sbind consumes_sthen consumes_if consumes_basic consumes_read_exact

lemma consumes_readers [intro]:
  "consumes read_u32" "consumes read_buffer_length" "consumes (check_match p t)"
  "consumes read_standard_principal" "consumes (read_guarded_string g)" "consumes read_clarity_name"
  "consumes read_contract_name" "consumes (finish_list items lt)" "consumes (finish_tuple opts fs tt)"
  "consumes (complete_tuple opts fs tt)" "consumes (too_large v)"
  unfolding read_u32_def read_buffer_length_def check_match_def read_standard_principal_def
      read_guarded_string_def read_clarity_name_def read_contract_name_def finish_list_def finish_tuple_def
      complete_tuple_def too_large_def
  by (intro consumes_intros | simp only: split: option.split | safe)+

lemma consumes_read_item: "consumes (read_item opts t p)"
  unfolding read_item_defs Let_def
  by (cases p; simp only: TypePrefix.case)
    (intro consumes_intros consumes_readers)+

lemma consumes_finish_item: "consumes (finish_item opts item stack)"
  by (induction opts item stack rule: finish_item.induct) (auto simp: Let_def)

lemma deserialize_round_advances:
  assumes "deserialize_round opts stack r = (Inr x, r')"
  shows "\<exists>k. 0 < k \<and> k \<le> budget r \<and> r' = advance k r"
proof -
  obtain t p s1 s2 y where first: "read_prefix r = (Inr p, s1)" and item: "read_item opts t p s1 = (Inr y, s2)"
    and y: "(case y of Inl item \<Rightarrow> finish_item opts item stack | Inr frame \<Rightarrow> sret (Inr (frame # stack))) s2 = (Inr x, r')"
    using assms by (auto simp: deserialize_round_def slift_run sfail_run split: if_splits)
  from first have "1 \<le> budget r" "s1 = advance 1 r"
    using read_exact_advances [of 1 r] read_exact_length [of 1 r] by (fastforce simp: read_prefix_def slift_run)+
  moreover obtain j where "j \<le> budget s1" "s2 = advance j s1"
    using item consumes_read_item [of opts t p] unfolding consumes_def by blast
  moreover have "consumes (case y of Inl item \<Rightarrow> finish_item opts item stack | Inr frame \<Rightarrow> sret (Inr (frame # stack)))"
    by (cases y) (auto intro: consumes_finish_item)
  with y obtain k where "k \<le> budget s2" "r' = advance k s2" unfolding consumes_def by blast
  ultimately show ?thesis by (intro exI [of _ "1 + j + k"]) (simp add: add.assoc)
qed

lemma deserialize_round_shorter:
  assumes "deserialize_round opts stack r = (Inr x, r')"
  shows "length (br_fd r') < length (br_fd r)" "budget r' < budget r"
  using deserialize_round_advances [OF assms] by (auto simp: advance_def budget_def)

subsection \<open>The outer loop\<close>

function deserialize_loop :: "read_options \<Rightarrow> DeserializeStackItem list \<Rightarrow> Value reads_bytes" where
  "deserialize_loop opts stack r =
     (if stack = [] then (Inl (bad_data ''Invalid data: stack ran out before finishing parsing''), r)
      else case deserialize_round opts stack r of
        (Inl e, r') \<Rightarrow> (Inl e, r')
      | (Inr (Inl v), r') \<Rightarrow> (Inr v, r')
      | (Inr (Inr stack'), r') \<Rightarrow> deserialize_loop opts stack' r')"
  by auto
termination
  by (relation "measure (\<lambda>(_, _, r). length (br_fd r))") (auto dest: deserialize_round_shorter(1) [OF sym])

declare deserialize_loop.simps [simp del]

definition inner_deserialize_read :: "read_options \<Rightarrow> TypeSignature option \<Rightarrow> Value reads_bytes" where
  "inner_deserialize_read opts top_expected_type = deserialize_loop opts [DTopLevel top_expected_type]"

section \<open>Entry points\<close>

definition deserialize_read_count_with_options ::
  "u8 list \<Rightarrow> TypeSignature option \<Rightarrow> read_options \<Rightarrow> SerializationError + Value \<times> nat" where
  "deserialize_read_count_with_options bytes expected_type opts =
     (let bound_value_serialization_bytes =
            (if opt_sanitize opts \<and> expected_type \<noteq> None then SANITIZATION_READ_BOUND
             else unat BOUND_VALUE_SERIALIZATION_BYTES)
      in case inner_deserialize_read opts expected_type (from_reader bytes bound_value_serialization_bytes) of
           (Inl e, r) \<Rightarrow> Inl e
         | (Inr v, r) \<Rightarrow> Inr (v, br_read_so_far r))"

definition deserialize_read_count ::
  "u8 list \<Rightarrow> TypeSignature option \<Rightarrow> bool \<Rightarrow> SerializationError + Value \<times> nat" where
  "deserialize_read_count bytes expected_type sanitize =
     deserialize_read_count_with_options bytes expected_type
       \<lparr>opt_sanitize = sanitize, opt_behavior = LEGACY, opt_name_limit = LegacyLimit\<rparr>"

definition deserialize_read :: "u8 list \<Rightarrow> TypeSignature option \<Rightarrow> bool \<Rightarrow> SerializationError + Value" where
  "deserialize_read bytes expected_type sanitize =
     rbind (deserialize_read_count bytes expected_type sanitize) (\<lambda>(v, _). Inr v)"

definition try_deserialize_bytes :: "u8 list \<Rightarrow> TypeSignature \<Rightarrow> bool \<Rightarrow> SerializationError + Value" where
  "try_deserialize_bytes bytes expected sanitize = deserialize_read bytes (Some expected) sanitize"

definition try_deserialize_bytes_at_epoch ::
  "u8 list \<Rightarrow> TypeSignature \<Rightarrow> StacksEpochId \<Rightarrow> SerializationError + Value" where
  "try_deserialize_bytes_at_epoch bytes expected epoch =
     rbind (deserialize_read_count_with_options bytes (Some expected)
              \<lparr>opt_sanitize = value_sanitizing epoch, opt_behavior = tuple_fields_behavior epoch,
               opt_name_limit = LegacyLimit\<rparr>) (\<lambda>(v, _). Inr v)"

definition try_deserialize_hex :: "string \<Rightarrow> TypeSignature \<Rightarrow> bool \<Rightarrow> SerializationError + Value" where
  "try_deserialize_hex hex expected sanitize =
     rbind (map_err (\<lambda>_. bad_data ''Bad hex string'') (hex_bytes hex)) (\<lambda>data.
     try_deserialize_bytes data expected sanitize)"

definition try_deserialize_hex_at_epoch ::
  "string \<Rightarrow> TypeSignature \<Rightarrow> StacksEpochId \<Rightarrow> SerializationError + Value" where
  "try_deserialize_hex_at_epoch hex expected epoch =
     rbind (map_err (\<lambda>_. bad_data ''Bad hex string'') (hex_bytes hex)) (\<lambda>data.
     try_deserialize_bytes_at_epoch data expected epoch)"

definition try_deserialize_bytes_exact_at_epoch ::
  "u8 list \<Rightarrow> TypeSignature \<Rightarrow> StacksEpochId \<Rightarrow> SerializationError + Value" where
  "try_deserialize_bytes_exact_at_epoch bytes expected epoch =
     rbind (deserialize_read_count_with_options bytes (Some expected)
              \<lparr>opt_sanitize = value_sanitizing epoch, opt_behavior = tuple_fields_behavior epoch,
               opt_name_limit = contract_name_limit epoch\<rparr>) (\<lambda>(v, read_count).
     if read_count \<noteq> length bytes then Inl LeftoverBytesInDeserialization else Inr v)"

definition try_deserialize_bytes_untyped :: "u8 list \<Rightarrow> SerializationError + Value" where
  "try_deserialize_bytes_untyped bytes = deserialize_read bytes None False"

definition strip_0x :: "string \<Rightarrow> string" where
  "strip_0x hex = (if take 2 hex = ''0x'' then drop 2 hex else hex)"

definition try_deserialize_hex_untyped :: "string \<Rightarrow> SerializationError + Value" where
  "try_deserialize_hex_untyped hex =
     rbind (map_err (\<lambda>_. bad_data ''Bad hex string'') (hex_bytes (strip_0x hex))) try_deserialize_bytes_untyped"

end
