(* ===== verification/ValueParsing.thy ===== *)
theory ValueParsing
  imports ValueSerialization MethodLaws
begin

text \<open>
  A recursive-descent reading of serialised values, the reference for the stack machine of
  \<open>ValueSerialization\<close>, and the proof that the two agree on every input: result, error and
  reader state; and a bound on the rounds of the stack machine.
\<close>

section \<open>Recursive descent\<close>

primrec parse_items :: "nat \<Rightarrow> Value reads_bytes \<Rightarrow> Value list reads_bytes" where
  "parse_items 0 p = sret []"
| "parse_items (Suc n) p = sbind p (\<lambda>v. sbind (parse_items n p) (\<lambda>vs. sret (v # vs)))"

definition field_expected ::
  "read_options \<Rightarrow> TupleTypeSignature option \<Rightarrow> string \<Rightarrow> SerializationError + TypeSignature option" where
  "field_expected opts tuple_type key = next_expected_type (DTuple [] 0 0 tuple_type key (elides opts tuple_type key))"

definition field_entry ::
  "read_options \<Rightarrow> TupleTypeSignature option \<Rightarrow> string \<Rightarrow> Value \<Rightarrow> (string \<times> Value) list" where
  "field_entry opts tuple_type key v =
     (if push_entry opts tuple_type (elides opts tuple_type key) then [(key, v)] else [])"

text \<open>The fields of a tuple from a key that is already read; at least one field is left.\<close>

primrec parse_fields ::
  "nat \<Rightarrow> read_options \<Rightarrow> TupleTypeSignature option
   \<Rightarrow> (SerializationError + TypeSignature option \<Rightarrow> Value reads_bytes) \<Rightarrow> string
   \<Rightarrow> (string \<times> Value) list reads_bytes" where
  "parse_fields 0 opts tuple_type p key =
     sbind (p (field_expected opts tuple_type key)) (\<lambda>v. sret (field_entry opts tuple_type key v))"
| "parse_fields (Suc n) opts tuple_type p key =
     sbind (p (field_expected opts tuple_type key)) (\<lambda>v.
     sbind read_clarity_name (\<lambda>key'.
     sbind (parse_fields n opts tuple_type p key') (\<lambda>entries.
     sret (field_entry opts tuple_type key v @ entries))))"

fun parse_frame ::
  "read_options \<Rightarrow> (SerializationError + TypeSignature option \<Rightarrow> Value reads_bytes)
   \<Rightarrow> DeserializeStackItem \<Rightarrow> Value reads_bytes" where
  "parse_frame opts p (DList items len list_type) =
     sbind (parse_items (unat len - length items) (p (Inr (map_option ltd_entry_type list_type)))) (\<lambda>vs.
     finish_list (items @ vs) list_type)"
| "parse_frame opts p (DTuple items len processed tuple_type key _) =
     sbind (parse_fields (unat len - unat processed - 1) opts tuple_type p key) (\<lambda>entries.
     complete_tuple opts (items @ entries) tuple_type)"
| "parse_frame opts p (DOptionSome t) = sbind (p (Inr t)) (\<lambda>v. too_large (value_some v))"
| "parse_frame opts p (DResponseOk t) = sbind (p (Inr t)) (\<lambda>v. too_large (okay v))"
| "parse_frame opts p (DResponseErr t) = sbind (p (Inr t)) (\<lambda>v. too_large (error v))"
| "parse_frame opts p (DTopLevel t) = p (Inr t)"

primrec parse_value ::
  "nat \<Rightarrow> read_options \<Rightarrow> SerializationError + TypeSignature option \<Rightarrow> Value reads_bytes" where
  "parse_value 0 opts expected = sfail (BadTypeError TypeSignatureTooDeep)"
| "parse_value (Suc d) opts expected =
     sbind (slift expected) (\<lambda>expected_type.
     sbind read_prefix (\<lambda>prefix.
     sbind (read_item opts expected_type prefix) (\<lambda>r.
     case r of
       Inl v \<Rightarrow> sret v
     | Inr frame \<Rightarrow> parse_frame opts (parse_value d opts) frame)))"

section \<open>The stack machine agrees\<close>

definition continue_with :: "read_options \<Rightarrow> Value \<Rightarrow> DeserializeStackItem list \<Rightarrow> Value reads_bytes" where
  "continue_with opts v stack =
     sbind (finish_item opts v stack) (\<lambda>r. case r of Inl v \<Rightarrow> sret v | Inr stack' \<Rightarrow> deserialize_loop opts stack')"

fun open_frame :: "read_options \<Rightarrow> DeserializeStackItem \<Rightarrow> bool" where
  "open_frame opts (DList items len _) \<longleftrightarrow> length items < unat len"
| "open_frame opts (DTuple items len processed tt key el) \<longleftrightarrow> processed < len \<and> el = elides opts tt key"
| "open_frame opts (DTopLevel _) \<longleftrightarrow> False"
| "open_frame opts _ \<longleftrightarrow> True"

lemma deserialize_loop_round:
  "stack \<noteq> [] \<Longrightarrow> deserialize_loop opts stack =
     sbind (deserialize_round opts stack) (\<lambda>r. case r of Inl v \<Rightarrow> sret v | Inr stack' \<Rightarrow> deserialize_loop opts stack')"
  by (rule ext, subst deserialize_loop.simps) (auto simp: sbind_def sret_def split: prod.splits sum.splits)

lemma unat_u64_of_u32: "unat (ucast (w :: u32) :: u64) = unat w"
  using unat_lt_exp [of w] by (simp add: unsigned_ucast_eq take_bit_nat_eq_self_iff)

lemma read_item_frame:
  assumes "read_item opts t p r = (Inr (Inr frame), r')"
  shows "open_frame opts frame"
  using assms
  by (cases p) (auto simp: read_item_defs Let_def sret_run sfail_run slift_run word_less_nat_alt
      unat_u64_of_u32 split: if_splits sum.splits)

lemma frame_list:
  assumes loop: "\<And>f. deserialize_loop opts (f # stack) =
      sbind (p (next_expected_type f)) (\<lambda>v. continue_with opts v (f # stack))"
    and "length items + Suc n = unat len"
  shows "deserialize_loop opts (DList items len lt # stack) =
    sbind (parse_frame opts p (DList items len lt)) (\<lambda>v. continue_with opts v stack)"
  using assms(2)
proof (induction n arbitrary: items)
  case 0
  then have "unat len - length items = 1" "unat len = Suc (length items)" by auto
  then show ?case
    by (simp add: loop continue_with_def sbind_assoc)
next
  case (Suc n)
  then have rest: "unat len - length items = Suc (Suc n)" "unat len - Suc (length items) = Suc n"
    "\<not> unat len \<le> Suc (length items)" by auto
  have "deserialize_loop opts (DList (items @ [v]) len lt # stack) =
      sbind (parse_items (Suc n) (p (Inr (map_option ltd_entry_type lt)))) (\<lambda>vs.
      sbind (finish_list (items @ v # vs) lt) (\<lambda>v. continue_with opts v stack))" for v
    using Suc.IH [of "items @ [v]"] Suc.prems rest by (simp add: sbind_assoc)
  with rest show ?case
    by (simp add: loop continue_with_def [of opts _ "_ # _"] sbind_assoc)
qed

lemma finish_field:
  "finish_item opts v (DTuple items len processed tt key (elides opts tt key) # stack) =
     (if len \<le> processed + 1 then
        sbind (complete_tuple opts (items @ field_entry opts tt key v) tt) (\<lambda>t. finish_item opts t stack)
      else
        sbind read_clarity_name (\<lambda>key'.
        sret (Inr (DTuple (items @ field_entry opts tt key v) len (processed + 1) tt key' (elides opts tt key') # stack))))"
  by (simp add: field_entry_def Let_def)

lemma next_expected_field:
  "next_expected_type (DTuple items len processed tt key (elides opts tt key)) = field_expected opts tt key"
  by (cases tt) (simp_all add: field_expected_def)

lemma frame_tuple:
  assumes loop: "\<And>f. deserialize_loop opts (f # stack) =
      sbind (p (next_expected_type f)) (\<lambda>v. continue_with opts v (f # stack))"
    and "unat processed + Suc n = unat len"
  shows "deserialize_loop opts (DTuple items len processed tt key (elides opts tt key) # stack) =
    sbind (parse_frame opts p (DTuple items len processed tt key el)) (\<lambda>v. continue_with opts v stack)"
  using assms(2)
proof (induction n arbitrary: items processed key)
  case 0
  have "unat (processed + 1) = unat len"
    using 0 unat_lt_exp [of len] by (simp add: unat_word_ariths)
  then have "len \<le> processed + 1" "unat len - unat processed - 1 = 0"
    using 0 by (simp_all add: word_le_nat_alt)
  then show ?case
    by (simp add: loop next_expected_field finish_field continue_with_def sbind_assoc del: finish_item.simps(4))
next
  case (Suc n)
  have u: "unat (processed + 1) = Suc (unat processed)"
    using Suc.prems unat_lt_exp [of len] by (simp add: unat_word_ariths)
  then have rest: "\<not> len \<le> processed + 1" "unat len - unat processed - 1 = Suc n" "unat len - unat (processed + 1) - 1 = n"
    using Suc.prems by (simp_all add: word_le_nat_alt)
  have "deserialize_loop opts (DTuple items' len (processed + 1) tt key' (elides opts tt key') # stack) =
      sbind (parse_fields n opts tt p key') (\<lambda>entries.
      sbind (complete_tuple opts (items' @ entries) tt) (\<lambda>v. continue_with opts v stack))" for items' key'
    using Suc.IH [of "processed + 1" items' key'] Suc.prems u unfolding parse_frame.simps rest(3) sbind_assoc by simp
  with rest show ?case
    by (simp add: loop [of "DTuple items len processed tt key _"] next_expected_field finish_field
        continue_with_def [of opts _ "_ # _"] sbind_assoc del: finish_item.simps(4))
qed

lemma frame_any:
  assumes loop: "\<And>f. deserialize_loop opts (f # stack) =
      sbind (p (next_expected_type f)) (\<lambda>v. continue_with opts v (f # stack))"
    and "open_frame opts f"
  shows "deserialize_loop opts (f # stack) = sbind (parse_frame opts p f) (\<lambda>v. continue_with opts v stack)"
proof (cases f)
  case (DList items len lt)
  with assms(2) have "length items + Suc (unat len - length items - 1) = unat len" by simp
  then show ?thesis unfolding DList by (rule frame_list [OF loop])
next
  case (DTuple items len processed tt key el)
  with assms(2) have "unat processed + Suc (unat len - unat processed - 1) = unat len" "el = elides opts tt key"
    by (simp_all add: word_less_nat_alt)
  then show ?thesis unfolding DTuple using frame_tuple [OF loop] by simp
qed (use assms(2) in \<open>simp_all add: loop continue_with_def sbind_assoc\<close>)

lemma loop_parse:
  "length (f # stack) + d = Suc (depth_check opts) \<Longrightarrow>
   deserialize_loop opts (f # stack) =
     sbind (parse_value d opts (next_expected_type f)) (\<lambda>v. continue_with opts v (f # stack))"
proof (induction d arbitrary: f stack)
  case 0
  then show ?case
    by (simp add: deserialize_loop_round deserialize_round_def)
next
  case (Suc d)
  have sub: "deserialize_loop opts (g # f # stack) =
      sbind (parse_value d opts (next_expected_type g)) (\<lambda>v. continue_with opts v (g # f # stack))" for g
    using Suc by simp
  have "deserialize_loop opts (f # stack) r =
     sbind (parse_value (Suc d) opts (next_expected_type f)) (\<lambda>v. continue_with opts v (f # stack)) r" for r
  proof -
    let ?k = "\<lambda>x. case x of Inl item \<Rightarrow> continue_with opts item (f # stack)
      | Inr frame \<Rightarrow> deserialize_loop opts (frame # f # stack)"
    let ?k' = "\<lambda>x. case x of Inl v \<Rightarrow> continue_with opts v (f # stack)
      | Inr frame \<Rightarrow> sbind (parse_frame opts (parse_value d opts) frame) (\<lambda>v. continue_with opts v (f # stack))"
    let ?read = "\<lambda>k. sbind (slift (next_expected_type f)) (\<lambda>e. sbind read_prefix (\<lambda>p. sbind (read_item opts e p) k))"
    have "deserialize_loop opts (f # stack) r = ?read ?k r"
      using Suc.prems
      by (simp add: deserialize_loop_round deserialize_round_def sbind_assoc continue_with_def sum.case_distrib
          [of "\<lambda>m. sbind m _"] cong: sum.case_cong)
    also have "\<dots> = ?read ?k' r"
      by (intro sbind_cong_run) (auto dest!: read_item_frame simp: frame_any [OF sub] split: sum.splits)
    also have "\<dots> = sbind (parse_value (Suc d) opts (next_expected_type f)) (\<lambda>v. continue_with opts v (f # stack)) r"
      by (simp add: sbind_assoc sum.case_distrib [of "\<lambda>m. sbind m _"] cong: sum.case_cong)
    finally show ?thesis .
  qed
  then show ?case by blast
qed

lemma inner_deserialize_parse:
  "inner_deserialize_read opts expected = parse_value (depth_check opts) opts (Inr expected)"
  by (simp add: inner_deserialize_read_def loop_parse [of _ _ "depth_check opts"] continue_with_def)

text \<open>
  (C28) The reader with its explicit stack of unfinished containers computes what plain recursive
  descent computes, on every input and with every option: the same value or error, and the same
  reader afterwards. The nesting the stack admits is the recursion depth.
\<close>

theorem stack_reader_is_recursive_descent:
  "inner_deserialize_read opts expected r = parse_value (depth_check opts) opts (Inr expected) r"
  by (simp add: inner_deserialize_parse)

section \<open>Reading stops\<close>

text \<open>The rounds of the reader's loop, counted; no result when the rounds run out.\<close>

primrec deserialize_rounds ::
  "nat \<Rightarrow> read_options \<Rightarrow> DeserializeStackItem list \<Rightarrow> BoundReader \<Rightarrow> ((SerializationError + Value) \<times> BoundReader) option" where
  "deserialize_rounds 0 opts stack r = None"
| "deserialize_rounds (Suc n) opts stack r =
     (if stack = [] then Some (Inl (bad_data ''Invalid data: stack ran out before finishing parsing''), r)
      else case deserialize_round opts stack r of
        (Inl e, r') \<Rightarrow> Some (Inl e, r')
      | (Inr (Inl v), r') \<Rightarrow> Some (Inr v, r')
      | (Inr (Inr stack'), r') \<Rightarrow> deserialize_rounds n opts stack' r')"

lemma deserialize_rounds_loop: "budget r < n \<Longrightarrow> deserialize_rounds n opts stack r = Some (deserialize_loop opts stack r)"
proof (induction n arbitrary: stack r)
  case (Suc n)
  then show ?case
    using deserialize_round_shorter(2) [of opts stack r]
    by (subst deserialize_loop.simps) (fastforce split: prod.splits sum.splits)
qed simp

text \<open>
  (C29) Reading a value from untrusted bytes stops: whatever the bytes, the expected type and the
  options, the reader's loop has its value or its error after at most one round more than there are
  bytes to read, and its limit bounds the rounds on an input that is longer.
\<close>

theorem reading_stops:
  "deserialize_rounds (Suc (min (length bytes) limit)) opts [DTopLevel expected] (from_reader bytes limit) =
     Some (inner_deserialize_read opts expected (from_reader bytes limit))"
  by (simp add: inner_deserialize_read_def deserialize_rounds_loop budget_def from_reader_def del: deserialize_rounds.simps)

end
