(* ===== verification/WellTypedValues.thy ===== *)
theory WellTypedValues
  imports Values
begin

text \<open>
  Well-typed values: the invariant the guarded constructors of values establish. Each part of a
  value is in range, and lists, tuples, optionals and responses agree with the types they carry.
\<close>

definition utf8_chunk :: "u8 list \<Rightarrow> bool" where
  "utf8_chunk bs \<longleftrightarrow> (case utf8_next bs of Some (_, []) \<Rightarrow> True | _ \<Rightarrow> False)"

definition ascii_byte :: "u8 \<Rightarrow> bool" where
  "ascii_byte b \<longleftrightarrow> is_ascii_alphanumeric b \<or> is_ascii_punctuation b \<or> is_ascii_whitespace b"

fun wt_string :: "CharType \<Rightarrow> bool" where
  "wt_string (CharASCII data) \<longleftrightarrow> length data \<le> unat MAX_VALUE_SIZE \<and> list_all ascii_byte data"
| "wt_string (CharUTF8 data) \<longleftrightarrow> length data \<le> unat MAX_UTF8_VALUE_SIZE \<and> list_all utf8_chunk data"

text \<open>The value has a type, and the declared type admits it.\<close>

definition has_type :: "Value \<Rightarrow> TypeSignature \<Rightarrow> bool" where
  "has_type v t \<longleftrightarrow> (case type_of v of Inr u \<Rightarrow> adm t u | Inl _ \<Rightarrow> False)"

fun fields_have_types :: "(string \<times> Value) list \<Rightarrow> (string \<times> TypeSignature) list \<Rightarrow> bool" where
  "fields_have_types [] [] \<longleftrightarrow> True"
| "fields_have_types ((k, v) # m) ((k', t) # ts) \<longleftrightarrow> k = k' \<and> has_type v t \<and> fields_have_types m ts"
| "fields_have_types _ _ \<longleftrightarrow> False"

primrec wt :: "Value \<Rightarrow> bool" and wt_seq :: "SequenceData \<Rightarrow> bool" where
  "wt (Value.Int i) \<longleftrightarrow> - (2 ^ 127) \<le> i \<and> i < 2 ^ 127"
| "wt (UInt u) \<longleftrightarrow> True"
| "wt (Bool b) \<longleftrightarrow> True"
| "wt (Sequence s) \<longleftrightarrow> wt_seq s"
| "wt (Principal p) \<longleftrightarrow> wf_principal p"
| "wt (Tuple t m) \<longleftrightarrow>
     wf_tuple t \<and> plain_tuple t \<and> fields_have_types m (tts_type_map t) \<and> list_all snd (map (map_prod id wt) m)"
| "wt (Optional v) \<longleftrightarrow>
     (case map_option wt v of None \<Rightarrow> True | Some b \<Rightarrow> b \<and> value_some (the v) = Inr (Optional v))"
| "wt (Response committed v) \<longleftrightarrow> wt v \<and> okay v = Inr (Response True v)"
| "wt (CallableContract c) \<longleftrightarrow> False"
| "wt_seq (Buffer data) \<longleftrightarrow> length data \<le> unat MAX_VALUE_SIZE"
| "wt_seq (List data l) \<longleftrightarrow>
     wf_list l \<and> plain_list l \<and> length data \<le> unat (ltd_max_len l) \<and> list_all (\<lambda>b. b) (map wt data) \<and>
     list_all (\<lambda>v. has_type v (ltd_entry_type l)) data"
| "wt_seq (String s) \<longleftrightarrow> wt_string s"

section \<open>Induction on values\<close>

lemma value_induct [case_names Int UInt Bool Buffer List ASCII UTF8 Principal Tuple None Some Response Callable]:
  assumes "\<And>i. P (Value.Int i)" "\<And>u. P (UInt u)" "\<And>b. P (Bool b)"
    "\<And>data. P (Sequence (Buffer data))"
    "\<And>data l. (\<And>v. v \<in> set data \<Longrightarrow> P v) \<Longrightarrow> P (Sequence (List data l))"
    "\<And>data. P (Sequence (String (CharASCII data)))" "\<And>data. P (Sequence (String (CharUTF8 data)))"
    "\<And>p. P (Principal p)"
    "\<And>t m. (\<And>k v. (k, v) \<in> set m \<Longrightarrow> P v) \<Longrightarrow> P (Tuple t m)"
    "P (Optional None)" "\<And>v. P v \<Longrightarrow> P (Optional (Some v))"
    "\<And>committed v. P v \<Longrightarrow> P (Response committed v)" "\<And>c. P (CallableContract c)"
  shows "P v"
proof -
  have "P v" "P (Sequence s)" for s
  proof (induction v and s)
    case (Tuple t m)
    then show ?case by (intro assms(9)) (force simp: snds.simps)
  next
    case (Optional v)
    then show ?case using assms(10,11) by (cases v) auto
  next
    case (String s)
    then show ?case using assms(6,7) by (cases s) auto
  qed (use assms in auto)
  then show ?thesis by simp
qed

section \<open>Types of well-typed values\<close>

lemma epoch21_admits: "admits_type t Epoch21 u = Inr True \<longleftrightarrow> adm t u"
  by (simp add: admits_type_def adm_def)

lemma wf_type_sig_size: "wf_type t \<Longrightarrow> type_sig_size t = Inr (word_of_nat (nat_size t))"
  using wf_size [of t] by (simp add: type_sig_size_def)

lemma has_type_eq: "type_of v = Inr u \<Longrightarrow> has_type v t \<longleftrightarrow> adm t u"
  by (simp add: has_type_def)

lemma check_wrapped_eq:
  assumes "type_of v = Inr t" "wf_type t"
  shows "check_wrapped v w = Inr x \<longleftrightarrow> nat_size t + 1 \<le> 1048576 \<and> nat_depth t + 1 \<le> 32 \<and> x = w"
proof -
  have "unat (word_of_nat (nat_size t) + WRAPPER_VALUE_SIZE) = nat_size t + 1"
    using wf_size [OF assms(2)] by (simp add: unat_word_ariths unat_of_nat size_consts)
  moreover have "unat (depth t + 1) = nat_depth t + 1"
    using wf_depth [OF assms(2)] by (simp add: unat_word_ariths)
  ultimately show ?thesis
    using assms
    by (auto simp: check_wrapped_def value_size_def value_depth_def wf_type_sig_size word_less_nat_alt size_consts)
qed

lemma new_option_wf_eq:
  assumes "wf_type t"
  shows "new_option t = Inr u \<longleftrightarrow> nat_size t + 1 \<le> 1048576 \<and> nat_depth t + 1 \<le> 32 \<and> u = OptionalType t"
  using wf_size [OF assms] wf_depth [OF assms]
  by (auto simp: new_option_eq word_le_nat_alt size_consts unat_1_plus_depth unat_word_ariths unat_of_nat)

lemma new_response_wf_eq:
  assumes "wf_type t" "wf_type s"
  shows "new_response t s = Inr u \<longleftrightarrow>
    max (nat_size t) (nat_size s) + 1 \<le> 1048576 \<and> max (nat_depth t) (nat_depth s) + 1 \<le> 32 \<and> u = ResponseType t s"
  using wf_size [OF assms(1)] wf_depth [OF assms(1)] wf_size [OF assms(2)] wf_depth [OF assms(2)]
  by (auto simp: new_response_eq word_le_nat_alt size_consts unat_1_plus_depth unat_word_ariths unat_of_nat unat_max)

lemma uint_consts: "uint MAX_VALUE_SIZE = 1048576" "uint MAX_UTF8_VALUE_SIZE = 262144"
  by (simp_all add: MAX_VALUE_SIZE_def MAX_UTF8_VALUE_SIZE_def)

lemma length_word: "n < 2 ^ LENGTH('a) \<Longrightarrow> \<exists>w. unat (w :: 'a::len word) = n"
  by (rule exI [of _ "word_of_nat n"]) (simp add: unat_of_nat)

lemma buffer_length_eq: "buffer_length_try_from (int n) = Inr w \<longleftrightarrow> n \<le> 1048576 \<and> unat w = n"
  by (auto simp: buffer_length_try_from_def uint_consts unat_of_nat word_unat_eq_iff)

lemma utf8_length_eq: "string_utf8_length_try_from (int n) = Inr w \<longleftrightarrow> n \<le> 262144 \<and> unat w = n"
  by (auto simp: string_utf8_length_try_from_def uint_consts unat_of_nat word_unat_eq_iff)

lemma wt_type: "wt v \<Longrightarrow> \<exists>t. type_of v = Inr t \<and> wf_type t \<and> plain_type t"
proof (induction v rule: value_induct)
  case (Some v)
  then obtain t where t: "type_of v = Inr t" "wf_type t" "plain_type t" by auto
  with Some.prems have "new_option t = Inr (OptionalType t)"
    by (simp add: value_some_def check_wrapped_eq new_option_wf_eq)
  with t show ?case by simp
next
  case (Response committed v)
  then obtain t where t: "type_of v = Inr t" "wf_type t" "plain_type t" by auto
  with Response.prems have "nat_size t + 1 \<le> 1048576 \<and> nat_depth t + 1 \<le> 32"
    by (simp add: okay_def check_wrapped_eq)
  with t have "new_response t NoType = Inr (ResponseType t NoType)" "new_response NoType t = Inr (ResponseType NoType t)"
    by (simp_all add: new_response_wf_eq)
  with t show ?case by simp
next
  case (UTF8 data)
  moreover obtain w :: u32 where "unat w = length data"
    using UTF8 length_word [of "length data", where 'a = 32] by (auto simp: size_consts)
  ultimately have "string_utf8_length_try_from (int (length data)) = Inr w" "unat w \<le> 262144"
    by (simp_all add: utf8_length_eq size_consts)
  then show ?case by (simp add: word_le_nat_alt size_consts)
next
  case (ASCII data)
  moreover obtain w :: u32 where "unat w = length data"
    using ASCII length_word [of "length data", where 'a = 32] by (auto simp: size_consts)
  ultimately have "buffer_length_try_from (int (length data)) = Inr w" "unat w \<le> 1048576"
    by (simp_all add: buffer_length_eq size_consts)
  then show ?case by (simp add: word_le_nat_alt size_consts)
next
  case (Buffer data)
  moreover obtain w :: u32 where "unat w = length data"
    using Buffer length_word [of "length data", where 'a = 32] by (auto simp: size_consts)
  ultimately have "buffer_length_try_from (int (length data)) = Inr w" "unat w \<le> 1048576"
    by (simp_all add: buffer_length_eq size_consts)
  then show ?case by (simp add: word_le_nat_alt size_consts)
qed (auto simp: new_option_wf_eq)

lemma wt_has_own_type: "wt v \<Longrightarrow> type_of v = Inr t \<Longrightarrow> has_type v t"
  using wt_type [of v] by (auto simp: has_type_def adm_refl)

lemma type_of_shape [simp]:
  "type_of v = Inr IntType \<longleftrightarrow> (\<exists>i. v = Value.Int i)"
  "type_of v = Inr UIntType \<longleftrightarrow> (\<exists>u. v = UInt u)"
  "type_of v = Inr BoolType \<longleftrightarrow> (\<exists>b. v = Bool b)"
  "type_of v = Inr PrincipalType \<longleftrightarrow> (\<exists>p. v = Principal p)"
  "type_of v = Inr (TupleType tt) \<longleftrightarrow> (\<exists>m. v = Tuple tt m)"
  "type_of v = Inr (type_list l) \<longleftrightarrow> (\<exists>data. v = Sequence (List data l))"
  "type_of v = Inr (type_buffer n) \<longleftrightarrow> (\<exists>data. v = Sequence (Buffer data) \<and> buffer_length_try_from (int (length data)) = Inr n)"
  "type_of v = Inr (type_ascii n) \<longleftrightarrow>
     (\<exists>data. v = Sequence (String (CharASCII data)) \<and> buffer_length_try_from (int (length data)) = Inr n)"
  "type_of v = Inr (type_utf8 n) \<longleftrightarrow>
     (\<exists>data. v = Sequence (String (CharUTF8 data)) \<and> string_utf8_length_try_from (int (length data)) = Inr n)"
  "type_of v = Inr (OptionalType t) \<longleftrightarrow>
     v = Optional None \<and> t = NoType \<and> new_option NoType = Inr (OptionalType t) \<or> (\<exists>w. v = Optional (Some w) \<and> type_of w = Inr t \<and> new_option t = Inr (OptionalType t))"
  "type_of v = Inr (TraitReferenceType tr) \<longleftrightarrow> False"
  by (induction v rule: value_induct; auto simp: new_option_eq new_response_eq split: option.splits; fail)+

lemma type_of_response [simp]:
  "type_of v = Inr (ResponseType t s) \<longleftrightarrow> new_response t s = Inr (ResponseType t s) \<and>
     (\<exists>w. v = Response True w \<and> type_of w = Inr t \<and> s = NoType \<or> v = Response False w \<and> type_of w = Inr s \<and> t = NoType)"
  by (induction v rule: value_induct) (auto simp: new_option_eq new_response_eq split: option.splits)

lemma has_type_iff: "has_type v t \<longleftrightarrow> (\<exists>u. type_of v = Inr u \<and> adm t u)"
  by (auto simp: has_type_def split: sum.splits)

lemma has_type_trans: "has_type v u \<Longrightarrow> adm t u \<Longrightarrow> has_type v t"
  by (auto simp: has_type_iff intro: adm_trans)

lemma type_of_not_NoType [simp]: "type_of v \<noteq> Inr NoType"
  by (induction v rule: value_induct) (auto simp: new_option_eq new_response_eq split: option.splits)

lemma fields_have_types_iff:
  "fields_have_types m ts \<longleftrightarrow> list_all2 (\<lambda>(k, v) (k', t). k = k' \<and> has_type v t) m ts"
  by (induction m ts rule: fields_have_types.induct) auto

lemma same_keys:
  assumes "btree_wf a" "btree_wf b" "length a = length b" "fst ` set a \<subseteq> fst ` set b"
  shows "map fst a = map fst b"
proof -
  have "distinct (map fst a)" "distinct (map fst b)"
    using assms by (simp_all add: btree_wf_distinct)
  then have "card (fst ` set a) = card (fst ` set b)"
    using assms(3) by (metis distinct_card length_map set_map)
  then have "set (map fst a) = set (map fst b)"
    using assms(4) by (simp add: card_subset_eq)
  moreover have "sorted (map fst a)" "sorted (map fst b)"
    using assms(1,2) by (simp_all add: btree_wf_def strict_sorted_imp_sorted)
  ultimately show ?thesis
    using \<open>distinct (map fst a)\<close> \<open>distinct (map fst b)\<close> by (intro sorted_distinct_set_unique)
qed

text \<open>The shapes of the well-typed values of each type.\<close>

lemma wt_base_shape:
  "wt v \<Longrightarrow> has_type v IntType \<Longrightarrow> \<exists>i. v = Value.Int i"
  "wt v \<Longrightarrow> has_type v UIntType \<Longrightarrow> \<exists>u. v = UInt u"
  "wt v \<Longrightarrow> has_type v BoolType \<Longrightarrow> \<exists>b. v = Bool b"
  "wt v \<Longrightarrow> has_type v PrincipalType \<Longrightarrow> \<exists>p. v = Principal p"
  "wt v \<Longrightarrow> has_type v (type_buffer n) \<Longrightarrow> \<exists>data. v = Sequence (Buffer data) \<and> length data \<le> unat n"
  "wt v \<Longrightarrow> has_type v (type_ascii n) \<Longrightarrow> \<exists>data. v = Sequence (String (CharASCII data)) \<and> length data \<le> unat n"
  "wt v \<Longrightarrow> has_type v (type_utf8 n) \<Longrightarrow> \<exists>data. v = Sequence (String (CharUTF8 data)) \<and> length data \<le> unat n"
  using wt_type [of v]
  by (auto simp: has_type_iff adm_Principal buffer_length_eq utf8_length_eq word_le_nat_alt dest!: concretize_to_Principal)

lemma wt_list_shape:
  assumes "wt v" "has_type v (type_list (ListTypeData n t s))"
  shows "\<exists>data l. v = Sequence (List data l) \<and> length data \<le> unat n \<and> (\<forall>w \<in> set data. wt w \<and> has_type w t)"
proof -
  from assms(2) obtain k u s' data where v: "v = Sequence (List data (ListTypeData k u s'))"
    and k: "k = 0 \<or> k \<le> n \<and> adm t u"
    by (auto simp: has_type_iff)
  with assms(1) have "length data \<le> unat k" "\<And>w. w \<in> set data \<Longrightarrow> wt w \<and> has_type w u"
    by (auto simp: list_all_iff)
  with k have "length data \<le> unat n" "\<And>w. w \<in> set data \<Longrightarrow> wt w \<and> has_type w t"
    by (auto simp: word_le_nat_alt intro: has_type_trans)
  with v show ?thesis by blast
qed

lemma wt_optional_shape:
  assumes "wt v" "has_type v (OptionalType t)"
  shows "v = Optional None \<or> (\<exists>w. v = Optional (Some w) \<and> wt w \<and> has_type w t)"
  using assms by (auto simp: has_type_iff)

lemma wt_response_shape:
  assumes "wt v" "has_type v (ResponseType t s)"
  shows "\<exists>w. wt w \<and> (v = Response True w \<and> has_type w t \<or> v = Response False w \<and> has_type w s)"
  using assms by (auto simp: has_type_iff)

lemma wt_tuple_shape:
  assumes "wt v" "has_type v (TupleType (TupleTypeSignature ts s))" "btree_wf ts"
  shows "\<exists>tt m. v = Tuple tt m \<and> fields_have_types m ts \<and> (\<forall>(k, w) \<in> set m. wt w)"
proof -
  from assms(2) obtain us s' m where v: "v = Tuple (TupleTypeSignature us s') m"
    and len: "length ts = length us" and fields: "\<forall>(k, t) \<in> set ts. \<exists>u. map_of us k = Some u \<and> adm t u"
    by (auto simp: has_type_iff)
  have us: "btree_wf us" "fields_have_types m us" "\<And>k w. (k, w) \<in> set m \<Longrightarrow> wt w"
    using assms(1) v by auto
  have "fst ` set ts \<subseteq> fst ` set us"
  proof
    fix k assume "k \<in> fst ` set ts"
    then obtain u where "map_of us k = Some u" using fields by fastforce
    then show "k \<in> fst ` set us" by (metis domI dom_map_of_conv_image_fst)
  qed
  then have keys: "map fst ts = map fst us"
    using same_keys [OF assms(3) us(1) len] by simp
  have "fst (ts ! i) = fst (us ! i) \<and> adm (snd (ts ! i)) (snd (us ! i))" if "i < length ts" for i
  proof -
    have "fst (ts ! i) = fst (us ! i)" using keys that len by (metis nth_map)
    moreover have "map_of us (fst (us ! i)) = Some (snd (us ! i))"
      using us(1) that len by (simp add: btree_wf_distinct)
    moreover have "ts ! i \<in> set ts" using that by simp
    ultimately show ?thesis using fields by (cases "ts ! i") auto
  qed
  then have "list_all2 (\<lambda>(k, u) (k', t). k = k' \<and> adm t u) us ts"
    using len by (simp add: list_all2_conv_all_nth split_beta)
  then have "fields_have_types m ts"
    unfolding fields_have_types_iff
    by (intro list_all2_trans [OF _ us(2) [unfolded fields_have_types_iff]]) (auto intro: has_type_trans)
  with v us(3) show ?thesis by blast
qed

section \<open>An example\<close>

definition sample_value :: Value where
  "sample_value = Tuple (TupleTypeSignature [(''a'', OptionalType IntType), (''b'', type_buffer 4)] 44)
     [(''a'', Optional (Some (Value.Int (- 7)))), (''b'', Sequence (Buffer [1, 2, 3]))]"

lemma wt_sample_value: "wt sample_value"
proof -
  have "wf_tuple (TupleTypeSignature [(''a'', OptionalType IntType), (''b'', type_buffer 4)] 44)"
    "has_type (Optional (Some (Value.Int (- 7)))) (OptionalType IntType)"
    "has_type (Sequence (Buffer [1, 2, 3])) (type_buffer 4)"
    "value_some (Value.Int (- 7)) = Inr (Optional (Some (Value.Int (- 7))))"
    by code_simp+
  then show ?thesis by (simp add: sample_value_def size_consts)
qed

end
