(* ===== verification/ValueWriting.thy ===== *)
theory ValueWriting
  imports ValueSerialization WellTypedValues
begin

text \<open>
  Writing of well-typed values: it always succeeds, and its length is bounded by twice the size
  of the type and by the maximal serialised size of the type.
\<close>

section \<open>Serialised sizes on natural numbers\<close>

primrec nat_serialized :: "TypeSignature \<Rightarrow> nat"
  and nat_seq_serialized :: "SequenceSubtype \<Rightarrow> nat"
  and nat_list_serialized :: "ListTypeData \<Rightarrow> nat"
  and nat_tuple_serialized :: "TupleTypeSignature \<Rightarrow> nat"
where
  "nat_serialized NoType = 0"
| "nat_serialized IntType = 17"
| "nat_serialized UIntType = 17"
| "nat_serialized BoolType = 1"
| "nat_serialized (SequenceType s) = 1 + nat_seq_serialized s"
| "nat_serialized PrincipalType = 151"
| "nat_serialized (TupleType t) = 1 + nat_tuple_serialized t"
| "nat_serialized (OptionalType t) = 1 + nat_serialized t"
| "nat_serialized (ResponseType t s) = 1 + max (nat_serialized t) (nat_serialized s)"
| "nat_serialized (CallableType c) = 151"
| "nat_serialized (ListUnionType l) = 0"
| "nat_serialized (TraitReferenceType t) = 151"
| "nat_seq_serialized (BufferType n) = 4 + unat n"
| "nat_seq_serialized (ListType l) = nat_list_serialized l"
| "nat_seq_serialized (StringType s) = (case s of ASCII n \<Rightarrow> 4 + unat n | UTF8 n \<Rightarrow> 4 + 4 * unat n)"
| "nat_list_serialized (ListTypeData n t s) = 4 + unat n * nat_serialized t"
| "nat_tuple_serialized (TupleTypeSignature m s) =
     4 + sum_list (map (\<lambda>(k, n). n + length k) (map (map_prod id nat_serialized) m)) + length m"

lemma nat_serialized_le: "wf_type t \<Longrightarrow> nat_serialized t \<le> 2 * nat_size t"
proof (induction t)
  case (List n t s)
  then have "unat n * nat_serialized t \<le> unat n * (2 * nat_size t)" by (intro mult_le_mono2) simp
  then have le: "unat n * nat_serialized t \<le> 2 * (nat_size t * unat n)" by (simp add: ac_simps)
  have "a \<le> 2 * b \<Longrightarrow> 1 + (4 + a) \<le> 2 * (b + (c + 5))" for a b c :: nat by simp
  from this [OF le] show ?case by (simp only: nat_serialized.simps nat_size.simps nat_seq_serialized.simps
      nat_seq_size.simps nat_list_serialized.simps nat_list_size.simps)
next
  case (Tuple m s)
  have "\<forall>(k, t) \<in> set m. nat_serialized t \<le> 2 * nat_size t" using Tuple by auto
  then have "(\<Sum>(k, t)\<leftarrow>m. nat_serialized t + length k) \<le> 2 * (\<Sum>(k, t)\<leftarrow>m. nat_size t + length k)"
    by (induction m) auto
  moreover obtain k where "length m = Suc k" using Tuple.prems by (cases m) (auto simp: tuple_try_from_map_eq)
  ultimately show ?case by simp
next
  case (Callable c)
  then show ?case by (cases c) auto
qed auto

lemma nat_serialized_small: "wf_type t \<Longrightarrow> nat_serialized t \<le> 2097160"
  using nat_serialized_le [of t] wf_size [of t] by simp

section \<open>Writing succeeds within the bound\<close>

lemma write_each_bounded:
  assumes "\<And>w. w \<in> set ws \<Longrightarrow> \<exists>bs. w = Inr bs \<and> length bs \<le> b"
  shows "\<exists>bs. write_each ws = Inr bs \<and> length bs \<le> length ws * b"
  using assms
proof (induction ws)
  case (Cons w ws)
  then obtain bs cs where "w = Inr bs" "length bs \<le> b" "write_each ws = Inr cs" "length cs \<le> length ws * b"
    by fastforce
  then show ?case by simp
qed simp

lemma u32_try_from_word: "n < 2 ^ 32 \<Longrightarrow> u32_try_from n = Some (word_of_nat n)"
  by (simp add: unat_of_nat)

lemma write_len_word: "n \<le> 1048576 \<Longrightarrow> write_len n = Inr (to_be_bytes (word_of_nat n :: u32))"
  using buffer_length_eq [of n "word_of_nat n"] by (simp add: write_len_def unat_of_nat)

lemma length_name [simp]: "length (write_name k) = Suc (length k)"
  by (simp add: write_name_def string_bytes_def)

lemma write_fields_bounded:
  assumes "fields_have_types m ts"
    "\<And>k w t. (k, w) \<in> set m \<Longrightarrow> (k, t) \<in> set ts \<Longrightarrow> has_type w t \<Longrightarrow>
       \<exists>bs. serialize_write w = Inr bs \<and> length bs \<le> nat_serialized t"
  shows "\<exists>bs. write_each (map (\<lambda>(key, w). rbind w (\<lambda>bs. Inr (write_name key @ bs)))
       (map (map_prod id serialize_write) m)) = Inr bs \<and>
     length bs \<le> length ts + (\<Sum>(k, t)\<leftarrow>ts. nat_serialized t + length k)"
  using assms
proof (induction m arbitrary: ts)
  case (Cons x m)
  obtain k v where x: "x = (k, v)" by fastforce
  with Cons.prems(1) obtain t us where ts: "ts = (k, t) # us" "has_type v t" "fields_have_types m us"
    by (cases ts) auto
  obtain bs where bs: "serialize_write v = Inr bs" "length bs \<le> nat_serialized t"
    using Cons.prems(2) [of k v t] x ts by auto
  have "\<exists>bs. write_each (map (\<lambda>(key, w). rbind w (\<lambda>bs. Inr (write_name key @ bs)))
       (map (map_prod id serialize_write) m)) = Inr bs \<and>
     length bs \<le> length us + (\<Sum>(k, t)\<leftarrow>us. nat_serialized t + length k)"
  proof (rule Cons.IH [OF ts(3)])
    fix k' w t' assume "(k', w) \<in> set m" "(k', t') \<in> set us" "has_type w t'"
    then show "\<exists>bs. serialize_write w = Inr bs \<and> length bs \<le> nat_serialized t'"
      using Cons.prems(2) [of k' w t'] by (simp add: x ts)
  qed
  with bs show ?case by (auto simp: x ts id_def)
qed (simp add: fields_have_types_iff)

lemma utf8_chunk_encode: "utf8_chunk c \<longleftrightarrow> (\<exists>n. is_scalar n \<and> c = encode_utf8 n)"
proof
  assume "utf8_chunk c"
  then obtain n where "utf8_next c = Some (n, [])"
    by (cases "utf8_next c"; cases "snd (the (utf8_next c))") (auto simp: utf8_chunk_def)
  then show "\<exists>n. is_scalar n \<and> c = encode_utf8 n"
    using utf8_next_encode [of c n "[]"] by auto
next
  assume "\<exists>n. is_scalar n \<and> c = encode_utf8 n"
  then show "utf8_chunk c"
    using utf8_next_encode_utf8 [of _ "[]"] by (auto simp: utf8_chunk_def)
qed

lemma utf8_chunk_length: "utf8_chunk c \<Longrightarrow> length c \<le> 4"
  by (auto simp: utf8_chunk_encode encode_utf8_def)

lemma length_utf8: "list_all utf8_chunk data \<Longrightarrow> length (concat data) \<le> 4 * length data"
proof (induction data)
  case (Cons c data)
  then show ?case using utf8_chunk_length [of c] by simp
qed simp

lemma serialize_fits:
  "wf_type t \<Longrightarrow> wt v \<Longrightarrow> has_type v t \<Longrightarrow> \<exists>bs. serialize_write v = Inr bs \<and> length bs \<le> nat_serialized t"
proof (induction t arbitrary: v)
  case (List n t s)
  from wt_list_shape [OF List.prems(2,3)] obtain data l where v: "v = Sequence (List data l)" "length data \<le> unat n"
    "\<forall>w \<in> set data. wt w \<and> has_type w t" by blast
  then have "\<exists>bs. write_each (map serialize_write data) = Inr bs \<and> length bs \<le> length (map serialize_write data) * nat_serialized t"
    using List.IH List.prems(1) by (intro write_each_bounded) auto
  then obtain bs where bs: "write_each (map serialize_write data) = Inr bs" "length bs \<le> length data * nat_serialized t"
    by auto
  have "length data * nat_serialized t \<le> unat n * nat_serialized t"
    using v(2) by (rule mult_le_mono1)
  with bs(2) have "length bs \<le> unat n * nat_serialized t" by (rule le_trans)
  moreover have "length data < 2 ^ 32"
    using v(2) unat_lt_exp [of n] by simp
  ultimately show ?case using v(1) bs(1) by (simp add: with_prefix_def u32_try_from_word)
next
  case (Tuple ts s)
  then have "btree_wf ts" by simp
  from wt_tuple_shape [OF Tuple.prems(2,3) this] obtain tt m
    where v: "v = Tuple tt m" "fields_have_types m ts" "\<forall>(k, w) \<in> set m. wt w"
    by blast
  have wf: "wf_type t" if "(k, t) \<in> set ts" for k t using Tuple.prems(1) that by auto
  obtain bs where bs: "write_each (map (\<lambda>(key, w). rbind w (\<lambda>bs. Inr (write_name key @ bs)))
       (map (map_prod id serialize_write) m)) = Inr bs"
     "length bs \<le> length ts + (\<Sum>(k, t)\<leftarrow>ts. nat_serialized t + length k)"
    using write_fields_bounded [OF v(2)] Tuple.IH wf v(3) by blast
  have len: "length m = length ts"
    using v(2) by (simp add: fields_have_types_iff list_all2_lengthD)
  moreover have "length ts < 2 ^ 32"
    using wf_size [OF Tuple.prems(1)] by simp
  moreover have "1 \<le> length ts"
    using Tuple.prems(1) by (cases ts) (auto simp: tuple_try_from_map_eq)
  ultimately show ?case using v(1) bs by (simp add: with_prefix_def u32_try_from_word)
next
  case (Optional t)
  from wt_optional_shape [OF Optional.prems(2,3)] show ?case
    using Optional.IH Optional.prems(1) by (fastforce simp: with_prefix_def)
next
  case (Response t s)
  from wt_response_shape [OF Response.prems(2,3)] obtain w where w: "wt w"
    "v = Response True w \<and> has_type w t \<or> v = Response False w \<and> has_type w s" by blast
  then obtain bs where "serialize_write w = Inr bs" "length bs \<le> max (nat_serialized t) (nat_serialized s)"
    using Response.IH [of w] Response.prems(1) by fastforce
  with w(2) show ?case by (auto simp: with_prefix_def)
next
  case Principal
  from wt_base_shape(4) [OF Principal.prems(2,3)] obtain p where p: "v = Principal p" by blast
  with Principal.prems(2) show ?case
    by (cases p) (auto simp: with_prefix_def write_standard_principal_def write_contract_def wf_standard_def
        contract_name_try_from_def MAX_STRING_LEN_def split: if_splits)
next
  case (UTF8 n)
  from wt_base_shape(7) [OF UTF8.prems(2,3)] obtain data
    where "v = Sequence (String (CharUTF8 data))" "length data \<le> unat n" by blast
  with UTF8.prems(2) show ?case
    using length_utf8 [of data] by (auto simp: with_prefix_def)
next
  case (Buffer n)
  from wt_base_shape(5) [OF Buffer.prems(2,3)] Buffer.prems(2) show ?case
    by (auto simp: with_prefix_def write_len_word size_consts)
next
  case (ASCII n)
  from wt_base_shape(6) [OF ASCII.prems(2,3)] ASCII.prems(2) show ?case
    by (auto simp: with_prefix_def write_len_word size_consts)
next
  case IntType
  then show ?case using wt_base_shape(1) by (fastforce simp: with_prefix_def i128_to_be_bytes_def)
next
  case UIntType
  then show ?case using wt_base_shape(2) by (fastforce simp: with_prefix_def)
next
  case BoolType
  then show ?case using wt_base_shape(3) by (fastforce simp: with_prefix_def)
next
  case (Callable c)
  then show ?case by (cases c) (auto simp: has_type_iff dest!: wt_type)
qed (auto simp: has_type_iff)

lemma serialize_bounded:
  "wf_type t \<Longrightarrow> wt v \<Longrightarrow> has_type v t \<Longrightarrow> \<exists>bs. serialize_write v = Inr bs \<and> length bs \<le> 2 * nat_size t"
  using serialize_fits [of t v] nat_serialized_le [of t] by fastforce

lemma unat_nat_size:
  assumes "wf_type t" "inner_size t = Some s" "s \<le> MAX_VALUE_SIZE"
  shows "nat_size t \<le> 1048576"
proof -
  have "s = word_of_nat (nat_size t)" "nat_size t \<le> 1048580" using wf_size [OF assms(1)] assms(2) by auto
  with assms(3) show ?thesis by (simp add: word_le_nat_alt size_consts unat_of_nat)
qed

lemma wf_size_limit:
  "wf_type t \<Longrightarrow> nat_size t \<le> 1048576 \<or> (\<exists>n. t = type_buffer n \<or> t = type_ascii n \<or> t = type_utf8 n)"
proof (induction t)
  case (List n u s)
  then have "s \<le> MAX_VALUE_SIZE"
    by (auto simp: new_list_eq compute_list_inner_size_def)
  with unat_nat_size [OF List.prems, of s] show ?case by simp
next
  case (Tuple m s)
  then have "s \<le> MAX_VALUE_SIZE"
    by (auto simp: tuple_try_from_map_eq compute_tuple_inner_size_def split: option.splits)
  with unat_nat_size [OF Tuple.prems, of s] show ?case by simp
next
  case (Callable c)
  then show ?case by (cases c) simp_all
qed (auto simp: new_option_wf_eq new_response_wf_eq)

lemma serialize_string_length:
  assumes "wt v" "type_of v = Inr t" "t = type_buffer n \<or> t = type_ascii n \<or> t = type_utf8 n" "serialize_write v = Inr bs"
  shows "length bs \<le> 1048581"
proof -
  have v: "has_type v t" using assms wt_has_own_type by blast
  have "\<exists>data. v = Sequence data" using assms(2,3) by auto
  then obtain q where q: "v = Sequence q" by blast
  then show ?thesis
    using assms(1,3,4) assms(2)
    by (cases q rule: seq_type_signature.cases)
      (auto simp: with_prefix_def write_len_word size_consts dest!: length_utf8)
qed

text \<open>
  (C33) Writing a well-typed value never fails and never exceeds the bound the readers work
  with: twice the largest size of a value. The size computed by the counting writer is the
  length of the bytes.
\<close>

theorem serialization_total_and_bounded:
  assumes "wt v"
  shows "\<exists>bs. serialize_to_vec v = Inr bs \<and> length bs \<le> unat BOUND_VALUE_SERIALIZATION_BYTES \<and>
    serialized_size v = Inr (word_of_nat (length bs))"
proof -
  obtain t where t: "type_of v = Inr t" "wf_type t" using wt_type [OF assms] by blast
  with serialize_bounded [OF t(2) assms] wt_has_own_type [OF assms t(1)]
  obtain bs where bs: "serialize_write v = Inr bs" "length bs \<le> 2 * nat_size t" by blast
  have "length bs \<le> 2097152"
    using wf_size_limit [OF t(2)] serialize_string_length [OF assms t(1) _ bs(1)] bs(2) by fastforce
  moreover have "unat BOUND_VALUE_SERIALIZATION_BYTES = 2097152"
    by (simp add: BOUND_VALUE_SERIALIZATION_BYTES_def MAX_VALUE_SIZE_def)
  ultimately show ?thesis
    using bs(1) by (simp add: serialize_to_vec_def serialized_size_def Let_def u32_try_from_word)
qed

theorem serialization_total_and_bounded_witness:
  "\<exists>bs. serialize_to_vec sample_value = Inr bs \<and> length bs \<le> unat BOUND_VALUE_SERIALIZATION_BYTES"
  using serialization_total_and_bounded [OF wt_sample_value] by blast

section \<open>The maximal serialised size of a type\<close>

text \<open>
  Types in which \<open>NoType\<close> stands only for the unused half of an optional or a response, and in
  no list.
\<close>

primrec sized_type :: "TypeSignature \<Rightarrow> bool"
  and sized_seq :: "SequenceSubtype \<Rightarrow> bool"
  and sized_list :: "ListTypeData \<Rightarrow> bool"
  and sized_tuple :: "TupleTypeSignature \<Rightarrow> bool"
where
  "sized_type NoType \<longleftrightarrow> False"
| "sized_type IntType \<longleftrightarrow> True"
| "sized_type UIntType \<longleftrightarrow> True"
| "sized_type BoolType \<longleftrightarrow> True"
| "sized_type (SequenceType s) \<longleftrightarrow> sized_seq s"
| "sized_type PrincipalType \<longleftrightarrow> True"
| "sized_type (TupleType t) \<longleftrightarrow> sized_tuple t"
| "sized_type (OptionalType t) \<longleftrightarrow> t = NoType \<or> sized_type t"
| "sized_type (ResponseType t s) \<longleftrightarrow>
     t = NoType \<and> sized_type s \<or> s = NoType \<and> sized_type t \<or> sized_type t \<and> sized_type s"
| "sized_type (CallableType c) \<longleftrightarrow> True"
| "sized_type (ListUnionType l) \<longleftrightarrow> False"
| "sized_type (TraitReferenceType t) \<longleftrightarrow> True"
| "sized_seq (BufferType n) \<longleftrightarrow> True"
| "sized_seq (ListType l) \<longleftrightarrow> sized_list l"
| "sized_seq (StringType s) \<longleftrightarrow> True"
| "sized_list (ListTypeData n t s) \<longleftrightarrow> sized_type t"
| "sized_tuple (TupleTypeSignature m s) \<longleftrightarrow> list_all snd (map (map_prod id sized_type) m)"

lemma add_prefix_size_eq: "unat n < 2 ^ 32 - 1 \<Longrightarrow> add_prefix_size n = Inr (n + 1) \<and> unat (n + 1) = Suc (unat n)"
  by (simp add: add_prefix_size_def checked_add_def unat_word_ariths)

lemma checked_add_unat: "unat a + unat b < 2 ^ LENGTH('a) \<Longrightarrow> checked_add a b = Some (a + b) \<and> unat (a + b) = unat a + unat b"
  for a b :: "'a::len word"
  by (simp add: checked_add_def unat_word_ariths)

lemma checked_mul_unat: "unat a * unat b < 2 ^ LENGTH('a) \<Longrightarrow> checked_mul a b = Some (a * b) \<and> unat (a * b) = unat a * unat b"
  for a b :: "'a::len word"
  by (simp add: checked_mul_def unat_word_ariths)

lemma sum_serialized_fields_eq:
  assumes "\<forall>(k, t) \<in> set m. valid_name k \<and> (\<exists>n. f t = Inr n \<and> unat n = g t)"
    "unat acc + (\<Sum>(k, t)\<leftarrow>m. g t + length k) + length m < 2 ^ 32"
  shows "\<exists>n. sum_serialized_fields (map (map_prod id f) m) acc = Inr n \<and>
    unat n = unat acc + (\<Sum>(k, t)\<leftarrow>m. g t + length k) + length m"
  using assms
proof (induction m arbitrary: acc)
  case (Cons x m)
  obtain k t where x: "x = (k, t)" by fastforce
  obtain n where n: "f t = Inr n" "unat n = g t" "valid_name k" using Cons.prems(1) by (auto simp: x)
  have len: "unat (word_of_nat (length k) :: u32) = length k" using n(3) by (rule unat_of_name)
  have b: "unat acc + Suc (length k + unat n) < 2 ^ 32" using Cons.prems(2) n(2) by (simp add: x)
  have 1: "checked_add acc 1 = Some (acc + 1) \<and> unat (acc + 1) = unat acc + 1"
    using checked_add_unat [of acc 1] b by simp
  have 2: "checked_add (acc + 1) (word_of_nat (length k)) = Some (acc + 1 + word_of_nat (length k)) \<and>
      unat (acc + 1 + word_of_nat (length k)) = unat acc + 1 + length k"
    using checked_add_unat [of "acc + 1" "word_of_nat (length k)"] b 1 len by simp
  have 3: "checked_add (acc + 1 + word_of_nat (length k)) n = Some (acc + 1 + word_of_nat (length k) + n) \<and>
      unat (acc + 1 + word_of_nat (length k) + n) = unat acc + 1 + length k + unat n"
    using checked_add_unat [of "acc + 1 + word_of_nat (length k)" n] b 2 by simp
  have "\<exists>r. sum_serialized_fields (map (map_prod id f) m) (acc + 1 + word_of_nat (length k) + n) = Inr r \<and>
    unat r = unat (acc + 1 + word_of_nat (length k) + n) + (\<Sum>(k, t)\<leftarrow>m. g t + length k) + length m"
    using Cons.prems n(2) 3 by (intro Cons.IH) (auto simp: x)
  with 1 2 3 n(1,2) show ?case by (auto simp: x id_def)
qed simp

lemma max_serialized_size_eq:
  "wf_type t \<Longrightarrow> sized_type t \<Longrightarrow> \<exists>n. max_serialized_size t = Inr n \<and> unat n = nat_serialized t"
proof (induction t)
  case (List n t s)
  then obtain i where i: "max_serialized_size t = Inr i" "unat i = nat_serialized t" by auto
  have "4 + unat n * unat i < 2 ^ 32 - 1"
    using nat_serialized_small [OF List.prems(1)] by (simp add: i(2))
  then have "checked_mul n i = Some (n * i) \<and> unat (n * i) = unat n * unat i"
    "checked_add (n * i) 4 = Some (n * i + 4) \<and> unat (n * i + 4) = unat n * unat i + 4"
    using checked_mul_unat [of n i] checked_add_unat [of "n * i" 4] by simp_all
  with i add_prefix_size_eq [of "n * i + 4"] nat_serialized_small [OF List.prems(1)] show ?case by auto
next
  case (Tuple m s)
  have "\<exists>n. sum_serialized_fields (map (map_prod id max_serialized_size) m) 4 = Inr n \<and>
    unat n = unat (4 :: u32) + (\<Sum>(k, t)\<leftarrow>m. nat_serialized t + length k) + length m"
    using Tuple nat_serialized_small [OF Tuple.prems(1)] by (intro sum_serialized_fields_eq) (auto, blast)
  then obtain n where "sum_serialized_fields (map (map_prod id max_serialized_size) m) 4 = Inr n"
    "unat n = 4 + (\<Sum>(k, t)\<leftarrow>m. nat_serialized t + length k) + length m" by auto
  with add_prefix_size_eq [of n] nat_serialized_small [OF Tuple.prems(1)] show ?case by auto
next
  case (Optional t)
  show ?case
  proof (cases "t = NoType")
    case True
    then show ?thesis by (simp add: size_or_zero_def add_prefix_size_def checked_add_def)
  next
    case False
    with Optional obtain n where "max_serialized_size t = Inr n" "unat n = nat_serialized t" by auto
    with add_prefix_size_eq [of n] nat_serialized_small [OF Optional.prems(1)] show ?thesis by (auto simp: size_or_zero_def)
  qed
next
  case (Response t s)
  have half: "\<exists>n. size_or_zero (max_serialized_size u) = Inr (n, u = NoType) \<and> unat n = nat_serialized u"
    if "u = t \<or> u = s" "u = NoType \<or> sized_type u" for u
  proof (cases "u = NoType")
    case False
    with that obtain n where "max_serialized_size u = Inr n" "unat n = nat_serialized u"
      using Response.IH Response.prems(1) by auto
    with False show ?thesis by (simp add: size_or_zero_def)
  qed (simp add: size_or_zero_def)
  obtain n where n: "size_or_zero (max_serialized_size t) = Inr (n, t = NoType)" "unat n = nat_serialized t"
    using half [of t] Response.prems(2) by auto
  obtain m where m: "size_or_zero (max_serialized_size s) = Inr (m, s = NoType)" "unat m = nat_serialized s"
    using half [of s] Response.prems(2) by auto
  have "\<not> (s = NoType \<and> t = NoType)" using Response.prems(2) by auto
  with n m add_prefix_size_eq [of "max n m"] nat_serialized_small [OF Response.prems(1)] show ?case
    by (auto simp: unat_max)
qed (use add_prefix_size_eq in \<open>auto simp: checked_add_unat checked_mul_unat MAX_STRING_LEN_def word_le_nat_alt size_consts\<close>)

text \<open>
  (C34) The length the static analysis computes for the serialisation of a type is an upper bound:
  where \<open>NoType\<close> stands only for one half of an optional or response, and there is no union, it is computed without an error and no value of the type
  serialises to more bytes.
\<close>

theorem max_serialized_size_is_upper_bound:
  assumes "wf_type t" "sized_type t" "wt v" "admits t Epoch21 v = Inr True"
  shows "\<exists>n bs. max_serialized_size t = Inr n \<and> serialize_to_vec v = Inr bs \<and> length bs \<le> unat n"
proof -
  have "has_type v t" using assms(4) by (auto simp: admits_def epoch21_admits has_type_iff)
  from serialize_fits [OF assms(1,3) this] max_serialized_size_eq [OF assms(1,2)] show ?thesis
    by (auto simp: serialize_to_vec_def)
qed

theorem max_serialized_size_is_upper_bound_witness:
  "\<exists>n bs. max_serialized_size (sample_tuple IntType 4 44) = Inr n \<and> serialize_to_vec sample_value = Inr bs \<and> length bs \<le> unat n"
proof -
  have "wf_type (sample_tuple IntType 4 44)" "sized_type (sample_tuple IntType 4 44)"
    "admits (sample_tuple IntType 4 44) Epoch21 sample_value = Inr True"
    by code_simp+
  from max_serialized_size_is_upper_bound [OF this(1,2) wt_sample_value this(3)] show ?thesis .
qed

section \<open>Types without a serialised size\<close>

text \<open>
  Types for which the computation gives up: \<open>NoType\<close> and unions, and the lists, tuples and responses
  that need their size. An optional never does.
\<close>

primrec undetermined :: "TypeSignature \<Rightarrow> bool"
  and undetermined_seq :: "SequenceSubtype \<Rightarrow> bool"
  and undetermined_list :: "ListTypeData \<Rightarrow> bool"
  and undetermined_tuple :: "TupleTypeSignature \<Rightarrow> bool"
where
  "undetermined NoType \<longleftrightarrow> True"
| "undetermined IntType \<longleftrightarrow> False"
| "undetermined UIntType \<longleftrightarrow> False"
| "undetermined BoolType \<longleftrightarrow> False"
| "undetermined (SequenceType s) \<longleftrightarrow> undetermined_seq s"
| "undetermined PrincipalType \<longleftrightarrow> False"
| "undetermined (TupleType t) \<longleftrightarrow> undetermined_tuple t"
| "undetermined (OptionalType t) \<longleftrightarrow> False"
| "undetermined (ResponseType t s) \<longleftrightarrow> undetermined t \<and> undetermined s"
| "undetermined (CallableType c) \<longleftrightarrow> False"
| "undetermined (ListUnionType l) \<longleftrightarrow> True"
| "undetermined (TraitReferenceType t) \<longleftrightarrow> False"
| "undetermined_seq (BufferType n) \<longleftrightarrow> False"
| "undetermined_seq (ListType l) \<longleftrightarrow> undetermined_list l"
| "undetermined_seq (StringType s) \<longleftrightarrow> False"
| "undetermined_list (ListTypeData n t s) \<longleftrightarrow> undetermined t"
| "undetermined_tuple (TupleTypeSignature m s) \<longleftrightarrow> list_ex snd (map (map_prod id undetermined) m)"

definition size_known :: "ClarityTypeError + u32 \<Rightarrow> bool \<Rightarrow> nat \<Rightarrow> bool" where
  "size_known r unknown bound \<longleftrightarrow>
     (if unknown then r = Inl CouldNotDetermineSerializationType else (\<exists>n. r = Inr n \<and> unat n \<le> bound))"

lemma size_known_prefix: "size_known r u b \<Longrightarrow> b < 2 ^ 32 - 1 \<Longrightarrow> size_known (rbind r add_prefix_size) u (1 + b)"
  using add_prefix_size_eq by (fastforce simp: size_known_def split: if_splits)

lemma size_known_zero: "size_known r u b \<Longrightarrow> \<exists>n. size_or_zero r = Inr (n, u) \<and> unat n \<le> b"
  by (auto simp: size_known_def size_or_zero_def split: if_splits)

lemma sum_serialized_fields_known:
  assumes "\<forall>(k, t) \<in> set m. valid_name k \<and> size_known (f t) (u t) (g t)"
    "unat acc + (\<Sum>(k, t)\<leftarrow>m. g t + length k) + length m \<le> b" "b < 2 ^ 32"
  shows "size_known (sum_serialized_fields (map (map_prod id f) m) acc) (list_ex (\<lambda>x. u (snd x)) m) b"
  using assms
proof (induction m arbitrary: acc)
  case Nil
  then show ?case by (simp add: size_known_def)
next
  case (Cons x m)
  obtain k t where x: "x = (k, t)" by fastforce
  show ?case
  proof (cases "u t")
    case True
    with Cons.prems(1) show ?thesis by (simp add: x size_known_def)
  next
    case False
    with Cons.prems(1) obtain n where n: "f t = Inr n" "unat n \<le> g t" "valid_name k" by (auto simp: x size_known_def)
    have len: "unat (word_of_nat (length k) :: u32) = length k" using n(3) by (rule unat_of_name)
    let ?acc = "acc + 1 + word_of_nat (length k) + n"
    have "unat acc + 1 + length k + unat n < 2 ^ 32" using Cons.prems(2,3) n(2) by (simp add: x)
    then have "checked_add acc 1 = Some (acc + 1) \<and> unat (acc + 1) = unat acc + 1"
      "checked_add (acc + 1) (word_of_nat (length k)) = Some (acc + 1 + word_of_nat (length k)) \<and>
       unat (acc + 1 + word_of_nat (length k)) = unat acc + 1 + length k"
      "checked_add (acc + 1 + word_of_nat (length k)) n = Some ?acc \<and> unat ?acc = unat acc + 1 + length k + unat n"
      using checked_add_unat [of acc 1] checked_add_unat [of "acc + 1" "word_of_nat (length k)"]
        checked_add_unat [of "acc + 1 + word_of_nat (length k)" n] len by simp_all
    moreover from this have "size_known (sum_serialized_fields (map (map_prod id f) m) ?acc) (list_ex (\<lambda>x. u (snd x)) m) b"
      using Cons.prems n(2) by (intro Cons.IH) (auto simp: x)
    ultimately show ?thesis using n(1) False by (simp add: x id_def)
  qed
qed

lemma max_serialized_size_known: "wf_type t \<Longrightarrow> size_known (max_serialized_size t) (undetermined t) (nat_serialized t)"
proof (induction t)
  case (List n t s)
  then have t: "size_known (max_serialized_size t) (undetermined t) (nat_serialized t)" by simp
  have b: "4 + unat n * nat_serialized t < 2 ^ 32 - 1" using nat_serialized_small [OF List.prems] by simp
  have "size_known (list_max_serialized_size (ListTypeData n t s)) (undetermined t) (4 + unat n * nat_serialized t)"
  proof (cases "undetermined t")
    case False
    with t obtain i where i: "max_serialized_size t = Inr i" "unat i \<le> nat_serialized t" by (auto simp: size_known_def)
    from mult_le_mono2 [OF i(2), of "unat n"] b have le: "unat n * unat i \<le> unat n * nat_serialized t"
      and small: "unat n * unat i + 4 < 2 ^ 32" by linarith+
    from small have "checked_mul n i = Some (n * i) \<and> unat (n * i) = unat n * unat i"
      "checked_add (n * i) 4 = Some (n * i + 4) \<and> unat (n * i + 4) = unat n * unat i + 4"
      using checked_mul_unat [of n i] checked_add_unat [of "n * i" 4] by simp_all
    with i(1) False le show ?thesis by (simp add: size_known_def)
  qed (use t in \<open>simp add: size_known_def\<close>)
  from size_known_prefix [OF this b] show ?case by simp
next
  case (Tuple m s)
  have "size_known (sum_serialized_fields (map (map_prod id max_serialized_size) m) 4) (list_ex (\<lambda>x. undetermined (snd x)) m)
      (nat_tuple_serialized (TupleTypeSignature m s))"
    using Tuple nat_serialized_small [OF Tuple.prems] by (intro sum_serialized_fields_known [where g = nat_serialized]) auto
  from size_known_prefix [OF this] nat_serialized_small [OF Tuple.prems] show ?case
    by (simp add: list_ex_iff)
next
  case (Optional t)
  from size_known_zero [OF Optional.IH] Optional.prems obtain n where
    n: "size_or_zero (max_serialized_size t) = Inr (n, undetermined t)" "unat n \<le> nat_serialized t" by auto
  with add_prefix_size_eq [of n] nat_serialized_small [OF Optional.prems] show ?case by (auto simp: size_known_def)
next
  case (Response t s)
  from size_known_zero [OF Response.IH(1)] size_known_zero [OF Response.IH(2)] Response.prems obtain n m where
    n: "size_or_zero (max_serialized_size t) = Inr (n, undetermined t)" "unat n \<le> nat_serialized t"
      "size_or_zero (max_serialized_size s) = Inr (m, undetermined s)" "unat m \<le> nat_serialized s" by auto
  with add_prefix_size_eq [of "max n m"] nat_serialized_small [OF Response.prems] show ?case
    by (auto simp: size_known_def unat_max)
qed (use add_prefix_size_eq in \<open>auto simp: size_known_def checked_add_unat checked_mul_unat MAX_STRING_LEN_def word_le_nat_alt size_consts\<close>)

lemma serialize_write_nonempty: "serialize_write v = Inr bs \<Longrightarrow> bs \<noteq> []"
  by (cases v) (auto simp: with_prefix_def)



end
