(* ===== verification/ValueReading.thy ===== *)
theory ValueReading
  imports ValueParsing ValueWriting
begin

text \<open>
  Reading back what was written: the bytes of a well-typed value, read at any type that admits
  the value, give an equal well-typed value of that type, and nothing after them is read.
\<close>

section \<open>Reading exactly the given bytes\<close>

text \<open>
  The reader takes exactly the bytes from the front of any input within its limit and
  returns the value.
\<close>

definition accepts :: "(BoundReader, 'e, 'a) meth \<Rightarrow> u8 list \<Rightarrow> 'a \<Rightarrow> bool" where
  "accepts m bs x \<longleftrightarrow> (\<forall>rest limit n. n + length bs \<le> limit \<longrightarrow> limit < 2 ^ 64 \<longrightarrow>
     m \<lparr>br_fd = bs @ rest, br_max_len = limit, br_read_so_far = n\<rparr> =
       (Inr x, \<lparr>br_fd = rest, br_max_len = limit, br_read_so_far = n + length bs\<rparr>))"

lemma accepts_sret_Nil: "accepts (sret x) [] x"
  by (simp add: accepts_def sret_run)

lemma accepts_slift: "accepts (slift (Inr x)) [] x"
  by (simp add: accepts_def slift_run)

lemma accepts_sbind: "accepts m bs x \<Longrightarrow> accepts (f x) cs y \<Longrightarrow> accepts (sbind m f) (bs @ cs) y"
  by (simp add: accepts_def sbind_def add.assoc)

lemma accepts_sbind_Cons: "accepts m [b] x \<Longrightarrow> accepts (f x) cs y \<Longrightarrow> accepts (sbind m f) (b # cs) y"
  using accepts_sbind [of m "[b]"] by simp

lemma accepts_sbind_Nil: "accepts m [] x \<Longrightarrow> accepts (f x) cs y \<Longrightarrow> accepts (sbind m f) cs y"
  using accepts_sbind [of m "[]"] by simp

lemma accepts_sbind_end: "accepts m bs x \<Longrightarrow> accepts (f x) [] y \<Longrightarrow> accepts (sbind m f) bs y"
  using accepts_sbind [of m bs x f "[]"] by simp

lemma accepts_read_exact: "length bs = n \<Longrightarrow> accepts (read_exact n) bs bs"
  by (cases "bs = []") (auto simp: accepts_def read_exact.simps [of n] read_exact.simps [of 0] bound_read_def Let_def)

lemma accepts_read_u32: "accepts read_u32 (to_be_bytes len) len"
  unfolding read_u32_def
  by (rule accepts_sbind_end [OF accepts_read_exact]) (simp_all add: accepts_sret_Nil)

lemma prefix_from_to [simp]: "prefix_from_u8 (prefix_to_u8 p) = Some p"
  by (cases p) (simp_all add: prefix_from_u8_def ALL_PREFIXES_def)

lemma accepts_read_prefix: "accepts read_prefix [prefix_to_u8 p] p"
  unfolding read_prefix_def
  by (rule accepts_sbind_end [OF accepts_read_exact]) (simp_all add: accepts_slift)

lemma accepts_buffer_length: "unat len \<le> 1048576 \<Longrightarrow> accepts read_buffer_length (to_be_bytes len) len"
  unfolding read_buffer_length_def
  by (rule accepts_sbind_end [OF accepts_read_u32])
    (use buffer_length_eq [of "unat len" len] in \<open>simp add: accepts_slift\<close>)

lemma check_match_True: "P t \<Longrightarrow> sthen (check_match P (Some t)) m = m"
  by (simp add: check_match_def sthen_def)

subsection \<open>Names and principals\<close>

lemma bytes_string_bytes: "bytes_string (string_bytes s) = s"
  by (induction s) (simp_all add: bytes_string_def string_bytes_def unat_of_nat)

lemma utf8_ascii: "list_all (\<lambda>b. unat b < 128) bs \<Longrightarrow> utf8_chars bs = Some (map unat bs)"
  by (induction bs) (simp_all add: utf8_chars.simps)

lemma string_bytes_ascii: "list_all (\<lambda>c. of_char c < (128 :: nat)) s \<Longrightarrow> utf8_chars (string_bytes s) \<noteq> None"
  using utf8_ascii [of "string_bytes s"] by (simp add: string_bytes_def list_all_iff unat_of_nat)

lemma letter_ascii: "is_letter c \<Longrightarrow> of_char c < (128 :: nat)" "is_digit c \<Longrightarrow> of_char c < (128 :: nat)"
  by (auto simp: is_letter_def is_digit_def Let_def)

lemma clarity_name_ascii: "clarity_name_regex s \<Longrightarrow> list_all (\<lambda>c. of_char c < (128 :: nat)) s"
  by (cases s) (auto simp: clarity_name_regex_def list_all_iff dest: letter_ascii)

lemma contract_name_ascii: "contract_name_regex s \<Longrightarrow> list_all (\<lambda>c. of_char c < (128 :: nat)) s"
  by (cases s) (auto simp: contract_name_regex_def list_all_iff dest: letter_ascii)

lemma accepts_guarded_string:
  assumes "try_from s = Inr s" "length s \<le> 128" "list_all (\<lambda>c. of_char c < (128 :: nat)) s"
  shows "accepts (read_guarded_string try_from) (write_name s) s"
proof -
  let ?n = "word_of_nat (length s) :: u8"
  have n: "unat ?n = length s" using assms(2) by (simp add: unat_of_nat)
  obtain cs where "utf8_chars (string_bytes s) = Some cs" using string_bytes_ascii [OF assms(3)] by blast
  then have "accepts (sbind (read_exact (unat ?n)) (\<lambda>data.
       if utf8_chars data = None then sfail (bad_data ''Non-UTF8 string data'')
       else slift (map_err (\<lambda>_. bad_data ''Illegal Clarity string'') (try_from (bytes_string data))))) (string_bytes s) s"
    by (intro accepts_sbind_end [OF accepts_read_exact])
      (simp_all add: n string_bytes_def accepts_slift assms(1) bytes_string_bytes [unfolded string_bytes_def])
  moreover have "\<not> MAX_STRING_LEN < ?n"
    using n assms(2) by (simp add: word_less_nat_alt MAX_STRING_LEN_def)
  ultimately have "accepts (read_guarded_string try_from) ([?n] @ string_bytes s) s"
    unfolding read_guarded_string_def by (intro accepts_sbind [OF accepts_read_exact]) simp_all
  then show ?thesis by (simp add: write_name_def)
qed

lemma accepts_clarity_name: "valid_name k \<Longrightarrow> accepts read_clarity_name (write_name k) k"
  unfolding read_clarity_name_def valid_name_def
  by (rule accepts_guarded_string)
    (auto simp: clarity_name_try_from_def MAX_STRING_LEN_def clarity_name_ascii split: if_splits)

lemma accepts_contract_name: "contract_name_try_from k = Inr k \<Longrightarrow> accepts read_contract_name (write_name k) k"
  unfolding read_contract_name_def
  by (rule accepts_guarded_string)
    (auto simp: contract_name_try_from_def MAX_STRING_LEN_def contract_name_ascii split: if_splits)

lemma accepts_standard_principal: "wf_standard p \<Longrightarrow> accepts read_standard_principal (write_standard_principal p) p"
proof (cases p)
  case (StandardPrincipalData ver bs)
  assume "wf_standard p"
  with StandardPrincipalData have v: "\<not> 32 \<le> ver" "length bs = 20" by (auto simp: wf_standard_def)
  have "accepts read_standard_principal ([ver] @ bs) p"
    unfolding read_standard_principal_def
    by (intro accepts_sbind [OF accepts_read_exact] accepts_sbind_end [OF accepts_read_exact])
      (use v in \<open>simp_all add: standard_principal_new_def accepts_slift StandardPrincipalData\<close>)
  then show ?thesis by (simp add: write_standard_principal_def StandardPrincipalData)
qed

lemma accepts_contract_item:
  assumes "wf_principal (Contract c)" "opt_name_limit opts = LegacyLimit"
  shows "accepts (read_contract_item opts (Some PrincipalType)) (write_contract c) (Inl (Principal (Contract c)))"
  using assms unfolding read_contract_item_def write_contract_def
  by (subst check_match_True, simp, cases c)
    (auto intro!: accepts_sbind [OF accepts_standard_principal] accepts_sbind_end [OF accepts_contract_name]
      simp: accepts_sret_Nil)

lemma accepts_principal: "wf_principal p \<Longrightarrow> accepts principal_deserialize (principal_serialize p) p"
proof (cases p)
  case (Contract c)
  assume "wf_principal p"
  with Contract have "accepts (sbind read_standard_principal (\<lambda>p. sbind read_contract_name (\<lambda>name.
      sret (Contract \<lparr>issuer = p, qci_name = name\<rparr>)))) (write_contract c) p"
    unfolding write_contract_def
    by (cases c) (auto intro!: accepts_sbind [OF accepts_standard_principal] accepts_sbind_end [OF accepts_contract_name]
        simp: accepts_sret_Nil)
  then show ?thesis unfolding principal_deserialize_def principal_serialize_def Contract
    by (intro accepts_sbind_Cons [OF accepts_read_exact]) (simp_all del: prefix_to_u8.simps)
next
  case (Standard q)
  assume "wf_principal p"
  with Standard have "accepts (sbind read_standard_principal (\<lambda>q. sret (Standard q))) (write_standard_principal q) p"
    by (auto intro!: accepts_sbind_end [OF accepts_standard_principal] simp: accepts_sret_Nil)
  then show ?thesis unfolding principal_deserialize_def principal_serialize_def Standard
    by (intro accepts_sbind_Cons [OF accepts_read_exact]) (simp_all del: prefix_to_u8.simps)
qed

section \<open>Values that fit a type\<close>

text \<open>
  A value fits a type when it is well-typed, the type admits it, and its own type is neither
  larger nor deeper: then it can be wrapped wherever the type can.
\<close>

definition fits :: "Value \<Rightarrow> TypeSignature \<Rightarrow> bool" where
  "fits v t \<longleftrightarrow> wt v \<and> (\<exists>u. type_of v = Inr u \<and> adm t u \<and> nat_size u \<le> nat_size t \<and> nat_depth u \<le> nat_depth t)"

lemma fits_type:
  assumes "fits v t"
  obtains u where "type_of v = Inr u" "wf_type u" "plain_type u" "adm t u" "nat_size u \<le> nat_size t" "nat_depth u \<le> nat_depth t"
  using assms wt_type [of v] unfolding fits_def by fastforce

lemma fits_has_type: "fits v t \<Longrightarrow> wt v \<and> has_type v t"
  by (auto simp: fits_def has_type_iff)

lemma fits_wrapped:
  assumes "fits v t" "nat_size t + 1 \<le> 1048576" "nat_depth t + 1 \<le> 32"
  shows "check_wrapped v w = Inr w"
proof -
  obtain u where u: "type_of v = Inr u" "wf_type u" "nat_size u \<le> nat_size t" "nat_depth u \<le> nat_depth t"
    using assms(1) by (rule fits_type)
  then show ?thesis using assms(2,3) by (simp add: check_wrapped_eq [OF u(1,2)])
qed

lemma fits_some:
  assumes "fits v t" "wf_type (OptionalType t)"
  shows "value_some v = Inr (Optional (Some v)) \<and> fits (Optional (Some v)) (OptionalType t)"
proof -
  obtain u where u: "type_of v = Inr u" "wf_type u" "adm t u" "nat_size u \<le> nat_size t" "nat_depth u \<le> nat_depth t"
    using assms(1) by (rule fits_type)
  have t: "nat_size t + 1 \<le> 1048576" "nat_depth t + 1 \<le> 32" using assms(2) by (auto simp: new_option_wf_eq)
  have "value_some v = Inr (Optional (Some v))"
    unfolding value_some_def by (rule fits_wrapped [OF assms(1) t])
  with u t show ?thesis using assms(1) by (auto simp: fits_def new_option_wf_eq)
qed

lemma fits_none: "wf_type (OptionalType t) \<Longrightarrow> fits (Optional None) (OptionalType t)"
  using nat_size_pos [of t] nat_depth_pos [of t]
  by (auto simp: fits_def new_option_wf_eq intro!: exI [of _ "OptionalType NoType"])

lemma fits_okay:
  assumes "fits v t" "wf_type (ResponseType t s)"
  shows "okay v = Inr (Response True v) \<and> fits (Response True v) (ResponseType t s)"
proof -
  obtain u where u: "type_of v = Inr u" "wf_type u" "adm t u" "nat_size u \<le> nat_size t" "nat_depth u \<le> nat_depth t"
    using assms(1) by (rule fits_type)
  have t: "nat_size t + 1 \<le> 1048576" "nat_depth t + 1 \<le> 32" "1 \<le> nat_size s"
    using assms(2) nat_size_pos [of s] by (auto simp: new_response_wf_eq)
  have "okay v = Inr (Response True v)"
    unfolding okay_def by (rule fits_wrapped [OF assms(1) t(1,2)])
  with u t show ?thesis using assms(1) nat_depth_pos [of s]
    by (auto simp: fits_def new_response_wf_eq intro!: exI [of _ "ResponseType u NoType"])
qed

lemma fits_error:
  assumes "fits v s" "wf_type (ResponseType t s)"
  shows "error v = Inr (Response False v) \<and> fits (Response False v) (ResponseType t s)"
proof -
  obtain u where u: "type_of v = Inr u" "wf_type u" "adm s u" "nat_size u \<le> nat_size s" "nat_depth u \<le> nat_depth s"
    using assms(1) by (rule fits_type)
  have s: "nat_size s + 1 \<le> 1048576" "nat_depth s + 1 \<le> 32" "1 \<le> nat_size t"
    using assms(2) nat_size_pos [of t] by (auto simp: new_response_wf_eq)
  have "error v = Inr (Response False v)" "okay v = Inr (Response True v)"
    unfolding error_def okay_def by (rule fits_wrapped [OF assms(1) s(1,2)])+
  with u s show ?thesis using assms(1) nat_depth_pos [of t]
    by (auto simp: fits_def new_response_wf_eq intro!: exI [of _ "ResponseType NoType u"])
qed

lemma admits_fits: "fits v t \<Longrightarrow> admits t DESERIALIZATION_TYPE_CHECK_EPOCH v = Inr True"
  by (auto simp: fits_def admits_def DESERIALIZATION_TYPE_CHECK_EPOCH_def epoch21_admits)

lemma admits_has_type: "admits t DESERIALIZATION_TYPE_CHECK_EPOCH v = Inr True \<longleftrightarrow> has_type v t"
  by (auto simp: admits_def has_type_iff DESERIALIZATION_TYPE_CHECK_EPOCH_def epoch21_admits)

lemma admits_all_iff:
  "admits_all t DESERIALIZATION_TYPE_CHECK_EPOCH vs = Inr () \<longleftrightarrow> (\<forall>v \<in> set vs. has_type v t)"
  by (induction vs) (auto simp flip: admits_has_type)

lemma fits_list:
  assumes "\<forall>v \<in> set vs. wt v \<and> has_type v t" "length vs \<le> unat n"
    and "wf_type (type_list (ListTypeData n t s))" "plain_type (type_list (ListTypeData n t s))"
  shows "list_with_type DESERIALIZATION_TYPE_CHECK_EPOCH vs (ListTypeData n t s) = Inr (Sequence (List vs (ListTypeData n t s)))
    \<and> fits (Sequence (List vs (ListTypeData n t s))) (type_list (ListTypeData n t s))"
proof -
  have "admits_all t DESERIALIZATION_TYPE_CHECK_EPOCH vs = Inr ()"
    using assms(1) by (simp add: admits_all_iff)
  moreover have "adm (type_list (ListTypeData n t s)) (type_list (ListTypeData n t s))"
    using assms(3,4) by (rule adm_refl [rotated])
  ultimately show ?thesis
    using assms by (auto simp: list_with_type_def fits_def list_all_iff)
qed

lemma collect_sorted:
  assumes "list_all2 (\<lambda>(k, v) (k', t). k = k' \<and> wt v \<and> has_type v t) m ts" "btree_wf (pre @ m)"
    "\<forall>(k, t) \<in> set ts. field_type tt k = Some t"
  shows "collect_typed_data DESERIALIZATION_TYPE_CHECK_EPOCH tt beh m pre = Inr (pre @ m)"
  using assms
proof (induction m arbitrary: ts pre)
  case (Cons x m)
  obtain k v where x: "x = (k, v)" by fastforce
  with Cons.prems(1) obtain t us where ts: "ts = (k, t) # us" "has_type v t"
    "list_all2 (\<lambda>(k, v) (k', t). k = k' \<and> wt v \<and> has_type v t) m us"
    by (cases ts) auto
  have below: "\<forall>k' \<in> fst ` set pre. k' < k"
    using Cons.prems(2) by (auto simp: x btree_wf_def sorted_wrt_append)
  then have "map_of pre k = None" by (force simp: map_of_eq_None_iff)
  moreover have "btree_insert k v pre = pre @ [(k, v)]"
    using below by (rule btree_insert_above)
  moreover have "collect_typed_data DESERIALIZATION_TYPE_CHECK_EPOCH tt beh m (pre @ [(k, v)]) = Inr ((pre @ [(k, v)]) @ m)"
    using Cons.prems(2,3) by (intro Cons.IH [OF ts(3)]) (auto simp: x ts)
  ultimately show ?case
    using Cons.prems(3) ts(2) by (auto simp: x ts admits_has_type)
qed simp

lemma fits_tuple:
  assumes "list_all2 (\<lambda>(k, v) (k', t). k = k' \<and> wt v \<and> has_type v t) m ts"
    and "wf_type (TupleType (TupleTypeSignature ts s))" "plain_type (TupleType (TupleTypeSignature ts s))"
  shows "tuple_from_data_typed DESERIALIZATION_TYPE_CHECK_EPOCH m (TupleTypeSignature ts s) beh =
      Inr (Tuple (TupleTypeSignature ts s) m)
    \<and> fits (Tuple (TupleTypeSignature ts s) m) (TupleType (TupleTypeSignature ts s))"
proof -
  have keys: "map fst m = map fst ts" and len: "length m = length ts"
    using assms(1) by (auto simp: list_all2_conv_all_nth split_beta intro: nth_equalityI)
  then have wf: "btree_wf m" "btree_wf ts"
    using assms(2) by (auto simp: btree_wf_def)
  have "\<forall>(k, t) \<in> set ts. field_type (TupleTypeSignature ts s) k = Some t"
    using wf(2) by (auto simp: field_type_def btree_wf_distinct)
  then have "collect_typed_data DESERIALIZATION_TYPE_CHECK_EPOCH (TupleTypeSignature ts s) beh m [] = Inr m"
    using collect_sorted [OF assms(1), of "[]"] wf(1) by simp
  moreover have "fields_have_types m ts" "\<forall>(k, v) \<in> set m. wt v"
    using assms(1) unfolding fields_have_types_iff
    by (induction rule: list_all2_induct) auto
  moreover have "adm (TupleType (TupleTypeSignature ts s)) (TupleType (TupleTypeSignature ts s))"
    using assms(2,3) by (rule adm_refl [rotated])
  ultimately show ?thesis
    using assms len by (simp add: tuple_from_data_typed_def tuple_len_def fits_def)
qed

section \<open>Reading back\<close>

lemma parse_step:
  assumes "accepts (read_item opts (Some t) p) bs (Inl v)"
  shows "accepts (parse_value (Suc d) opts (Inr (Some t))) (prefix_to_u8 p # bs) v"
  unfolding parse_value.simps
  by (rule accepts_sbind_Nil [OF accepts_slift], rule accepts_sbind_Cons [OF accepts_read_prefix],
      rule accepts_sbind_end [OF assms]) (simp add: accepts_sret_Nil)

lemma parse_step_frame:
  assumes "accepts (read_item opts (Some t) p) bs (Inr frame)"
    "accepts (parse_frame opts (parse_value d opts) frame) cs v"
  shows "accepts (parse_value (Suc d) opts (Inr (Some t))) (prefix_to_u8 p # bs @ cs) v"
  unfolding parse_value.simps
  by (rule accepts_sbind_Nil [OF accepts_slift], rule accepts_sbind_Cons [OF accepts_read_prefix],
      rule accepts_sbind [OF assms(1)]) (simp add: assms(2))

lemma accepts_items:
  assumes "list_all2 (\<lambda>bs v. accepts p bs v) bss vs"
  shows "accepts (parse_items (length vs) p) (concat bss) vs"
  using assms
proof (induction rule: list_all2_induct)
  case (Cons b bs v vs)
  have "accepts (sbind (parse_items (length vs) p) (\<lambda>vs. sret (v # vs))) (concat bs) (v # vs)"
    by (rule accepts_sbind_end [OF Cons.IH]) (rule accepts_sret_Nil)
  then show ?case
    by (simp add: accepts_sbind [OF Cons.hyps(1)])
qed (simp add: accepts_sret_Nil)

lemma accepts_fields:
  assumes "\<forall>(k, bs, v) \<in> set ((k0, bs0, v0) # xs).
    valid_name k \<and> accepts (p (field_expected opts tt k)) bs v \<and> field_entry opts tt k v = [(k, v)]"
  shows "accepts (parse_fields (length xs) opts tt p k0) (bs0 @ concat (map (\<lambda>(k, bs, v). write_name k @ bs) xs))
    ((k0, v0) # map (\<lambda>(k, bs, v). (k, v)) xs)"
  using assms
proof (induction xs arbitrary: k0 bs0 v0)
  case Nil
  then show ?case by (auto intro!: accepts_sbind_end simp: accepts_sret_Nil)
next
  case (Cons x xs)
  obtain k bs v where x: "x = (k, bs, v)" by (cases x)
  have rest: "accepts (parse_fields (length xs) opts tt p k) (bs @ concat (map (\<lambda>(k, bs, v). write_name k @ bs) xs))
      ((k, v) # map (\<lambda>(k, bs, v). (k, v)) xs)"
    using Cons.prems by (intro Cons.IH) (auto simp: x)
  have f: "accepts (p (field_expected opts tt k0)) bs0 v0" "field_entry opts tt k0 v0 = [(k0, v0)]" "valid_name k"
    using Cons.prems by (auto simp: x)
  have "accepts (sbind (parse_fields (length xs) opts tt p k) (\<lambda>entries. sret (field_entry opts tt k0 v0 @ entries)))
      (bs @ concat (map (\<lambda>(k, bs, v). write_name k @ bs) xs)) ((k0, v0) # (k, v) # map (\<lambda>(k, bs, v). (k, v)) xs)"
    by (rule accepts_sbind_end [OF rest]) (simp add: f accepts_sret_Nil)
  then have "accepts (sbind read_clarity_name (\<lambda>k. sbind (parse_fields (length xs) opts tt p k)
      (\<lambda>entries. sret (field_entry opts tt k0 v0 @ entries))))
      (write_name k @ bs @ concat (map (\<lambda>(k, bs, v). write_name k @ bs) xs)) ((k0, v0) # (k, v) # map (\<lambda>(k, bs, v). (k, v)) xs)"
    by (rule accepts_sbind [OF accepts_clarity_name [OF f(3)]])
  then show ?case
    by (simp add: x accepts_sbind [OF f(1)])
qed

lemma i128_bytes: "- (2 ^ 127) \<le> i \<Longrightarrow> i < 2 ^ 127 \<Longrightarrow> i128_from_be_bytes (i128_to_be_bytes i) = i"
  by (simp add: i128_from_be_bytes_def i128_to_be_bytes_def sint_sbintrunc' signed_take_bit_int_eq_self)

lemma length_i128 [simp]: "length (i128_to_be_bytes i) = 16"
  by (simp add: i128_to_be_bytes_def)

definition leaf_type :: "TypeSignature \<Rightarrow> bool" where
  "leaf_type t \<longleftrightarrow> t \<in> {IntType, UIntType, BoolType, PrincipalType} \<or>
     (\<exists>n. t = type_buffer n \<or> t = type_ascii n \<or> t = type_utf8 n)"

lemma fits_leaf: "leaf_type t \<Longrightarrow> wt v \<Longrightarrow> has_type v t \<Longrightarrow> fits v t"
  using wt_type [of v]
  by (auto simp: leaf_type_def fits_def has_type_iff adm_Principal word_le_nat_alt dest!: concretize_to_Principal)

lemma utf8_total_len_eq: "utf8_total_len data = word_of_nat (length (concat data))"
proof -
  have "fold (\<lambda>c len. len + word_of_nat (length c)) data a = a + word_of_nat (length (concat data))" for a :: u32
    by (induction data arbitrary: a) (simp_all add: add.assoc)
  then show ?thesis by (simp add: utf8_total_len_def)
qed

lemma utf8_from_chunks:
  assumes "list_all utf8_chunk data" "length data \<le> 262144"
  shows "string_utf8_from_bytes (concat data) = Inr (Sequence (String (CharUTF8 data)))"
proof -
  have "\<exists>ns. list_all is_scalar ns \<and> data = map encode_utf8 ns"
    using assms(1)
  proof (induction data)
    case (Cons c data)
    then obtain n ns where "is_scalar n" "c = encode_utf8 n" "list_all is_scalar ns" "data = map encode_utf8 ns"
      by (auto simp: utf8_chunk_encode)
    then show ?case by (intro exI [of _ "n # ns"]) simp
  qed simp
  then obtain ns where ns: "list_all is_scalar ns" "data = map encode_utf8 ns" by blast
  have "string_utf8_length_try_from (int (length data)) = Inr (word_of_nat (length data))"
    using assms(2) by (simp add: utf8_length_eq unat_of_nat)
  then show ?thesis
    using utf8_chars_of_encode [OF ns(1)] ns(2) by (simp add: string_utf8_from_bytes_def)
qed

lemma buff_from_eq: "length data \<le> 1048576 \<Longrightarrow> buff_from data = Inr (Sequence (Buffer data))"
  using buffer_length_eq [of "length data" "word_of_nat (length data)"] by (simp add: buff_from_def unat_of_nat)

lemma ascii_from_eq:
  assumes "length data \<le> 1048576" "list_all ascii_byte data"
  shows "string_ascii_from_bytes data = Inr (Sequence (String (CharASCII data)))"
proof -
  have "List.find (\<lambda>b. \<not> is_ascii_alphanumeric b \<and> \<not> is_ascii_punctuation b \<and> \<not> is_ascii_whitespace b) data = None"
    using assms(2) by (auto simp: find_None_iff list_all_iff ascii_byte_def)
  then show ?thesis
    using assms(1) buffer_length_eq [of "length data" "word_of_nat (length data)"]
    by (simp add: string_ascii_from_bytes_def unat_of_nat)
qed

lemma accepts_read_buffer_item:
  assumes "length data \<le> 1048576" "length data \<le> unat n"
  shows "accepts (read_buffer_item (Some (type_buffer n))) (to_be_bytes (word_of_nat (length data) :: u32) @ data)
    (Inl (Sequence (Buffer data)))"
  unfolding read_buffer_item_def
  by (rule accepts_sbind [OF accepts_buffer_length])
    (use assms in \<open>auto simp: unat_of_nat check_match_True word_le_nat_alt buff_from_eq
      intro!: accepts_sbind_end [OF accepts_read_exact] accepts_slift\<close>)

lemma accepts_read_ascii_item:
  assumes "length data \<le> 1048576" "list_all ascii_byte data" "length data \<le> unat n"
  shows "accepts (read_ascii_item (Some (type_ascii n))) (to_be_bytes (word_of_nat (length data) :: u32) @ data)
    (Inl (Sequence (String (CharASCII data))))"
  unfolding read_ascii_item_def
  by (rule accepts_sbind [OF accepts_buffer_length])
    (use assms in \<open>auto simp: unat_of_nat check_match_True word_le_nat_alt ascii_from_eq
      intro!: accepts_sbind_end [OF accepts_read_exact] accepts_slift\<close>)

lemma accepts_read_utf8_item:
  assumes "length data \<le> 262144" "list_all utf8_chunk data" "length data \<le> unat n"
  shows "accepts (read_utf8_item (Some (type_utf8 n))) (to_be_bytes (word_of_nat (length (concat data)) :: u32) @ concat data)
    (Inl (Sequence (String (CharUTF8 data))))"
proof -
  have len: "length (concat data) \<le> 1048576" using length_utf8 [OF assms(2)] assms(1) by linarith
  show ?thesis
    unfolding read_utf8_item_def
    by (rule accepts_sbind [OF accepts_buffer_length])
      (use assms len utf8_from_chunks [OF assms(2,1)] in \<open>auto simp: unat_of_nat check_match_True word_le_nat_alt
        intro!: accepts_sbind_end [OF accepts_read_exact] accepts_slift simp del: length_concat\<close>)
qed

lemma read_back_leaf:
  assumes "leaf_type t" "wt v" "has_type v t" "serialize_write v = Inr bs" "opt_name_limit opts = LegacyLimit"
  shows "accepts (parse_value (Suc d) opts (Inr (Some t))) bs v"
proof -
  consider "t = IntType" | "t = UIntType" | "t = BoolType" | "t = PrincipalType"
    | n where "t = type_buffer n" | n where "t = type_ascii n" | n where "t = type_utf8 n"
    using assms(1) by (auto simp: leaf_type_def)
  then show ?thesis
  proof cases
    case 1
    with assms obtain i where i: "v = Value.Int i" using wt_base_shape(1) by blast
    with assms have bs: "bs = prefix_to_u8 PrefixInt # i128_to_be_bytes i"
      by (simp add: with_prefix_def)
    show ?thesis unfolding bs
      by (rule parse_step, use assms(2) in \<open>simp add: 1 i read_item_def check_match_True\<close>)
        (auto intro!: accepts_sbind_end [OF accepts_read_exact] simp: i128_bytes accepts_sret_Nil)
  next
    case 2
    with assms obtain u where u: "v = UInt u" using wt_base_shape(2) by blast
    with assms have bs: "bs = prefix_to_u8 PrefixUInt # to_be_bytes u"
      by (simp add: with_prefix_def)
    show ?thesis unfolding bs
      by (rule parse_step, simp add: 2 u read_item_def check_match_True)
        (auto intro!: accepts_sbind_end [OF accepts_read_exact] simp: accepts_sret_Nil)
  next
    case 3
    with assms obtain b where b: "v = Bool b" using wt_base_shape(3) by blast
    with assms have bs: "bs = [prefix_to_u8 (if b then PrefixBoolTrue else PrefixBoolFalse)]"
      by (simp add: with_prefix_def split: if_splits)
    show ?thesis unfolding bs
      by (rule parse_step) (simp add: 3 b read_item_def check_match_True accepts_sret_Nil)
  next
    case 4
    with assms obtain p where p: "v = Principal p" using wt_base_shape(4) by blast
    show ?thesis
    proof (cases p)
      case (Contract c)
      with assms p have bs: "bs = prefix_to_u8 PrefixPrincipalContract # write_contract c"
        by (simp add: with_prefix_def)
      show ?thesis unfolding bs
        by (rule parse_step, use assms(2,5) in \<open>simp add: 4 p Contract read_item_def accepts_contract_item\<close>)
    next
      case (Standard q)
      with assms p have bs: "bs = prefix_to_u8 PrefixPrincipalStandard # write_standard_principal q"
        by (simp add: with_prefix_def)
      show ?thesis unfolding bs
        by (rule parse_step, use assms(2) in \<open>simp add: 4 p Standard read_item_def check_match_True\<close>)
          (auto intro!: accepts_sbind_end [OF accepts_standard_principal] simp: accepts_sret_Nil)
    qed
  next
    case (5 n)
    with assms obtain data where v: "v = Sequence (Buffer data)" "length data \<le> unat n" using wt_base_shape(5) by blast
    have len: "length data \<le> 1048576" using assms(2) by (simp add: v size_consts)
    with assms v have bs: "bs = prefix_to_u8 PrefixBuffer # to_be_bytes (word_of_nat (length data) :: u32) @ data"
      by (simp add: with_prefix_def write_len_word)
    show ?thesis unfolding bs
      by (rule parse_step, simp add: 5 read_item_def, unfold v(1),
          rule accepts_read_buffer_item) (use len v(2) in auto)
  next
    case (6 n)
    with assms obtain data where v: "v = Sequence (String (CharASCII data))" "length data \<le> unat n"
      using wt_base_shape(6) by blast
    have len: "length data \<le> 1048576" "list_all ascii_byte data" using assms(2) by (simp_all add: v size_consts)
    with assms v have bs: "bs = prefix_to_u8 PrefixStringASCII # to_be_bytes (word_of_nat (length data) :: u32) @ data"
      by (simp add: with_prefix_def write_len_word)
    show ?thesis unfolding bs
      by (rule parse_step, simp add: 6 read_item_def, unfold v(1),
          rule accepts_read_ascii_item) (use len v(2) in auto)
  next
    case (7 n)
    with assms obtain data where v: "v = Sequence (String (CharUTF8 data))" "length data \<le> unat n"
      using wt_base_shape(7) by blast
    have len: "length data \<le> 262144" "list_all utf8_chunk data" using assms(2) by (simp_all add: v size_consts)
    with assms v have bs: "bs = prefix_to_u8 PrefixStringUTF8 # to_be_bytes (word_of_nat (length (concat data)) :: u32) @ concat data"
      by (simp add: with_prefix_def utf8_total_len_eq del: length_concat)
    show ?thesis unfolding bs
      by (rule parse_step, simp add: 7 read_item_def, unfold v(1),
          rule accepts_read_utf8_item) (use len v(2) in auto)
  qed
qed

lemma write_each_split:
  "write_each ws = Inr bs \<Longrightarrow> \<exists>bss. list_all2 (\<lambda>w b. w = Inr b) ws bss \<and> bs = concat bss"
proof (induction ws arbitrary: bs)
  case (Cons w ws)
  then obtain b c where "w = Inr b" "write_each ws = Inr c" "bs = b @ c" by auto
  moreover from Cons.IH [OF this(2)] obtain bss where "list_all2 (\<lambda>w b. w = Inr b) ws bss" "c = concat bss" by blast
  ultimately show ?case
    by (intro exI [of _ "b # bss"]) simp
qed simp

text \<open>What reading the bytes of a value at a type yields.\<close>

definition reads_back :: "read_options \<Rightarrow> nat \<Rightarrow> TypeSignature \<Rightarrow> Value \<Rightarrow> u8 list \<Rightarrow> bool" where
  "reads_back opts d t v bs \<longleftrightarrow>
     (\<exists>v'. accepts (parse_value d opts (Inr (Some t))) bs v' \<and> erase v' = erase v \<and> fits v' t)"

lemma read_back_items:
  assumes "list_all2 (\<lambda>w b. w = Inr b) (map serialize_write data) bss"
    "\<And>w b. w \<in> set data \<Longrightarrow> serialize_write w = Inr b \<Longrightarrow> reads_back opts d t w b"
  shows "\<exists>vs. list_all2 (accepts (parse_value d opts (Inr (Some t)))) bss vs \<and> map erase vs = map erase data \<and>
    (\<forall>v \<in> set vs. fits v t)"
  using assms
proof (induction data arbitrary: bss)
  case (Cons w data)
  then obtain b cs where bss: "bss = b # cs" "serialize_write w = Inr b"
    "list_all2 (\<lambda>w b. w = Inr b) (map serialize_write data) cs"
    by (auto simp: list_all2_Cons1)
  obtain v where "accepts (parse_value d opts (Inr (Some t))) b v" "erase v = erase w" "fits v t"
    using Cons.prems(2) [of w b] bss by (auto simp: reads_back_def)
  moreover obtain vs where "list_all2 (accepts (parse_value d opts (Inr (Some t)))) cs vs" "map erase vs = map erase data"
    "\<forall>v \<in> set vs. fits v t"
    using Cons.IH [OF bss(3)] Cons.prems(2) by auto
  ultimately show ?case
    by (intro exI [of _ "v # vs"]) (simp add: bss)
qed simp

lemma read_back_list:
  assumes wf: "wf_type (type_list (ListTypeData n t s))" "plain_type (type_list (ListTypeData n t s))"
    and len: "length data \<le> unat n" and "serialize_write (Sequence (List data l)) = Inr bs"
    and items: "\<And>w b. w \<in> set data \<Longrightarrow> serialize_write w = Inr b \<Longrightarrow> reads_back opts d t w b"
  shows "reads_back opts (Suc d) (type_list (ListTypeData n t s)) (Sequence (List data l)) bs"
proof -
  let ?l = "ListTypeData n t s" and ?len = "word_of_nat (length data) :: u32"
  have "unat n \<le> 1048576"
    using wf_size_limit [OF wf(1)] nat_size_pos [of t] wf(1) by (cases "nat_size t") auto
  with len have small: "length data \<le> 1048576" by simp
  then have ulen: "unat ?len = length data" "\<not> MAX_VALUE_SIZE < ?len" "?len \<le> n" "0 < ?len \<longleftrightarrow> data \<noteq> []"
    using len by (simp_all add: unat_of_nat word_less_nat_alt word_le_nat_alt size_consts)
  obtain bss where bss: "list_all2 (\<lambda>w b. w = Inr b) (map serialize_write data) bss"
    "bs = prefix_to_u8 PrefixList # to_be_bytes ?len @ concat bss"
    using assms(4) small write_each_split [of "map serialize_write data"]
    by (auto simp: with_prefix_def u32_try_from_word)
  obtain vs where vs: "list_all2 (accepts (parse_value d opts (Inr (Some t)))) bss vs" "map erase vs = map erase data"
    "\<forall>v \<in> set vs. fits v t"
    using read_back_items [OF bss(1) items] by blast
  have lvs: "length vs = length data" using vs(2) by (metis length_map)
  have fin: "list_with_type DESERIALIZATION_TYPE_CHECK_EPOCH vs ?l = Inr (Sequence (List vs ?l))"
    and fit: "fits (Sequence (List vs ?l)) (type_list ?l)"
    using fits_list [of vs t n s] vs(3) wf len lvs fits_has_type by auto
  have "accepts (parse_value (Suc d) opts (Inr (Some (type_list ?l)))) bs (Sequence (List vs ?l))"
  proof (cases "data = []")
    case True
    then have e: "vs = []" "bss = []" using lvs bss(1) by auto
    have "accepts (read_list_item (Some (type_list ?l))) (to_be_bytes ?len) (Inl (Sequence (List vs ?l)))"
      unfolding read_list_item_def
      by (rule accepts_sbind_end [OF accepts_read_u32])
        (use fin True in \<open>auto simp: check_match_True e finish_list_def intro!: accepts_sbind_end accepts_slift accepts_sret_Nil\<close>)
    then show ?thesis unfolding bss(2) e
      by (simp add: parse_step read_item_def del: parse_value.simps prefix_to_u8.simps)
  next
    case False
    have "accepts (read_list_item (Some (type_list ?l))) (to_be_bytes ?len) (Inr (DList [] ?len (Some ?l)))"
      unfolding read_list_item_def
      by (rule accepts_sbind_end [OF accepts_read_u32]) (use ulen False in \<open>simp add: check_match_True accepts_sret_Nil\<close>)
    moreover have "accepts (parse_frame opts (parse_value d opts) (DList [] ?len (Some ?l))) (concat bss) (Sequence (List vs ?l))"
      using accepts_sbind_end [OF accepts_items [OF vs(1)], of "\<lambda>vs. finish_list vs (Some ?l)"] fin
      by (simp add: ulen lvs finish_list_def accepts_slift)
    ultimately show ?thesis unfolding bss(2)
      by (intro parse_step_frame) (simp_all add: read_item_def del: parse_frame.simps)
  qed
  with fit vs(2) show ?thesis by (auto simp: reads_back_def)
qed

lemma list_all2_member: "list_all2 P xs ys \<Longrightarrow> x \<in> set xs \<Longrightarrow> \<exists>y \<in> set ys. P x y"
  by (induction rule: list_all2_induct) auto

abbreviation field_bytes :: "(string \<times> u8 list \<times> Value) list \<Rightarrow> u8 list" where
  "field_bytes xs \<equiv> concat (map (\<lambda>(k, b, v). write_name k @ b) xs)"

lemma read_back_fields:
  assumes "fields_have_types m ts"
    and "write_each (map (\<lambda>(key, w). rbind w (\<lambda>bs. Inr (write_name key @ bs))) (map (map_prod id serialize_write) m)) = Inr bs"
    and "\<And>k w t b. (k, w) \<in> set m \<Longrightarrow> (k, t) \<in> set ts \<Longrightarrow> has_type w t \<Longrightarrow> serialize_write w = Inr b \<Longrightarrow>
      reads_back opts d t w b"
  shows "\<exists>xs. bs = field_bytes xs \<and> map (\<lambda>(k, b, v). (k, erase v)) xs = map (map_prod id erase) m \<and>
    list_all2 (\<lambda>(k, b, v) (k', t). k = k' \<and> accepts (parse_value d opts (Inr (Some t))) b v \<and> fits v t) xs ts"
  using assms
proof (induction m arbitrary: ts bs)
  case Nil
  then show ?case by (intro exI [of _ "[]"]) (simp add: fields_have_types_iff)
next
  case (Cons x m)
  obtain k w where x: "x = (k, w)" by fastforce
  with Cons.prems(1) obtain t us where ts: "ts = (k, t) # us" "has_type w t" "fields_have_types m us"
    by (cases ts) auto
  obtain b c where b: "serialize_write w = Inr b" "bs = (write_name k @ b) @ c"
    and c: "write_each (map (\<lambda>(key, w). rbind w (\<lambda>bs. Inr (write_name key @ bs))) (map (map_prod id serialize_write) m)) = Inr c"
    using Cons.prems(2) by (auto simp: x id_def)
  obtain v where v: "accepts (parse_value d opts (Inr (Some t))) b v" "erase v = erase w" "fits v t"
    using Cons.prems(3) [of k w t b] b ts by (auto simp: reads_back_def x)
  have "\<exists>xs. c = field_bytes xs \<and> map (\<lambda>(k, b, v). (k, erase v)) xs = map (map_prod id erase) m \<and>
    list_all2 (\<lambda>(k, b, v) (k', t). k = k' \<and> accepts (parse_value d opts (Inr (Some t))) b v \<and> fits v t) xs us"
  proof (rule Cons.IH [OF ts(3) c])
    fix k' w' t' b' assume "(k', w') \<in> set m" "(k', t') \<in> set us" "has_type w' t'" "serialize_write w' = Inr b'"
    then show "reads_back opts d t' w' b'"
      using Cons.prems(3) [of k' w' t' b'] by (simp add: x ts)
  qed
  then obtain xs where "c = field_bytes xs" "map (\<lambda>(k, b, v). (k, erase v)) xs = map (map_prod id erase) m"
    "list_all2 (\<lambda>(k, b, v) (k', t). k = k' \<and> accepts (parse_value d opts (Inr (Some t))) b v \<and> fits v t) xs us"
    by blast
  with b v show ?case
    by (intro exI [of _ "(k, b, v) # xs"]) (simp add: x ts id_def)
qed

lemma read_back_tuple:
  assumes wf: "wf_type (TupleType (TupleTypeSignature ts s))" "plain_type (TupleType (TupleTypeSignature ts s))"
    and m: "fields_have_types m ts" and "serialize_write (Tuple tt m) = Inr bs"
    and fields: "\<And>k w t b. (k, w) \<in> set m \<Longrightarrow> (k, t) \<in> set ts \<Longrightarrow> has_type w t \<Longrightarrow> serialize_write w = Inr b \<Longrightarrow>
      reads_back opts d t w b"
  shows "reads_back opts (Suc d) (TupleType (TupleTypeSignature ts s)) (Tuple tt m) bs"
proof -
  let ?tt = "TupleTypeSignature ts s" and ?len = "word_of_nat (length m) :: u32"
  have len: "length m = length ts" using m by (simp add: fields_have_types_iff list_all2_lengthD)
  have "length ts \<le> 1048576" "0 < length ts"
    using wf_size_limit [OF wf(1)] wf(1) by (auto simp: tuple_try_from_map_eq)
  with len have ulen: "unat ?len = length m" "\<not> MAX_VALUE_SIZE < ?len" "0 < ?len" "ucast ?len = tuple_len ?tt"
    by (simp_all add: unat_of_nat word_less_nat_alt word_le_nat_alt size_consts tuple_len_def word_unat_eq_iff unat_u64_of_u32)
  obtain fs where fs: "write_each (map (\<lambda>(key, w). rbind w (\<lambda>bs. Inr (write_name key @ bs))) (map (map_prod id serialize_write) m)) = Inr fs"
    "bs = prefix_to_u8 PrefixTuple # to_be_bytes ?len @ fs"
    using assms(4) \<open>length ts \<le> 1048576\<close> len by (auto simp: with_prefix_def u32_try_from_word)
  have "\<exists>xs. fs = field_bytes xs \<and> map (\<lambda>(k, b, v). (k, erase v)) xs = map (map_prod id erase) m \<and>
    list_all2 (\<lambda>(k, b, v) (k', t). k = k' \<and> accepts (parse_value d opts (Inr (Some t))) b v \<and> fits v t) xs ts"
    by (rule read_back_fields [OF m fs(1)]) (rule fields)
  then obtain xs where xs: "fs = field_bytes xs" "map (\<lambda>(k, b, v). (k, erase v)) xs = map (map_prod id erase) m"
    "list_all2 (\<lambda>(k, b, v) (k', t). k = k' \<and> accepts (parse_value d opts (Inr (Some t))) b v \<and> fits v t) xs ts"
    by blast
  let ?m = "map (\<lambda>(k, b, v). (k, v)) xs"
  have "list_all2 (\<lambda>(k, v) (k', t). k = k' \<and> wt v \<and> has_type v t) ?m ts"
    using xs(3) by (auto simp: list_all2_map1 fits_has_type elim!: list_all2_mono)
  from fits_tuple [OF this wf] have fin: "tuple_from_data_typed DESERIALIZATION_TYPE_CHECK_EPOCH ?m ?tt (opt_behavior opts) = Inr (Tuple ?tt ?m)"
    and fit: "fits (Tuple ?tt ?m) (TupleType ?tt)"
    by blast+
  have ok: "valid_name k \<and> accepts (parse_value d opts (field_expected opts (Some ?tt) k)) b v \<and> field_entry opts (Some ?tt) k v = [(k, v)]"
    if "(k, b, v) \<in> set xs" for k b v
  proof -
    obtain t where t: "(k, t) \<in> set ts" "accepts (parse_value d opts (Inr (Some t))) b v"
      using list_all2_member [OF xs(3) \<open>(k, b, v) \<in> set xs\<close>] by auto
    then have "field_type ?tt k = Some t" "valid_name k"
      using wf(1) by (auto simp: field_type_def btree_wf_distinct)
    with t show ?thesis by (simp add: field_expected_def field_entry_def elides_def push_entry_def)
  qed
  obtain k b v ys where ys: "xs = (k, b, v) # ys"
    using xs(3) \<open>0 < length ts\<close> by (cases xs) auto
  have lys: "length ys = length m - 1"
    using xs(3) len by (auto simp: ys list_all2_lengthD dest!: list_all2_lengthD)
  have "accepts (read_tuple_item opts (Some (TupleType ?tt))) (to_be_bytes ?len @ write_name k)
      (Inr (DTuple [] (ucast ?len) 0 (Some ?tt) k (elides opts (Some ?tt) k)))"
    unfolding read_tuple_item_def
    by (rule accepts_sbind [OF accepts_read_u32])
      (use ulen ok in \<open>auto simp: check_match_True ys Let_def intro!: accepts_sbind_end [OF accepts_clarity_name] accepts_sret_Nil\<close>)
  moreover have "accepts (parse_frame opts (parse_value d opts) (DTuple [] (ucast ?len) 0 (Some ?tt) k (elides opts (Some ?tt) k)))
      (b @ field_bytes ys) (Tuple ?tt ?m)"
  proof -
    have n: "unat (ucast ?len :: u64) - unat (0 :: u64) - 1 = length ys"
      using ulen(1) lys by (simp add: unat_u64_of_u32)
    have "accepts (complete_tuple opts ?m (Some ?tt)) [] (Tuple ?tt ?m)"
      using fin xs(3) \<open>length ts \<le> 1048576\<close> by (auto simp: complete_tuple_def finish_tuple_def accepts_slift tuple_len_def unat_of_nat
          dest!: list_all2_lengthD)
    then show ?thesis
      unfolding parse_frame.simps n ys
      by (intro accepts_sbind_end [OF accepts_fields]) (use ok ys in auto)
  qed
  ultimately have "accepts (parse_value (Suc d) opts (Inr (Some (TupleType ?tt)))) bs (Tuple ?tt ?m)"
    unfolding fs(2) xs(1) ys
    using parse_step_frame [of opts "TupleType ?tt" PrefixTuple "to_be_bytes ?len @ write_name k"]
    by (simp add: read_item_def del: parse_frame.simps parse_value.simps prefix_to_u8.simps)
  moreover have "erase (Tuple ?tt ?m) = erase (Tuple tt m)"
    using xs(2) by (simp add: comp_def split_beta')
  ultimately show ?thesis using fit by (auto simp: reads_back_def)
qed

lemma read_back_wrapped:
  assumes "serialize_write w = Inr bs" "reads_back opts d t w bs" "wf_type (OptionalType t)"
  shows "reads_back opts (Suc d) (OptionalType t) (Optional (Some w)) (prefix_to_u8 PrefixOptionalSome # bs)"
proof -
  obtain v where v: "accepts (parse_value d opts (Inr (Some t))) bs v" "erase v = erase w" "fits v t"
    using assms(2) by (auto simp: reads_back_def)
  have "accepts (read_item opts (Some (OptionalType t)) PrefixOptionalSome) [] (Inr (DOptionSome (Some t)))"
    by (simp add: read_item_defs check_match_True accepts_sret_Nil)
  moreover have "accepts (parse_frame opts (parse_value d opts) (DOptionSome (Some t))) bs (Optional (Some v))"
    using fits_some [OF v(3) assms(3)] by (auto intro!: accepts_sbind_end [OF v(1)] simp: too_large_def accepts_slift)
  ultimately have "accepts (parse_value (Suc d) opts (Inr (Some (OptionalType t)))) (prefix_to_u8 PrefixOptionalSome # [] @ bs)
      (Optional (Some v))"
    by (rule parse_step_frame)
  with v fits_some [OF v(3) assms(3)] show ?thesis by (auto simp: reads_back_def)
qed

lemma read_back_okay:
  assumes "serialize_write w = Inr bs" "reads_back opts d t w bs" "wf_type (ResponseType t s)"
  shows "reads_back opts (Suc d) (ResponseType t s) (Response True w) (prefix_to_u8 PrefixResponseOk # bs)"
proof -
  obtain v where v: "accepts (parse_value d opts (Inr (Some t))) bs v" "erase v = erase w" "fits v t"
    using assms(2) by (auto simp: reads_back_def)
  have "accepts (read_item opts (Some (ResponseType t s)) PrefixResponseOk) [] (Inr (DResponseOk (Some t)))"
    by (simp add: read_item_defs check_match_True accepts_sret_Nil)
  moreover have "accepts (parse_frame opts (parse_value d opts) (DResponseOk (Some t))) bs (Response True v)"
    using fits_okay [OF v(3) assms(3)] by (auto intro!: accepts_sbind_end [OF v(1)] simp: too_large_def accepts_slift)
  ultimately have "accepts (parse_value (Suc d) opts (Inr (Some (ResponseType t s)))) (prefix_to_u8 PrefixResponseOk # [] @ bs)
      (Response True v)"
    by (rule parse_step_frame)
  with v fits_okay [OF v(3) assms(3)] show ?thesis by (auto simp: reads_back_def)
qed

lemma read_back_error:
  assumes "serialize_write w = Inr bs" "reads_back opts d s w bs" "wf_type (ResponseType t s)"
  shows "reads_back opts (Suc d) (ResponseType t s) (Response False w) (prefix_to_u8 PrefixResponseErr # bs)"
proof -
  obtain v where v: "accepts (parse_value d opts (Inr (Some s))) bs v" "erase v = erase w" "fits v s"
    using assms(2) by (auto simp: reads_back_def)
  have "accepts (read_item opts (Some (ResponseType t s)) PrefixResponseErr) [] (Inr (DResponseErr (Some s)))"
    by (simp add: read_item_defs check_match_True accepts_sret_Nil)
  moreover have "accepts (parse_frame opts (parse_value d opts) (DResponseErr (Some s))) bs (Response False v)"
    using fits_error [OF v(3) assms(3)] by (auto intro!: accepts_sbind_end [OF v(1)] simp: too_large_def accepts_slift)
  ultimately have "accepts (parse_value (Suc d) opts (Inr (Some (ResponseType t s)))) (prefix_to_u8 PrefixResponseErr # [] @ bs)
      (Response False v)"
    by (rule parse_step_frame)
  with v fits_error [OF v(3) assms(3)] show ?thesis by (auto simp: reads_back_def)
qed

lemma reads_back_leaf:
  assumes "leaf_type t" "wt v" "has_type v t" "serialize_write v = Inr bs" "opt_name_limit opts = LegacyLimit" "0 < d"
  shows "reads_back opts d t v bs"
proof -
  obtain d' where "d = Suc d'" using assms(6) by (cases d) auto
  with read_back_leaf [OF assms(1-5), of d'] fits_leaf [OF assms(1-3)] show ?thesis
    unfolding reads_back_def by blast
qed

lemma has_type_NoType [simp]: "\<not> has_type v NoType"
  by (simp add: has_type_iff)

lemma read_back:
  "wf_type t \<Longrightarrow> plain_type t \<Longrightarrow> wt v \<Longrightarrow> has_type v t \<Longrightarrow> serialize_write v = Inr bs \<Longrightarrow> nat_depth t \<le> d \<Longrightarrow>
   opt_name_limit opts = LegacyLimit \<Longrightarrow> reads_back opts d t v bs"
proof (induction t arbitrary: v bs d)
  case (List n t s)
  from wt_list_shape [OF List.prems(3,4)] obtain data l where v: "v = Sequence (List data l)" "length data \<le> unat n"
    "\<forall>w \<in> set data. wt w \<and> has_type w t" by blast
  obtain d' where d: "d = Suc d'" "nat_depth t \<le> d'" using List.prems(6) by (cases d) auto
  have "wf_type t" "n = 0 \<or> plain_type t" using List.prems(1,2) by simp_all
  then have "reads_back opts d' t w b" if "w \<in> set data" "serialize_write w = Inr b" for w b
    using List.IH [OF _ _ _ _ that(2) d(2) List.prems(7)] v that(1) by auto
  with List.prems(1,2,5) v show ?case unfolding d(1) v(1) by (intro read_back_list) auto
next
  case (Tuple ts s)
  have wf: "btree_wf ts" "\<And>k t. (k, t) \<in> set ts \<Longrightarrow> wf_type t \<and> plain_type t" using Tuple.prems(1,2) by auto
  from wt_tuple_shape [OF Tuple.prems(3,4) wf(1)] obtain tt m
    where v: "v = Tuple tt m" "fields_have_types m ts" "\<forall>(k, w) \<in> set m. wt w"
    by blast
  obtain d' where d: "d = Suc d'" "\<And>k t. (k, t) \<in> set ts \<Longrightarrow> nat_depth t \<le> d'"
    using Tuple.prems(6) by (cases d) (force simp: fold_max_le_iff)+
  have "reads_back opts d' t w b" if "(k, w) \<in> set m" "(k, t) \<in> set ts" "has_type w t" "serialize_write w = Inr b" for k w t b
    using Tuple.IH [OF that(2) _ _ _ that(3,4) d(2) [OF that(2)] Tuple.prems(7)] wf(2) [OF that(2)] v(3) that(1) by blast
  with Tuple.prems(1,2,5) v show ?case unfolding d(1) v(1) by (intro read_back_tuple) auto
next
  case (Optional t)
  obtain d' where d: "d = Suc d'" "nat_depth t \<le> d'" using Optional.prems(6) by (cases d) auto
  from wt_optional_shape [OF Optional.prems(3,4)] show ?case
  proof (elim disjE exE conjE)
    assume "v = Optional None"
    moreover from this have "bs = [prefix_to_u8 PrefixOptionalNone]" using Optional.prems(5) by (simp add: with_prefix_def)
    ultimately show ?thesis
      using fits_none [OF Optional.prems(1)] parse_step [of opts "OptionalType t" PrefixOptionalNone "[]" "Optional None" d']
      by (auto simp: reads_back_def d read_item_defs check_match_True accepts_sret_Nil none_def
          simp del: parse_value.simps prefix_to_u8.simps)
  next
    fix w assume w: "v = Optional (Some w)" "wt w" "has_type w t"
    then obtain cs where cs: "serialize_write w = Inr cs" "bs = prefix_to_u8 PrefixOptionalSome # cs"
      using Optional.prems(5) by (auto simp: with_prefix_def)
    have "wf_type t" "plain_type t" using Optional.prems(1,2) w(3) by auto
    from Optional.IH [OF this w(2,3) cs(1) d(2) Optional.prems(7)] show ?thesis
      unfolding d(1) w(1) cs(2) using cs(1) Optional.prems(1) by (intro read_back_wrapped)
  qed
next
  case (Response t s)
  obtain d' where d: "d = Suc d'" "nat_depth t \<le> d'" "nat_depth s \<le> d'" using Response.prems(6) by (cases d) auto
  from wt_response_shape [OF Response.prems(3,4)] obtain w where w: "wt w"
    "v = Response True w \<and> has_type w t \<or> v = Response False w \<and> has_type w s" by blast
  from w(2) show ?case
  proof (elim disjE conjE)
    assume v: "v = Response True w" "has_type w t"
    then obtain cs where cs: "serialize_write w = Inr cs" "bs = prefix_to_u8 PrefixResponseOk # cs"
      using Response.prems(5) by (auto simp: with_prefix_def)
    have "wf_type t" "plain_type t" using Response.prems(1,2) v(2) by auto
    from Response.IH(1) [OF this w(1) v(2) cs(1) d(2) Response.prems(7)] show ?thesis
      unfolding d(1) v(1) cs(2) using cs(1) Response.prems(1) by (intro read_back_okay)
  next
    assume v: "v = Response False w" "has_type w s"
    then obtain cs where cs: "serialize_write w = Inr cs" "bs = prefix_to_u8 PrefixResponseErr # cs"
      using Response.prems(5) by (auto simp: with_prefix_def)
    have "wf_type s" "plain_type s" using Response.prems(1,2) v(2) by auto
    from Response.IH(2) [OF this w(1) v(2) cs(1) d(3) Response.prems(7)] show ?thesis
      unfolding d(1) v(1) cs(2) using cs(1) Response.prems(1) by (intro read_back_error)
  qed
next
  case (TraitRef t)
  then show ?case by (simp add: has_type_iff)
qed (auto intro: reads_back_leaf simp: leaf_type_def)

section \<open>Round trips\<close>

lemma run_accepts:
  assumes "accepts m bs x" "length bs \<le> limit" "limit < 2 ^ 64"
  shows "m (from_reader (bs @ rest) limit) = (Inr x, \<lparr>br_fd = rest, br_max_len = limit, br_read_so_far = length bs\<rparr>)"
  using assms by (simp add: accepts_def from_reader_def)

lemma sanitizing_admits: "value_sanitizing epoch \<Longrightarrow> admits t epoch v = Inr True \<longleftrightarrow> has_type v t"
  by (cases epoch) (auto simp: admits_def admits_type_def has_type_iff adm_def value_sanitizing_def epoch_order_code)

text \<open>
  (C37) Reading a well-formed principal from the bytes it is written as gives the principal back
  and leaves what follows unread.
\<close>

theorem principal_codec_roundtrip:
  assumes "wf_principal p" "length (principal_serialize p) \<le> limit" "limit < 2 ^ 64"
  shows "principal_deserialize (from_reader (principal_serialize p @ rest) limit) =
    (Inr p, \<lparr>br_fd = rest, br_max_len = limit, br_read_so_far = length (principal_serialize p)\<rparr>)"
  using accepts_principal [OF assms(1)] assms(2,3) by (rule run_accepts)

theorem principal_codec_roundtrip_witness:
  "fst (principal_deserialize (from_reader (principal_serialize (Standard (StandardPrincipalData 22 (replicate 20 7))) @ [9]) 100)) =
    Inr (Standard (StandardPrincipalData 22 (replicate 20 7)))"
  by (subst principal_codec_roundtrip) (simp_all add: wf_standard_def principal_serialize_def write_standard_principal_def)

lemma stored_value_reads_back:
  assumes "value_sanitizing epoch" "wf_type t" "plain_type t" "wt v" "admits t epoch v = Inr True"
  shows "\<exists>bs v'. serialize_to_vec v = Inr bs \<and> try_deserialize_bytes_at_epoch (bs @ rest) t epoch = Inr v' \<and>
    value_eq v' v \<and> wt v' \<and> admits t epoch v' = Inr True \<and>
    deserialize_read_count_with_options (bs @ rest) (Some t)
      \<lparr>opt_sanitize = True, opt_behavior = tuple_fields_behavior epoch, opt_name_limit = LegacyLimit\<rparr> = Inr (v', length bs)"
proof -
  let ?opts = "\<lparr>opt_sanitize = True, opt_behavior = tuple_fields_behavior epoch, opt_name_limit = LegacyLimit\<rparr>"
  have v: "has_type v t" using assms(1,5) by (simp add: sanitizing_admits)
  obtain bs where bs: "serialize_write v = Inr bs" "length bs \<le> 2 * nat_size t"
    using serialize_bounded [OF assms(2,4) v] by blast
  have "nat_depth t \<le> depth_check ?opts"
    using wf_depth [OF assms(2)] by (simp add: depth_check_def size_consts)
  from read_back [OF assms(2-4) v bs(1) this, of ?opts]
  obtain v' where v': "accepts (inner_deserialize_read ?opts (Some t)) bs v'" "erase v' = erase v" "fits v' t"
    by (auto simp: reads_back_def inner_deserialize_parse)
  have "length bs \<le> SANITIZATION_READ_BOUND"
    using bs(2) wf_size [OF assms(2)] by (simp add: SANITIZATION_READ_BOUND_def)
  then have "deserialize_read_count_with_options (bs @ rest) (Some t) ?opts = Inr (v', length bs)"
    using run_accepts [OF v'(1), of SANITIZATION_READ_BOUND rest]
    by (simp add: deserialize_read_count_with_options_def SANITIZATION_READ_BOUND_def)
  then show ?thesis
    using bs(1) v'(2,3) assms(1) fits_has_type [OF v'(3)]
    by (auto simp: serialize_to_vec_def try_deserialize_bytes_at_epoch_def value_eq_def sanitizing_admits)
qed

text \<open>
  (C26) Values survive storage: in every epoch that sanitises values, the bytes of a well-typed
  value, read at any well-formed plain type that admits it, give a value equal to it, which is again
  well-typed and admitted by the type; bytes after the value do not matter, and the number of
  bytes read is the length of what was written.
\<close>

theorem value_serialization_roundtrip:
  assumes "value_sanitizing epoch" "wf_type t" "plain_type t" "wt v" "admits t epoch v = Inr True"
  shows "\<exists>bs v'. serialize_to_vec v = Inr bs \<and> try_deserialize_bytes_at_epoch (bs @ rest) t epoch = Inr v' \<and>
    value_eq v' v \<and> wt v' \<and> admits t epoch v' = Inr True \<and>
    deserialize_read_count_with_options (bs @ rest) (Some t)
      \<lparr>opt_sanitize = True, opt_behavior = tuple_fields_behavior epoch, opt_name_limit = LegacyLimit\<rparr> = Inr (v', length bs)"
  using assms by (rule stored_value_reads_back)

theorem value_serialization_roundtrip_witness:
  "\<exists>bs v'. serialize_to_vec sample_value = Inr bs \<and>
     try_deserialize_bytes_at_epoch (bs @ [1, 2]) (sample_tuple IntType 9 49) Epoch33 = Inr v' \<and> value_eq v' sample_value"
proof -
  have "value_sanitizing Epoch33" "wf_type (sample_tuple IntType 9 49)" "plain_type (sample_tuple IntType 9 49)"
    "admits (sample_tuple IntType 9 49) Epoch33 sample_value = Inr True"
    by code_simp+
  from value_serialization_roundtrip [OF this(1-3) wt_sample_value this(4), of "[1, 2]"] show ?thesis by blast
qed

end
