(* ===== verification/TypedReading.thy ===== *)
theory TypedReading
  imports ValueReading
begin

text \<open>
  Whatever is read at a type with the exact field sets of epoch 4.1 is a well-typed value of
  that type.
\<close>

section \<open>What is read is well-typed\<close>

lemma sint_range: "- (2 ^ 127) \<le> sint w \<and> sint w < 2 ^ 127" for w :: u128
  using sint_greater_eq [of w] sint_less [of w] by simp

lemma ascii_from_Inr: "string_ascii_from_bytes data = Inr v \<Longrightarrow> v = Sequence (String (CharASCII data)) \<and> wt v"
  by (auto simp: string_ascii_from_bytes_def buffer_length_eq size_consts find_None_iff list_all_iff ascii_byte_def
      split: option.splits)

lemma utf8_from_Inr:
  assumes "string_utf8_from_bytes data = Inr v"
  shows "\<exists>chunks. v = Sequence (String (CharUTF8 chunks)) \<and> wt v \<and> length chunks \<le> 262144"
proof -
  obtain cs where cs: "utf8_chars data = Some cs" "v = Sequence (String (CharUTF8 (map encode_utf8 cs)))" "length cs \<le> 262144"
    using assms by (auto simp: string_utf8_from_bytes_def Let_def utf8_length_eq)
  then have "list_all utf8_chunk (map encode_utf8 cs)"
    using utf8_chars_encode [OF cs(1)] by (auto simp: utf8_chunk_encode list_all_iff)
  with cs show ?thesis by (auto simp: size_consts)
qed

lemma standard_principal_read: "read_standard_principal r = (Inr p, r') \<Longrightarrow> wf_standard p"
  by (auto simp: read_standard_principal_def slift_run standard_principal_new_def wf_standard_def not_le
      dest!: read_exact_length split: if_splits)

lemma guarded_string_read: "read_guarded_string f r = (Inr s, r') \<Longrightarrow> \<exists>x. f x = Inr s"
  by (auto simp: read_guarded_string_def slift_run sfail_run split: if_splits)

lemma contract_name_read: "read_contract_name r = (Inr s, r') \<Longrightarrow> contract_name_try_from s = Inr s"
  unfolding read_contract_name_def
  by (drule guarded_string_read) (auto dest: contract_name_try_from_idem)

lemma clarity_name_read: "read_clarity_name r = (Inr s, r') \<Longrightarrow> valid_name s"
  unfolding read_clarity_name_def valid_name_def
  by (drule guarded_string_read) (auto simp: clarity_name_try_from_def split: if_splits)

lemma check_match_Inr [simp]: "check_match P (Some t) r = (Inr u, r') \<longleftrightarrow> P t \<and> r' = r"
  by (auto simp: check_match_def sret_run sfail_run)

lemma buffer_length_read: "read_buffer_length r = (Inr n, r') \<Longrightarrow> unat n \<le> 1048576"
  by (auto simp: read_buffer_length_def slift_run buffer_length_eq [of "unat _", simplified])

lemma type_patterns [simp]:
  "(case t of SequenceType (BufferType n) \<Rightarrow> P n | _ \<Rightarrow> False) \<longleftrightarrow> (\<exists>n. t = type_buffer n \<and> P n)"
  "(case t of SequenceType (StringType (ASCII n)) \<Rightarrow> P n | _ \<Rightarrow> False) \<longleftrightarrow> (\<exists>n. t = type_ascii n \<and> P n)"
  "(case t of SequenceType (StringType (UTF8 n)) \<Rightarrow> P n | _ \<Rightarrow> False) \<longleftrightarrow> (\<exists>n. t = type_utf8 n \<and> P n)"
  "(case t of SequenceType (ListType l) \<Rightarrow> Q l | _ \<Rightarrow> False) \<longleftrightarrow> (\<exists>l. t = type_list l \<and> Q l)"
  "(case t of OptionalType u \<Rightarrow> R u | _ \<Rightarrow> False) \<longleftrightarrow> (\<exists>u. t = OptionalType u \<and> R u)"
  "(case t of ResponseType u s \<Rightarrow> S u s | _ \<Rightarrow> False) \<longleftrightarrow> (\<exists>u s. t = ResponseType u s \<and> S u s)"
  "(case t of TupleType tt \<Rightarrow> T tt | _ \<Rightarrow> False) \<longleftrightarrow> (\<exists>tt. t = TupleType tt \<and> T tt)"
  by (auto split: TypeSignature.splits SequenceSubtype.splits StringSubtype.splits)

lemma has_type_buffer:
  assumes "length data \<le> 1048576" "length data \<le> unat n"
  shows "has_type (Sequence (Buffer data)) (type_buffer n)" "has_type (Sequence (String (CharASCII data))) (type_ascii n)"
proof -
  have "buffer_length_try_from (int (length data)) = Inr (word_of_nat (length data))"
    using assms(1) by (simp add: buffer_length_eq unat_of_nat)
  then show "has_type (Sequence (Buffer data)) (type_buffer n)" "has_type (Sequence (String (CharASCII data))) (type_ascii n)"
    using assms by (simp_all add: has_type_def word_le_nat_alt unat_of_nat)
qed

lemma has_type_utf8:
  assumes "length data \<le> 262144" "length data \<le> unat n"
  shows "has_type (Sequence (String (CharUTF8 data))) (type_utf8 n)"
proof -
  have "string_utf8_length_try_from (int (length data)) = Inr (word_of_nat (length data))"
    using assms(1) by (simp add: utf8_length_eq unat_of_nat)
  then show ?thesis
    using assms by (simp add: has_type_def word_le_nat_alt unat_of_nat)
qed

lemma read_leaf:
  assumes "read_item opts (Some t) p r = (Inr x, r')"
    "p \<in> {PrefixInt, PrefixUInt, PrefixBoolTrue, PrefixBoolFalse, PrefixPrincipalStandard, PrefixPrincipalContract,
          PrefixBuffer, PrefixStringASCII, PrefixStringUTF8}"
  shows "\<exists>v. x = Inl v \<and> leaf_type t \<and> wt v \<and> has_type v t"
proof (cases p)
  case PrefixInt
  with assms show ?thesis
    using sint_range by (auto simp: read_item_def sret_run leaf_type_def has_type_iff i128_from_be_bytes_def)
next
  case PrefixPrincipalStandard
  with assms show ?thesis
    by (auto simp: read_item_def sret_run leaf_type_def has_type_iff adm_Principal dest: standard_principal_read)
next
  case PrefixPrincipalContract
  with assms show ?thesis
    by (auto simp: read_item_def read_contract_item_def sret_run sfail_run leaf_type_def has_type_iff adm_Principal
        dest: standard_principal_read contract_name_read split: if_splits)
next
  case PrefixBuffer
  with assms obtain len data n r1 r2 where "t = type_buffer n" "len \<le> n" "read_exact (unat len) r1 = (Inr data, r2)"
    "x = Inl (Sequence (Buffer data))" "buff_from data = Inr (Sequence (Buffer data))"
    by (auto simp: read_item_def read_buffer_item_def slift_run buff_from_def)
  moreover from this have "length data = unat len" "length data \<le> 1048576"
    using read_exact_length by (fastforce simp: buff_from_def buffer_length_eq)+
  ultimately show ?thesis
    by (auto simp: leaf_type_def size_consts word_le_nat_alt intro!: has_type_buffer)
next
  case PrefixStringASCII
  with assms obtain len data n v r1 r2 where r: "t = type_ascii n" "len \<le> n" "read_exact (unat len) r1 = (Inr data, r2)"
    "x = Inl v" "string_ascii_from_bytes data = Inr v"
    by (auto simp: read_item_def read_ascii_item_def slift_run)
  moreover have "length data = unat len" "v = Sequence (String (CharASCII data))" "wt v"
    using read_exact_length [OF r(3)] ascii_from_Inr [OF r(5)] by blast+
  ultimately show ?thesis
    by (auto simp: leaf_type_def size_consts word_le_nat_alt intro!: has_type_buffer)
next
  case PrefixStringUTF8
  with assms obtain data v where v: "x = Inl v" "string_utf8_from_bytes data = Inr v"
    and m: "case (t, Inr v :: SerializationError + Value) of
      (SequenceType (StringType (UTF8 n)), Inr (Sequence (String (CharUTF8 utf8)))) \<Rightarrow> word_of_nat (length utf8) \<le> n | _ \<Rightarrow> False"
    by (auto simp: read_item_def read_utf8_item_def slift_run Let_def)
  from utf8_from_Inr [OF v(2)] obtain chunks
    where "v = Sequence (String (CharUTF8 chunks))" "wt v" "length chunks \<le> 262144" by blast
  moreover from m this(1) obtain n where "t = type_utf8 n" "word_of_nat (length chunks) \<le> n" by auto
  moreover note v(1)
  ultimately show ?thesis
    by (auto simp: leaf_type_def size_consts word_le_nat_alt unat_of_nat intro!: has_type_utf8)
qed (use assms in \<open>auto simp: read_item_def sret_run leaf_type_def has_type_iff\<close>)

lemma read_container:
  assumes "read_item opts (Some t) p r = (Inr x, r')"
    "p \<notin> {PrefixInt, PrefixUInt, PrefixBoolTrue, PrefixBoolFalse, PrefixPrincipalStandard, PrefixPrincipalContract,
          PrefixBuffer, PrefixStringASCII, PrefixStringUTF8}"
    "wf_type t" "opt_behavior opts = EXACT_FIELD_SET"
  shows "(\<exists>u. t = OptionalType u \<and> (x = Inl (Optional None) \<or> x = Inr (DOptionSome (Some u)))) \<or>
    (\<exists>u s. t = ResponseType u s \<and> (x = Inr (DResponseOk (Some u)) \<or> x = Inr (DResponseErr (Some s)))) \<or>
    (\<exists>l. t = type_list l \<and> (x = Inl (Sequence (List [] l)) \<or> (\<exists>len. len \<le> ltd_max_len l \<and> x = Inr (DList [] len (Some l))))) \<or>
    (\<exists>tt len key. t = TupleType tt \<and> 0 < len \<and> valid_name key \<and>
       x = Inr (DTuple [] len 0 (Some tt) key (elides opts (Some tt) key)))"
proof (cases p)
  case PrefixList
  with assms show ?thesis
    by (auto simp: read_item_def read_list_item_def sret_run sfail_run slift_run Let_def finish_list_def list_with_type_def
        split: if_splits)
next
  case PrefixTuple
  with assms(1) obtain tt where t: "t = TupleType tt"
    by (auto simp: read_item_def read_tuple_item_def sfail_run split: if_splits)
  then have "tts_type_map tt \<noteq> []" "length (tts_type_map tt) < 2 ^ 64"
    using assms(3) wf_size_limit [OF assms(3)] by (cases tt; auto simp: tuple_try_from_map_eq)+
  then have "0 < tuple_len tt"
    by (simp add: tuple_len_def word_less_nat_alt unat_of_nat)
  then show ?thesis
    using PrefixTuple assms(1,4) t
    by (auto simp: read_item_def read_tuple_item_def sfail_run sret_run slift_run Let_def finish_tuple_def
        tuple_from_data_typed_def EXACT_FIELD_SET_def word_less_nat_alt unat_u64_of_u32 dest: clarity_name_read
        split: if_splits)
qed (use assms in \<open>auto simp: read_item_def read_some_item_def read_response_item_def sret_run none_def\<close>)

lemma parse_items_sound:
  assumes "parse_items n p r = (Inr vs, r')" "\<And>v r r'. p r = (Inr v, r') \<Longrightarrow> P v"
  shows "length vs = n \<and> (\<forall>v \<in> set vs. P v)"
  using assms(1)
proof (induction n arbitrary: vs r)
  case (Suc n)
  then obtain v ws r1 where "p r = (Inr v, r1)" "parse_items n p r1 = (Inr ws, r')" "vs = v # ws"
    by (auto simp: sret_run)
  with Suc.IH [OF this(2)] assms(2) show ?case by auto
qed (simp add: sret_run)

text \<open>A kept field has a declared type and was read at it.\<close>

lemma field_sound:
  assumes "p (field_expected opts (Some tt) k) r = (Inr v, r')" "(k', w) \<in> set (field_entry opts (Some tt) k v)"
    "\<And>r r'. p (Inl (DeserializeExpected (TupleType tt))) r \<noteq> (Inr v, r')"
  shows "k' = k \<and> w = v \<and> (\<exists>t. field_type tt k = Some t \<and> p (Inr (Some t)) r = (Inr v, r'))"
  using assms
  by (cases "field_type tt k") (auto simp: field_entry_def field_expected_def push_entry_def elides_def split: if_splits)

lemma parse_fields_sound:
  assumes "parse_fields n opts (Some tt) p k r = (Inr xs, r')"
    "\<And>v t k r r'. field_type tt k = Some t \<Longrightarrow> p (Inr (Some t)) r = (Inr v, r') \<Longrightarrow> P t v"
    "\<And>v r r'. p (Inl (DeserializeExpected (TupleType tt))) r \<noteq> (Inr v, r')"
  shows "\<forall>(k, v) \<in> set xs. \<exists>t. field_type tt k = Some t \<and> P t v"
  using assms(1)
proof (induction n arbitrary: k r xs)
  case 0
  then show ?case using field_sound [of p opts tt] assms(2,3) by (fastforce simp: sret_run)
next
  case (Suc n)
  then obtain v k' ys r1 r2 where s: "p (field_expected opts (Some tt) k) r = (Inr v, r1)"
    "parse_fields n opts (Some tt) p k' r2 = (Inr ys, r')" "xs = field_entry opts (Some tt) k v @ ys"
    by (auto simp: sret_run)
  have "\<forall>(k, v) \<in> set (field_entry opts (Some tt) k v). \<exists>t. field_type tt k = Some t \<and> P t v"
    using field_sound [of p opts tt k r v r1, OF s(1)] assms(2,3) by fastforce
  with Suc.IH [OF s(2)] s(3) show ?case by auto
qed

lemma collect_typed_inv:
  assumes "collect_typed_data DESERIALIZATION_TYPE_CHECK_EPOCH tt beh xs m = Inr m'"
    "\<forall>(k, v) \<in> set xs. wt v" "btree_wf m" "\<forall>(k, v) \<in> set m. wt v \<and> (\<exists>t. field_type tt k = Some t \<and> has_type v t)"
  shows "btree_wf m' \<and> (\<forall>(k, v) \<in> set m'. wt v \<and> (\<exists>t. field_type tt k = Some t \<and> has_type v t))"
  using assms
proof (induction xs arbitrary: m)
  case (Cons x xs)
  obtain k v where x: "x = (k, v)" by fastforce
  with Cons.prems obtain t where t: "field_type tt k = Some t" "has_type v t"
    "collect_typed_data DESERIALIZATION_TYPE_CHECK_EPOCH tt beh xs (btree_insert k v m) = Inr m'"
    by (auto simp: admits_has_type split: if_splits)
  have "\<forall>(k, v) \<in> set (btree_insert k v m). wt v \<and> (\<exists>t. field_type tt k = Some t \<and> has_type v t)"
    using Cons.prems(2,4) t(1,2) set_btree_insert_subset [of k v m] by (fastforce simp: x)
  with Cons.IH [OF t(3)] Cons.prems(2,3) show ?case by (simp add: x)
qed simp

lemma complete_tuple_sound:
  assumes "complete_tuple opts xs (Some tt) r = (Inr v, r')" "\<forall>(k, v) \<in> set xs. wt v"
    "opt_behavior opts = EXACT_FIELD_SET" "wf_type (TupleType tt)" "plain_type (TupleType tt)"
  shows "fits v (TupleType tt)"
proof -
  obtain ts s where tt: "tt = TupleTypeSignature ts s" by (cases tt)
  obtain m where m: "collect_typed_data DESERIALIZATION_TYPE_CHECK_EPOCH tt EXACT_FIELD_SET xs [] = Inr m"
    "v = Tuple tt m" "word_of_nat (length m) = tuple_len tt"
    using assms(1,3) by (auto simp: complete_tuple_def finish_tuple_def slift_run sfail_run tuple_from_data_typed_def
        EXACT_FIELD_SET_def split: if_splits)
  have inv: "btree_wf m" "\<forall>(k, v) \<in> set m. wt v \<and> (\<exists>t. field_type tt k = Some t \<and> has_type v t)"
    using collect_typed_inv [OF m(1) assms(2)] by simp_all
  have ts: "btree_wf ts" "length ts \<le> 1048576"
    using assms(4) wf_size_limit [OF assms(4)] by (auto simp: tt)
  have sub: "fst ` set m \<subseteq> fst ` set ts"
  proof
    fix k assume "k \<in> fst ` set m"
    then obtain t where "map_of ts k = Some t" using inv(2) by (fastforce simp: tt field_type_def)
    then show "k \<in> fst ` set ts" by (metis domI dom_map_of_conv_image_fst)
  qed
  have "length m \<le> length ts"
    using sub inv(1) ts(1) by (metis (no_types) btree_wf_distinct card_mono distinct_card finite_imageI finite_set length_map set_map)
  with m(3) ts(2) have len: "length m = length ts"
    by (simp add: tt tuple_len_def word_unat_eq_iff unat_of_nat)
  then have keys: "map fst m = map fst ts" using same_keys [OF inv(1) ts(1)] sub by simp
  have "list_all2 (\<lambda>(k, v) (k', t). k = k' \<and> wt v \<and> has_type v t) m ts"
  proof (rule list_all2_all_nthI [OF len])
    fix i assume i: "i < length m"
    obtain k v where kv: "m ! i = (k, v)" by fastforce
    obtain t where t: "ts ! i = (k, t)" using keys i len kv by (metis fst_conv nth_map prod.collapse)
    have "map_of ts k = Some t" using ts(1) t i len by (metis btree_wf_distinct map_of_is_SomeI nth_mem)
    moreover have "wt v \<and> (\<exists>t. field_type tt k = Some t \<and> has_type v t)"
      using bspec [OF inv(2) nth_mem [OF i]] by (simp add: kv)
    ultimately show "(case m ! i of (k, v) \<Rightarrow> \<lambda>(k', t). k = k' \<and> wt v \<and> has_type v t) (ts ! i)"
      by (simp add: kv t tt field_type_def)
  qed
  from fits_tuple [OF this] show ?thesis using assms(4,5) by (simp add: m(2) tt)
qed

lemma parse_value_Inl [simp]: "parse_value d opts (Inl e) r \<noteq> (Inr v, r')"
  by (cases d) (simp_all add: sfail_run)

lemma parse_value_NoType: "parse_value d opts (Inr (Some NoType)) r \<noteq> (Inr v, r')"
proof (cases d)
  case (Suc d')
  have "read_item opts (Some NoType) p r \<noteq> (Inr x, r')" for p x r r'
    by (cases p) (auto simp: read_item_defs sfail_run Let_def)
  then show ?thesis by (auto simp: Suc)
qed (simp add: sfail_run)

lemma too_large_Inr [simp]: "too_large m r = (Inr v, r') \<longleftrightarrow> m = Inr v \<and> r' = r"
  by (auto simp: too_large_def slift_run)

text \<open>One step of the parser at a type, with the results of its parts.\<close>

lemma parse_value_step:
  assumes "parse_value d opts (Inr (Some t)) r = (Inr v, r')" "wf_type t" "opt_behavior opts = EXACT_FIELD_SET"
  obtains "leaf_type t" "wt v" "has_type v t"
  | u where "t = OptionalType u" "v = Optional None"
  | u d' w r1 r2 where "t = OptionalType u" "parse_value d' opts (Inr (Some u)) r1 = (Inr w, r2)" "value_some w = Inr v"
  | u s d' w r1 r2 where "t = ResponseType u s" "parse_value d' opts (Inr (Some u)) r1 = (Inr w, r2)" "okay w = Inr v"
  | u s d' w r1 r2 where "t = ResponseType u s" "parse_value d' opts (Inr (Some s)) r1 = (Inr w, r2)" "error w = Inr v"
  | l where "t = type_list l" "v = Sequence (List [] l)"
  | l len d' ws r1 r2 where "t = type_list l" "len \<le> ltd_max_len l"
      "parse_items (unat len) (parse_value d' opts (Inr (Some (ltd_entry_type l)))) r1 = (Inr ws, r2)"
      "list_with_type DESERIALIZATION_TYPE_CHECK_EPOCH ws l = Inr v"
  | tt n d' key xs r1 r2 where "t = TupleType tt" "parse_fields n opts (Some tt) (parse_value d' opts) key r1 = (Inr xs, r2)"
      "complete_tuple opts xs (Some tt) r2 = (Inr v, r')"
proof -
  obtain d' where d: "d = Suc d'" using assms(1) by (cases d) (auto simp: sfail_run)
  obtain p x r1 r2 where x: "read_item opts (Some t) p r1 = (Inr x, r2)"
    "(case x of Inl w \<Rightarrow> sret w | Inr frame \<Rightarrow> parse_frame opts (parse_value d' opts) frame) r2 = (Inr v, r')"
    using assms(1) by (auto simp: d slift_run)
  show ?thesis
  proof (cases "p \<in> {PrefixInt, PrefixUInt, PrefixBoolTrue, PrefixBoolFalse, PrefixPrincipalStandard, PrefixPrincipalContract,
          PrefixBuffer, PrefixStringASCII, PrefixStringUTF8}")
    case True
    from read_leaf [OF x(1) this] x(2) that(1) show ?thesis by (auto simp: sret_run)
  next
    case False
    from read_container [OF x(1) this assms(2,3)] show ?thesis
      using x(2) that(2-) by (elim disjE exE conjE) (auto simp: sret_run finish_list_def slift_run)
  qed
qed

lemma read_sound:
  "parse_value d opts (Inr (Some t)) r = (Inr v, r') \<Longrightarrow> wf_type t \<Longrightarrow> plain_type t \<Longrightarrow>
   opt_behavior opts = EXACT_FIELD_SET \<Longrightarrow> fits v t"
proof (induction t arbitrary: v d r r')
  case (List n t s)
  have wf: "wf_type t" "n = 0 \<or> plain_type t" using List.prems(2,3) by simp_all
  have empty: "fits (Sequence (List [] (ListTypeData n t s))) (type_list (ListTypeData n t s))"
    using fits_list [of "[]"] List.prems(2,3) by simp
  from parse_value_step [OF List.prems(1,2,4)] show ?case
  proof cases
    case (7 l len d' ws r1 r2)
    then have l: "l = ListTypeData n t s" "len \<le> n" by auto
    show ?thesis
    proof (cases "n = 0")
      case True
      then show ?thesis using 7 l empty parse_items_sound [OF 7(3), of "\<lambda>_. True"] by (auto simp: list_with_type_def)
    next
      case False
      then have "length ws = unat len \<and> (\<forall>v \<in> set ws. fits v t)"
        using parse_items_sound [OF 7(3), of "\<lambda>v. fits v t"] List.IH wf List.prems(4) by (auto simp: l)
      then show ?thesis
        using fits_list [of ws t n s] fits_has_type 7(4) l List.prems(2,3) by (auto simp: word_le_nat_alt)
    qed
  qed (use empty in \<open>auto simp: leaf_type_def\<close>)
next
  case (Tuple ts s)
  let ?tt = "TupleTypeSignature ts s"
  have wf: "wf_type t \<and> plain_type t" if "(k, t) \<in> set ts" for k t using Tuple.prems(2,3) that by auto
  from parse_value_step [OF Tuple.prems(1,2,4)] show ?case
  proof cases
    case (8 tt n d' key xs r1 r2)
    then have tt: "tt = ?tt" by simp
    have "fits v t" if "field_type tt k = Some t" "parse_value d' opts (Inr (Some t)) r = (Inr v, r')" for v t k r r'
    proof -
      have "(k, t) \<in> set ts" using that(1) by (auto simp: tt field_type_def dest: map_of_SomeD)
      with Tuple.IH [OF this that(2)] wf Tuple.prems(4) show ?thesis by blast
    qed
    then have "\<forall>(k, v) \<in> set xs. \<exists>t. field_type tt k = Some t \<and> fits v t"
      using parse_fields_sound [OF 8(2), of "\<lambda>t v. fits v t"] by (simp add: tt)
    then have "\<forall>(k, v) \<in> set xs. wt v" by (fastforce simp: fits_def)
    from complete_tuple_sound [OF 8(3) this Tuple.prems(4)] show ?thesis
      using Tuple.prems(2,3) by (simp add: tt)
  qed (auto simp: leaf_type_def)
next
  case (Optional t)
  from parse_value_step [OF Optional.prems(1,2,4)] show ?case
  proof cases
    case (3 u d' w r1 r2)
    then have "plain_type t" using Optional.prems(3) parse_value_NoType by auto
    with 3 have "fits w t" using Optional.IH [of d' r1 w r2] Optional.prems by auto
    then show ?thesis using fits_some 3(3) Optional.prems(2) by auto
  qed (use fits_none Optional.prems(2) in \<open>auto simp: leaf_type_def\<close>)
next
  case (Response t s)
  from parse_value_step [OF Response.prems(1,2,4)] show ?case
  proof cases
    case (4 u s' d' w r1 r2)
    then have "plain_type t" using Response.prems(3) parse_value_NoType by auto
    with 4 have "fits w t" using Response.IH(1) [of d' r1 w r2] Response.prems by auto
    then show ?thesis using fits_okay 4(3) Response.prems(2) by auto
  next
    case (5 u s' d' w r1 r2)
    then have "plain_type s" using Response.prems(3) parse_value_NoType by auto
    with 5 have "fits w s" using Response.IH(2) [of d' r1 w r2] Response.prems by auto
    then show ?thesis using fits_error 5(3) Response.prems(2) by auto
  qed (auto simp: leaf_type_def)
next
  case (TraitRef t)
  from parse_value_step [OF TraitRef.prems(1,2,4)] show ?case by cases (auto simp: leaf_type_def)
qed (auto elim!: parse_value_step intro: fits_leaf)

text \<open>
  (C27) From epoch 4.1 typed reading is type-safe on arbitrary input: whatever bytes are read at a
  well-formed plain type, if a value comes out, it is well-typed in all its parts, with exactly the
  declared fields in each tuple, and the type admits it. This holds for the reader that ignores
  trailing bytes and for the one that rejects them.
\<close>

theorem typed_reading_is_type_safe:
  assumes "enforces_exact_typed_tuple_field_set epoch" "wf_type t" "plain_type t"
    and "try_deserialize_bytes_at_epoch bytes t epoch = Inr v \<or> try_deserialize_bytes_exact_at_epoch bytes t epoch = Inr v"
  shows "wt v \<and> admits t epoch v = Inr True"
proof -
  have sane: "value_sanitizing epoch"
    using assms(1) by (cases epoch) (simp_all add: enforces_exact_typed_tuple_field_set_def value_sanitizing_def epoch_order_code)
  obtain opts d r r' where "parse_value d opts (Inr (Some t)) r = (Inr v, r')" "opt_behavior opts = EXACT_FIELD_SET"
  proof -
    from assms(1,4) obtain opts n where "deserialize_read_count_with_options bytes (Some t) opts = Inr (v, n)"
      "opt_behavior opts = EXACT_FIELD_SET"
      by (fastforce simp: try_deserialize_bytes_at_epoch_def try_deserialize_bytes_exact_at_epoch_def
          tuple_fields_behavior_def split: if_splits)
    then show thesis
      by (auto simp: deserialize_read_count_with_options_def inner_deserialize_parse Let_def
          split: prod.splits sum.splits if_splits intro: that)
  qed
  then have "fits v t" using read_sound assms(2,3) by blast
  then show ?thesis using fits_has_type sane by (auto simp: sanitizing_admits)
qed

theorem typed_reading_is_type_safe_witness:
  "\<exists>bytes v. try_deserialize_bytes_at_epoch bytes (sample_tuple IntType 9 49) Epoch41 = Inr v \<and> value_eq v sample_value \<and> wt v"
proof -
  have e: "value_sanitizing Epoch41" "enforces_exact_typed_tuple_field_set Epoch41"
    and t: "wf_type (sample_tuple IntType 9 49)" "plain_type (sample_tuple IntType 9 49)"
    and v: "admits (sample_tuple IntType 9 49) Epoch41 sample_value = Inr True"
    by code_simp+
  obtain bs v where "try_deserialize_bytes_at_epoch (bs @ []) (sample_tuple IntType 9 49) Epoch41 = Inr v" "value_eq v sample_value"
    using stored_value_reads_back [OF e(1) t wt_sample_value v] by blast
  with typed_reading_is_type_safe [OF e(2) t] show ?thesis by blast
qed

end
