(* ===== verification/UntypedReading.thy ===== *)
theory UntypedReading
  imports TypedReading
begin

text \<open>
  Values read without an expected type, as in transactions: the reader rebuilds the types of
  lists and tuples from their parts. What the guarded constructors build, to the depth the reader
  allows, reads back unchanged.
\<close>

definition untyped_options :: read_options where
  "untyped_options = \<lparr>opt_sanitize = False, opt_behavior = LEGACY, opt_name_limit = LegacyLimit\<rparr>"

fun leaf_value :: "Value \<Rightarrow> bool" where
  "leaf_value (Optional v) \<longleftrightarrow> v = None"
| "leaf_value (Sequence (Buffer data)) \<longleftrightarrow> wt_seq (Buffer data)"
| "leaf_value (Sequence (String s)) \<longleftrightarrow> wt_seq (String s)"
| "leaf_value (Value.Int i) \<longleftrightarrow> wt (Value.Int i)"
| "leaf_value (UInt u) \<longleftrightarrow> True"
| "leaf_value (Bool b) \<longleftrightarrow> True"
| "leaf_value (Principal p) \<longleftrightarrow> wf_principal p"
| "leaf_value _ \<longleftrightarrow> False"

inductive constructed :: "nat \<Rightarrow> Value \<Rightarrow> bool" where
  leaf: "leaf_value v \<Longrightarrow> constructed (Suc d) v"
| some: "constructed d v \<Longrightarrow> value_some v = Inr w \<Longrightarrow> constructed (Suc d) w"
| ok: "constructed d v \<Longrightarrow> okay v = Inr w \<Longrightarrow> constructed (Suc d) w"
| err: "constructed d v \<Longrightarrow> error v = Inr w \<Longrightarrow> constructed (Suc d) w"
| list: "\<forall>v \<in> set vs. constructed d v \<Longrightarrow> length vs \<le> unat MAX_VALUE_SIZE \<Longrightarrow> cons_list_unsanitized vs = Inr w \<Longrightarrow>
    constructed (Suc d) w"
| tuple: "\<forall>(k, v) \<in> set m. valid_name k \<and> constructed d v \<Longrightarrow> btree_wf m \<Longrightarrow> length m \<le> unat MAX_VALUE_SIZE \<Longrightarrow>
    tuple_from_data m = Inr w \<Longrightarrow> constructed (Suc d) w"

definition reads_same :: "nat \<Rightarrow> Value \<Rightarrow> bool" where
  "reads_same d v \<longleftrightarrow> (\<exists>bs. serialize_write v = Inr bs \<and> accepts (parse_value d untyped_options (Inr None)) bs v)"

lemma check_match_None [simp]: "sthen (check_match P None) m = m"
  by (simp add: check_match_def sthen_def)

lemma untyped_step:
  assumes "accepts (read_item untyped_options None p) bs (Inl v)"
  shows "accepts (parse_value (Suc d) untyped_options (Inr None)) (prefix_to_u8 p # bs) v"
  unfolding parse_value.simps
  by (rule accepts_sbind_Nil [OF accepts_slift], rule accepts_sbind_Cons [OF accepts_read_prefix],
      rule accepts_sbind_end [OF assms]) (simp add: accepts_sret_Nil)

lemma untyped_step_frame:
  assumes "accepts (read_item untyped_options None p) bs (Inr frame)"
    "accepts (parse_frame untyped_options (parse_value d untyped_options) frame) cs v"
  shows "accepts (parse_value (Suc d) untyped_options (Inr None)) (prefix_to_u8 p # bs @ cs) v"
  unfolding parse_value.simps
  by (rule accepts_sbind_Nil [OF accepts_slift], rule accepts_sbind_Cons [OF accepts_read_prefix],
      rule accepts_sbind [OF assms(1)]) (simp add: assms(2))

lemma reads_same_step:
  assumes "serialize_write v = Inr (prefix_to_u8 p # bs)" "accepts (read_item untyped_options None p) bs (Inl v)"
  shows "reads_same (Suc d) v"
  using assms untyped_step unfolding reads_same_def by blast

lemma reads_same_frame:
  assumes "serialize_write v = Inr (prefix_to_u8 p # bs @ cs)" "accepts (read_item untyped_options None p) bs (Inr frame)"
    "accepts (parse_frame untyped_options (parse_value d untyped_options) frame) cs v"
  shows "reads_same (Suc d) v"
  using assms untyped_step_frame unfolding reads_same_def by blast

lemma reads_same_leaf:
  assumes "leaf_value v"
  shows "reads_same (Suc d) v"
proof -
  have len: "accepts (sbind read_buffer_length (\<lambda>n. sbind (read_exact (unat n)) f))
      (to_be_bytes (word_of_nat (length data) :: u32) @ data) y"
    if "length data \<le> 1048576" "accepts (f data) [] y" for data f y
    using that
    by (intro accepts_sbind [OF accepts_buffer_length] accepts_sbind_end [OF accepts_read_exact]) (simp_all add: unat_of_nat)
  from assms show ?thesis
  proof (cases v rule: leaf_value.cases)
    case (1 v')
    with assms show ?thesis
      by (intro reads_same_step [of _ PrefixOptionalNone "[]"])
        (simp_all add: with_prefix_def read_item_def none_def accepts_sret_Nil del: prefix_to_u8.simps)
  next
    case (2 data)
    with assms show ?thesis
      by (intro reads_same_step [of _ PrefixBuffer "to_be_bytes (word_of_nat (length data) :: u32) @ data"])
        (simp_all add: with_prefix_def read_item_def read_buffer_item_def len write_len_word size_consts buff_from_eq accepts_slift
          del: prefix_to_u8.simps)
  next
    case (3 s)
    then show ?thesis
    proof (cases s)
      case (CharASCII data)
      with assms 3 show ?thesis
        by (intro reads_same_step [of _ PrefixStringASCII "to_be_bytes (word_of_nat (length data) :: u32) @ data"])
          (simp_all add: with_prefix_def read_item_def read_ascii_item_def len write_len_word size_consts ascii_from_eq accepts_slift
            del: prefix_to_u8.simps)
    next
      case (CharUTF8 data)
      then have u: "length data \<le> 262144" "list_all utf8_chunk data" using assms 3 by (simp_all add: size_consts)
      have "length (concat data) \<le> 1048576" using length_utf8 [OF u(2)] u(1) by linarith
      with u utf8_from_chunks [OF u(2,1)] show ?thesis unfolding 3 CharUTF8
        by (intro reads_same_step [of _ PrefixStringUTF8 "to_be_bytes (word_of_nat (length (concat data)) :: u32) @ concat data"])
          (simp_all add: with_prefix_def read_item_def read_utf8_item_def len utf8_total_len_eq accepts_slift
            del: prefix_to_u8.simps length_concat)
    qed
  next
    case (4 i)
    with assms show ?thesis
      by (intro reads_same_step [of _ PrefixInt "i128_to_be_bytes i"])
        (auto simp: with_prefix_def read_item_def i128_bytes accepts_sret_Nil simp del: prefix_to_u8.simps
          intro!: accepts_sbind_end [OF accepts_read_exact])
  next
    case (5 u)
    then show ?thesis
      by (intro reads_same_step [of _ PrefixUInt "to_be_bytes u"])
        (auto simp: with_prefix_def read_item_def accepts_sret_Nil simp del: prefix_to_u8.simps
          intro!: accepts_sbind_end [OF accepts_read_exact])
  next
    case (6 b)
    then show ?thesis
      by (intro reads_same_step [of _ "if b then PrefixBoolTrue else PrefixBoolFalse" "[]"])
        (simp_all add: with_prefix_def read_item_def accepts_sret_Nil del: prefix_to_u8.simps)
  next
    case (7 p)
    show ?thesis
    proof (cases p)
      case (Standard q)
      with assms 7 show ?thesis
        by (intro reads_same_step [of _ PrefixPrincipalStandard "write_standard_principal q"])
          (auto simp: with_prefix_def read_item_def accepts_sret_Nil simp del: prefix_to_u8.simps
            intro!: accepts_sbind_end [OF accepts_standard_principal])
    next
      case (Contract c)
      have "accepts (read_contract_item untyped_options None) (write_contract c) (Inl (Principal (Contract c)))"
        using assms unfolding 7 Contract read_contract_item_def write_contract_def check_match_None
        by (cases c) (auto intro!: accepts_sbind [OF accepts_standard_principal] accepts_sbind_end [OF accepts_contract_name]
            simp: accepts_sret_Nil untyped_options_def)
      then show ?thesis unfolding 7 Contract
        by (intro reads_same_step [of _ PrefixPrincipalContract "write_contract c"])
          (simp_all add: with_prefix_def read_item_def del: prefix_to_u8.simps)
    qed
  qed auto
qed

lemma reads_same_some:
  assumes "reads_same d v" "value_some v = Inr w"
  shows "reads_same (Suc d) w"
proof -
  obtain bs where bs: "serialize_write v = Inr bs" "accepts (parse_value d untyped_options (Inr None)) bs v"
    using assms(1) by (auto simp: reads_same_def)
  have w: "w = Optional (Some v)" using assms(2) by (auto simp: value_some_def check_wrapped_def split: if_splits)
  show ?thesis unfolding w
    by (rule reads_same_frame [of _ PrefixOptionalSome "[]" bs "DOptionSome None"])
      (use bs assms(2) w in \<open>auto simp: with_prefix_def read_item_defs accepts_sret_Nil too_large_def accepts_slift
        simp del: prefix_to_u8.simps intro!: accepts_sbind_end [OF bs(2)]\<close>)
qed

lemma reads_same_response:
  assumes "reads_same d v" "(if b then okay v else error v) = Inr w"
  shows "reads_same (Suc d) w"
proof -
  obtain bs where bs: "serialize_write v = Inr bs" "accepts (parse_value d untyped_options (Inr None)) bs v"
    using assms(1) by (auto simp: reads_same_def)
  have w: "w = Response b v" using assms(2) by (auto simp: okay_def error_def check_wrapped_def split: if_splits)
  show ?thesis unfolding w
    by (rule reads_same_frame [of _ "if b then PrefixResponseOk else PrefixResponseErr" "[]" bs
          "if b then DResponseOk None else DResponseErr None"])
      (use bs assms(2) w in \<open>auto simp: with_prefix_def read_item_defs accepts_sret_Nil too_large_def accepts_slift
        simp del: prefix_to_u8.simps intro!: accepts_sbind_end [OF bs(2)]\<close>)
qed

lemma reads_same_items:
  assumes "\<forall>v \<in> set vs. reads_same d v"
  obtains bss where "write_each (map serialize_write vs) = Inr (concat bss)"
    "list_all2 (accepts (parse_value d untyped_options (Inr None))) bss vs"
  using assms
proof (induction vs arbitrary: thesis)
  case Nil
  then show ?case by (metis concat.simps(1) list.rel_inject(1) list.simps(8) write_each.simps(1))
next
  case (Cons v vs)
  from Cons.prems(2) obtain bs where "serialize_write v = Inr bs" "accepts (parse_value d untyped_options (Inr None)) bs v"
    by (auto simp: reads_same_def)
  moreover obtain bss where "write_each (map serialize_write vs) = Inr (concat bss)"
    "list_all2 (accepts (parse_value d untyped_options (Inr None))) bss vs"
    using Cons.IH Cons.prems(2) by auto
  ultimately show ?case by (intro Cons.prems(1) [of "bs # bss"]) simp_all
qed

lemma reads_same_list:
  assumes "\<forall>v \<in> set vs. reads_same d v" "length vs \<le> unat MAX_VALUE_SIZE" "cons_list_unsanitized vs = Inr w"
  shows "reads_same (Suc d) w"
proof -
  let ?len = "word_of_nat (length vs) :: u32"
  obtain l where w: "w = Sequence (List vs l)" using assms(3) by (auto simp: cons_list_unsanitized_def)
  have ulen: "unat ?len = length vs" "\<not> MAX_VALUE_SIZE < ?len" "0 < ?len \<longleftrightarrow> vs \<noteq> []"
    using assms(2) by (simp_all add: unat_of_nat word_less_nat_alt size_consts)
  obtain bss where bss: "write_each (map serialize_write vs) = Inr (concat bss)"
    "list_all2 (accepts (parse_value d untyped_options (Inr None))) bss vs"
    using reads_same_items [OF assms(1)] .
  have s: "serialize_write w = Inr (prefix_to_u8 PrefixList # to_be_bytes ?len @ concat bss)"
    using assms(2) bss(1) by (simp add: w with_prefix_def u32_try_from_word size_consts del: prefix_to_u8.simps)
  show ?thesis
  proof (cases "vs = []")
    case True
    then have "bss = []" using bss(2) by simp
    have "accepts (read_list_item None) (to_be_bytes ?len) (Inl w)"
      unfolding read_list_item_def check_match_None
      by (rule accepts_sbind_end [OF accepts_read_u32])
        (use assms(3) True in \<open>auto simp: finish_list_def intro!: accepts_sbind_end accepts_slift accepts_sret_Nil\<close>)
    with s \<open>bss = []\<close> show ?thesis
      by (intro reads_same_step [of _ PrefixList "to_be_bytes ?len"]) (simp_all add: read_item_def del: prefix_to_u8.simps)
  next
    case False
    have "accepts (read_list_item None) (to_be_bytes ?len) (Inr (DList [] ?len None))"
      unfolding read_list_item_def check_match_None
      by (rule accepts_sbind_end [OF accepts_read_u32]) (use ulen False in \<open>simp add: accepts_sret_Nil\<close>)
    moreover have "accepts (parse_frame untyped_options (parse_value d untyped_options) (DList [] ?len None)) (concat bss) w"
      using accepts_sbind_end [OF accepts_items [OF bss(2)], of "\<lambda>vs. finish_list vs None"] assms(3)
      by (simp add: ulen finish_list_def accepts_slift)
    ultimately show ?thesis
      using s by (intro reads_same_frame [of _ PrefixList "to_be_bytes ?len" "concat bss" "DList [] ?len None"])
        (simp_all add: read_item_def del: prefix_to_u8.simps parse_frame.simps)
  qed
qed

lemma collect_data_sorted:
  assumes "collect_data m ts pre = Inr (ts', m')" "btree_wf (pre @ m)"
  shows "m' = pre @ m"
  using assms
proof (induction m arbitrary: ts pre)
  case (Cons x m)
  obtain k v where x: "x = (k, v)" by fastforce
  have "\<forall>k' \<in> fst ` set pre. k' < k"
    using Cons.prems(2) by (auto simp: x btree_wf_def sorted_wrt_append)
  then have "btree_insert k v pre = pre @ [(k, v)]" by (rule btree_insert_above)
  with Cons.prems Cons.IH [of _ "pre @ [(k, v)]"] show ?case
    by (auto simp: x split: option.splits)
qed simp

lemma reads_same_tuple:
  assumes "\<forall>(k, v) \<in> set m. valid_name k \<and> reads_same d v" "btree_wf m" "length m \<le> unat MAX_VALUE_SIZE" "tuple_from_data m = Inr w"
  shows "reads_same (Suc d) w"
proof -
  let ?len = "word_of_nat (length m) :: u32"
  obtain ts t where c: "collect_data m [] [] = Inr (ts, m)" "tuple_try_from_map ts = Inr t" and w: "w = Tuple t m"
    using assms(4) collect_data_sorted [of m "[]" "[]"] assms(2) by (auto simp: tuple_from_data_def)
  obtain k v m' where m: "m = (k, v) # m'" using c by (cases m) (auto simp: tuple_try_from_map_def)
  have ulen: "unat ?len = length m" "\<not> MAX_VALUE_SIZE < ?len" "0 < ?len" "unat (ucast ?len :: u64) = length m"
  proof -
    show "unat ?len = length m" using assms(3) by (simp add: unat_of_nat size_consts)
    then show "\<not> MAX_VALUE_SIZE < ?len" "0 < ?len" "unat (ucast ?len :: u64) = length m"
      using assms(3) by (simp_all only: word_less_nat_alt unat_u64_of_u32) (simp_all add: m)
  qed
  define ser where "ser v = (case serialize_write v of Inr bs \<Rightarrow> bs | Inl _ \<Rightarrow> [])" for v
  have ser: "serialize_write v = Inr (ser v)" "accepts (parse_value d untyped_options (Inr None)) (ser v) v" "valid_name k"
    if "(k, v) \<in> set m" for k v
    using that assms(1) by (auto simp: reads_same_def ser_def)
  let ?xs = "map (\<lambda>(k, v). (k, ser v, v)) m'"
  let ?body = "ser v @ concat (map (\<lambda>(k, bs, v). write_name k @ bs) ?xs)"
  have "write_each (map (\<lambda>(key, w). rbind w (\<lambda>bs. Inr (write_name key @ bs))) (map (map_prod id serialize_write) xs)) =
      Inr (concat (map (\<lambda>(k, v). write_name k @ ser v) xs))" if "set xs \<subseteq> set m" for xs
    using that by (induction xs) (auto dest: ser(1))
  from this [of m] have s: "serialize_write w = Inr (prefix_to_u8 PrefixTuple # (to_be_bytes ?len @ write_name k) @ ?body)"
    using assms(3) by (simp add: w m with_prefix_def u32_try_from_word size_consts o_def case_prod_unfold del: prefix_to_u8.simps)
  have e: "field_expected untyped_options None k = Inr None" "field_entry untyped_options None k v = [(k, v)]" for k v
    by (simp_all add: field_expected_def field_entry_def push_entry_def untyped_options_def)
  have mem: "\<forall>(k, v) \<in> set m. valid_name k \<and> accepts (parse_value d untyped_options (Inr None)) (ser v) v" using ser(2,3) by blast
  have "accepts (parse_fields (length ?xs) untyped_options None (parse_value d untyped_options) k) ?body
      ((k, v) # map (\<lambda>(k, bs, v). (k, v)) ?xs)"
    using e mem by (intro accepts_fields) (auto simp: m)
  then have f: "accepts (parse_fields (length m') untyped_options None (parse_value d untyped_options) k) ?body m"
    by (simp add: m o_def case_prod_unfold)
  have "accepts (read_tuple_item untyped_options None) (to_be_bytes ?len @ write_name k)
      (Inr (DTuple [] (ucast ?len) 0 None k (elides untyped_options None k)))"
    unfolding read_tuple_item_def check_match_None
    by (rule accepts_sbind [OF accepts_read_u32])
      (use ulen ser(3) in \<open>auto simp: m intro!: accepts_sbind_end [OF accepts_clarity_name] accepts_sret_Nil\<close>)
  moreover have "accepts (parse_frame untyped_options (parse_value d untyped_options)
      (DTuple [] (ucast ?len) 0 None k (elides untyped_options None k))) ?body w"
    using accepts_sbind_end [OF f, of "\<lambda>es. complete_tuple untyped_options es None"] assms(4) ulen
    by (simp add: complete_tuple_def finish_tuple_def accepts_slift m)
  ultimately show ?thesis
    using s by (intro reads_same_frame [of _ PrefixTuple _ ?body]) (simp_all add: read_item_def del: prefix_to_u8.simps parse_frame.simps)
qed

lemma constructed_reads_same: "constructed d v \<Longrightarrow> reads_same d v"
proof (induction rule: constructed.induct)
  case (tuple m d w)
  then show ?case by (intro reads_same_tuple) auto
next
  case (list vs d w)
  then show ?case by (intro reads_same_list) auto
qed (auto intro: reads_same_leaf reads_same_some reads_same_response [where b = True] reads_same_response [where b = False])

section \<open>What the reader builds\<close>

lemma check_match_none [simp]: "check_match P None r = (Inr u, r') \<longleftrightarrow> r' = r"
  by (auto simp: check_match_def sret_run)

lemma untyped_leaf:
  assumes "read_item untyped_options None p r = (Inr (Inl v), r')" "p \<noteq> PrefixList" "p \<noteq> PrefixTuple"
  shows "leaf_value v"
proof (cases p)
  case PrefixStringUTF8
  then obtain data where "string_utf8_from_bytes data = Inr v"
    using assms(1) by (auto simp: read_item_defs Let_def slift_run)
  then show ?thesis using utf8_from_Inr by fastforce
next
  case PrefixStringASCII
  then obtain data where "string_ascii_from_bytes data = Inr v"
    using assms(1) by (auto simp: read_item_defs slift_run)
  then show ?thesis using ascii_from_Inr by fastforce
next
  case PrefixBuffer
  then show ?thesis
    using assms(1) by (auto simp: read_item_defs slift_run buff_from_def size_consts dest!: buffer_length_read read_exact_length)
qed (use assms sint_range in \<open>auto simp: read_item_defs sret_run slift_run none_def i128_from_be_bytes_def
    sfail_run dest!: standard_principal_read contract_name_read split: if_splits\<close>)

lemma btree_insert_map:
  "map (apsnd f) (btree_insert k v m) = btree_insert k (f v) (map (apsnd f) m)"
  by (induction k v m rule: btree_insert.induct) auto

lemma collect_data_result:
  assumes "collect_data m ts dm = Inr (ts', dm')" "btree_wf dm" "map (apsnd type_of) dm = map (apsnd Inr) ts"
  shows "btree_wf dm' \<and> map (apsnd type_of) dm' = map (apsnd Inr) ts' \<and> set dm' \<subseteq> set m \<union> set dm \<and>
    length dm' = length m + length dm"
  using assms
proof (induction m arbitrary: ts dm)
  case (Cons x m)
  obtain k v where x: "x = (k, v)" by fastforce
  with Cons.prems(1) obtain t where t: "type_of v = Inr t" "map_of ts k = None"
    "collect_data m (btree_insert k t ts) (btree_insert k v dm) = Inr (ts', dm')"
    by (auto split: option.splits)
  have "fst ` set dm = fst ` set ts"
    using arg_cong [OF Cons.prems(3), of "\<lambda>xs. fst ` set xs"] by (force simp: image_image)
  then have "k \<notin> fst ` set dm" using t(2) by (simp add: map_of_eq_None_iff)
  moreover have "map (apsnd type_of) (btree_insert k v dm) = map (apsnd Inr) (btree_insert k t ts)"
    using Cons.prems(3) t(1) by (simp add: btree_insert_map)
  ultimately show ?case
    using Cons.IH [OF t(3)] Cons.prems(2) set_btree_insert_subset [of k v dm] by (auto simp: x length_btree_insert)
qed simp

lemma collect_data_again:
  assumes "map (apsnd type_of) dm = map (apsnd Inr) ts" "btree_wf (pre @ dm)" "map fst pts = map fst pre"
  shows "collect_data dm pts pre = Inr (pts @ ts, pre @ dm)"
  using assms
proof (induction dm arbitrary: pre pts ts)
  case (Cons x dm)
  obtain k v where x: "x = (k, v)" by fastforce
  with Cons.prems(1) obtain t us where ts: "ts = (k, t) # us" "type_of v = Inr t"
    "map (apsnd type_of) dm = map (apsnd Inr) us" by (cases ts) auto
  have below: "\<forall>k' \<in> fst ` set pre. k' < k" using Cons.prems(2) by (auto simp: x btree_wf_def sorted_wrt_append)
  then have below': "\<forall>k' \<in> fst ` set pts. k' < k" using Cons.prems(3) by (metis list.set_map)
  then have "map_of pts k = None" by (force simp: map_of_eq_None_iff)
  with Cons.IH [OF ts(3), of "pre @ [(k, v)]" "pts @ [(k, t)]"] Cons.prems(2,3) ts(2) show ?case
    by (simp add: x ts(1) btree_insert_above [OF below] btree_insert_above [OF below'])
qed simp

lemma collect_data_canonical:
  assumes "collect_data m [] [] = Inr (ts, dm)"
  shows "collect_data dm [] [] = Inr (ts, dm) \<and> btree_wf dm \<and> set dm \<subseteq> set m \<and> length dm = length m"
  using collect_data_result [OF assms] collect_data_again [of dm ts "[]" "[]"] by (simp add: btree_wf_def)

lemma parse_fields_untyped:
  assumes "parse_fields n untyped_options None p k r = (Inr xs, r')" "valid_name k"
    "\<And>v r r'. p (Inr None) r = (Inr v, r') \<Longrightarrow> P v"
  shows "length xs = Suc n \<and> (\<forall>(k, v) \<in> set xs. valid_name k \<and> P v)"
  using assms(1,2)
proof (induction n arbitrary: k r xs)
  case 0
  then show ?case
    using assms(3) by (auto simp: field_expected_def field_entry_def push_entry_def untyped_options_def sret_run)
next
  case (Suc n)
  then obtain v key es r1 r2 where "p (Inr None) r = (Inr v, r1)" "read_clarity_name r1 = (Inr key, r2)"
    "parse_fields n untyped_options None p key r2 = (Inr es, r')" "xs = (k, v) # es"
    by (auto simp: field_expected_def field_entry_def push_entry_def untyped_options_def sret_run)
  with Suc.IH [of key r2 es] Suc.prems(2) assms(3) show ?case
    using clarity_name_read by auto
qed

lemma untyped_read: "parse_value d untyped_options (Inr None) r = (Inr v, r') \<Longrightarrow> constructed d v"
proof (induction d arbitrary: v r r')
  case (Suc d)
  then obtain p r1 r2 x where p: "read_prefix r = (Inr p, r1)" "read_item untyped_options None p r1 = (Inr x, r2)"
    and x: "(case x of Inl v \<Rightarrow> sret v | Inr frame \<Rightarrow> parse_frame untyped_options (parse_value d untyped_options) frame) r2 = (Inr v, r')"
    by (auto simp: slift_run)
  show ?case
  proof (cases x)
    case (Inl w)
    with x have w: "x = Inl v" by (simp add: sret_run)
    consider "p = PrefixList" | "p = PrefixTuple" | "p \<noteq> PrefixList" "p \<noteq> PrefixTuple" by blast
    then show ?thesis
    proof cases
      case 1
      then have "cons_list_unsanitized [] = Inr v"
        using p(2) w by (auto simp: read_item_defs Let_def sret_run sfail_run slift_run finish_list_def split: if_splits)
      then show ?thesis by (intro constructed.list [of "[]"]) simp_all
    next
      case 2
      then have "tuple_from_data [] = Inr v"
        using p(2) w by (auto simp: read_item_defs Let_def sret_run sfail_run slift_run finish_tuple_def split: if_splits)
      then show ?thesis by (intro constructed.tuple [of "[]"]) simp_all
    next
      case 3
      with p(2) w show ?thesis by (intro constructed.leaf untyped_leaf) auto
    qed
  next
    case (Inr frame)
    then have fr: "parse_frame untyped_options (parse_value d untyped_options) frame r2 = (Inr v, r')" using x by simp
    have "(\<exists>len. frame = DList [] len None \<and> len \<le> MAX_VALUE_SIZE) \<or>
        (\<exists>len key. frame = DTuple [] (ucast len) 0 None key False \<and> len \<le> MAX_VALUE_SIZE \<and> 0 < len \<and> valid_name key) \<or>
        frame = DOptionSome None \<or> frame = DResponseOk None \<or> frame = DResponseErr None"
      using p(2) Inr
      by (cases p) (auto simp: read_item_defs Let_def sret_run sfail_run slift_run elides_def untyped_options_def not_less
          split: if_splits sum.splits dest!: clarity_name_read)
    then show ?thesis
    proof (elim disjE exE conjE)
      fix len assume f: "frame = DList [] len None" "len \<le> MAX_VALUE_SIZE"
      then obtain vs r3 where "parse_items (unat len) (parse_value d untyped_options (Inr None)) r2 = (Inr vs, r3)"
        "cons_list_unsanitized vs = Inr v"
        using fr by (auto simp: finish_list_def slift_run)
      with parse_items_sound [of _ _ r2 vs r3 "constructed d"] Suc.IH f(2) show ?thesis
        by (intro constructed.list [of vs]) (auto simp: word_le_nat_alt)
    next
      fix len :: u32 and key
      assume f: "frame = DTuple [] (ucast len) 0 None key False" "len \<le> MAX_VALUE_SIZE" "0 < len" "valid_name key"
      then obtain es r3 where es: "parse_fields (unat len - 1) untyped_options None (parse_value d untyped_options) key r2 = (Inr es, r3)"
        "tuple_from_data es = Inr v"
        using fr by (auto simp: complete_tuple_def finish_tuple_def slift_run unat_u64_of_u32)
      then obtain ts dm t where c: "collect_data es [] [] = Inr (ts, dm)" "tuple_try_from_map ts = Inr t" "v = Tuple t dm"
        by (auto simp: tuple_from_data_def)
      have "length es = unat len \<and> (\<forall>(k, v) \<in> set es. valid_name k \<and> constructed d v)"
        using parse_fields_untyped [OF es(1) f(4), of "constructed d"] Suc.IH f(3) by (auto simp: word_less_nat_alt)
      with collect_data_canonical [OF c(1)] c f(2) show ?thesis
        by (intro constructed.tuple [of dm]) (auto simp: tuple_from_data_def word_le_nat_alt)
    qed (use fr Suc.IH in \<open>auto intro: constructed.some constructed.ok constructed.err\<close>)
  qed
qed (simp add: sfail_run)

end
