(* ===== verification/ClarityVersions.thy ===== *)
theory ClarityVersions
  imports Epochs
begin

text \<open>
  The versions of the Clarity language (\<open>clarity-types/src/version.rs\<close>). The default version of
  an epoch is \<open>None\<close> where the code panics, in the epoch before Clarity.
\<close>

datatype ClarityVersion = Clarity1 | Clarity2 | Clarity3 | Clarity4 | Clarity5 | Clarity6 | Clarity7

fun version_number :: "ClarityVersion \<Rightarrow> nat" where
  "version_number Clarity1 = 1"
| "version_number Clarity2 = 2"
| "version_number Clarity3 = 3"
| "version_number Clarity4 = 4"
| "version_number Clarity5 = 5"
| "version_number Clarity6 = 6"
| "version_number Clarity7 = 7"

lemma version_number_inject: "version_number a = version_number b \<Longrightarrow> a = b"
  by (cases a; cases b) auto

text \<open>The derived \<open>PartialOrd\<close>: the order of declaration.\<close>

instantiation ClarityVersion :: linorder
begin

definition less_eq_ClarityVersion :: "ClarityVersion \<Rightarrow> ClarityVersion \<Rightarrow> bool" where
  "less_eq_ClarityVersion a b \<longleftrightarrow> version_number a \<le> version_number b"

definition less_ClarityVersion :: "ClarityVersion \<Rightarrow> ClarityVersion \<Rightarrow> bool" where
  "less_ClarityVersion a b \<longleftrightarrow> version_number a < version_number b"

instance
proof
  fix a b :: ClarityVersion
  show "a \<le> b \<Longrightarrow> b \<le> a \<Longrightarrow> a = b"
    by (auto simp: less_eq_ClarityVersion_def intro: version_number_inject)
qed (auto simp: less_eq_ClarityVersion_def less_ClarityVersion_def)

end

definition ALL_VERSIONS :: "ClarityVersion list" where
  "ALL_VERSIONS = [Clarity1, Clarity2, Clarity3, Clarity4, Clarity5, Clarity6, Clarity7]"

fun version_to_string :: "ClarityVersion \<Rightarrow> string" where
  "version_to_string Clarity1 = ''Clarity 1''"
| "version_to_string Clarity2 = ''Clarity 2''"
| "version_to_string Clarity3 = ''Clarity 3''"
| "version_to_string Clarity4 = ''Clarity 4''"
| "version_to_string Clarity5 = ''Clarity 5''"
| "version_to_string Clarity6 = ''Clarity 6''"
| "version_to_string Clarity7 = ''Clarity 7''"

fun default_for_epoch :: "StacksEpochId \<Rightarrow> ClarityVersion option" where
  "default_for_epoch Epoch10 = None"
| "default_for_epoch Epoch20 = Some Clarity1"
| "default_for_epoch Epoch2_05 = Some Clarity1"
| "default_for_epoch Epoch21 = Some Clarity2"
| "default_for_epoch Epoch22 = Some Clarity2"
| "default_for_epoch Epoch23 = Some Clarity2"
| "default_for_epoch Epoch24 = Some Clarity2"
| "default_for_epoch Epoch25 = Some Clarity2"
| "default_for_epoch Epoch30 = Some Clarity3"
| "default_for_epoch Epoch31 = Some Clarity3"
| "default_for_epoch Epoch32 = Some Clarity3"
| "default_for_epoch Epoch33 = Some Clarity4"
| "default_for_epoch Epoch34 = Some Clarity5"
| "default_for_epoch Epoch40 = Some Clarity6"
| "default_for_epoch Epoch41 = Some Clarity7"

definition supports_callables :: "ClarityVersion \<Rightarrow> bool" where
  "supports_callables v \<longleftrightarrow> v \<ge> Clarity2"

definition uses_secp256r1_double_hashing :: "ClarityVersion \<Rightarrow> bool" where
  "uses_secp256r1_double_hashing v \<longleftrightarrow> v \<le> Clarity4"

definition protects_logn_cost_fn :: "ClarityVersion \<Rightarrow> bool" where
  "protects_logn_cost_fn v \<longleftrightarrow> v \<ge> Clarity5"

definition supports_variadic_concat :: "ClarityVersion \<Rightarrow> bool" where
  "supports_variadic_concat v \<longleftrightarrow> v \<ge> Clarity6"

definition definition_sorter_probes_binding_names :: "ClarityVersion \<Rightarrow> bool" where
  "definition_sorter_probes_binding_names v \<longleftrightarrow> v \<ge> Clarity7"

text \<open>
  \<open>to_lowercase\<close> on the letters of ASCII. No other character becomes a letter of a version name,
  so leaving them as they are gives the same result.
\<close>

definition to_lowercase :: "string \<Rightarrow> string" where
  "to_lowercase s =
     map (\<lambda>c. let n = (of_char c :: nat) in if 65 \<le> n \<and> n \<le> 90 then char_of (n + 32) else c) s"

definition version_from_str :: "string \<Rightarrow> string + ClarityVersion" where
  "version_from_str version =
     (let s = to_lowercase version
      in if s = ''clarity1'' then Inr Clarity1
         else if s = ''clarity2'' then Inr Clarity2
         else if s = ''clarity3'' then Inr Clarity3
         else if s = ''clarity4'' then Inr Clarity4
         else if s = ''clarity5'' then Inr Clarity5
         else if s = ''clarity6'' then Inr Clarity6
         else if s = ''clarity7'' then Inr Clarity7
         else Inl (''Invalid clarity version. Valid versions are: Clarity1, Clarity2, Clarity3, '' @
                   ''Clarity4, Clarity5, Clarity6, Clarity7.''))"

lemmas version_order = less_eq_ClarityVersion_def less_ClarityVersion_def

lemma default_for_epoch_defined: "default_for_epoch e = None \<longleftrightarrow> e = Epoch10"
  by (cases e) auto

lemma default_for_epoch_mono:
  "a \<le> b \<Longrightarrow> default_for_epoch a = Some v \<Longrightarrow> default_for_epoch b = Some w \<Longrightarrow> v \<le> w"
  by (cases a; cases b) (auto simp: version_order less_eq_StacksEpochId_def)

end
