(* ===== verification/PostConditions.thy ===== *)
theory PostConditions
  imports AssetMaps ClarityVersions ValueSerialization
begin

text \<open>
  Post-conditions of transactions: their data (\<open>stacks-codec/src/transaction.rs\<close>) and the checks
  made of them (\<open>crates/stacks-transactions/src/lib.rs\<close>). A failed check carries the data of its
  message instead of the rendered text. The standard library's \<open>HashSet\<close> of values is a list whose
  elements are pairwise unequal.
\<close>

section \<open>Addresses\<close>

record StacksAddress =
  sa_version :: u8
  sa_bytes :: "u8 list"

definition stacks_address_new :: "u8 \<Rightarrow> u8 list \<Rightarrow> AddressError + StacksAddress" where
  "stacks_address_new version hash =
     (if version \<ge> 32 then Inl (InvalidVersion version) else Inr \<lparr>sa_version = version, sa_bytes = hash\<rparr>)"

definition address_has_valid_version :: "StacksAddress \<Rightarrow> bool" where
  "address_has_valid_version a \<longleftrightarrow> sa_version a < 32"

text \<open>\<open>None\<close> is the panic on an address whose version is out of range.\<close>

definition standard_from_address :: "StacksAddress \<Rightarrow> StandardPrincipalData option" where
  "standard_from_address a =
     (case standard_principal_new (sa_version a) (sa_bytes a) of Inl _ \<Rightarrow> None | Inr p \<Rightarrow> Some p)"

definition address_from_standard :: "StandardPrincipalData \<Rightarrow> StacksAddress option" where
  "address_from_standard p =
     (case stacks_address_new (spd_version p) (spd_bytes p) of Inl _ \<Rightarrow> None | Inr a \<Rightarrow> Some a)"

section \<open>Data\<close>

datatype TransactionPostConditionMode = Allow | Deny | Originator

datatype FungibleConditionCode = SentEq | SentGt | SentGe | SentLt | SentLe

definition fungible_from_u8 :: "u8 \<Rightarrow> FungibleConditionCode option" where
  "fungible_from_u8 b =
     (if b = 1 then Some SentEq else if b = 2 then Some SentGt else if b = 3 then Some SentGe
      else if b = 4 then Some SentLt else if b = 5 then Some SentLe else None)"

fun fungible_check :: "FungibleConditionCode \<Rightarrow> u128 \<Rightarrow> u128 \<Rightarrow> bool" where
  "fungible_check SentEq amount_sent_condition amount_sent \<longleftrightarrow> amount_sent = amount_sent_condition"
| "fungible_check SentGt amount_sent_condition amount_sent \<longleftrightarrow> amount_sent > amount_sent_condition"
| "fungible_check SentGe amount_sent_condition amount_sent \<longleftrightarrow> amount_sent \<ge> amount_sent_condition"
| "fungible_check SentLt amount_sent_condition amount_sent \<longleftrightarrow> amount_sent < amount_sent_condition"
| "fungible_check SentLe amount_sent_condition amount_sent \<longleftrightarrow> amount_sent \<le> amount_sent_condition"

record AssetInfo =
  contract_address :: StacksAddress
  ai_contract_name :: string
  ai_asset_name :: string

datatype NonfungibleConditionCode = Sent | NotSent | MaybeSent

definition nonfungible_from_u8 :: "u8 \<Rightarrow> NonfungibleConditionCode option" where
  "nonfungible_from_u8 b =
     (if b = 0x10 then Some Sent else if b = 0x11 then Some NotSent else if b = 0x12 then Some MaybeSent else None)"

fun was_sent :: "Value \<Rightarrow> Value list \<Rightarrow> bool" where
  "was_sent nft_sent_condition [] = False"
| "was_sent nft_sent_condition (asset_sent # nfts_sent) =
     (if value_eq asset_sent nft_sent_condition then True else was_sent nft_sent_condition nfts_sent)"

fun nonfungible_check :: "NonfungibleConditionCode \<Rightarrow> Value \<Rightarrow> Value list \<Rightarrow> bool" where
  "nonfungible_check Sent nft_sent_condition nfts_sent = was_sent nft_sent_condition nfts_sent"
| "nonfungible_check NotSent nft_sent_condition nfts_sent = (\<not> was_sent nft_sent_condition nfts_sent)"
| "nonfungible_check MaybeSent nft_sent_condition nfts_sent = True"

datatype PoxConditionCode = NotPerformed | MaybePerformed | Performed

definition pox_from_u8 :: "u8 \<Rightarrow> PoxConditionCode option" where
  "pox_from_u8 b =
     (if b = 0x30 then Some NotPerformed else if b = 0x31 then Some MaybePerformed
      else if b = 0x32 then Some Performed else None)"

fun pox_check :: "PoxConditionCode \<Rightarrow> bool \<Rightarrow> bool" where
  "pox_check NotPerformed performed = (\<not> performed)"
| "pox_check MaybePerformed performed = True"
| "pox_check Performed performed = performed"

datatype PostConditionPrincipal =
    Origin
  | StandardAddress StacksAddress
  | ContractAddress StacksAddress string

definition to_principal_data :: "PostConditionPrincipal \<Rightarrow> PrincipalData \<Rightarrow> PrincipalData option" where
  "to_principal_data self origin_principal =
     (case self of
        Origin \<Rightarrow> Some origin_principal
      | StandardAddress addr \<Rightarrow> map_option Standard (standard_from_address addr)
      | ContractAddress addr contract_name \<Rightarrow>
          map_option (\<lambda>p. Contract \<lparr>issuer = p, qci_name = contract_name\<rparr>) (standard_from_address addr))"

datatype TransactionPostCondition =
    StxCondition PostConditionPrincipal FungibleConditionCode u64
  | FungibleCondition PostConditionPrincipal AssetInfo FungibleConditionCode u64
  | NonfungibleCondition PostConditionPrincipal AssetInfo Value NonfungibleConditionCode
  | StakingCondition PostConditionPrincipal FungibleConditionCode u64
  | PoxCondition PostConditionPrincipal PoxConditionCode

section \<open>Rules of the epochs\<close>

datatype UnsupportedPostCondition = OriginatorMode | NftMaybeSent | StakingOrPox

fun is_maybe_sent :: "TransactionPostCondition \<Rightarrow> bool" where
  "is_maybe_sent (NonfungibleCondition _ _ _ MaybeSent) = True"
| "is_maybe_sent _ = False"

fun is_staking_or_pox :: "TransactionPostCondition \<Rightarrow> bool" where
  "is_staking_or_pox (StakingCondition _ _ _) = True"
| "is_staking_or_pox (PoxCondition _ _) = True"
| "is_staking_or_pox _ = False"

definition check_post_conditions_supported_in_epoch ::
  "TransactionPostCondition list \<Rightarrow> TransactionPostConditionMode \<Rightarrow> StacksEpochId
   \<Rightarrow> UnsupportedPostCondition + unit" where
  "check_post_conditions_supported_in_epoch post_conditions mode epoch =
     (if \<not> supports_sip040_post_conditions epoch \<and> mode = Originator then Inl OriginatorMode
      else if \<not> supports_sip040_post_conditions epoch \<and> list_ex is_maybe_sent post_conditions then Inl NftMaybeSent
      else if \<not> supports_staking_post_conditions epoch \<and> list_ex is_staking_or_pox post_conditions then Inl StakingOrPox
      else Inr ())"

datatype UnsupportedVersionedDeploy =
    NotAccepted ClarityVersion ClarityVersion
  | VersionTooNew ClarityVersion StacksEpochId ClarityVersion

text \<open>\<open>None\<close> is the panic in the epoch without a Clarity version.\<close>

definition check_versioned_deploy_supported_in_epoch ::
  "ClarityVersion \<Rightarrow> StacksEpochId \<Rightarrow> (UnsupportedVersionedDeploy + unit) option" where
  "check_versioned_deploy_supported_in_epoch clarity_version epoch =
     map_option (\<lambda>epoch_default.
       if rejects_versioned_smart_contracts epoch then Inl (NotAccepted clarity_version epoch_default)
       else if clarity_version > epoch_default then Inl (VersionTooNew clarity_version epoch epoch_default)
       else Inr ()) (default_for_epoch epoch)"

section \<open>Checking the conditions\<close>

datatype PostConditionFailure =
    StxFailed PrincipalData u64 FungibleConditionCode u128
  | FungibleFailed AssetIdentifier PrincipalData u64 FungibleConditionCode u128
  | NonfungibleFailed AssetIdentifier PrincipalData Value NonfungibleConditionCode nat
  | StakingFailed PrincipalData u64 FungibleConditionCode u128
  | PoxFailed PrincipalData PoxConditionCode bool
  | ValueNotChecked AssetIdentifier Value PrincipalData
  | NonfungibleNotChecked AssetIdentifier PrincipalData
  | NoChecksForNonfungible AssetIdentifier PrincipalData
  | FungibleNotChecked AssetIdentifier PrincipalData
  | StakedNotChecked u128 PrincipalData
  | PoxActionNotChecked PrincipalData

text \<open>The ways the check is left early: a panic, an error of \<open>?\<close>, a failed condition.\<close>

datatype early_exit = Panicked | Raised SerializationError | Failed PostConditionFailure

record Checked =
  checked_fungible_assets :: "(PrincipalData \<times> AssetIdentifier list) list"
  checked_nonfungible_assets :: "(PrincipalData \<times> (AssetIdentifier \<times> Value list) list) list"
  checked_staking :: "PrincipalData list"
  checked_pox :: "PrincipalData list"

definition nothing_checked :: Checked where
  "nothing_checked =
     \<lparr>checked_fungible_assets = [], checked_nonfungible_assets = [], checked_staking = [], checked_pox = []\<rparr>"

definition expect :: "'a option \<Rightarrow> early_exit + 'a" where
  "expect x = ok_or x Panicked"

text \<open>\<open>HashableClarityValue\<close>: the value, once its serialisation is known to succeed.\<close>

definition hashable_try_from :: "Value \<Rightarrow> SerializationError + Value" where
  "hashable_try_from value = rbind (serialize_to_vec value) (\<lambda>_. Inr value)"

definition value_set_contains :: "Value list \<Rightarrow> Value \<Rightarrow> bool" where
  "value_set_contains vs v = list_ex (\<lambda>w. value_eq w v) vs"

definition value_set_insert :: "Value \<Rightarrow> Value list \<Rightarrow> Value list" where
  "value_set_insert v vs = (if value_set_contains vs v then vs else vs @ [v])"

definition asset_id_of :: "AssetInfo \<Rightarrow> AssetIdentifier option" where
  "asset_id_of info =
     map_option (\<lambda>p. \<lparr>contract_identifier = \<lparr>issuer = p, qci_name = ai_contract_name info\<rparr>,
                     asset_name = ai_asset_name info\<rparr>)
       (standard_from_address (contract_address info))"

definition mark_fungible :: "PrincipalData \<Rightarrow> AssetIdentifier list \<Rightarrow> Checked \<Rightarrow> Checked" where
  "mark_fungible account ids checked = checked
     \<lparr>checked_fungible_assets :=
        hash_insert account (fold set_insert ids (or_default (map_of (checked_fungible_assets checked) account)))
          (checked_fungible_assets checked)\<rparr>"

definition mark_nonfungible :: "PrincipalData \<Rightarrow> AssetIdentifier \<Rightarrow> Value \<Rightarrow> Checked \<Rightarrow> Checked" where
  "mark_nonfungible account asset_id v checked =
     (let asset_id_map = or_default (map_of (checked_nonfungible_assets checked) account)
      in checked\<lparr>checked_nonfungible_assets :=
           hash_insert account
             (hash_insert asset_id (value_set_insert v (or_default (map_of asset_id_map asset_id))) asset_id_map)
             (checked_nonfungible_assets checked)\<rparr>)"

definition unwrap_or :: "'a option \<Rightarrow> 'a \<Rightarrow> 'a" where
  "unwrap_or x d = (case x of None \<Rightarrow> d | Some y \<Rightarrow> y)"

definition stx_ids :: "u128 \<Rightarrow> u128 \<Rightarrow> AssetIdentifier list" where
  "stx_ids transferred burned =
     (if transferred > 0 then [STX] else []) @ (if burned > 0 then [STX_burned] else [])"

fun check_condition ::
  "PrincipalData \<Rightarrow> AssetMap \<Rightarrow> TransactionPostCondition \<Rightarrow> Checked \<Rightarrow> early_exit + Checked" where
  "check_condition origin am (StxCondition owner code amount) checked =
     rbind (expect (to_principal_data owner origin)) (\<lambda>account.
       let transferred = unwrap_or (get_stx am account) 0;
           burned = unwrap_or (get_stx_burned am account) 0
       in rbind (expect (checked_add transferred burned)) (\<lambda>sent.
          if \<not> fungible_check code (ucast amount) sent then Inl (Failed (StxFailed account amount code sent))
          else Inr (mark_fungible account (stx_ids transferred burned) checked)))"
| "check_condition origin am (FungibleCondition owner info code amount) checked =
     rbind (expect (to_principal_data owner origin)) (\<lambda>account.
     rbind (expect (asset_id_of info)) (\<lambda>asset_id.
       let sent = unwrap_or (get_fungible_tokens am account asset_id) 0
       in if \<not> fungible_check code (ucast amount) sent
          then Inl (Failed (FungibleFailed asset_id account amount code sent))
          else Inr (mark_fungible account [asset_id] checked)))"
| "check_condition origin am (NonfungibleCondition owner info v code) checked =
     rbind (expect (to_principal_data owner origin)) (\<lambda>account.
     rbind (expect (asset_id_of info)) (\<lambda>asset_id.
       let assets_sent = unwrap_or (get_nonfungible_tokens am account asset_id) []
       in if \<not> nonfungible_check code v assets_sent
          then Inl (Failed (NonfungibleFailed asset_id account v code (length assets_sent)))
          else rbind (map_err Raised (hashable_try_from v)) (\<lambda>v.
            Inr (mark_nonfungible account asset_id v checked))))"
| "check_condition origin am (StakingCondition owner code amount) checked =
     rbind (expect (to_principal_data owner origin)) (\<lambda>account.
       let staked = unwrap_or (get_stacking am account) 0
       in if \<not> fungible_check code (ucast amount) staked then Inl (Failed (StakingFailed account amount code staked))
          else Inr (checked\<lparr>checked_staking := set_insert account (checked_staking checked)\<rparr>))"
| "check_condition origin am (PoxCondition owner code) checked =
     rbind (expect (to_principal_data owner origin)) (\<lambda>account.
       let performed = did_pox_action am account
       in if \<not> pox_check code performed then Inl (Failed (PoxFailed account code performed))
          else Inr (checked\<lparr>checked_pox := set_insert account (checked_pox checked)\<rparr>))"

fun check_conditions ::
  "PrincipalData \<Rightarrow> AssetMap \<Rightarrow> TransactionPostCondition list \<Rightarrow> Checked \<Rightarrow> early_exit + Checked" where
  "check_conditions origin am [] checked = Inr checked"
| "check_conditions origin am (pc # pcs) checked =
     rbind (check_condition origin am pc checked) (check_conditions origin am pcs)"

section \<open>Checking that everything moved was checked\<close>

fun try_each :: "('a \<Rightarrow> 'e + unit) \<Rightarrow> 'a list \<Rightarrow> 'e + unit" where
  "try_each f [] = Inr ()"
| "try_each f (x # xs) = rbind (f x) (\<lambda>_. try_each f xs)"

fun enforce_unchecked_assets_for_principal ::
  "TransactionPostConditionMode \<Rightarrow> PrincipalData \<Rightarrow> PrincipalData \<Rightarrow> bool" where
  "enforce_unchecked_assets_for_principal Allow origin p = False"
| "enforce_unchecked_assets_for_principal Deny origin p = True"
| "enforce_unchecked_assets_for_principal Originator origin p = (p = origin)"

definition check_entry ::
  "Checked \<Rightarrow> PrincipalData \<Rightarrow> AssetIdentifier \<times> AssetMapEntry \<Rightarrow> early_exit + unit" where
  "check_entry checked p = (\<lambda>(asset, entry).
     case entry of
       EntryAsset vs \<Rightarrow>
         (case map_of (checked_nonfungible_assets checked) p of
            None \<Rightarrow> Inl (Failed (NoChecksForNonfungible asset p))
          | Some asset_id_map \<Rightarrow>
              (case map_of asset_id_map asset of
                 None \<Rightarrow> Inl (Failed (NonfungibleNotChecked asset p))
               | Some nfts \<Rightarrow>
                   try_each (\<lambda>v.
                     rbind (map_err Raised (hashable_try_from v)) (\<lambda>h.
                       if \<not> value_set_contains nfts h then Inl (Failed (ValueNotChecked asset v p)) else Inr ())) vs))
     | _ \<Rightarrow>
         (case map_of (checked_fungible_assets checked) p of
            Some ids \<Rightarrow> if asset \<notin> set ids then Inl (Failed (FungibleNotChecked asset p)) else Inr ()
          | None \<Rightarrow> Inl (Failed (FungibleNotChecked asset p))))"

definition check_unchecked_assets ::
  "(PrincipalData \<Rightarrow> bool) \<Rightarrow> AssetMap \<Rightarrow> Checked \<Rightarrow> early_exit + unit" where
  "check_unchecked_assets enforced am checked =
     try_each (\<lambda>(p, assets). if \<not> enforced p then Inr () else try_each (check_entry checked p) assets) (to_table am)"

definition check_unchecked_staking ::
  "(PrincipalData \<Rightarrow> bool) \<Rightarrow> AssetMap \<Rightarrow> Checked \<Rightarrow> early_exit + unit" where
  "check_unchecked_staking enforced am checked =
     rbind (try_each (\<lambda>(p, staked).
       if staked = 0 then Inr ()
       else if \<not> enforced p then Inr ()
       else if p \<notin> set (checked_staking checked) then Inl (Failed (StakedNotChecked staked p)) else Inr ())
       (get_all_stacking am)) (\<lambda>_.
     try_each (\<lambda>p.
       if \<not> enforced p then Inr ()
       else if p \<notin> set (checked_pox checked) then Inl (Failed (PoxActionNotChecked p)) else Inr ())
       (get_all_pox_actions am))"

text \<open>\<open>Ok(None)\<close>, \<open>Ok(Some(reason))\<close> or \<open>Err\<close>; \<open>None\<close> is a panic.\<close>

fun finish_check :: "early_exit + unit \<Rightarrow> (SerializationError + PostConditionFailure option) option" where
  "finish_check (Inr _) = Some (Inr None)"
| "finish_check (Inl (Failed reason)) = Some (Inr (Some reason))"
| "finish_check (Inl (Raised e)) = Some (Inl e)"
| "finish_check (Inl Panicked) = None"

definition check_transaction_postconditions ::
  "TransactionPostCondition list \<Rightarrow> TransactionPostConditionMode \<Rightarrow> PrincipalData \<Rightarrow> AssetMap \<Rightarrow> StacksEpochId
   \<Rightarrow> (SerializationError + PostConditionFailure option) option" where
  "check_transaction_postconditions post_conditions mode origin am epoch =
     (let enforced = enforce_unchecked_assets_for_principal mode origin
      in finish_check
          (rbind (check_conditions origin am post_conditions nothing_checked) (\<lambda>checked.
           rbind (check_unchecked_assets enforced am checked) (\<lambda>_.
           if supports_staking_post_conditions epoch then check_unchecked_staking enforced am checked else Inr ()))))"

section \<open>What the conditions mean\<close>

definition serializable :: "Value \<Rightarrow> bool" where
  "serializable v \<longleftrightarrow> (\<exists>bs. serialize_to_vec v = Inr bs)"

fun condition_holds :: "PrincipalData \<Rightarrow> AssetMap \<Rightarrow> TransactionPostCondition \<Rightarrow> bool" where
  "condition_holds origin am (StxCondition owner code amount) \<longleftrightarrow>
     (\<exists>p. to_principal_data owner origin = Some p \<and>
        unat (unwrap_or (get_stx am p) 0) + unat (unwrap_or (get_stx_burned am p) 0) < 2 ^ 128 \<and>
        fungible_check code (ucast amount) (unwrap_or (get_stx am p) 0 + unwrap_or (get_stx_burned am p) 0))"
| "condition_holds origin am (FungibleCondition owner info code amount) \<longleftrightarrow>
     (\<exists>p asset. to_principal_data owner origin = Some p \<and> asset_id_of info = Some asset \<and>
        fungible_check code (ucast amount) (unwrap_or (get_fungible_tokens am p asset) 0))"
| "condition_holds origin am (NonfungibleCondition owner info v code) \<longleftrightarrow>
     (\<exists>p asset. to_principal_data owner origin = Some p \<and> asset_id_of info = Some asset \<and>
        nonfungible_check code v (unwrap_or (get_nonfungible_tokens am p asset) []) \<and> serializable v)"
| "condition_holds origin am (StakingCondition owner code amount) \<longleftrightarrow>
     (\<exists>p. to_principal_data owner origin = Some p \<and>
        fungible_check code (ucast amount) (unwrap_or (get_stacking am p) 0))"
| "condition_holds origin am (PoxCondition owner code) \<longleftrightarrow>
     (\<exists>p. to_principal_data owner origin = Some p \<and> pox_check code (did_pox_action am p))"

fun covers_fungible :: "PrincipalData \<Rightarrow> AssetMap \<Rightarrow> PrincipalData \<Rightarrow> AssetIdentifier \<Rightarrow> TransactionPostCondition \<Rightarrow> bool" where
  "covers_fungible origin am p asset (StxCondition owner _ _) \<longleftrightarrow>
     to_principal_data owner origin = Some p \<and>
     (asset = STX \<and> unwrap_or (get_stx am p) 0 > 0 \<or> asset = STX_burned \<and> unwrap_or (get_stx_burned am p) 0 > 0)"
| "covers_fungible origin am p asset (FungibleCondition owner info _ _) \<longleftrightarrow>
     to_principal_data owner origin = Some p \<and> asset_id_of info = Some asset"
| "covers_fungible origin am p asset _ \<longleftrightarrow> False"

fun covers_nonfungible :: "PrincipalData \<Rightarrow> PrincipalData \<Rightarrow> AssetIdentifier \<Rightarrow> TransactionPostCondition \<Rightarrow> bool" where
  "covers_nonfungible origin p asset (NonfungibleCondition owner info _ _) \<longleftrightarrow>
     to_principal_data owner origin = Some p \<and> asset_id_of info = Some asset"
| "covers_nonfungible origin p asset _ \<longleftrightarrow> False"

fun names_value :: "Value \<Rightarrow> TransactionPostCondition \<Rightarrow> bool" where
  "names_value v (NonfungibleCondition _ _ w _) \<longleftrightarrow> value_eq w v"
| "names_value v _ \<longleftrightarrow> False"

fun covers_staking :: "PrincipalData \<Rightarrow> PrincipalData \<Rightarrow> TransactionPostCondition \<Rightarrow> bool" where
  "covers_staking origin p (StakingCondition owner _ _) \<longleftrightarrow> to_principal_data owner origin = Some p"
| "covers_staking origin p _ \<longleftrightarrow> False"

fun covers_pox :: "PrincipalData \<Rightarrow> PrincipalData \<Rightarrow> TransactionPostCondition \<Rightarrow> bool" where
  "covers_pox origin p (PoxCondition owner _) \<longleftrightarrow> to_principal_data owner origin = Some p"
| "covers_pox origin p _ \<longleftrightarrow> False"

section \<open>What has been checked\<close>

definition fungible_checked :: "Checked \<Rightarrow> PrincipalData \<Rightarrow> AssetIdentifier \<Rightarrow> bool" where
  "fungible_checked c p asset \<longleftrightarrow> (\<exists>ids. map_of (checked_fungible_assets c) p = Some ids \<and> asset \<in> set ids)"

definition nonfungible_checked :: "Checked \<Rightarrow> PrincipalData \<Rightarrow> AssetIdentifier \<Rightarrow> bool" where
  "nonfungible_checked c p asset \<longleftrightarrow> nested_get (checked_nonfungible_assets c) (p, asset) \<noteq> None"

definition value_checked :: "Checked \<Rightarrow> PrincipalData \<Rightarrow> AssetIdentifier \<Rightarrow> Value \<Rightarrow> bool" where
  "value_checked c p asset v \<longleftrightarrow>
     value_set_contains (or_default (nested_get (checked_nonfungible_assets c) (p, asset))) v"

lemma value_set_contains_insert:
  "value_set_contains (value_set_insert w vs) v \<longleftrightarrow> value_eq w v \<or> value_set_contains vs v"
  by (auto simp: value_set_contains_def value_set_insert_def list_ex_iff value_eq_def)

lemma mark_fungible_checked:
  "fungible_checked (mark_fungible q ids c) p asset \<longleftrightarrow> fungible_checked c p asset \<or> p = q \<and> asset \<in> set ids"
  by (cases "map_of (checked_fungible_assets c) q") (auto simp: fungible_checked_def mark_fungible_def merge_sets)

lemma mark_nonfungible_get:
  "nested_get (checked_nonfungible_assets (mark_nonfungible q b w c)) =
     (nested_get (checked_nonfungible_assets c))((q, b) \<mapsto>
        value_set_insert w (or_default (nested_get (checked_nonfungible_assets c) (q, b))))"
  by (cases "map_of (checked_nonfungible_assets c) q")
    (auto simp: mark_nonfungible_def Let_def nested_get_def fun_eq_iff)

lemma mark_nonfungible_checked:
  "nonfungible_checked (mark_nonfungible q b w c) p asset \<longleftrightarrow> nonfungible_checked c p asset \<or> (p, asset) = (q, b)"
  "value_checked (mark_nonfungible q b w c) p asset v \<longleftrightarrow> value_checked c p asset v \<or> (p, asset) = (q, b) \<and> value_eq w v"
  by (auto simp: nonfungible_checked_def value_checked_def mark_nonfungible_get value_set_contains_insert)

lemma mark_others [simp]:
  "checked_nonfungible_assets (mark_fungible q ids c) = checked_nonfungible_assets c"
  "checked_staking (mark_fungible q ids c) = checked_staking c"
  "checked_pox (mark_fungible q ids c) = checked_pox c"
  "checked_fungible_assets (mark_nonfungible q b w c) = checked_fungible_assets c"
  "checked_staking (mark_nonfungible q b w c) = checked_staking c"
  "checked_pox (mark_nonfungible q b w c) = checked_pox c"
  by (simp_all add: mark_fungible_def mark_nonfungible_def Let_def)

lemma checked_frames [simp]:
  "fungible_checked (mark_nonfungible q b w c) = fungible_checked c"
  "fungible_checked (c\<lparr>checked_staking := s\<rparr>) = fungible_checked c"
  "fungible_checked (c\<lparr>checked_pox := s\<rparr>) = fungible_checked c"
  "nonfungible_checked (mark_fungible q ids c) = nonfungible_checked c"
  "nonfungible_checked (c\<lparr>checked_staking := s\<rparr>) = nonfungible_checked c"
  "nonfungible_checked (c\<lparr>checked_pox := s\<rparr>) = nonfungible_checked c"
  "value_checked (mark_fungible q ids c) = value_checked c"
  "value_checked (c\<lparr>checked_staking := s\<rparr>) = value_checked c"
  "value_checked (c\<lparr>checked_pox := s\<rparr>) = value_checked c"
  by (simp_all add: fun_eq_iff fungible_checked_def nonfungible_checked_def value_checked_def)

text \<open>\<open>grown c c' pcs\<close>: the marks of \<open>c'\<close> are those of \<open>c\<close> and those the conditions set.\<close>

definition grown :: "PrincipalData \<Rightarrow> AssetMap \<Rightarrow> TransactionPostCondition set \<Rightarrow> Checked \<Rightarrow> Checked \<Rightarrow> bool" where
  "grown origin am pcs c c' \<longleftrightarrow>
     (\<forall>p asset. fungible_checked c' p asset \<longleftrightarrow> fungible_checked c p asset \<or> (\<exists>pc \<in> pcs. covers_fungible origin am p asset pc)) \<and>
     (\<forall>p asset. nonfungible_checked c' p asset \<longleftrightarrow> nonfungible_checked c p asset \<or> (\<exists>pc \<in> pcs. covers_nonfungible origin p asset pc)) \<and>
     (\<forall>p asset v. value_checked c' p asset v \<longleftrightarrow> value_checked c p asset v \<or>
        (\<exists>pc \<in> pcs. covers_nonfungible origin p asset pc \<and> names_value v pc)) \<and>
     (\<forall>p. p \<in> set (checked_staking c') \<longleftrightarrow> p \<in> set (checked_staking c) \<or> (\<exists>pc \<in> pcs. covers_staking origin p pc)) \<and>
     (\<forall>p. p \<in> set (checked_pox c') \<longleftrightarrow> p \<in> set (checked_pox c) \<or> (\<exists>pc \<in> pcs. covers_pox origin p pc))"

lemma expect_eq [simp]: "expect x = Inr y \<longleftrightarrow> x = Some y"
  by (cases x) (auto simp: expect_def)

lemma hashable_eq [simp]: "hashable_try_from v = Inr w \<longleftrightarrow> w = v \<and> serializable v"
  by (auto simp: hashable_try_from_def serializable_def)

lemma checked_add_eq: "checked_add a b = Some c \<longleftrightarrow> unat a + unat b < 2 ^ 128 \<and> c = a + b" for a b :: u128
  by (auto simp: checked_add_def)

lemma condition_holds_step:
  "condition_holds origin am pc \<longleftrightarrow> (\<exists>c'. check_condition origin am pc c = Inr c')"
  by (cases pc) (auto simp: Let_def checked_add_eq)

lemma in_stx_ids: "asset \<in> set (stx_ids t b) \<longleftrightarrow> asset = STX \<and> t > 0 \<or> asset = STX_burned \<and> b > 0"
  by (simp add: stx_ids_def)

lemma check_condition_grown:
  "check_condition origin am pc c = Inr c' \<Longrightarrow> grown origin am {pc} c c'"
  by (cases pc) (auto simp: Let_def grown_def mark_fungible_checked mark_nonfungible_checked in_stx_ids split: if_splits)

lemma grown_trans: "grown origin am A c c' \<Longrightarrow> grown origin am B c' c'' \<Longrightarrow> grown origin am (A \<union> B) c c''"
  unfolding grown_def by (simp add: bex_Un disj_assoc)

lemma check_conditions_grown:
  "check_conditions origin am pcs c = Inr c' \<Longrightarrow> grown origin am (set pcs) c c'"
proof (induction pcs arbitrary: c)
  case (Cons pc pcs)
  then obtain d where "check_condition origin am pc c = Inr d" "check_conditions origin am pcs d = Inr c'" by auto
  with Cons.IH show ?case using grown_trans [OF check_condition_grown] by fastforce
qed (simp add: grown_def)

lemma check_conditions_hold:
  "(\<exists>c'. check_conditions origin am pcs c = Inr c') \<longleftrightarrow> (\<forall>pc \<in> set pcs. condition_holds origin am pc)"
proof (induction pcs arbitrary: c)
  case (Cons pc pcs)
  have "(\<exists>c'. check_conditions origin am (pc # pcs) c = Inr c') \<longleftrightarrow>
      (\<exists>d. check_condition origin am pc c = Inr d \<and> (\<exists>c'. check_conditions origin am pcs d = Inr c'))"
    by auto
  then show ?case unfolding Cons.IH by (simp add: condition_holds_step [of origin am pc c])
qed simp

section \<open>What a passed check means\<close>

lemma try_each_eq: "try_each f xs = Inr () \<longleftrightarrow> (\<forall>x \<in> set xs. f x = Inr ())"
  by (induction xs) auto

fun entry_checked :: "Checked \<Rightarrow> PrincipalData \<Rightarrow> AssetIdentifier \<Rightarrow> AssetMapEntry \<Rightarrow> bool" where
  "entry_checked c p asset (EntryAsset vs) \<longleftrightarrow>
     nonfungible_checked c p asset \<and> (\<forall>v \<in> set vs. serializable v \<and> value_checked c p asset v)"
| "entry_checked c p asset _ \<longleftrightarrow> fungible_checked c p asset"

lemma check_entry_eq: "check_entry c p (asset, e) = Inr () \<longleftrightarrow> entry_checked c p asset e"
proof (cases e)
  case (EntryAsset vs)
  show ?thesis
    by (auto simp: EntryAsset check_entry_def try_each_eq nonfungible_checked_def value_checked_def nested_get_def
        split: option.splits)
qed (auto simp: check_entry_def fungible_checked_def split: option.splits)

lemma check_entry_pair: "check_entry c p x = Inr () \<longleftrightarrow> entry_checked c p (fst x) (snd x)"
  using check_entry_eq [of c p "fst x" "snd x"] by simp

lemma nested_entries:
  assumes "nested_wf t"
  shows "(\<forall>(p, inner) \<in> set t. \<forall>(a, e) \<in> set inner. Q p a e) \<longleftrightarrow> (\<forall>p a e. nested_get t (p, a) = Some e \<longrightarrow> Q p a e)"
  (is "?l \<longleftrightarrow> ?r")
proof
  assume l: ?l
  show ?r
  proof (intro allI impI)
    fix p a e assume "nested_get t (p, a) = Some e"
    then obtain inner where "map_of t p = Some inner" "map_of inner a = Some e"
      by (auto simp: nested_get_def bind_eq_Some_conv)
    with l show "Q p a e" by (fastforce dest!: map_of_SomeD)
  qed
next
  assume r: ?r
  show ?l
  proof clarify
    fix p inner a e assume m: "(p, inner) \<in> set t" "(a, e) \<in> set inner"
    with assms have "map_of t p = Some inner" "map_of inner a = Some e"
      by (auto simp: nested_wf_def hash_wf_member [symmetric])
    with r show "Q p a e" by (simp add: nested_get_def)
  qed
qed

lemma check_unchecked_assets_eq:
  "check_unchecked_assets enforced am c = Inr () \<longleftrightarrow>
     (\<forall>p asset e. nested_get (to_table am) (p, asset) = Some e \<longrightarrow> enforced p \<longrightarrow> entry_checked c p asset e)"
proof -
  have "check_unchecked_assets enforced am c = Inr () \<longleftrightarrow>
      (\<forall>(p, inner) \<in> set (to_table am). \<forall>(asset, e) \<in> set inner. enforced p \<longrightarrow> entry_checked c p asset e)"
    by (simp add: check_unchecked_assets_def try_each_eq case_prod_unfold check_entry_pair)
  then show ?thesis by (simp add: nested_entries [OF to_table_wf])
qed

lemma check_unchecked_staking_eq:
  assumes "wf_asset_map am"
  shows "check_unchecked_staking enforced am c = Inr () \<longleftrightarrow>
    (\<forall>p a. get_stacking am p = Some a \<longrightarrow> a \<noteq> 0 \<longrightarrow> enforced p \<longrightarrow> p \<in> set (checked_staking c)) \<and>
    (\<forall>p. did_pox_action am p \<longrightarrow> enforced p \<longrightarrow> p \<in> set (checked_pox c))"
proof -
  have "hash_wf (stacking_map am)" using assms by (simp add: wf_asset_map_def)
  then have "(\<forall>x \<in> set (get_all_stacking am). Q (fst x) (snd x)) \<longleftrightarrow> (\<forall>p a. get_stacking am p = Some a \<longrightarrow> Q p a)" for Q
    by (auto simp: hash_wf_member [symmetric] get_all_stacking_def get_stacking_def)
  from this [of "\<lambda>p a. a \<noteq> 0 \<longrightarrow> enforced p \<longrightarrow> p \<in> set (checked_staking c)"] show ?thesis
    by (simp add: check_unchecked_staking_def try_each_eq case_prod_unfold get_all_pox_actions_def did_pox_action_def) blast
qed

lemma finish_check_passed: "finish_check r = Some (Inr None) \<longleftrightarrow> r = Inr ()"
  by (cases r rule: finish_check.cases) auto

text \<open>A movement recorded in the table is covered by the conditions.\<close>

fun entry_covered ::
  "PrincipalData \<Rightarrow> AssetMap \<Rightarrow> TransactionPostCondition list \<Rightarrow> PrincipalData \<Rightarrow> AssetIdentifier \<Rightarrow> AssetMapEntry \<Rightarrow> bool" where
  "entry_covered origin am pcs p asset (EntryAsset vs) \<longleftrightarrow>
     (\<exists>pc \<in> set pcs. covers_nonfungible origin p asset pc) \<and>
     (\<forall>v \<in> set vs. serializable v \<and> (\<exists>pc \<in> set pcs. covers_nonfungible origin p asset pc \<and> names_value v pc))"
| "entry_covered origin am pcs p asset _ \<longleftrightarrow> (\<exists>pc \<in> set pcs. covers_fungible origin am p asset pc)"

lemma grown_from_nothing:
  assumes "grown origin am (set pcs) nothing_checked c"
  shows "entry_checked c p asset e \<longleftrightarrow> entry_covered origin am pcs p asset e"
    "p \<in> set (checked_staking c) \<longleftrightarrow> (\<exists>pc \<in> set pcs. covers_staking origin p pc)"
    "p \<in> set (checked_pox c) \<longleftrightarrow> (\<exists>pc \<in> set pcs. covers_pox origin p pc)"
  using assms unfolding grown_def
  by (cases e; simp add: nothing_checked_def fungible_checked_def [of "\<lparr>checked_fungible_assets = _, checked_nonfungible_assets = _, checked_staking = _, checked_pox = _\<rparr>"]
      nonfungible_checked_def [of "\<lparr>checked_fungible_assets = _, checked_nonfungible_assets = _, checked_staking = _, checked_pox = _\<rparr>"]
      value_checked_def [of "\<lparr>checked_fungible_assets = _, checked_nonfungible_assets = _, checked_staking = _, checked_pox = _\<rparr>"] nested_get_def [of "[]"] value_set_contains_def)+

lemma postconditions_passed:
  assumes "wf_asset_map am"
  shows "check_transaction_postconditions pcs mode origin am epoch = Some (Inr None) \<longleftrightarrow>
    (\<forall>pc \<in> set pcs. condition_holds origin am pc) \<and>
    (\<forall>p. enforce_unchecked_assets_for_principal mode origin p \<longrightarrow>
       (\<forall>asset e. nested_get (to_table am) (p, asset) = Some e \<longrightarrow> entry_covered origin am pcs p asset e) \<and>
       (supports_staking_post_conditions epoch \<longrightarrow>
          (\<forall>a. get_stacking am p = Some a \<longrightarrow> a \<noteq> 0 \<longrightarrow> (\<exists>pc \<in> set pcs. covers_staking origin p pc)) \<and>
          (did_pox_action am p \<longrightarrow> (\<exists>pc \<in> set pcs. covers_pox origin p pc))))"
proof (cases "check_conditions origin am pcs nothing_checked")
  case (Inl e)
  then have "\<not> (\<forall>pc \<in> set pcs. condition_holds origin am pc)"
    using check_conditions_hold [of origin am pcs nothing_checked] by simp
  then show ?thesis using Inl by (simp add: check_transaction_postconditions_def finish_check_passed)
next
  case (Inr c)
  then have "\<forall>pc \<in> set pcs. condition_holds origin am pc"
    using check_conditions_hold [of origin am pcs nothing_checked] by simp
  moreover note grown_from_nothing [OF check_conditions_grown [OF Inr]]
  ultimately show ?thesis
    by (auto simp: check_transaction_postconditions_def Let_def Inr finish_check_passed check_unchecked_assets_eq
        check_unchecked_staking_eq [OF assms])
qed

text \<open>Asset identifiers of a map are of one kind, and no contract uses the identifiers of STX.\<close>

definition ids_apart :: "AssetMap \<Rightarrow> bool" where
  "ids_apart am \<longleftrightarrow>
     (\<forall>p q asset. get_nonfungible_tokens am p asset \<noteq> None \<longrightarrow> get_fungible_tokens am q asset = None) \<and>
     (\<forall>p asset. get_nonfungible_tokens am p asset \<noteq> None \<or> get_fungible_tokens am p asset \<noteq> None \<longrightarrow>
        asset \<noteq> STX \<and> asset \<noteq> STX_burned)"

fun names_reserved_id :: "TransactionPostCondition \<Rightarrow> bool" where
  "names_reserved_id (FungibleCondition _ info _ _) \<longleftrightarrow> asset_id_of info = Some STX \<or> asset_id_of info = Some STX_burned"
| "names_reserved_id _ \<longleftrightarrow> False"

text \<open>The movements of a principal, each with the entry of the table that records it.\<close>

lemma table_entries:
  assumes "wf_asset_map am" "ids_apart am"
  shows "get_nonfungible_tokens am p asset = Some vs \<Longrightarrow> nested_get (to_table am) (p, asset) = Some (EntryAsset vs)"
    "get_fungible_tokens am p asset = Some a \<Longrightarrow> nested_get (to_table am) (p, asset) = Some (EntryToken a)"
    "get_stx am p = Some a \<Longrightarrow> nested_get (to_table am) (p, STX) = Some (EntrySTX a)"
    "get_stx_burned am p = Some a \<Longrightarrow> nested_get (to_table am) (p, STX_burned) = Some (EntryBurn a)"
proof -
  have apart: "get_nonfungible_tokens am p STX = None" "get_nonfungible_tokens am p STX_burned = None"
    using assms(2) unfolding ids_apart_def by blast+
  have tok: "get_fungible_tokens am p asset = Some a \<Longrightarrow>
      get_nonfungible_tokens am p asset = None \<and> asset \<noteq> STX \<and> asset \<noteq> STX_burned" for a
    using assms(2) unfolding ids_apart_def by (metis option.distinct(1))
  note get = to_table_get [OF assms(1)] get_nonfungible_nested [symmetric]
  show "get_nonfungible_tokens am p asset = Some vs \<Longrightarrow> nested_get (to_table am) (p, asset) = Some (EntryAsset vs)"
    by (simp add: get)
  show "get_fungible_tokens am p asset = Some a \<Longrightarrow> nested_get (to_table am) (p, asset) = Some (EntryToken a)"
    using tok [of a] by (simp add: get)
  show "get_stx am p = Some a \<Longrightarrow> nested_get (to_table am) (p, STX) = Some (EntrySTX a)"
    "get_stx_burned am p = Some a \<Longrightarrow> nested_get (to_table am) (p, STX_burned) = Some (EntryBurn a)"
    using apart by (simp_all add: get)
qed

lemma covers_token:
  "covers_fungible origin am p asset pc \<Longrightarrow> asset \<noteq> STX \<Longrightarrow> asset \<noteq> STX_burned \<Longrightarrow>
     \<exists>owner info code amount. pc = FungibleCondition owner info code amount \<and>
       to_principal_data owner origin = Some p \<and> asset_id_of info = Some asset"
  by (cases pc) auto

lemma covers_stx:
  "covers_fungible origin am p asset pc \<Longrightarrow> \<not> names_reserved_id pc \<Longrightarrow> asset = STX \<or> asset = STX_burned \<Longrightarrow>
     \<exists>owner code amount. pc = StxCondition owner code amount \<and> to_principal_data owner origin = Some p"
  by (cases pc) auto

lemma covers_nft:
  "covers_nonfungible origin p asset pc \<Longrightarrow> names_value v pc \<Longrightarrow>
     \<exists>owner info w code. pc = NonfungibleCondition owner info w code \<and> value_eq w v \<and>
       to_principal_data owner origin = Some p \<and> asset_id_of info = Some asset"
  by (cases pc) auto

lemma passed_stx:
  assumes "wf_asset_map am" "ids_apart am" "\<not> list_ex names_reserved_id pcs"
    and "check_transaction_postconditions pcs mode origin am epoch = Some (Inr None)"
    and "enforce_unchecked_assets_for_principal mode origin p" "get_stx am p \<noteq> None \<or> get_stx_burned am p \<noteq> None"
  shows "\<exists>owner code amount. StxCondition owner code amount \<in> set pcs \<and> to_principal_data owner origin = Some p \<and>
    fungible_check code (ucast amount) (unwrap_or (get_stx am p) 0 + unwrap_or (get_stx_burned am p) 0)"
proof -
  from assms(4,5) have holds: "pc \<in> set pcs \<Longrightarrow> condition_holds origin am pc"
    and covered: "nested_get (to_table am) (p, asset) = Some e \<Longrightarrow> entry_covered origin am pcs p asset e" for pc asset e
    by (simp_all add: postconditions_passed [OF assms(1)])
  note entries = table_entries [OF assms(1,2)]
  from assms(6) obtain asset pc where "pc \<in> set pcs" "covers_fungible origin am p asset pc" "asset = STX \<or> asset = STX_burned"
    using covered [OF entries(3)] covered [OF entries(4)] by fastforce
  with covers_stx [of origin am p asset pc] assms(3) obtain owner code amount where
    pc: "StxCondition owner code amount \<in> set pcs" "to_principal_data owner origin = Some p"
    by (auto simp: list_ex_iff)
  with holds [OF pc(1)] show ?thesis by auto
qed

lemma passed_token:
  assumes "wf_asset_map am" "ids_apart am"
    and "check_transaction_postconditions pcs mode origin am epoch = Some (Inr None)"
    and "enforce_unchecked_assets_for_principal mode origin p" "get_fungible_tokens am p asset = Some a"
  shows "\<exists>owner info code amount. FungibleCondition owner info code amount \<in> set pcs \<and>
    to_principal_data owner origin = Some p \<and> asset_id_of info = Some asset \<and> fungible_check code (ucast amount) a"
proof -
  from assms(3,4) have holds: "pc \<in> set pcs \<Longrightarrow> condition_holds origin am pc"
    and covered: "nested_get (to_table am) (p, asset) = Some e \<Longrightarrow> entry_covered origin am pcs p asset e" for pc asset e
    by (simp_all add: postconditions_passed [OF assms(1)])
  from assms(5) covered [OF table_entries(2) [OF assms(1,2)]] obtain pc where
    pc: "pc \<in> set pcs" "covers_fungible origin am p asset pc" by force
  from assms(2,5) have "asset \<noteq> STX" "asset \<noteq> STX_burned" unfolding ids_apart_def by blast+
  with covers_token [OF pc(2)] pc(1) holds [OF pc(1)] assms(5) show ?thesis by (force simp: unwrap_or_def)
qed

lemma passed_nft:
  assumes "wf_asset_map am" "ids_apart am"
    and "check_transaction_postconditions pcs mode origin am epoch = Some (Inr None)"
    and "enforce_unchecked_assets_for_principal mode origin p" "get_nonfungible_tokens am p asset = Some vs" "v \<in> set vs"
  shows "\<exists>owner info w code. NonfungibleCondition owner info w code \<in> set pcs \<and> value_eq w v \<and>
    to_principal_data owner origin = Some p \<and> asset_id_of info = Some asset \<and> nonfungible_check code w vs"
proof -
  from assms(3,4) have holds: "pc \<in> set pcs \<Longrightarrow> condition_holds origin am pc"
    and covered: "nested_get (to_table am) (p, asset) = Some e \<Longrightarrow> entry_covered origin am pcs p asset e" for pc asset e
    by (simp_all add: postconditions_passed [OF assms(1)])
  from assms(5,6) covered [OF table_entries(1) [OF assms(1,2)]] obtain pc where
    pc: "pc \<in> set pcs" "covers_nonfungible origin p asset pc" "names_value v pc" by fastforce
  with covers_nft [OF pc(2,3)] holds [OF pc(1)] assms(5) show ?thesis by (force simp: unwrap_or_def)
qed

lemma covers_staked:
  "covers_staking origin p pc \<Longrightarrow>
     \<exists>owner code amount. pc = StakingCondition owner code amount \<and> to_principal_data owner origin = Some p"
  by (cases pc) auto

lemma covers_acted: "covers_pox origin p pc \<Longrightarrow> \<exists>owner code. pc = PoxCondition owner code \<and> to_principal_data owner origin = Some p"
  by (cases pc) auto

lemma passed_staking:
  assumes "wf_asset_map am" "check_transaction_postconditions pcs mode origin am epoch = Some (Inr None)"
    and "enforce_unchecked_assets_for_principal mode origin p" "supports_staking_post_conditions epoch"
  shows "get_stacking am p = Some a \<Longrightarrow> a \<noteq> 0 \<Longrightarrow> \<exists>owner code amount. StakingCondition owner code amount \<in> set pcs \<and>
      to_principal_data owner origin = Some p \<and> fungible_check code (ucast amount) a"
    and "did_pox_action am p \<Longrightarrow> \<exists>owner code. PoxCondition owner code \<in> set pcs \<and>
      to_principal_data owner origin = Some p \<and> pox_check code True"
proof -
  from assms(2-4) have holds: "pc \<in> set pcs \<Longrightarrow> condition_holds origin am pc"
    and covered: "get_stacking am p = Some a \<Longrightarrow> a \<noteq> 0 \<Longrightarrow> \<exists>pc \<in> set pcs. covers_staking origin p pc"
      "did_pox_action am p \<Longrightarrow> \<exists>pc \<in> set pcs. covers_pox origin p pc" for pc a
    by (simp_all add: postconditions_passed [OF assms(1)])
  show "\<exists>owner code amount. StakingCondition owner code amount \<in> set pcs \<and> to_principal_data owner origin = Some p \<and>
      fungible_check code (ucast amount) a" if a: "get_stacking am p = Some a" "a \<noteq> 0"
  proof -
    from covered(1) [OF a] obtain owner code amount where
      pc: "StakingCondition owner code amount \<in> set pcs" "to_principal_data owner origin = Some p" by (blast dest: covers_staked)
    with holds [OF pc(1)] a(1) show ?thesis by (auto simp: unwrap_or_def)
  qed
  show "\<exists>owner code. PoxCondition owner code \<in> set pcs \<and> to_principal_data owner origin = Some p \<and> pox_check code True"
    if a: "did_pox_action am p"
  proof -
    from covered(2) [OF a] obtain owner code where
      pc: "PoxCondition owner code \<in> set pcs" "to_principal_data owner origin = Some p" by (blast dest: covers_acted)
    with holds [OF pc(1)] a show ?thesis by auto
  qed
qed

text \<open>
  (C7) When the post-conditions of a transaction pass, every one of them holds of the movements, and
  nothing of an enforced principal (in deny mode any, in originator mode the origin) moved that they
  did not allow: all STX sent or burned, every fungible and non-fungible token sent and, from the epoch
  that has staking conditions, every staked amount and PoX action is named by a condition that holds
  of it. The tokens moved must not use the identifiers reserved for STX nor one identifier for both
  kinds of token, and no condition on a token may name a reserved identifier.
\<close>

theorem passed_postconditions_protect:
  assumes "wf_asset_map am" "ids_apart am" "\<not> list_ex names_reserved_id pcs"
    and "check_transaction_postconditions pcs mode origin am epoch = Some (Inr None)"
    and "enforce_unchecked_assets_for_principal mode origin p"
  shows "(\<forall>pc \<in> set pcs. condition_holds origin am pc) \<and>
    (get_stx am p \<noteq> None \<or> get_stx_burned am p \<noteq> None \<longrightarrow>
       (\<exists>owner code amount. StxCondition owner code amount \<in> set pcs \<and> to_principal_data owner origin = Some p \<and>
          fungible_check code (ucast amount) (unwrap_or (get_stx am p) 0 + unwrap_or (get_stx_burned am p) 0))) \<and>
    (\<forall>asset a. get_fungible_tokens am p asset = Some a \<longrightarrow>
       (\<exists>owner info code amount. FungibleCondition owner info code amount \<in> set pcs \<and>
          to_principal_data owner origin = Some p \<and> asset_id_of info = Some asset \<and> fungible_check code (ucast amount) a)) \<and>
    (\<forall>asset vs v. get_nonfungible_tokens am p asset = Some vs \<and> v \<in> set vs \<longrightarrow>
       (\<exists>owner info w code. NonfungibleCondition owner info w code \<in> set pcs \<and> value_eq w v \<and>
          to_principal_data owner origin = Some p \<and> asset_id_of info = Some asset \<and> nonfungible_check code w vs)) \<and>
    (supports_staking_post_conditions epoch \<longrightarrow>
       (\<forall>a. get_stacking am p = Some a \<and> a \<noteq> 0 \<longrightarrow>
          (\<exists>owner code amount. StakingCondition owner code amount \<in> set pcs \<and>
             to_principal_data owner origin = Some p \<and> fungible_check code (ucast amount) a)) \<and>
       (did_pox_action am p \<longrightarrow>
          (\<exists>owner code. PoxCondition owner code \<in> set pcs \<and> to_principal_data owner origin = Some p \<and> pox_check code True)))"
proof -
  have "\<forall>pc \<in> set pcs. condition_holds origin am pc" using assms(4) by (simp add: postconditions_passed [OF assms(1)])
  with passed_stx [OF assms] passed_token [OF assms(1,2,4,5)] passed_nft [OF assms(1,2,4,5)] passed_staking [OF assms(1,4,5)]
  show ?thesis by blast
qed

section \<open>Instances\<close>

definition sample_origin :: PrincipalData where
  "sample_origin = Standard (StandardPrincipalData 22 (replicate 20 7))"

definition sample_moves :: AssetMap where
  "sample_moves = new_asset_map\<lparr>stx_map := [(sample_origin, 5)]\<rparr>"

definition sample_condition :: TransactionPostCondition where
  "sample_condition = StxCondition Origin SentLe 10"

definition reserved_condition :: TransactionPostCondition where
  "reserved_condition =
     FungibleCondition Origin
       \<lparr>contract_address = \<lparr>sa_version = 0, sa_bytes = replicate 20 0\<rparr>, ai_contract_name = ''STX'', ai_asset_name = ''STX''\<rparr>
       SentEq 0"

lemma one_move:
  assumes "am = new_asset_map\<lparr>stx_map := [(q, x)]\<rparr>"
  shows "wf_asset_map am" "ids_apart am" "get_stx am p = (if p = q then Some x else None)" "get_stx_burned am p = None"
    "get_fungible_tokens am p asset = None" "get_nonfungible_tokens am p asset = None" "get_stacking am p = None"
    "\<not> did_pox_action am p"
    "nested_get (to_table am) (p, asset) = (if p = q \<and> asset = STX then Some (EntrySTX x) else None)"
proof -
  show wf: "wf_asset_map am" by (simp add: assms new_asset_map_def wf_asset_map_def hash_wf_def)
  show g: "get_stx am p = (if p = q then Some x else None)" "get_stx_burned am p = None" for p
    by (simp_all add: assms new_asset_map_def lookups)
  show f: "get_fungible_tokens am p asset = None" "get_nonfungible_tokens am p asset = None" for p asset
    by (simp_all add: assms new_asset_map_def lookups get_nonfungible_nested nested_get_def)
  show "get_stacking am p = None" "\<not> did_pox_action am p"
    by (simp_all add: assms new_asset_map_def lookups)
  show "ids_apart am" by (simp add: ids_apart_def f)
  show "nested_get (to_table am) (p, asset) = (if p = q \<and> asset = STX then Some (EntrySTX x) else None)"
    by (simp add: to_table_get [OF wf] get_nonfungible_nested [symmetric] g f)
qed

lemma sample_passes: "check_transaction_postconditions [sample_condition] Deny sample_origin sample_moves Epoch41 = Some (Inr None)"
  by (auto simp: postconditions_passed [OF one_move(1) [OF sample_moves_def]] one_move [OF sample_moves_def]
      sample_condition_def to_principal_data_def unwrap_or_def split: if_splits)

lemma reserved_id: "asset_id_of \<lparr>contract_address = \<lparr>sa_version = 0, sa_bytes = replicate 20 0\<rparr>,
    ai_contract_name = ''STX'', ai_asset_name = ''STX''\<rparr> = Some STX"
  by (simp add: asset_id_of_def standard_from_address_def standard_principal_new_def STX_def null_principal_def)

theorem passed_postconditions_protect_witness:
  "\<exists>owner code amount. StxCondition owner code amount \<in> set [sample_condition] \<and>
     to_principal_data owner sample_origin = Some sample_origin \<and>
     fungible_check code (ucast amount)
       (unwrap_or (get_stx sample_moves sample_origin) 0 + unwrap_or (get_stx_burned sample_moves sample_origin) 0)"
  using passed_postconditions_protect [OF one_move(1,2) [OF sample_moves_def] _ sample_passes, of sample_origin]
  by (simp add: sample_condition_def one_move [OF sample_moves_def])

text \<open>
  (C8) The check passes exactly when every condition holds of the recorded movements and, for the
  principals the mode enforces, every entry of the table of movements is covered by a condition,
  and from epoch 4.0 on so is every staked amount and every PoX action. In particular the outcome
  does not depend on the order in which the hash tables are iterated.
\<close>

theorem postconditions_pass_iff_held_and_covered:
  assumes "wf_asset_map am"
  shows "check_transaction_postconditions pcs mode origin am epoch = Some (Inr None) \<longleftrightarrow>
    (\<forall>pc \<in> set pcs. condition_holds origin am pc) \<and>
    (\<forall>p. enforce_unchecked_assets_for_principal mode origin p \<longrightarrow>
       (\<forall>asset e. nested_get (to_table am) (p, asset) = Some e \<longrightarrow> entry_covered origin am pcs p asset e) \<and>
       (supports_staking_post_conditions epoch \<longrightarrow>
          (\<forall>a. get_stacking am p = Some a \<longrightarrow> a \<noteq> 0 \<longrightarrow> (\<exists>pc \<in> set pcs. covers_staking origin p pc)) \<and>
          (did_pox_action am p \<longrightarrow> (\<exists>pc \<in> set pcs. covers_pox origin p pc))))"
  by (rule postconditions_passed [OF assms])

theorem postconditions_pass_iff_held_and_covered_witness:
  "wf_asset_map sample_moves \<and> condition_holds sample_origin sample_moves sample_condition"
  using postconditions_pass_iff_held_and_covered
    [OF one_move(1) [OF sample_moves_def], of "[sample_condition]" Deny sample_origin Epoch41]
  by (simp add: sample_passes one_move(1) [OF sample_moves_def])

text \<open>
  (C19) The identifiers that stand for STX in the table can be named by a condition on a fungible
  token: in deny mode a transaction with the single condition that it sends none of the token
  \<open>STX\<close> of the contract \<open>STX\<close> of the null principal passes whatever amount of STX its origin sends.
\<close>

theorem reserved_token_condition_covers_stx:
  "check_transaction_postconditions [reserved_condition] Deny origin
     (new_asset_map\<lparr>stx_map := [(origin, amount)]\<rparr>) epoch = Some (Inr None)"
  by (auto simp: postconditions_passed [OF one_move(1) [OF refl]] one_move [OF refl] reserved_condition_def reserved_id
      to_principal_data_def unwrap_or_def split: if_splits)

section \<open>Hashing values\<close>

lemma value_prefix_erase [simp]: "value_prefix (erase v) = value_prefix v"
  by (cases v rule: value_prefix.cases) auto

lemma with_prefix_cong: "value_prefix v = value_prefix w \<Longrightarrow> with_prefix v = with_prefix w"
  by (simp add: with_prefix_def fun_eq_iff)

lemma serialize_erase:
  "serialize_write (erase v) = serialize_write v" "serialize_seq (erase_seq s) = serialize_seq s"
proof (induction v and s)
  case (Sequence s)
  then show ?case using with_prefix_cong [OF value_prefix_erase [of "Sequence s"]] by simp
next
  case (Tuple t m)
  then have "map (map_prod id serialize_write) (map (map_prod id erase) m) = map (map_prod id serialize_write) m"
    by (auto simp: snds.simps)
  then show ?case
    using with_prefix_cong [OF value_prefix_erase [of "Tuple t m"]] by (simp only: erase.simps serialize_write.simps length_map)
next
  case (Optional v)
  then have "map_option (serialize_write \<circ> erase) v = map_option serialize_write v"
    by (cases v) auto
  then show ?case using with_prefix_cong [OF value_prefix_erase [of "Optional v"]] by (simp add: option.map_comp comp_def)
next
  case (Response committed v)
  then show ?case using with_prefix_cong [OF value_prefix_erase [of "Response committed v"]] by simp
next
  case (List data l)
  then have "map serialize_write (map erase data) = map serialize_write data" by simp
  then show ?case by (simp only: erase_seq.simps serialize_seq.simps length_map)
qed simp_all

text \<open>
  (C18) Values that are equal, though their lists and tuples may carry different types, have the
  same serialisation: the hash of a \<open>HashableClarityValue\<close> agrees with its equality, so that a set
  of them contains a value exactly when one of its elements equals it.
\<close>

theorem equal_values_serialize_equally: "value_eq v w \<Longrightarrow> serialize_to_vec v = serialize_to_vec w"
  unfolding value_eq_def serialize_to_vec_def by (metis serialize_erase)

theorem equal_values_serialize_equally_witness:
  "serialize_to_vec (Sequence (List [UInt 1] (ListTypeData 1 UIntType 2))) =
   serialize_to_vec (Sequence (List [UInt 1] (ListTypeData 7 UIntType 2)))"
  by (rule equal_values_serialize_equally) (simp add: value_eq_def)

end
