(* ===== verification/MessageCodec.thy ===== *)
theory MessageCodec
  imports UntypedReading PostConditions
begin

text \<open>
  The wire format of messages: \<open>StacksMessageCodec\<close> of \<open>stacks-common/src/codec\<close> for integers,
  byte arrays and vectors, and its instances for names, principals, addresses and values
  (\<open>clarity-types\<close>) and printable strings (\<open>stacks-codec/src/strings.rs\<close>). A writer returns the
  bytes written; a reader works on the bounded reader of \<open>ValueSerialization\<close>. The locale
  \<open>message_codec\<close> states what every codec promises: what was written reads back, whatever follows.
\<close>

section \<open>Errors and readers\<close>

text \<open>
  Messages that render an error carry the error. \<open>CodecPanic\<close> is no variant of the code's error: it is
  the panic of an assertion or of \<open>expect\<close> in a codec.
\<close>

datatype error_text = Text string | Rendered string SerializationError | RenderedName string ClarityTypeError

datatype CodecError =
    SerializeError error_text
  | ReadError io_error
  | DeserializeError error_text
  | WriteError io_error
  | UnderflowError string
  | OverflowError string
  | ArrayTooLong
  | SigningError string
  | GenericError string
  | CodecPanic string

type_synonym 'a codec_reads = "(BoundReader, CodecError, 'a) meth"

definition with_error :: "('e \<Rightarrow> 'f) \<Rightarrow> ('s, 'e, 'a) meth \<Rightarrow> ('s, 'f, 'a) meth" where
  "with_error f m = (\<lambda>s. case m s of (r, s') \<Rightarrow> (map_err f r, s'))"

fun read_error :: "SerializationError \<Rightarrow> CodecError" where
  "read_error (IOError e) = ReadError e"
| "read_error e = DeserializeError (Rendered ''Failed to decode clarity value: '' e)"

definition codec_read_exact :: "nat \<Rightarrow> u8 list codec_reads" where
  "codec_read_exact n = with_error read_error (read_exact n)"

definition parse_failure :: "string \<Rightarrow> 'a codec_reads" where
  "parse_failure msg = sfail (DeserializeError (Text msg))"

text \<open>
  A bounded reader over a reader: it sees what the outer one would deliver, and what it takes is
  taken from the outer one.
\<close>

definition bounded :: "nat \<Rightarrow> (BoundReader, 'e, 'a) meth \<Rightarrow> (BoundReader, 'e, 'a) meth" where
  "bounded max_len m = (\<lambda>self.
     case m (from_reader (take (br_max_len self - br_read_so_far self) (br_fd self)) max_len) of
       (r, inner) \<Rightarrow> (r, self\<lparr>br_fd := drop (br_read_so_far inner) (br_fd self),
                             br_read_so_far := br_read_so_far self + br_read_so_far inner\<rparr>))"

section \<open>Sizes\<close>

definition MAX_PAYLOAD_LEN :: u32 where "MAX_PAYLOAD_LEN = 1 + 16 * 1024 * 1024"
definition BURNCHAIN_HEADER_HASH_ENCODED_SIZE :: u32 where "BURNCHAIN_HEADER_HASH_ENCODED_SIZE = 32"
definition HASH160_ENCODED_SIZE :: u32 where "HASH160_ENCODED_SIZE = 20"
definition MESSAGE_SIGNATURE_ENCODED_SIZE :: u32 where "MESSAGE_SIGNATURE_ENCODED_SIZE = 65"
definition PEER_ADDRESS_ENCODED_SIZE :: u32 where "PEER_ADDRESS_ENCODED_SIZE = 16"
definition MAX_RELAYERS_LEN :: u32 where "MAX_RELAYERS_LEN = 16"

definition PREAMBLE_ENCODED_SIZE :: u32 where
  "PREAMBLE_ENCODED_SIZE =
     4 + 4 + 4 + 8 + BURNCHAIN_HEADER_HASH_ENCODED_SIZE + 8 + BURNCHAIN_HEADER_HASH_ENCODED_SIZE + 4 +
     MESSAGE_SIGNATURE_ENCODED_SIZE + 4"

definition NEIGHBOR_ADDRESS_ENCODED_SIZE :: u32 where
  "NEIGHBOR_ADDRESS_ENCODED_SIZE = PEER_ADDRESS_ENCODED_SIZE + 2 + HASH160_ENCODED_SIZE"

definition RELAY_DATA_ENCODED_SIZE :: u32 where
  "RELAY_DATA_ENCODED_SIZE = NEIGHBOR_ADDRESS_ENCODED_SIZE + 4"

definition MAX_MESSAGE_LEN :: u32 where
  "MAX_MESSAGE_LEN = MAX_PAYLOAD_LEN + (PREAMBLE_ENCODED_SIZE + MAX_RELAYERS_LEN * RELAY_DATA_ENCODED_SIZE)"

definition MAX_BLOCK_LEN :: u32 where "MAX_BLOCK_LEN = 2 * 1024 * 1024"
definition MAX_TRANSACTION_LEN :: u32 where "MAX_TRANSACTION_LEN = MAX_BLOCK_LEN"

lemma message_sizes [simp]:
  "unat MAX_MESSAGE_LEN = 16778054" "unat MAX_TRANSACTION_LEN = 2097152" "unat BOUND_VALUE_SERIALIZATION_BYTES = 2097152"
  by (simp_all add: MAX_MESSAGE_LEN_def MAX_PAYLOAD_LEN_def PREAMBLE_ENCODED_SIZE_def RELAY_DATA_ENCODED_SIZE_def
      NEIGHBOR_ADDRESS_ENCODED_SIZE_def BURNCHAIN_HEADER_HASH_ENCODED_SIZE_def HASH160_ENCODED_SIZE_def
      MESSAGE_SIGNATURE_ENCODED_SIZE_def PEER_ADDRESS_ENCODED_SIZE_def MAX_RELAYERS_LEN_def MAX_TRANSACTION_LEN_def
      MAX_BLOCK_LEN_def BOUND_VALUE_SERIALIZATION_BYTES_def MAX_VALUE_SIZE_def)

section \<open>Integers, byte arrays and vectors\<close>

type_synonym 'a codec_writes = "'a \<Rightarrow> CodecError + u8 list"

definition write_int :: "'w :: len word codec_writes" where
  "write_int w = Inr (to_be_bytes w)"

definition read_int :: "'w :: len word codec_reads" where
  "read_int = sbind (codec_read_exact (LENGTH('w) div 8)) (\<lambda>buf. sret (from_be_bytes buf))"

definition write_bytes :: "u8 list codec_writes" where
  "write_bytes bs = Inr bs"

definition read_bytes :: "nat \<Rightarrow> u8 list codec_reads" where
  "read_bytes len = codec_read_exact len"

definition write_vec :: "'a codec_writes \<Rightarrow> 'a list codec_writes" where
  "write_vec write_item xs = write_each (write_int (word_of_nat (length xs) :: u32) # map write_item xs)"

primrec read_items :: "nat \<Rightarrow> 'a codec_reads \<Rightarrow> 'a list codec_reads" where
  "read_items 0 read_next = sret []"
| "read_items (Suc n) read_next = sbind read_next (\<lambda>x. sbind (read_items n read_next) (\<lambda>xs. sret (x # xs)))"

text \<open>\<open>size_of\<close> is the size of an item in memory, which the compiler chooses.\<close>

definition read_next_vec :: "nat \<Rightarrow> 'a codec_reads \<Rightarrow> u32 \<Rightarrow> u32 \<Rightarrow> 'a list codec_reads" where
  "read_next_vec size_of read_next num_items max_items =
     sbind read_int (\<lambda>len :: u32.
       if max_items > 0 \<and> len > max_items
       then parse_failure (''Array has too many items ('' @ show_nat (unat len) @ '' > '' @ show_nat (unat max_items) @ '')'')
       else if \<not> max_items > 0 \<and> len \<noteq> num_items
       then parse_failure (''Array has incorrect number of items ('' @ show_nat (unat len) @ '' != '' @ show_nat (unat num_items) @ '')'')
       else if size_of * unat len > unat MAX_MESSAGE_LEN
       then parse_failure (''Message occupies too many bytes (tried to allocate '' @ show_nat size_of @ ''*'' @
              show_nat (unat len) @ ''='' @ show_nat (size_of * unat len) @ '')'')
       else read_items (unat len) read_next)"

definition read_next_at_most :: "nat \<Rightarrow> 'a codec_reads \<Rightarrow> u32 \<Rightarrow> 'a list codec_reads" where
  "read_next_at_most size_of read_next max_items = read_next_vec size_of read_next 0 max_items"

definition read_next_exact :: "nat \<Rightarrow> 'a codec_reads \<Rightarrow> u32 \<Rightarrow> 'a list codec_reads" where
  "read_next_exact size_of read_next num_items = read_next_vec size_of read_next num_items 0"

definition read_vec :: "nat \<Rightarrow> 'a codec_reads \<Rightarrow> 'a list codec_reads" where
  "read_vec size_of read_next = read_next_at_most size_of read_next (- 1)"

section \<open>Names, principals, addresses, values and strings\<close>

definition CONTRACT_MIN_NAME_LENGTH :: nat where
  "CONTRACT_MIN_NAME_LENGTH = 1"

definition encode_clarity_name :: "string codec_writes" where
  "encode_clarity_name name =
     (if length name > unat MAX_STRING_LEN then Inl (SerializeError (Text ''Failed to serialize clarity name: too long''))
      else write_each [write_int (word_of_nat (length name) :: u8), write_bytes (string_bytes name)])"

definition decode_clarity_name :: "string codec_reads" where
  "decode_clarity_name =
     sbind read_int (\<lambda>len_byte :: u8.
       if len_byte > MAX_STRING_LEN then parse_failure ''Failed to deserialize clarity name: too long''
       else sbind (codec_read_exact (unat len_byte)) (\<lambda>bytes.
         if utf8_chars bytes = None then parse_failure ''Failed to parse Clarity name: could not construct from utf8''
         else slift (map_err (\<lambda>e. DeserializeError (RenderedName ''Failed to parse Clarity name: '' e))
                (clarity_name_try_from (bytes_string bytes)))))"

definition encode_contract_name :: "string codec_writes" where
  "encode_contract_name name =
     (if length name < CONTRACT_MIN_NAME_LENGTH \<or> length name > CONTRACT_MAX_NAME_LENGTH
      then Inl (SerializeError (Text (''Failed to serialize contract name: too short or too long: '' @ show_nat (length name))))
      else write_each [write_int (word_of_nat (length name) :: u8), write_bytes (string_bytes name)])"

definition decode_contract_name :: "string codec_reads" where
  "decode_contract_name =
     sbind read_int (\<lambda>len_byte :: u8.
       if unat len_byte < CONTRACT_MIN_NAME_LENGTH \<or> unat len_byte > CONTRACT_MAX_NAME_LENGTH
       then parse_failure (''Failed to deserialize contract name: too short or too long: '' @ show_nat (unat len_byte))
       else sbind (codec_read_exact (unat len_byte)) (\<lambda>bytes.
         if utf8_chars bytes = None then parse_failure ''Failed to parse Contract name: could not construct from utf8''
         else slift (map_err (\<lambda>e. DeserializeError (RenderedName ''Failed to parse Contract name: '' e))
                (contract_name_try_from (bytes_string bytes)))))"

definition encode_principal :: "PrincipalData codec_writes" where
  "encode_principal p = Inr (principal_serialize p)"

definition decode_principal :: "PrincipalData codec_reads" where
  "decode_principal = with_error (\<lambda>e. DeserializeError (Rendered '''' e)) principal_deserialize"

definition encode_address :: "StacksAddress codec_writes" where
  "encode_address a = write_each [write_int (sa_version a), write_bytes (sa_bytes a)]"

definition decode_address :: "StacksAddress codec_reads" where
  "decode_address =
     sbind read_int (\<lambda>version :: u8.
       if version \<ge> 32 then parse_failure ''Address version byte must be in range 0 to 31''
       else sbind (read_bytes 20) (\<lambda>hash160. sret \<lparr>sa_version = version, sa_bytes = hash160\<rparr>))"

definition encode_value :: "Value codec_writes" where
  "encode_value v =
     map_err (\<lambda>e. case e of IOError io_e \<Rightarrow> WriteError io_e | other \<Rightarrow> SerializeError (Rendered '''' other)) (serialize_write v)"

definition decode_value :: "Value codec_reads" where
  "decode_value = with_error read_error
     (bounded (unat BOUND_VALUE_SERIALIZATION_BYTES) (inner_deserialize_read untyped_options None))"

definition is_printable :: "u8 list \<Rightarrow> bool" where
  "is_printable s \<longleftrightarrow> list_all (\<lambda>c. c < 128) s \<and>
     \<not> list_ex (\<lambda>c. (c < 0x20 \<and> c \<noteq> 0x09 \<and> c \<noteq> 0x0a) \<or> c > 0x7e) s"

definition is_valid_string :: "u8 list \<Rightarrow> bool" where
  "is_valid_string s \<longleftrightarrow> list_all (\<lambda>c. c < 128) s \<and> is_printable s"

definition stacks_string_from_str :: "string \<Rightarrow> u8 list option" where
  "stacks_string_from_str s = (if \<not> is_valid_string (string_bytes s) then None else Some (string_bytes s))"

definition encode_stacks_string :: "u8 list codec_writes" where
  "encode_stacks_string s = write_vec write_int s"

definition decode_stacks_string :: "u8 list codec_reads" where
  "decode_stacks_string =
     sbind (bounded (unat MAX_MESSAGE_LEN) (read_vec 1 read_int)) (\<lambda>bytes.
       if utf8_chars bytes = None then parse_failure ''Invalid Stacks string: could not build from utf8''
       else if \<not> is_valid_string bytes then parse_failure ''Invalid Stacks string: non-printable or non-ASCII string''
       else sret bytes)"

section \<open>What was written reads back\<close>

definition codes :: "CodecError + u8 list \<Rightarrow> 'a codec_reads \<Rightarrow> 'a \<Rightarrow> bool" where
  "codes w m x \<longleftrightarrow> (\<exists>bs. w = Inr bs \<and> (length bs \<le> unat MAX_TRANSACTION_LEN \<longrightarrow> accepts m bs x))"

lemma codes_end: "codes (write_each []) (sret x) x"
  by (simp add: codes_def accepts_sret_Nil)

lemma codes_bind: "codes w m x \<Longrightarrow> codes (write_each ws) (f x) y \<Longrightarrow> codes (write_each (w # ws)) (sbind m f) y"
  by (auto simp: codes_def accepts_sbind)

lemma codes_one: "codes w m x \<Longrightarrow> codes (write_each [w]) m x"
  by (auto simp: codes_def)

lemma codes_map: "codes w m x \<Longrightarrow> f x = sret y \<Longrightarrow> codes w (sbind m f) y"
  by (auto simp: codes_def accepts_sret_Nil intro!: accepts_sbind_end)

lemma accepts_with_error: "accepts m bs x \<Longrightarrow> accepts (with_error f m) bs x"
  by (simp add: accepts_def with_error_def)

lemma accepts_codec_read_exact: "length bs = n \<Longrightarrow> accepts (codec_read_exact n) bs bs"
  by (simp add: codec_read_exact_def accepts_with_error accepts_read_exact)

lemma accepts_bounded:
  assumes "accepts m bs x" "length bs \<le> n" "n < 2 ^ 64"
  shows "accepts (bounded n m) bs x"
  unfolding accepts_def
proof (intro allI impI)
  fix rest limit k assume len: "k + length bs \<le> limit" "limit < (2 :: nat) ^ 64"
  let ?r = "\<lparr>br_fd = bs @ rest, br_max_len = limit, br_read_so_far = k\<rparr>"
  have "take (limit - k) (bs @ rest) = bs @ take (limit - k - length bs) rest" using len by simp
  moreover have "m \<lparr>br_fd = bs @ take (limit - k - length bs) rest, br_max_len = n, br_read_so_far = 0\<rparr> =
      (Inr x, \<lparr>br_fd = take (limit - k - length bs) rest, br_max_len = n, br_read_so_far = length bs\<rparr>)"
    using assms by (simp add: accepts_def)
  ultimately show "bounded n m ?r = (Inr x, \<lparr>br_fd = rest, br_max_len = limit, br_read_so_far = k + length bs\<rparr>)"
    by (simp add: bounded_def from_reader_def)
qed

lemma codes_bounded: "codes w m x \<Longrightarrow> unat MAX_TRANSACTION_LEN \<le> n \<Longrightarrow> n < 2 ^ 64 \<Longrightarrow> codes w (bounded n m) x"
  by (auto simp: codes_def intro!: accepts_bounded)

lemma codes_bytes: "length bs = n \<Longrightarrow> codes (write_bytes bs) (codec_read_exact n) bs"
  by (simp add: codes_def write_bytes_def accepts_codec_read_exact)

lemma codes_read_bytes: "length bs = n \<Longrightarrow> codes (write_bytes bs) (read_bytes n) bs"
  by (simp add: read_bytes_def codes_bytes)

text \<open>A codec: its writer, its reader and the items it is meant for.\<close>

locale message_codec =
  fixes put :: "'a \<Rightarrow> CodecError + u8 list"
    and get :: "'a codec_reads"
    and valid :: "'a \<Rightarrow> bool"
  assumes roundtrip: "valid x \<Longrightarrow> codes (put x) get x"
begin

lemma put_returns: "valid x \<Longrightarrow> \<exists>bs. put x = Inr bs"
  using roundtrip by (auto simp: codes_def)

text \<open>No encoding is a prefix of another: what follows an item does not change how it reads.\<close>

lemma prefix_free:
  assumes "valid x" "valid y" "put x = Inr bs" "put y = Inr cs" "bs @ us = cs @ vs"
    and "length bs \<le> unat MAX_TRANSACTION_LEN" "length cs \<le> unat MAX_TRANSACTION_LEN"
  shows "x = y \<and> bs = cs"
proof -
  let ?L = "unat MAX_TRANSACTION_LEN"
  have "accepts get bs x" "accepts get cs y" using assms roundtrip [of x] roundtrip [of y] by (auto simp: codes_def)
  then have "get \<lparr>br_fd = bs @ us, br_max_len = ?L, br_read_so_far = 0\<rparr> =
      (Inr x, \<lparr>br_fd = us, br_max_len = ?L, br_read_so_far = length bs\<rparr>)"
    "get \<lparr>br_fd = cs @ vs, br_max_len = ?L, br_read_so_far = 0\<rparr> =
      (Inr y, \<lparr>br_fd = vs, br_max_len = ?L, br_read_so_far = length cs\<rparr>)"
    using assms(6,7) unfolding accepts_def by auto
  with assms(5) have "x = y" "length bs = length cs" by simp_all
  with assms(5) show ?thesis by simp
qed

lemma items: "list_all valid xs \<Longrightarrow> codes (write_each (map put xs)) (read_items (length xs) get) xs"
proof (induction xs)
  case Nil
  show ?case by (simp add: codes_end del: write_each.simps)
next
  case (Cons x xs)
  then have "codes (write_each (map put xs @ [])) (sbind (read_items (length xs) get) (\<lambda>xs. sret (x # xs))) (x # xs)"
    by (auto intro: codes_map)
  with Cons.prems show ?case by (auto intro: codes_bind roundtrip simp del: write_each.simps)
qed

end

interpretation int_codec: message_codec "write_int :: 'w :: len word \<Rightarrow> _" read_int "\<lambda>_. 8 dvd LENGTH('w)"
  by unfold_locales (auto simp: codes_def write_int_def read_int_def accepts_sret_Nil
      intro!: accepts_sbind_end accepts_codec_read_exact)

lemma codes_int: "8 dvd LENGTH('w) \<Longrightarrow> codes (write_int (w :: 'w :: len word)) read_int w"
  by (rule int_codec.roundtrip)

context message_codec
begin

lemma vec:
  assumes "list_all valid xs" "length xs < 2 ^ 32" "size_of * length xs \<le> unat MAX_MESSAGE_LEN"
  shows "codes (write_vec put xs) (read_vec size_of get) xs"
proof -
  let ?n = "word_of_nat (length xs) :: u32"
  have n: "unat ?n = length xs" using assms(2) by (simp add: unat_of_nat)
  have "codes (write_each (map put xs)) (read_items (unat ?n) get) xs" using items [OF assms(1)] by (simp add: n)
  moreover have "(0 :: u32) < - 1" "\<not> (- 1 :: u32) < ?n" "\<not> unat MAX_MESSAGE_LEN < size_of * unat ?n"
    using assms(3) by (simp_all add: n not_less word_gt_0)
  ultimately show ?thesis
    unfolding write_vec_def read_vec_def read_next_at_most_def read_next_vec_def
    by (intro codes_bind [OF codes_int]) simp_all
qed

end

subsection \<open>Names, principals, addresses, values and strings\<close>

lemma length_string_bytes [simp]: "length (string_bytes s) = length s"
  by (simp add: string_bytes_def)

lemma codes_name:
  assumes "codes (write_bytes bs) (f n) s"
  shows "codes (write_each [write_int (n :: u8), write_bytes bs]) (sbind read_int f) s"
  by (rule codes_bind [OF codes_int]) (simp_all add: assms codes_one del: write_each.simps)

lemma slift_Inr [simp]: "slift (Inr x) = sret x"
  by (simp add: slift_def sret_def)

definition valid_contract_name :: "string \<Rightarrow> bool" where
  "valid_contract_name s \<longleftrightarrow> contract_name_try_from s = Inr s \<and> length s \<le> CONTRACT_MAX_NAME_LENGTH"

lemma unat_of_length: "n \<le> 128 \<Longrightarrow> unat (word_of_nat n :: u8) = n"
  by (simp add: unat_of_nat)

lemma clarity_name_codes: "valid_name s \<Longrightarrow> codes (encode_clarity_name s) decode_clarity_name s"
proof -
  assume "valid_name s"
  then have n: "length s \<le> 128" "clarity_name_try_from s = Inr s" "clarity_name_regex s"
    by (auto simp: valid_name_def clarity_name_try_from_def MAX_STRING_LEN_def split: if_splits)
  then have len: "unat (word_of_nat (length s) :: u8) = length s" "\<not> MAX_STRING_LEN < word_of_nat (length s)"
    by (simp_all add: unat_of_length word_less_nat_alt MAX_STRING_LEN_def)
  have "codes (write_each [write_int (word_of_nat (length s) :: u8), write_bytes (string_bytes s)]) decode_clarity_name s"
    unfolding decode_clarity_name_def
    by (rule codes_name, simp only: len if_False, rule codes_map [OF codes_bytes])
      (use n string_bytes_ascii [OF clarity_name_ascii [OF n(3)]] in \<open>auto simp: bytes_string_bytes\<close>)
  with n(1) show ?thesis by (simp add: encode_clarity_name_def MAX_STRING_LEN_def)
qed

lemma contract_name_codes: "valid_contract_name s \<Longrightarrow> codes (encode_contract_name s) decode_contract_name s"
proof -
  assume "valid_contract_name s"
  then have n: "length s \<le> 40" "contract_name_try_from s = Inr s" "contract_name_regex s"
    by (auto simp: valid_contract_name_def contract_name_try_from_def CONTRACT_MAX_NAME_LENGTH_def split: if_splits)
  then have pos: "0 < length s" by (auto simp: contract_name_regex_def)
  have "codes (write_each [write_int (word_of_nat (length s) :: u8), write_bytes (string_bytes s)]) decode_contract_name s"
    unfolding decode_contract_name_def
    by (rule codes_name, use n pos in \<open>simp add: unat_of_length CONTRACT_MIN_NAME_LENGTH_def CONTRACT_MAX_NAME_LENGTH_def\<close>,
        rule codes_map [OF codes_bytes])
      (use n string_bytes_ascii [OF contract_name_ascii [OF n(3)]] in \<open>auto simp: bytes_string_bytes\<close>)
  with n(1) pos show ?thesis
    by (simp add: encode_contract_name_def CONTRACT_MIN_NAME_LENGTH_def CONTRACT_MAX_NAME_LENGTH_def)
qed

interpretation clarity_name_codec: message_codec encode_clarity_name decode_clarity_name valid_name
  by unfold_locales (rule clarity_name_codes)

interpretation contract_name_codec: message_codec encode_contract_name decode_contract_name valid_contract_name
  by unfold_locales (rule contract_name_codes)

interpretation principal_codec: message_codec encode_principal decode_principal wf_principal
  by unfold_locales
    (simp add: codes_def encode_principal_def decode_principal_def accepts_with_error accepts_principal)

definition valid_address :: "StacksAddress \<Rightarrow> bool" where
  "valid_address a \<longleftrightarrow> address_has_valid_version a \<and> length (sa_bytes a) = 20"

lemma address_codes: "valid_address a \<Longrightarrow> codes (encode_address a) decode_address a"
  unfolding encode_address_def decode_address_def
  by (cases a, rule codes_bind [OF codes_int], simp)
    (auto simp: valid_address_def address_has_valid_version_def not_le intro!: codes_bind [OF codes_read_bytes] codes_end
      simp del: write_each.simps)

interpretation address_codec: message_codec encode_address decode_address valid_address
  by unfold_locales (rule address_codes)

lemma value_codes: "constructed UNSANITIZED_DEPTH_CHECK v \<Longrightarrow> codes (encode_value v) decode_value v"
proof -
  assume "constructed UNSANITIZED_DEPTH_CHECK v"
  from constructed_reads_same [OF this] obtain bs where bs: "serialize_write v = Inr bs"
    "accepts (inner_deserialize_read untyped_options None) bs v"
    by (auto simp: reads_same_def inner_deserialize_parse depth_check_def untyped_options_def)
  then show ?thesis
    by (auto simp: codes_def encode_value_def decode_value_def intro!: accepts_with_error accepts_bounded)
qed

interpretation value_codec: message_codec encode_value decode_value "constructed UNSANITIZED_DEPTH_CHECK"
  by unfold_locales (rule value_codes)

lemma stacks_string_codes: "is_valid_string s \<Longrightarrow> codes (encode_stacks_string s) decode_stacks_string s"
proof (cases "length s \<le> unat MAX_TRANSACTION_LEN")
  case True
  assume "is_valid_string s"
  moreover from this have "utf8_chars s \<noteq> None"
    using utf8_ascii [of s] by (simp add: is_valid_string_def list_all_iff word_less_nat_alt)
  ultimately show ?thesis unfolding encode_stacks_string_def decode_stacks_string_def
    by (intro codes_map [OF codes_bounded [OF int_codec.vec]]) (use True in \<open>auto simp: list_all_iff\<close>)
next
  case False
  have "\<exists>bs. write_each (map write_int xs) = Inr bs \<and> length bs = length xs" for xs :: "u8 list"
    by (induction xs) (auto simp: write_int_def)
  then obtain bs where "write_each (map write_int s) = Inr bs" "length bs = length s" by blast
  with False show ?thesis by (simp add: codes_def encode_stacks_string_def write_vec_def write_int_def)
qed

interpretation stacks_string_codec: message_codec encode_stacks_string decode_stacks_string is_valid_string
  by unfold_locales (rule stacks_string_codes)

end
