(* ===== verification/PublicKeys.thy ===== *)
theory PublicKeys
  imports MessageCodec
begin

unbundle bit_operations_syntax

text \<open>
  Keys, signatures and the addresses of keys: \<open>stacks-common/src/util/secp256k1\<close>, the hash modes of
  \<open>stacks-common/src/address\<close>, the script builder of \<open>deps_common/bitcoin/blockdata/script.rs\<close> and
  \<open>StacksAddress::from_public_keys\<close>. The curve library and the hash functions are parameters; what the
  code relies on is stated by \<open>public_key_laws\<close>, \<open>signature_laws\<close> and \<open>digest_laws\<close>. The lemmas show that a redeem script
  determines the threshold and the keys it was built from.
\<close>

section \<open>The libraries\<close>

text \<open>
  The types of keys and recoverable signatures are those of the library. A message and a standard
  signature are known by their bytes, a recovery id by its number.
\<close>

record ('k, 'p, 's) secp256k1 =
  public_key_from_slice :: "u8 list \<Rightarrow> 'k option"
  serialize_compressed :: "'k \<Rightarrow> u8 list"
  serialize_uncompressed :: "'k \<Rightarrow> u8 list"
  secret_key_from_slice :: "u8 list \<Rightarrow> 'p option"
  secret_bytes :: "'p \<Rightarrow> u8 list"
  from_secret_key :: "'p \<Rightarrow> 'k"
  message_from_slice :: "u8 list \<Rightarrow> u8 list option"
  recovery_id_from_i32 :: "int \<Rightarrow> int option"
  recoverable_from_compact :: "u8 list \<Rightarrow> int \<Rightarrow> 's option"
  serialize_compact :: "'s \<Rightarrow> int \<times> u8 list"
  to_standard :: "'s \<Rightarrow> u8 list"
  normalize_s :: "u8 list \<Rightarrow> u8 list"
  recover_ecdsa :: "u8 list \<Rightarrow> 's \<Rightarrow> 'k option"
  sign_ecdsa_recoverable :: "u8 list \<Rightarrow> 'p \<Rightarrow> 's"

record digests =
  sha256 :: "u8 list \<Rightarrow> u8 list"
  ripemd160 :: "u8 list \<Rightarrow> u8 list"
  sha512_trunc256 :: "u8 list \<Rightarrow> u8 list"

definition public_key_laws :: "('k, 'p, 's) secp256k1 \<Rightarrow> bool" where
  "public_key_laws lib \<longleftrightarrow>
     (\<forall>k. length (serialize_compressed lib k) = 33 \<and> length (serialize_uncompressed lib k) = 65 \<and>
          public_key_from_slice lib (serialize_compressed lib k) = Some k \<and>
          public_key_from_slice lib (serialize_uncompressed lib k) = Some k)"

definition signature_laws :: "('k, 'p, 's) secp256k1 \<Rightarrow> bool" where
  "signature_laws lib \<longleftrightarrow>
     (\<forall>m. length m = 32 \<longrightarrow> message_from_slice lib m = Some m) \<and>
     (\<forall>s i bs. serialize_compact lib s = (i, bs) \<longrightarrow> 0 \<le> i \<and> i \<le> 3 \<and> length bs = 64 \<and>
        recovery_id_from_i32 lib i = Some i \<and> recoverable_from_compact lib bs i = Some s) \<and>
     (\<forall>m p. recover_ecdsa lib m (sign_ecdsa_recoverable lib m p) = Some (from_secret_key lib p) \<and>
        normalize_s lib (to_standard lib (sign_ecdsa_recoverable lib m p)) =
          to_standard lib (sign_ecdsa_recoverable lib m p))"

definition digest_laws :: "digests \<Rightarrow> bool" where
  "digest_laws dg \<longleftrightarrow> (\<forall>x. length (sha256 dg x) = 32 \<and> length (ripemd160 dg x) = 20 \<and> length (sha512_trunc256 dg x) = 32)"

definition hash160_from_data :: "digests \<Rightarrow> u8 list \<Rightarrow> u8 list" where
  "hash160_from_data dg data = ripemd160 dg (sha256 dg data)"

section \<open>Keys and signatures\<close>

record 'k StacksPublicKey =
  pk_key :: 'k
  pk_compressed :: bool

record 'p StacksPrivateKey =
  sk_key :: 'p
  sk_compress_public :: bool

definition message_signature_empty :: "u8 list" where
  "message_signature_empty = replicate 65 0"

definition from_secp256k1_recoverable :: "('k, 'p, 's) secp256k1 \<Rightarrow> 's \<Rightarrow> u8 list" where
  "from_secp256k1_recoverable lib sig =
     (case serialize_compact lib sig of (recid, bytes) \<Rightarrow> word_of_int recid # take 64 bytes)"

definition to_secp256k1_recoverable :: "('k, 'p, 's) secp256k1 \<Rightarrow> u8 list \<Rightarrow> 's option" where
  "to_secp256k1_recoverable lib self =
     (case recovery_id_from_i32 lib (uint (self ! 0)) of
        None \<Rightarrow> None
      | Some recid \<Rightarrow> recoverable_from_compact lib (take 64 (drop 1 self)) recid)"

definition to_rsv :: "u8 list \<Rightarrow> u8 list" where
  "to_rsv self = drop 1 self @ take 1 self"

definition from_rsv :: "u8 list \<Rightarrow> u8 list option" where
  "from_rsv source = (if length source \<noteq> 65 then None else Some (drop 64 source @ take 64 source))"

definition public_key_new :: "('k, 'p, 's) secp256k1 \<Rightarrow> u8 list \<Rightarrow> string + 'k StacksPublicKey" where
  "public_key_new lib data =
     (case public_key_from_slice lib data of
        Some pubkey_res \<Rightarrow> Inr \<lparr>pk_key = pubkey_res, pk_compressed = (length data = 33)\<rparr>
      | None \<Rightarrow> Inl ''Invalid public key: failed to load'')"

definition from_private :: "('k, 'p, 's) secp256k1 \<Rightarrow> 'p StacksPrivateKey \<Rightarrow> 'k StacksPublicKey" where
  "from_private lib privk = \<lparr>pk_key = from_secret_key lib (sk_key privk), pk_compressed = sk_compress_public privk\<rparr>"

definition to_bytes_compressed :: "('k, 'p, 's) secp256k1 \<Rightarrow> 'k StacksPublicKey \<Rightarrow> u8 list" where
  "to_bytes_compressed lib self = serialize_compressed lib (pk_key self)"

definition set_compressed :: "bool \<Rightarrow> 'k StacksPublicKey \<Rightarrow> 'k StacksPublicKey" where
  "set_compressed flag self = self\<lparr>pk_compressed := flag\<rparr>"

definition public_key_to_bytes :: "('k, 'p, 's) secp256k1 \<Rightarrow> 'k StacksPublicKey \<Rightarrow> u8 list" where
  "public_key_to_bytes lib self =
     (if pk_compressed self then serialize_compressed lib (pk_key self) else serialize_uncompressed lib (pk_key self))"

definition recover_to_pubkey_possibly_with_low_s_verification ::
  "('k, 'p, 's) secp256k1 \<Rightarrow> u8 list \<Rightarrow> u8 list \<Rightarrow> bool \<Rightarrow> string + 'k StacksPublicKey" where
  "recover_to_pubkey_possibly_with_low_s_verification lib msg sig verify_low_s =
     rbind (ok_or (message_from_slice lib msg)
       ''Invalid message: failed to decode data hash: must be a 32-byte hash'') (\<lambda>msg.
     rbind (ok_or (to_secp256k1_recoverable lib sig)
       ''Invalid signature: failed to decode recoverable signature'') (\<lambda>secp256k1_sig.
     if verify_low_s \<and> normalize_s lib (to_standard lib secp256k1_sig) \<noteq> to_standard lib secp256k1_sig
     then Inl ''Invalid signature: high-S''
     else rbind (ok_or (recover_ecdsa lib msg secp256k1_sig)
            ''Invalid signature: failed to recover public key'') (\<lambda>recovered_pubkey.
          Inr \<lparr>pk_key = recovered_pubkey, pk_compressed = True\<rparr>)))"

definition recover_to_pubkey :: "('k, 'p, 's) secp256k1 \<Rightarrow> u8 list \<Rightarrow> u8 list \<Rightarrow> string + 'k StacksPublicKey" where
  "recover_to_pubkey lib msg sig = recover_to_pubkey_possibly_with_low_s_verification lib msg sig True"

definition recover_to_pubkey_without_validating_low_s ::
  "('k, 'p, 's) secp256k1 \<Rightarrow> u8 list \<Rightarrow> u8 list \<Rightarrow> string + 'k StacksPublicKey" where
  "recover_to_pubkey_without_validating_low_s lib msg sig =
     recover_to_pubkey_possibly_with_low_s_verification lib msg sig False"

definition public_key_verify :: "('k, 'p, 's) secp256k1 \<Rightarrow> 'k StacksPublicKey \<Rightarrow> u8 list \<Rightarrow> u8 list \<Rightarrow> string + bool" where
  "public_key_verify lib self data_hash sig =
     rbind (ok_or (message_from_slice lib data_hash)
       ''Invalid message: failed to decode data hash: must be a 32-byte hash'') (\<lambda>msg.
     rbind (ok_or (to_secp256k1_recoverable lib sig)
       ''Invalid signature: failed to decode recoverable signature'') (\<lambda>secp256k1_sig.
     rbind (ok_or (recover_ecdsa lib msg secp256k1_sig)
       ''Invalid signature: failed to recover public key'') (\<lambda>recovered_pubkey.
     if recovered_pubkey \<noteq> pk_key self then Inr False
     else if normalize_s lib (to_standard lib secp256k1_sig) \<noteq> to_standard lib secp256k1_sig
     then Inl ''Invalid signature: high-S''
     else Inr True)))"

definition private_key_new :: "('k, 'p, 's) secp256k1 \<Rightarrow> u8 list \<Rightarrow> string + 'p StacksPrivateKey" where
  "private_key_new lib data =
     (if length data < 32 then Inl ''Invalid private key: shorter than 32 bytes''
      else if length data > 33 then Inl ''Invalid private key: greater than 33 bytes''
      else if length data = 33 \<and> data ! 32 \<noteq> 0x01 then Inl ''Invalid private key: invalid compressed byte marker''
      else case secret_key_from_slice lib (take 32 data) of
        Some privkey_res \<Rightarrow> Inr \<lparr>sk_key = privkey_res, sk_compress_public = (length data = 33)\<rparr>
      | None \<Rightarrow> Inl ''Invalid private key: failed to load'')"

definition private_key_to_bytes :: "('k, 'p, 's) secp256k1 \<Rightarrow> 'p StacksPrivateKey \<Rightarrow> u8 list" where
  "private_key_to_bytes lib self = secret_bytes lib (sk_key self) @ (if sk_compress_public self then [0x01] else [])"

definition sign :: "('k, 'p, 's) secp256k1 \<Rightarrow> 'p StacksPrivateKey \<Rightarrow> u8 list \<Rightarrow> string + u8 list" where
  "sign lib self data_hash =
     rbind (ok_or (message_from_slice lib data_hash)
       ''Invalid message: failed to decode data hash: must be a 32-byte hash'') (\<lambda>msg.
     Inr (from_secp256k1_recoverable lib (sign_ecdsa_recoverable lib msg (sk_key self))))"

text \<open>A key as its 33 bytes (\<open>StacksPublicKeyBuffer\<close>).\<close>

definition buffer_from_public_key :: "('k, 'p, 's) secp256k1 \<Rightarrow> 'k StacksPublicKey \<Rightarrow> u8 list" where
  "buffer_from_public_key lib pubkey = to_bytes_compressed lib pubkey"

definition buffer_to_public_key :: "('k, 'p, 's) secp256k1 \<Rightarrow> u8 list \<Rightarrow> string + 'k StacksPublicKey" where
  "buffer_to_public_key lib self = map_err (\<lambda>_. ''Failed to decode Stacks public key'') (public_key_new lib self)"

definition from_node_public_key :: "('k, 'p, 's) secp256k1 \<Rightarrow> digests \<Rightarrow> 'k StacksPublicKey \<Rightarrow> u8 list" where
  "from_node_public_key lib dg pubkey = hash160_from_data dg (to_bytes_compressed lib pubkey)"

section \<open>Scripts\<close>

text \<open>The builder's bytes; the empty result is the panic on data of four gigabytes.\<close>

function scriptint_loop :: "nat \<Rightarrow> u8 list \<Rightarrow> nat \<times> u8 list" where
  "scriptint_loop magnitude v =
     (if magnitude > 0xFF then scriptint_loop (magnitude div 256) (v @ [word_of_nat (magnitude mod 256)]) else (magnitude, v))"
  by auto
termination by (relation "measure fst") auto

declare scriptint_loop.simps [simp del]

definition build_scriptint :: "int \<Rightarrow> u8 list" where
  "build_scriptint n =
     (if n = 0 then []
      else case scriptint_loop (nat \<bar>n\<bar>) [] of (magnitude, v) \<Rightarrow>
        if bit magnitude 7 then v @ [word_of_nat magnitude, if n < 0 then 0x80 else 0]
        else v @ [word_of_nat magnitude OR (if n < 0 then 0x80 else 0)])"

definition push_slice :: "u8 list \<Rightarrow> u8 list \<Rightarrow> u8 list option" where
  "push_slice data bldr =
     (let n = length data in
      if n < 0x4c then Some (bldr @ [word_of_nat n] @ data)
      else if n < 0x100 then Some (bldr @ [0x4c, word_of_nat n] @ data)
      else if n < 0x10000 then Some (bldr @ [0x4d, word_of_nat (n mod 0x100), word_of_nat (n div 0x100)] @ data)
      else if n < 0x100000000 then
        Some (bldr @ [0x4e, word_of_nat (n mod 0x100), word_of_nat (n div 0x100 mod 0x100),
                      word_of_nat (n div 0x10000 mod 0x100), word_of_nat (n div 0x1000000)] @ data)
      else None)"

definition push_scriptint :: "int \<Rightarrow> u8 list \<Rightarrow> u8 list option" where
  "push_scriptint data bldr = push_slice (build_scriptint data) bldr"

definition push_int :: "int \<Rightarrow> u8 list \<Rightarrow> u8 list option" where
  "push_int data bldr =
     (if data = - 1 \<or> (1 \<le> data \<and> data \<le> 16) then Some (bldr @ [word_of_int (data - 1 + 0x51)])
      else if data = 0 then Some (bldr @ [0x00])
      else push_scriptint data bldr)"

definition push_opcode :: "u8 \<Rightarrow> u8 list \<Rightarrow> u8 list" where
  "push_opcode opcode bldr = bldr @ [opcode]"

fun push_keys :: "u8 list list \<Rightarrow> u8 list \<Rightarrow> u8 list option" where
  "push_keys [] bldr = Some bldr"
| "push_keys (k # ks) bldr = Option.bind (push_slice k bldr) (push_keys ks)"

section \<open>Addresses of keys\<close>

datatype AddressHashMode = SerializeP2PKH | SerializeP2SH | SerializeP2WPKH | SerializeP2WSH

fun to_version_mainnet :: "AddressHashMode \<Rightarrow> u8" where
  "to_version_mainnet SerializeP2PKH = C32_ADDRESS_VERSION_MAINNET_SINGLESIG"
| "to_version_mainnet _ = C32_ADDRESS_VERSION_MAINNET_MULTISIG"

fun to_version_testnet :: "AddressHashMode \<Rightarrow> u8" where
  "to_version_testnet SerializeP2PKH = C32_ADDRESS_VERSION_TESTNET_SINGLESIG"
| "to_version_testnet _ = C32_ADDRESS_VERSION_TESTNET_MULTISIG"

definition hash_mode_from_version :: "u8 \<Rightarrow> AddressHashMode" where
  "hash_mode_from_version version =
     (if version = C32_ADDRESS_VERSION_TESTNET_SINGLESIG \<or> version = C32_ADDRESS_VERSION_MAINNET_SINGLESIG
      then SerializeP2PKH else SerializeP2SH)"

definition hash_mode_try_from :: "u8 \<Rightarrow> AddressError + AddressHashMode" where
  "hash_mode_try_from n =
     (if n = 0 then Inr SerializeP2PKH else if n = 1 then Inr SerializeP2SH
      else if n = 2 then Inr SerializeP2WPKH else if n = 3 then Inr SerializeP2WSH
      else Inl (InvalidVersion n))"

definition to_bits_p2pkh :: "digests \<Rightarrow> u8 list \<Rightarrow> u8 list" where
  "to_bits_p2pkh dg pubk = hash160_from_data dg pubk"

definition redeem_script :: "nat \<Rightarrow> u8 list list \<Rightarrow> u8 list option" where
  "redeem_script num_sigs pubkeys =
     Option.bind (push_int (int num_sigs) []) (\<lambda>bldr.
     Option.bind (push_keys pubkeys bldr) (\<lambda>bldr.
     Option.bind (push_int (int (length pubkeys)) bldr) (\<lambda>bldr.
     Some (push_opcode 0xae bldr))))"

definition to_bits_p2sh :: "digests \<Rightarrow> nat \<Rightarrow> u8 list list \<Rightarrow> u8 list option" where
  "to_bits_p2sh dg num_sigs pubkeys = map_option (hash160_from_data dg) (redeem_script num_sigs pubkeys)"

definition to_bits_p2sh_p2wpkh :: "digests \<Rightarrow> u8 list \<Rightarrow> u8 list option" where
  "to_bits_p2sh_p2wpkh dg pubk =
     (let key_hash = hash160_from_data dg pubk
      in map_option (hash160_from_data dg) (Option.bind (push_int 0 []) (push_slice key_hash)))"

definition to_bits_p2sh_p2wsh :: "digests \<Rightarrow> nat \<Rightarrow> u8 list list \<Rightarrow> u8 list option" where
  "to_bits_p2sh_p2wsh dg num_sigs pubkeys =
     Option.bind (redeem_script num_sigs pubkeys) (\<lambda>script.
     map_option (hash160_from_data dg) (Option.bind (push_int 0 []) (push_slice (sha256 dg script))))"

text \<open>The modes for one key index the list of keys, which panics on an empty one.\<close>

definition public_keys_to_address_hash :: "digests \<Rightarrow> AddressHashMode \<Rightarrow> nat \<Rightarrow> u8 list list \<Rightarrow> u8 list option" where
  "public_keys_to_address_hash dg hash_flag num_sigs pubkeys =
     (case hash_flag of
        SerializeP2PKH \<Rightarrow> (if pubkeys = [] then None else Some (to_bits_p2pkh dg (hd pubkeys)))
      | SerializeP2SH \<Rightarrow> to_bits_p2sh dg num_sigs pubkeys
      | SerializeP2WPKH \<Rightarrow> (if pubkeys = [] then None else to_bits_p2sh_p2wpkh dg (hd pubkeys))
      | SerializeP2WSH \<Rightarrow> to_bits_p2sh_p2wsh dg num_sigs pubkeys)"

text \<open>The outer option is the panic, the inner one the result.\<close>

definition from_public_keys ::
  "('k, 'p, 's) secp256k1 \<Rightarrow> digests \<Rightarrow> u8 \<Rightarrow> AddressHashMode \<Rightarrow> nat \<Rightarrow> 'k StacksPublicKey list
   \<Rightarrow> StacksAddress option option" where
  "from_public_keys lib dg version hash_mode num_sigs pubkeys =
     (if length pubkeys < num_sigs then Some None
      else if hash_mode \<in> {SerializeP2PKH, SerializeP2WPKH} \<and> (num_sigs \<noteq> 1 \<or> length pubkeys \<noteq> 1) then Some None
      else if hash_mode \<in> {SerializeP2WPKH, SerializeP2WSH} \<and> \<not> list_all pk_compressed pubkeys then Some None
      else map_option (\<lambda>hash_bits. case stacks_address_new version hash_bits of Inl _ \<Rightarrow> None | Inr a \<Rightarrow> Some a)
        (public_keys_to_address_hash dg hash_mode num_sigs (map (public_key_to_bytes lib) pubkeys)))"

section \<open>Scripts determine their keys\<close>

lemma scriptint_loop_value:
  "scriptint_loop m v = (m', v') \<Longrightarrow> \<exists>ds. v' = v @ ds \<and> undigits 256 (map unat (ds @ [word_of_nat m'])) = m \<and> m' < 256 \<and> 256 ^ length ds \<le> max 1 m"
proof (induction m v arbitrary: m' v' rule: scriptint_loop.induct)
  case (1 m v)
  show ?case
  proof (cases "m > 255")
    case True
    with 1 obtain ds where "v' = (v @ [word_of_nat (m mod 256)]) @ ds" "m' < 256"
      "undigits 256 (map unat (ds @ [word_of_nat m'])) = m div 256" "256 ^ length ds \<le> max 1 (m div 256)"
      by (auto simp: scriptint_loop.simps [of m])
    with True show ?thesis
      by (intro exI [of _ "word_of_nat (m mod 256) # ds"]) (auto simp: unat_of_nat max_def split: if_splits)
  next
    case False
    with 1(2) show ?thesis by (simp add: scriptint_loop.simps [of m] unat_of_nat)
  qed
qed

lemma scriptint_value: "undigits 256 (map unat (build_scriptint (int n))) = n"
proof (cases "n = 0")
  case False
  obtain m v where m: "scriptint_loop n [] = (m, v)" by force
  from scriptint_loop_value [OF this] show ?thesis
    using False m by (auto simp: build_scriptint_def undigits_append)
qed (simp add: build_scriptint_def)

lemma scriptint_length:
  assumes "n < 2 ^ 64"
  shows "length (build_scriptint (int n)) < 10"
proof (cases "n = 0")
  case False
  obtain m v where m: "scriptint_loop n [] = (m, v)" by force
  from scriptint_loop_value [OF this] have "256 ^ length v < (256 :: nat) ^ 8"
    using False assms by auto
  then have "length v < 8" by (rule power_less_imp_less_exp [rotated]) simp
  with m False show ?thesis by (auto simp: build_scriptint_def)
qed (simp add: build_scriptint_def)

lemma push_slice_short: "length data < 76 \<Longrightarrow> push_slice data bldr = Some (bldr @ word_of_nat (length data) # data)"
  by (simp add: push_slice_def)

text \<open>The bytes an integer is pushed as, and how they can begin.\<close>

definition int_bytes :: "nat \<Rightarrow> u8 list" where
  "int_bytes n = the (push_int (int n) [])"

lemma push_int_bytes:
  assumes "n < 2 ^ 64"
  shows "push_int (int n) bldr = Some (bldr @ int_bytes n)"
  using scriptint_length [OF assms] by (simp add: push_int_def push_scriptint_def push_slice_short int_bytes_def)

lemma int_bytes_cases:
  assumes "n < 2 ^ 64"
  obtains "n = 0" "int_bytes n = [0]"
  | "1 \<le> n" "n \<le> 16" "int_bytes n = [word_of_nat (n + 80)]"
  | "n > 16" "int_bytes n = word_of_nat (length (build_scriptint (int n))) # build_scriptint (int n)"
    "length (build_scriptint (int n)) < 10" "build_scriptint (int n) \<noteq> []"
proof -
  have "build_scriptint (int n) \<noteq> []" if "n > 16"
    using scriptint_value [of n] that by auto
  moreover have "word_of_int (int n + 80) = (word_of_nat (n + 80) :: u8)" by simp
  ultimately show ?thesis using that scriptint_length [OF assms]
    by (cases "n = 0"; cases "n \<le> 16") (auto simp: int_bytes_def push_int_def push_scriptint_def push_slice_short)
qed

lemma byte_of_nat_eq: "m < 256 \<Longrightarrow> n < 256 \<Longrightarrow> word_of_nat m = (word_of_nat n :: u8) \<longleftrightarrow> m = n"
  by (simp add: word_of_nat_eq_iff take_bit_nat_eq_self)

definition int_head :: "nat \<Rightarrow> nat" where
  "int_head n = (if n = 0 then 0 else if n \<le> 16 then n + 80 else length (build_scriptint (int n)))"

definition int_tail :: "nat \<Rightarrow> u8 list" where
  "int_tail n = (if n \<le> 16 then [] else build_scriptint (int n))"

lemma int_bytes_head: "n < 2 ^ 64 \<Longrightarrow> int_bytes n = word_of_nat (int_head n) # int_tail n"
  by (rule int_bytes_cases [of n]) (auto simp: int_head_def int_tail_def)

lemma int_head_range: "n < 2 ^ 64 \<Longrightarrow> int_head n < 10 \<or> 80 < int_head n \<and> int_head n \<le> 96"
  by (rule int_bytes_cases [of n]) (auto simp: int_head_def)

lemma int_head_no_key: "n < 2 ^ 64 \<Longrightarrow> word_of_nat (int_head n) \<noteq> (33 :: u8)" "n < 2 ^ 64 \<Longrightarrow> word_of_nat (int_head n) \<noteq> (65 :: u8)"
  using int_head_range [of n] byte_of_nat_eq [of "int_head n" 33] byte_of_nat_eq [of "int_head n" 65] by auto

lemma int_bytes_prefix_free:
  assumes "a < 2 ^ 64" "b < 2 ^ 64" "int_bytes a @ x = int_bytes b @ y"
  shows "a = b \<and> x = y"
proof -
  from assms have "word_of_nat (int_head a) = (word_of_nat (int_head b) :: u8)" and tail: "int_tail a @ x = int_tail b @ y"
    by (simp_all add: int_bytes_head)
  then have head: "int_head a = int_head b"
    using int_head_range [OF assms(1)] int_head_range [OF assms(2)] byte_of_nat_eq [of "int_head a" "int_head b"] by auto
  have big: "n > 16 \<Longrightarrow> int_head n = length (build_scriptint (int n)) \<and> 0 < int_head n \<and> int_head n < 10" if "n < 2 ^ 64" for n
    using that by (rule int_bytes_cases [of n]) (auto simp: int_head_def)
  show ?thesis
  proof (cases "a \<le> 16")
    case True
    with head big [OF assms(2)] have "b \<le> 16" by (cases "b \<le> 16") (auto simp: int_head_def split: if_splits)
    with True head tail show ?thesis by (auto simp: int_head_def int_tail_def split: if_splits)
  next
    case False
    with head big [OF assms(1)] have "\<not> b \<le> 16" by (cases "b \<le> 16") (auto simp: int_head_def split: if_splits)
    with False head tail have "build_scriptint (int a) = build_scriptint (int b)" "x = y"
      by (auto simp: int_head_def int_tail_def)
    moreover have "a = b" using calculation(1) scriptint_value [of a] scriptint_value [of b] by argo
    ultimately show ?thesis by simp
  qed
qed

abbreviation key_length :: "u8 list \<Rightarrow> bool" where
  "key_length k \<equiv> length k \<in> {33, 65}"

definition key_slices :: "u8 list list \<Rightarrow> u8 list" where
  "key_slices ks = concat (map (\<lambda>k. word_of_nat (length k) # k) ks)"

lemma push_keys_slices: "list_all key_length ks \<Longrightarrow> push_keys ks bldr = Some (bldr @ key_slices ks)"
  by (induction ks arbitrary: bldr) (auto simp: key_slices_def push_slice_short)

lemma key_slices_prefix_free:
  assumes "list_all key_length ks" "list_all key_length ls" "a < 2 ^ 64" "b < 2 ^ 64"
    "key_slices ks @ int_bytes a @ x = key_slices ls @ int_bytes b @ y"
  shows "ks = ls"
  using assms
proof (induction ks arbitrary: ls)
  case Nil
  then show ?case by (cases ls) (auto simp: key_slices_def int_bytes_head int_head_no_key)
next
  case (Cons k ks)
  then obtain l ls' where ls: "ls = l # ls'"
    by (cases ls) (auto simp: key_slices_def int_bytes_head int_head_no_key [symmetric])
  with Cons.prems have "length k = length l" by (auto simp: key_slices_def byte_of_nat_eq)
  with Cons ls show ?case by (auto simp: key_slices_def)
qed

lemma redeem_script_bytes:
  assumes "list_all key_length ks" "n < 2 ^ 64" "length ks < 2 ^ 64"
  shows "redeem_script n ks = Some (int_bytes n @ key_slices ks @ int_bytes (length ks) @ [0xae])"
  using assms by (simp add: redeem_script_def push_int_bytes push_keys_slices push_opcode_def)

lemma redeem_script_injective:
  assumes "list_all key_length ks" "list_all key_length ls" "m < 2 ^ 64" "n < 2 ^ 64" "length ks < 2 ^ 64" "length ls < 2 ^ 64"
    "redeem_script m ks = redeem_script n ls"
  shows "m = n \<and> ks = ls"
proof -
  from assms have "int_bytes m @ key_slices ks @ int_bytes (length ks) @ [0xae] =
    int_bytes n @ key_slices ls @ int_bytes (length ls) @ [0xae]" by (simp add: redeem_script_bytes)
  from int_bytes_prefix_free [OF assms(3,4) this] key_slices_prefix_free [OF assms(1,2,5,6)] show ?thesis by blast
qed

section \<open>What the laws give\<close>

lemma public_key_bytes:
  assumes "public_key_laws lib"
  shows "key_length (public_key_to_bytes lib k)"
    and "public_key_to_bytes lib k = public_key_to_bytes lib l \<Longrightarrow> k = l"
proof -
  show "key_length (public_key_to_bytes lib k)"
    using assms by (simp add: public_key_laws_def public_key_to_bytes_def)
  assume eq: "public_key_to_bytes lib k = public_key_to_bytes lib l"
  have read: "public_key_new lib (public_key_to_bytes lib k) = Inr k" for k
    using assms by (cases k) (simp add: public_key_laws_def public_key_to_bytes_def public_key_new_def)
  show "k = l" using read [of k] read [of l] unfolding eq by simp
qed

lemma buffer_public_key: "public_key_laws lib \<Longrightarrow> buffer_to_public_key lib (buffer_from_public_key lib k) = Inr (set_compressed True k)"
  by (cases k) (simp add: public_key_laws_def buffer_to_public_key_def buffer_from_public_key_def to_bytes_compressed_def
      public_key_new_def set_compressed_def)

lemma buffer_length: "public_key_laws lib \<Longrightarrow> length (buffer_from_public_key lib k) = 33"
  by (simp add: public_key_laws_def buffer_from_public_key_def to_bytes_compressed_def)

lemma recoverable_signature:
  assumes "signature_laws lib"
  shows "length (from_secp256k1_recoverable lib s) = 65"
    and "to_secp256k1_recoverable lib (from_secp256k1_recoverable lib s) = Some s"
proof -
  obtain i bs where s: "serialize_compact lib s = (i, bs)" by force
  with assms have laws: "0 \<le> i" "i \<le> 3" "length bs = 64" "recovery_id_from_i32 lib i = Some i"
    "recoverable_from_compact lib bs i = Some s"
    unfolding signature_laws_def by blast+
  then have "uint (word_of_int i :: u8) = i" by (simp add: uint_word_of_int)
  with s laws show "length (from_secp256k1_recoverable lib s) = 65"
    "to_secp256k1_recoverable lib (from_secp256k1_recoverable lib s) = Some s"
    by (simp_all add: from_secp256k1_recoverable_def to_secp256k1_recoverable_def)
qed

lemma sign_recover:
  assumes "signature_laws lib" "length h = 32"
  obtains sig where "sign lib sk h = Inr sig" "length sig = 65"
    "\<And>low_s. recover_to_pubkey_possibly_with_low_s_verification lib h sig low_s = Inr (set_compressed True (from_private lib sk))"
proof
  let ?sig = "from_secp256k1_recoverable lib (sign_ecdsa_recoverable lib h (sk_key sk))"
  have m: "message_from_slice lib h = Some h" using assms by (simp add: signature_laws_def)
  then show "sign lib sk h = Inr ?sig" by (simp add: sign_def)
  show "length ?sig = 65" using assms(1) by (rule recoverable_signature)
  show "recover_to_pubkey_possibly_with_low_s_verification lib h ?sig low_s = Inr (set_compressed True (from_private lib sk))" for low_s
    using assms(1) m recoverable_signature(2) [OF assms(1)]
    by (simp add: recover_to_pubkey_possibly_with_low_s_verification_def signature_laws_def set_compressed_def from_private_def)
qed

text \<open>Building an address from keys never panics, and gives the version it is asked for.\<close>

lemma address_hash_returns:
  assumes "digest_laws dg" "list_all key_length ks" "n < 2 ^ 64" "length ks < 2 ^ 64"
    "mode \<in> {SerializeP2PKH, SerializeP2WPKH} \<Longrightarrow> ks \<noteq> []"
  shows "\<exists>h. public_keys_to_address_hash dg mode n ks = Some h \<and> length h = 20"
proof -
  have len: "length (hash160_from_data dg x) = 20" "length (sha256 dg x) = 32" for x
    using assms(1) by (simp_all add: digest_laws_def hash160_from_data_def)
  show ?thesis using assms(5) redeem_script_bytes [OF assms(2,3,4)]
    by (cases mode) (simp_all add: public_keys_to_address_hash_def to_bits_p2pkh_def to_bits_p2sh_def len
        to_bits_p2sh_p2wpkh_def to_bits_p2sh_p2wsh_def push_int_def push_slice_short)
qed

lemma from_public_keys_returns:
  assumes "public_key_laws lib" "digest_laws dg" "version < 32" "length ks < 2 ^ 64"
  shows "\<exists>r. from_public_keys lib dg version mode n ks = Some r \<and>
    (\<forall>a. r = Some a \<longrightarrow> sa_version a = version \<and> length (sa_bytes a) = 20)"
proof (cases "length ks < n \<or> mode \<in> {SerializeP2PKH, SerializeP2WPKH} \<and> (n \<noteq> 1 \<or> length ks \<noteq> 1)")
  case True
  then show ?thesis by (auto simp: from_public_keys_def)
next
  case False
  have "list_all key_length (map (public_key_to_bytes lib) ks)"
    using public_key_bytes(1) [OF assms(1)] by (simp add: list_all_iff)
  from address_hash_returns [OF assms(2) this, of n mode] False assms(4) obtain h where
    "public_keys_to_address_hash dg mode n (map (public_key_to_bytes lib) ks) = Some h" "length h = 20"
    by fastforce
  with False assms(3) show ?thesis by (auto simp: from_public_keys_def stacks_address_new_def)
qed

section \<open>A library that keeps the laws\<close>

definition demo_lib :: "(u8, u8, u8) secp256k1" where
  "demo_lib =
     \<lparr>public_key_from_slice = (\<lambda>bs. if length bs = 33 \<or> length bs = 65 then Some (last bs) else None),
      serialize_compressed = (\<lambda>k. replicate 32 2 @ [k]),
      serialize_uncompressed = (\<lambda>k. replicate 64 4 @ [k]),
      secret_key_from_slice = (\<lambda>bs. if length bs = 32 then Some (last bs) else None),
      secret_bytes = (\<lambda>p. replicate 31 0 @ [p]),
      from_secret_key = id,
      message_from_slice = (\<lambda>m. if length m = 32 then Some m else None),
      recovery_id_from_i32 = (\<lambda>i. if 0 \<le> i \<and> i \<le> 3 then Some i else None),
      recoverable_from_compact = (\<lambda>bs i. if length bs = 64 then Some (last bs) else None),
      serialize_compact = (\<lambda>s. (1, replicate 63 0 @ [s])),
      to_standard = (\<lambda>s. replicate 63 0 @ [s]),
      normalize_s = id,
      recover_ecdsa = (\<lambda>m s. Some s),
      sign_ecdsa_recoverable = (\<lambda>m p. p)\<rparr>"

definition demo_digests :: digests where
  "demo_digests =
     \<lparr>sha256 = (\<lambda>x. take 32 (x @ replicate 32 0)), ripemd160 = (\<lambda>x. take 20 (x @ replicate 20 0)),
      sha512_trunc256 = (\<lambda>x. take 32 (x @ replicate 32 0))\<rparr>"

lemma demo_laws: "public_key_laws demo_lib" "signature_laws demo_lib" "digest_laws demo_digests"
  by (auto simp: public_key_laws_def signature_laws_def digest_laws_def demo_lib_def demo_digests_def)

text \<open>
  (C15) The redeem script of a multi-signature account, whose hash is the account's address, is the
  same only for the same threshold and the same keys in the same order and encoding: two accounts
  share an address only if the hash functions collide on two different scripts.
\<close>

theorem redeem_script_determines_keys:
  assumes "public_key_laws lib" "m < 2 ^ 64" "n < 2 ^ 64" "length ks < 2 ^ 64" "length ls < 2 ^ 64"
  shows "redeem_script m (map (public_key_to_bytes lib) ks) \<noteq> None \<and>
    (redeem_script m (map (public_key_to_bytes lib) ks) = redeem_script n (map (public_key_to_bytes lib) ls) \<longleftrightarrow>
      m = n \<and> ks = ls)"
proof -
  have len: "list_all key_length (map (public_key_to_bytes lib) ks)" for ks
    using public_key_bytes(1) [OF assms(1)] by (simp add: list_all_iff)
  have "inj (public_key_to_bytes lib)" using public_key_bytes(2) [OF assms(1)] by (rule injI)
  then show ?thesis
    using redeem_script_injective [OF len len assms(2,3), of ks ls] redeem_script_bytes [OF len, of m ks] assms(2,4,5)
    by (auto simp: inj_map_eq_map)
qed

definition demo_key :: "u8 \<Rightarrow> bool \<Rightarrow> u8 StacksPublicKey" where
  "demo_key k compressed = \<lparr>pk_key = k, pk_compressed = compressed\<rparr>"

theorem redeem_script_determines_keys_witness:
  "redeem_script 2 (map (public_key_to_bytes demo_lib) [demo_key 1 True, demo_key 2 True]) \<noteq> None \<and>
   redeem_script 2 (map (public_key_to_bytes demo_lib) [demo_key 1 True, demo_key 2 True]) \<noteq>
     redeem_script 2 (map (public_key_to_bytes demo_lib) [demo_key 2 True, demo_key 1 True])"
  using redeem_script_determines_keys [OF demo_laws(1), of 2 2 "[demo_key 1 True, demo_key 2 True]" "[demo_key 2 True, demo_key 1 True]"]
  by (simp add: demo_key_def)

end
