(* ===== verification/SpendingConditions.thy ===== *)
theory SpendingConditions
  imports PublicKeys MethodLaws
begin

text \<open>
  How a transaction is authorised (\<open>stacks-codec/src/transaction.rs\<close>): authorisation fields, the three
  kinds of spending condition, their wire format, and their signing and verification over a rolling
  hash. The lemmas show that every condition reads back from its encoding, that what the keys of an
  account sign is accepted, and what acceptance means.
\<close>

section \<open>Authorisation fields\<close>

datatype TransactionPublicKeyEncoding = Compressed | Uncompressed

fun encoding_u8 :: "TransactionPublicKeyEncoding \<Rightarrow> u8" where
  "encoding_u8 Compressed = 0x00"
| "encoding_u8 Uncompressed = 0x01"

definition encoding_from_u8 :: "u8 \<Rightarrow> TransactionPublicKeyEncoding option" where
  "encoding_from_u8 n = (if n = 0x00 then Some Compressed else if n = 0x01 then Some Uncompressed else None)"

datatype TransactionAuthFlags = AuthStandard | AuthSponsored

fun auth_flag_u8 :: "TransactionAuthFlags \<Rightarrow> u8" where
  "auth_flag_u8 AuthStandard = 0x04"
| "auth_flag_u8 AuthSponsored = 0x05"

datatype AuthError =
    AuthSigningError string
  | VerifyingError string
  | IncompatibleSpendingConditionError

text \<open>How an operation of the authorisation path can end early: a panic or an error.\<close>

datatype auth_exit = Panics | Fails AuthError

definition or_panic :: "'a option \<Rightarrow> auth_exit + 'a" where
  "or_panic x = ok_or x Panics"

datatype TransactionAuthVerificationMode = EnforceLowS | AllowHighS

datatype 'k TransactionAuthField =
    PublicKeyField "'k StacksPublicKey"
  | SignatureField TransactionPublicKeyEncoding "u8 list"

fun is_public_key :: "'k TransactionAuthField \<Rightarrow> bool" where
  "is_public_key (PublicKeyField _) = True"
| "is_public_key (SignatureField _ _) = False"

fun is_signature :: "'k TransactionAuthField \<Rightarrow> bool" where
  "is_signature (PublicKeyField _) = False"
| "is_signature (SignatureField _ _) = True"

fun as_public_key :: "'k TransactionAuthField \<Rightarrow> 'k StacksPublicKey option" where
  "as_public_key (PublicKeyField pubk) = Some pubk"
| "as_public_key (SignatureField _ _) = None"

fun as_signature :: "'k TransactionAuthField \<Rightarrow> (TransactionPublicKeyEncoding \<times> u8 list) option" where
  "as_signature (SignatureField key_fmt sig) = Some (key_fmt, sig)"
| "as_signature (PublicKeyField _) = None"

fun encode_auth_field :: "('k, 'p, 's) secp256k1 \<Rightarrow> 'k TransactionAuthField codec_writes" where
  "encode_auth_field lib (PublicKeyField pubk) =
     write_each [write_int (if pk_compressed pubk then 0x00 else 0x01 :: u8), write_bytes (buffer_from_public_key lib pubk)]"
| "encode_auth_field lib (SignatureField key_encoding sig) =
     write_each [write_int (if key_encoding = Compressed then 0x02 else 0x03 :: u8), write_bytes sig]"

definition read_key :: "('k, 'p, 's) secp256k1 \<Rightarrow> bool \<Rightarrow> 'k TransactionAuthField codec_reads" where
  "read_key lib compressed =
     sbind (read_bytes 33) (\<lambda>pubkey_buf.
     sbind (slift (map_err (\<lambda>e. DeserializeError (Text e)) (buffer_to_public_key lib pubkey_buf))) (\<lambda>pubkey.
     sret (PublicKeyField (set_compressed compressed pubkey))))"

definition decode_auth_field :: "('k, 'p, 's) secp256k1 \<Rightarrow> 'k TransactionAuthField codec_reads" where
  "decode_auth_field lib =
     sbind read_int (\<lambda>field_id :: u8.
       if field_id = 0x00 then read_key lib True
       else if field_id = 0x01 then read_key lib False
       else if field_id = 0x02 then sbind (read_bytes 65) (\<lambda>sig. sret (SignatureField Compressed sig))
       else if field_id = 0x03 then sbind (read_bytes 65) (\<lambda>sig. sret (SignatureField Uncompressed sig))
       else parse_failure (''Failed to parse auth field: unkonwn auth field ID '' @ show_nat (unat field_id)))"

section \<open>Spending conditions\<close>

datatype SinglesigHashMode = P2PKH | P2WPKH
datatype MultisigHashMode = P2SH | P2WSH
datatype OrderIndependentMultisigHashMode = OrderIndependentP2SH | OrderIndependentP2WSH

fun singlesig_mode_u8 :: "SinglesigHashMode \<Rightarrow> u8" where
  "singlesig_mode_u8 P2PKH = 0x00"
| "singlesig_mode_u8 P2WPKH = 0x02"

fun multisig_mode_u8 :: "MultisigHashMode \<Rightarrow> u8" where
  "multisig_mode_u8 P2SH = 0x01"
| "multisig_mode_u8 P2WSH = 0x03"

fun order_independent_mode_u8 :: "OrderIndependentMultisigHashMode \<Rightarrow> u8" where
  "order_independent_mode_u8 OrderIndependentP2SH = 0x05"
| "order_independent_mode_u8 OrderIndependentP2WSH = 0x07"

fun singlesig_to_address_hash_mode :: "SinglesigHashMode \<Rightarrow> AddressHashMode" where
  "singlesig_to_address_hash_mode P2PKH = SerializeP2PKH"
| "singlesig_to_address_hash_mode P2WPKH = SerializeP2WPKH"

fun multisig_to_address_hash_mode :: "MultisigHashMode \<Rightarrow> AddressHashMode" where
  "multisig_to_address_hash_mode P2SH = SerializeP2SH"
| "multisig_to_address_hash_mode P2WSH = SerializeP2WSH"

fun order_independent_to_address_hash_mode :: "OrderIndependentMultisigHashMode \<Rightarrow> AddressHashMode" where
  "order_independent_to_address_hash_mode OrderIndependentP2SH = SerializeP2SH"
| "order_independent_to_address_hash_mode OrderIndependentP2WSH = SerializeP2WSH"

fun singlesig_from_address_hash_mode :: "AddressHashMode \<Rightarrow> SinglesigHashMode option" where
  "singlesig_from_address_hash_mode SerializeP2PKH = Some P2PKH"
| "singlesig_from_address_hash_mode SerializeP2WPKH = Some P2WPKH"
| "singlesig_from_address_hash_mode _ = None"

fun multisig_from_address_hash_mode :: "AddressHashMode \<Rightarrow> MultisigHashMode option" where
  "multisig_from_address_hash_mode SerializeP2SH = Some P2SH"
| "multisig_from_address_hash_mode SerializeP2WSH = Some P2WSH"
| "multisig_from_address_hash_mode _ = None"

fun order_independent_from_address_hash_mode :: "AddressHashMode \<Rightarrow> OrderIndependentMultisigHashMode option" where
  "order_independent_from_address_hash_mode SerializeP2SH = Some OrderIndependentP2SH"
| "order_independent_from_address_hash_mode SerializeP2WSH = Some OrderIndependentP2WSH"
| "order_independent_from_address_hash_mode _ = None"

definition singlesig_mode_from_u8 :: "u8 \<Rightarrow> SinglesigHashMode option" where
  "singlesig_mode_from_u8 n = (if n = 0x00 then Some P2PKH else if n = 0x02 then Some P2WPKH else None)"

definition multisig_mode_from_u8 :: "u8 \<Rightarrow> MultisigHashMode option" where
  "multisig_mode_from_u8 n = (if n = 0x01 then Some P2SH else if n = 0x03 then Some P2WSH else None)"

definition order_independent_mode_from_u8 :: "u8 \<Rightarrow> OrderIndependentMultisigHashMode option" where
  "order_independent_mode_from_u8 n =
     (if n = 0x05 then Some OrderIndependentP2SH else if n = 0x07 then Some OrderIndependentP2WSH else None)"

record SinglesigSpendingCondition =
  ss_hash_mode :: SinglesigHashMode
  ss_signer :: "u8 list"
  ss_nonce :: u64
  ss_tx_fee :: u64
  ss_key_encoding :: TransactionPublicKeyEncoding
  ss_signature :: "u8 list"

record 'k MultisigSpendingCondition =
  ms_hash_mode :: MultisigHashMode
  ms_signer :: "u8 list"
  ms_nonce :: u64
  ms_tx_fee :: u64
  ms_fields :: "'k TransactionAuthField list"
  ms_signatures_required :: u16

record 'k OrderIndependentMultisigSpendingCondition =
  om_hash_mode :: OrderIndependentMultisigHashMode
  om_signer :: "u8 list"
  om_nonce :: u64
  om_tx_fee :: u64
  om_fields :: "'k TransactionAuthField list"
  om_signatures_required :: u16

datatype 'k TransactionSpendingCondition =
    Singlesig SinglesigSpendingCondition
  | Multisig "'k MultisigSpendingCondition"
  | OrderIndependentMultisig "'k OrderIndependentMultisigSpendingCondition"

text \<open>The sizes in memory of what transactions hold in vectors.\<close>

record layout =
  size_of_auth_field :: nat
  size_of_value :: nat
  size_of_post_condition :: nat

subsection \<open>Wire format\<close>

text \<open>The signatures given and whether a key is uncompressed.\<close>

fun scan_fields :: "string \<Rightarrow> 'k TransactionAuthField list \<Rightarrow> u16 \<Rightarrow> bool \<Rightarrow> CodecError + u16 \<times> bool" where
  "scan_fields too_many [] num_sigs_given have_uncompressed = Inr (num_sigs_given, have_uncompressed)"
| "scan_fields too_many (SignatureField key_encoding _ # fs) num_sigs_given have_uncompressed =
     rbind (ok_or (checked_add num_sigs_given 1) (DeserializeError (Text too_many))) (\<lambda>num_sigs_given.
     scan_fields too_many fs num_sigs_given (have_uncompressed \<or> key_encoding = Uncompressed))"
| "scan_fields too_many (PublicKeyField pubk # fs) num_sigs_given have_uncompressed =
     scan_fields too_many fs num_sigs_given (have_uncompressed \<or> \<not> pk_compressed pubk)"

definition encode_multisig :: "('k, 'p, 's) secp256k1 \<Rightarrow> 'k MultisigSpendingCondition codec_writes" where
  "encode_multisig lib self =
     write_each [write_int (multisig_mode_u8 (ms_hash_mode self)), write_bytes (ms_signer self), write_int (ms_nonce self),
       write_int (ms_tx_fee self), write_vec (encode_auth_field lib) (ms_fields self), write_int (ms_signatures_required self)]"

definition decode_multisig_after :: "('k, 'p, 's) secp256k1 \<Rightarrow> layout \<Rightarrow> u8 \<Rightarrow> 'k MultisigSpendingCondition codec_reads" where
  "decode_multisig_after lib lay hash_mode_u8 =
     sbind (slift (ok_or (multisig_mode_from_u8 hash_mode_u8)
       (DeserializeError (Text (''Failed to parse multisig spending condition: unknown hash mode '' @ show_nat (unat hash_mode_u8)))))) (\<lambda>hash_mode.
     sbind (read_bytes 20) (\<lambda>signer.
     sbind read_int (\<lambda>nonce.
     sbind read_int (\<lambda>tx_fee.
     sbind (bounded (unat MAX_MESSAGE_LEN) (read_vec (size_of_auth_field lay) (decode_auth_field lib))) (\<lambda>fields.
     sbind read_int (\<lambda>signatures_required.
     sbind (slift (scan_fields ''Failed to parse multisig spending condition: too many signatures'' fields 0 False))
       (\<lambda>(num_sigs_given, have_uncompressed).
     if num_sigs_given \<noteq> signatures_required
     then parse_failure (''Failed to parse multisig spending condition: got '' @ show_nat (unat num_sigs_given) @
            '' sigs, expected '' @ show_nat (unat signatures_required))
     else if have_uncompressed \<and> hash_mode = P2WSH
     then parse_failure ''Failed to parse multisig spending condition: expected compressed keys only''
     else sret \<lparr>ms_hash_mode = hash_mode, ms_signer = signer, ms_nonce = nonce, ms_tx_fee = tx_fee, ms_fields = fields,
                ms_signatures_required = signatures_required\<rparr>)))))))"

definition decode_multisig :: "('k, 'p, 's) secp256k1 \<Rightarrow> layout \<Rightarrow> 'k MultisigSpendingCondition codec_reads" where
  "decode_multisig lib lay = sbind read_int (decode_multisig_after lib lay)"

definition encode_order_independent ::
  "('k, 'p, 's) secp256k1 \<Rightarrow> 'k OrderIndependentMultisigSpendingCondition codec_writes" where
  "encode_order_independent lib self =
     write_each [write_int (order_independent_mode_u8 (om_hash_mode self)), write_bytes (om_signer self), write_int (om_nonce self),
       write_int (om_tx_fee self), write_vec (encode_auth_field lib) (om_fields self), write_int (om_signatures_required self)]"

definition decode_order_independent_after ::
  "('k, 'p, 's) secp256k1 \<Rightarrow> layout \<Rightarrow> u8 \<Rightarrow> 'k OrderIndependentMultisigSpendingCondition codec_reads" where
  "decode_order_independent_after lib lay hash_mode_u8 =
     sbind (slift (ok_or (order_independent_mode_from_u8 hash_mode_u8)
       (DeserializeError (Text (''Failed to parse multisig spending condition: unknown hash mode '' @ show_nat (unat hash_mode_u8)))))) (\<lambda>hash_mode.
     sbind (read_bytes 20) (\<lambda>signer.
     sbind read_int (\<lambda>nonce.
     sbind read_int (\<lambda>tx_fee.
     sbind (bounded (unat MAX_MESSAGE_LEN) (read_vec (size_of_auth_field lay) (decode_auth_field lib))) (\<lambda>fields.
     sbind read_int (\<lambda>signatures_required.
     sbind (slift (scan_fields ''Failed to parse order independent multisig spending condition: too many signatures'' fields 0 False))
       (\<lambda>(num_sigs_given, have_uncompressed).
     if num_sigs_given < signatures_required
     then parse_failure (''Failed to deserialize order independent multisig spending condition: got '' @
            show_nat (unat num_sigs_given) @ '' sigs, expected at least '' @ show_nat (unat signatures_required))
     else if have_uncompressed \<and> hash_mode = OrderIndependentP2WSH
     then parse_failure ''Failed to deserialize order independent multisig spending condition: expected compressed keys only''
     else sret \<lparr>om_hash_mode = hash_mode, om_signer = signer, om_nonce = nonce, om_tx_fee = tx_fee, om_fields = fields,
                om_signatures_required = signatures_required\<rparr>)))))))"

definition decode_order_independent ::
  "('k, 'p, 's) secp256k1 \<Rightarrow> layout \<Rightarrow> 'k OrderIndependentMultisigSpendingCondition codec_reads" where
  "decode_order_independent lib lay = sbind read_int (decode_order_independent_after lib lay)"

definition encode_singlesig :: "SinglesigSpendingCondition codec_writes" where
  "encode_singlesig self =
     write_each [write_int (singlesig_mode_u8 (ss_hash_mode self)), write_bytes (ss_signer self), write_int (ss_nonce self),
       write_int (ss_tx_fee self), write_int (encoding_u8 (ss_key_encoding self)), write_bytes (ss_signature self)]"

definition decode_singlesig_after :: "u8 \<Rightarrow> SinglesigSpendingCondition codec_reads" where
  "decode_singlesig_after hash_mode_u8 =
     sbind (slift (ok_or (singlesig_mode_from_u8 hash_mode_u8)
       (DeserializeError (Text (''Failed to parse singlesig spending condition: unknown hash mode '' @ show_nat (unat hash_mode_u8)))))) (\<lambda>hash_mode.
     sbind (read_bytes 20) (\<lambda>signer.
     sbind read_int (\<lambda>nonce.
     sbind read_int (\<lambda>tx_fee.
     sbind read_int (\<lambda>key_encoding_u8.
     sbind (slift (ok_or (encoding_from_u8 key_encoding_u8)
       (DeserializeError (Text (''Failed to parse singlesig spending condition: unknown key encoding '' @ show_nat (unat key_encoding_u8))))))
       (\<lambda>key_encoding.
     sbind (read_bytes 65) (\<lambda>signature.
     if hash_mode = P2WPKH \<and> key_encoding \<noteq> Compressed
     then parse_failure ''Failed to parse singlesig spending condition: incomaptible hash mode and key encoding''
     else sret \<lparr>ss_hash_mode = hash_mode, ss_signer = signer, ss_nonce = nonce, ss_tx_fee = tx_fee,
                ss_key_encoding = key_encoding, ss_signature = signature\<rparr>)))))))"

definition decode_singlesig :: "SinglesigSpendingCondition codec_reads" where
  "decode_singlesig = sbind read_int decode_singlesig_after"

fun encode_spending_condition :: "('k, 'p, 's) secp256k1 \<Rightarrow> 'k TransactionSpendingCondition codec_writes" where
  "encode_spending_condition lib (Singlesig data) = encode_singlesig data"
| "encode_spending_condition lib (Multisig data) = encode_multisig lib data"
| "encode_spending_condition lib (OrderIndependentMultisig data) = encode_order_independent lib data"

text \<open>The byte of the hash mode is read ahead, and read again by the condition it announces.\<close>

definition decode_spending_condition :: "('k, 'p, 's) secp256k1 \<Rightarrow> layout \<Rightarrow> 'k TransactionSpendingCondition codec_reads" where
  "decode_spending_condition lib lay =
     sbind read_int (\<lambda>hash_mode_u8 :: u8.
       if singlesig_mode_from_u8 hash_mode_u8 \<noteq> None
       then sbind (decode_singlesig_after hash_mode_u8) (\<lambda>cond. sret (Singlesig cond))
       else if multisig_mode_from_u8 hash_mode_u8 \<noteq> None
       then sbind (decode_multisig_after lib lay hash_mode_u8) (\<lambda>cond. sret (Multisig cond))
       else if order_independent_mode_from_u8 hash_mode_u8 \<noteq> None
       then sbind (decode_order_independent_after lib lay hash_mode_u8) (\<lambda>cond. sret (OrderIndependentMultisig cond))
       else parse_failure (''Failed to parse spending condition: invalid hash mode '' @ show_nat (unat hash_mode_u8)))"

subsection \<open>Constructors and accessors\<close>

definition signer_of ::
  "('k, 'p, 's) secp256k1 \<Rightarrow> digests \<Rightarrow> AddressHashMode \<Rightarrow> nat \<Rightarrow> 'k StacksPublicKey list \<Rightarrow> u8 list option option" where
  "signer_of lib dg mode num_sigs pubkeys = map_option (map_option sa_bytes) (from_public_keys lib dg 0 mode num_sigs pubkeys)"

definition new_singlesig_p2pkh ::
  "('k, 'p, 's) secp256k1 \<Rightarrow> digests \<Rightarrow> 'k StacksPublicKey \<Rightarrow> 'k TransactionSpendingCondition option option" where
  "new_singlesig_p2pkh lib dg pubkey =
     map_option (map_option (\<lambda>signer.
       Singlesig \<lparr>ss_hash_mode = P2PKH, ss_signer = signer, ss_nonce = 0, ss_tx_fee = 0,
         ss_key_encoding = (if pk_compressed pubkey then Compressed else Uncompressed), ss_signature = message_signature_empty\<rparr>))
       (signer_of lib dg SerializeP2PKH 1 [pubkey])"

definition new_singlesig_p2wpkh ::
  "('k, 'p, 's) secp256k1 \<Rightarrow> digests \<Rightarrow> 'k StacksPublicKey \<Rightarrow> 'k TransactionSpendingCondition option option" where
  "new_singlesig_p2wpkh lib dg pubkey =
     map_option (map_option (\<lambda>signer.
       Singlesig \<lparr>ss_hash_mode = P2WPKH, ss_signer = signer, ss_nonce = 0, ss_tx_fee = 0,
         ss_key_encoding = Compressed, ss_signature = message_signature_empty\<rparr>))
       (signer_of lib dg SerializeP2WPKH 1 [pubkey])"

definition new_multisig_p2sh ::
  "('k, 'p, 's) secp256k1 \<Rightarrow> digests \<Rightarrow> u16 \<Rightarrow> 'k StacksPublicKey list \<Rightarrow> 'k TransactionSpendingCondition option option" where
  "new_multisig_p2sh lib dg num_sigs pubkeys =
     map_option (map_option (\<lambda>signer.
       Multisig \<lparr>ms_hash_mode = P2SH, ms_signer = signer, ms_nonce = 0, ms_tx_fee = 0, ms_fields = [],
         ms_signatures_required = num_sigs\<rparr>))
       (signer_of lib dg SerializeP2SH (unat num_sigs) pubkeys)"

definition new_multisig_order_independent_p2sh ::
  "('k, 'p, 's) secp256k1 \<Rightarrow> digests \<Rightarrow> u16 \<Rightarrow> 'k StacksPublicKey list \<Rightarrow> 'k TransactionSpendingCondition option option" where
  "new_multisig_order_independent_p2sh lib dg num_sigs pubkeys =
     map_option (map_option (\<lambda>signer.
       OrderIndependentMultisig \<lparr>om_hash_mode = OrderIndependentP2SH, om_signer = signer, om_nonce = 0, om_tx_fee = 0,
         om_fields = [], om_signatures_required = num_sigs\<rparr>))
       (signer_of lib dg SerializeP2SH (unat num_sigs) pubkeys)"

definition new_multisig_order_independent_p2wsh ::
  "('k, 'p, 's) secp256k1 \<Rightarrow> digests \<Rightarrow> u16 \<Rightarrow> 'k StacksPublicKey list \<Rightarrow> 'k TransactionSpendingCondition option option" where
  "new_multisig_order_independent_p2wsh lib dg num_sigs pubkeys =
     map_option (map_option (\<lambda>signer.
       OrderIndependentMultisig \<lparr>om_hash_mode = OrderIndependentP2WSH, om_signer = signer, om_nonce = 0, om_tx_fee = 0,
         om_fields = [], om_signatures_required = num_sigs\<rparr>))
       (signer_of lib dg SerializeP2WSH (unat num_sigs) pubkeys)"

definition new_multisig_p2wsh ::
  "('k, 'p, 's) secp256k1 \<Rightarrow> digests \<Rightarrow> u16 \<Rightarrow> 'k StacksPublicKey list \<Rightarrow> 'k TransactionSpendingCondition option option" where
  "new_multisig_p2wsh lib dg num_sigs pubkeys =
     map_option (map_option (\<lambda>signer.
       Multisig \<lparr>ms_hash_mode = P2WSH, ms_signer = signer, ms_nonce = 0, ms_tx_fee = 0, ms_fields = [],
         ms_signatures_required = num_sigs\<rparr>))
       (signer_of lib dg SerializeP2WSH (unat num_sigs) pubkeys)"

definition new_initial_sighash :: "'k TransactionSpendingCondition" where
  "new_initial_sighash =
     Singlesig \<lparr>ss_hash_mode = P2PKH, ss_signer = replicate 20 0, ss_nonce = 0, ss_tx_fee = 0,
       ss_key_encoding = Compressed, ss_signature = message_signature_empty\<rparr>"

text \<open>Counting signatures panics when there are more than a \<open>u16\<close> holds.\<close>

fun count_signatures :: "'k TransactionAuthField list \<Rightarrow> u16 \<Rightarrow> u16 option" where
  "count_signatures [] num_sigs = Some num_sigs"
| "count_signatures (field # fs) num_sigs =
     (if is_signature field then Option.bind (checked_add num_sigs 1) (count_signatures fs)
      else count_signatures fs num_sigs)"

fun num_signatures :: "'k TransactionSpendingCondition \<Rightarrow> u16 option" where
  "num_signatures (Singlesig data) = Some (if ss_signature data \<noteq> message_signature_empty then 1 else 0)"
| "num_signatures (Multisig data) = count_signatures (ms_fields data) 0"
| "num_signatures (OrderIndependentMultisig data) = count_signatures (om_fields data) 0"

fun signatures_required :: "'k TransactionSpendingCondition \<Rightarrow> u16" where
  "signatures_required (Singlesig _) = 1"
| "signatures_required (Multisig multisig_data) = ms_signatures_required multisig_data"
| "signatures_required (OrderIndependentMultisig multisig_data) = om_signatures_required multisig_data"

fun nonce :: "'k TransactionSpendingCondition \<Rightarrow> u64" where
  "nonce (Singlesig data) = ss_nonce data"
| "nonce (Multisig data) = ms_nonce data"
| "nonce (OrderIndependentMultisig data) = om_nonce data"

fun tx_fee :: "'k TransactionSpendingCondition \<Rightarrow> u64" where
  "tx_fee (Singlesig data) = ss_tx_fee data"
| "tx_fee (Multisig data) = ms_tx_fee data"
| "tx_fee (OrderIndependentMultisig data) = om_tx_fee data"

fun set_nonce :: "u64 \<Rightarrow> 'k TransactionSpendingCondition \<Rightarrow> 'k TransactionSpendingCondition" where
  "set_nonce n (Singlesig data) = Singlesig (data\<lparr>ss_nonce := n\<rparr>)"
| "set_nonce n (Multisig data) = Multisig (data\<lparr>ms_nonce := n\<rparr>)"
| "set_nonce n (OrderIndependentMultisig data) = OrderIndependentMultisig (data\<lparr>om_nonce := n\<rparr>)"

fun set_tx_fee :: "u64 \<Rightarrow> 'k TransactionSpendingCondition \<Rightarrow> 'k TransactionSpendingCondition" where
  "set_tx_fee fee (Singlesig data) = Singlesig (data\<lparr>ss_tx_fee := fee\<rparr>)"
| "set_tx_fee fee (Multisig data) = Multisig (data\<lparr>ms_tx_fee := fee\<rparr>)"
| "set_tx_fee fee (OrderIndependentMultisig data) = OrderIndependentMultisig (data\<lparr>om_tx_fee := fee\<rparr>)"

text \<open>The addresses: the versions are constants below 32, so building one cannot fail.\<close>

definition singlesig_address_mainnet :: "SinglesigSpendingCondition \<Rightarrow> StacksAddress" where
  "singlesig_address_mainnet self =
     \<lparr>sa_version = (case ss_hash_mode self of P2PKH \<Rightarrow> C32_ADDRESS_VERSION_MAINNET_SINGLESIG
                                        | P2WPKH \<Rightarrow> C32_ADDRESS_VERSION_MAINNET_MULTISIG),
      sa_bytes = ss_signer self\<rparr>"

definition singlesig_address_testnet :: "SinglesigSpendingCondition \<Rightarrow> StacksAddress" where
  "singlesig_address_testnet self =
     \<lparr>sa_version = (case ss_hash_mode self of P2PKH \<Rightarrow> C32_ADDRESS_VERSION_TESTNET_SINGLESIG
                                        | P2WPKH \<Rightarrow> C32_ADDRESS_VERSION_TESTNET_MULTISIG),
      sa_bytes = ss_signer self\<rparr>"

fun address_mainnet :: "'k TransactionSpendingCondition \<Rightarrow> StacksAddress" where
  "address_mainnet (Singlesig data) = singlesig_address_mainnet data"
| "address_mainnet (Multisig data) = \<lparr>sa_version = C32_ADDRESS_VERSION_MAINNET_MULTISIG, sa_bytes = ms_signer data\<rparr>"
| "address_mainnet (OrderIndependentMultisig data) =
     \<lparr>sa_version = C32_ADDRESS_VERSION_MAINNET_MULTISIG, sa_bytes = om_signer data\<rparr>"

fun address_testnet :: "'k TransactionSpendingCondition \<Rightarrow> StacksAddress" where
  "address_testnet (Singlesig data) = singlesig_address_testnet data"
| "address_testnet (Multisig data) = \<lparr>sa_version = C32_ADDRESS_VERSION_TESTNET_MULTISIG, sa_bytes = ms_signer data\<rparr>"
| "address_testnet (OrderIndependentMultisig data) =
     \<lparr>sa_version = C32_ADDRESS_VERSION_TESTNET_MULTISIG, sa_bytes = om_signer data\<rparr>"

definition get_address :: "bool \<Rightarrow> 'k TransactionSpendingCondition \<Rightarrow> StacksAddress" where
  "get_address mainnet self = (if mainnet then address_mainnet self else address_testnet self)"

fun clear_condition :: "'k TransactionSpendingCondition \<Rightarrow> 'k TransactionSpendingCondition" where
  "clear_condition (Singlesig data) =
     Singlesig (data\<lparr>ss_tx_fee := 0, ss_nonce := 0, ss_signature := message_signature_empty\<rparr>)"
| "clear_condition (Multisig data) = Multisig (data\<lparr>ms_tx_fee := 0, ms_nonce := 0, ms_fields := []\<rparr>)"
| "clear_condition (OrderIndependentMultisig data) =
     OrderIndependentMultisig (data\<lparr>om_tx_fee := 0, om_nonce := 0, om_fields := []\<rparr>)"

fun condition_supported_in_epoch :: "StacksEpochId \<Rightarrow> 'k TransactionSpendingCondition \<Rightarrow> bool" where
  "condition_supported_in_epoch epoch (OrderIndependentMultisig _) = (epoch \<ge> Epoch30)"
| "condition_supported_in_epoch epoch _ = True"

section \<open>Signing and verifying\<close>

definition from_sighash_bytes :: "digests \<Rightarrow> u8 list \<Rightarrow> u8 list" where
  "from_sighash_bytes dg txdata = sha512_trunc256 dg txdata"

definition make_sighash_presign :: "digests \<Rightarrow> u8 list \<Rightarrow> TransactionAuthFlags \<Rightarrow> u64 \<Rightarrow> u64 \<Rightarrow> auth_exit + u8 list" where
  "make_sighash_presign dg cur_sighash cond_code fee n =
     (let new_tx_hash_bits = cur_sighash @ [auth_flag_u8 cond_code] @ to_be_bytes fee @ to_be_bytes n
      in if length new_tx_hash_bits = 32 + 1 + 8 + 8 then Inr (from_sighash_bytes dg new_tx_hash_bits) else Inl Panics)"

definition make_sighash_postsign :: "digests \<Rightarrow> u8 list \<Rightarrow> 'k StacksPublicKey \<Rightarrow> u8 list \<Rightarrow> auth_exit + u8 list" where
  "make_sighash_postsign dg cur_sighash pubkey sig =
     (let pubkey_encoding = (if pk_compressed pubkey then Compressed else Uncompressed);
          new_tx_hash_bits = cur_sighash @ [encoding_u8 pubkey_encoding] @ sig
      in if length new_tx_hash_bits = 32 + 1 + unat MESSAGE_SIGNATURE_ENCODED_SIZE
         then Inr (from_sighash_bytes dg new_tx_hash_bits) else Inl Panics)"

definition next_signature ::
  "('k, 'p, 's) secp256k1 \<Rightarrow> digests \<Rightarrow> u8 list \<Rightarrow> TransactionAuthFlags \<Rightarrow> u64 \<Rightarrow> u64 \<Rightarrow> 'p StacksPrivateKey
   \<Rightarrow> auth_exit + u8 list \<times> u8 list" where
  "next_signature lib dg cur_sighash cond_code fee n privk =
     rbind (make_sighash_presign dg cur_sighash cond_code fee n) (\<lambda>sighash_presign.
     rbind (map_err (\<lambda>se. Fails (AuthSigningError se)) (sign lib privk sighash_presign)) (\<lambda>sig.
     rbind (make_sighash_postsign dg sighash_presign (from_private lib privk) sig) (\<lambda>next_sighash.
     Inr (sig, next_sighash))))"

definition next_verification ::
  "('k, 'p, 's) secp256k1 \<Rightarrow> digests \<Rightarrow> u8 list \<Rightarrow> TransactionAuthFlags \<Rightarrow> u64 \<Rightarrow> u64 \<Rightarrow> TransactionPublicKeyEncoding \<Rightarrow> u8 list
   \<Rightarrow> TransactionAuthVerificationMode \<Rightarrow> auth_exit + 'k StacksPublicKey \<times> u8 list" where
  "next_verification lib dg cur_sighash cond_code fee n key_encoding sig mode =
     rbind (make_sighash_presign dg cur_sighash cond_code fee n) (\<lambda>sighash_presign.
     rbind (map_err (\<lambda>ve. Fails (VerifyingError ve))
       (if mode = AllowHighS then recover_to_pubkey_without_validating_low_s lib sighash_presign sig
        else recover_to_pubkey lib sighash_presign sig)) (\<lambda>pubk.
     let pubk = (case key_encoding of Compressed \<Rightarrow> set_compressed True pubk | Uncompressed \<Rightarrow> set_compressed False pubk)
     in rbind (make_sighash_postsign dg sighash_presign pubk sig) (\<lambda>next_sighash. Inr (pubk, next_sighash))))"

text \<open>
  The loop over the fields. The hash a signature is checked against is the one the previous
  signature left, or for order-independent conditions always the first.
\<close>

record 'k scan =
  sc_sighash :: "u8 list"
  sc_num_sigs :: u16
  sc_uncompressed :: bool
  sc_pubkeys :: "'k StacksPublicKey list"

fun verify_fields ::
  "('k, 'p, 's) secp256k1 \<Rightarrow> digests \<Rightarrow> bool \<Rightarrow> TransactionAuthFlags \<Rightarrow> u64 \<Rightarrow> u64 \<Rightarrow> TransactionAuthVerificationMode
   \<Rightarrow> 'k TransactionAuthField list \<Rightarrow> 'k scan \<Rightarrow> auth_exit + 'k scan" where
  "verify_fields lib dg rolling cond_code fee n mode [] st = Inr st"
| "verify_fields lib dg rolling cond_code fee n mode (PublicKeyField pubkey # fs) st =
     verify_fields lib dg rolling cond_code fee n mode fs
       (st\<lparr>sc_uncompressed := sc_uncompressed st \<or> \<not> pk_compressed pubkey, sc_pubkeys := sc_pubkeys st @ [pubkey]\<rparr>)"
| "verify_fields lib dg rolling cond_code fee n mode (SignatureField pubkey_encoding sigbuf # fs) st =
     rbind (next_verification lib dg (sc_sighash st) cond_code fee n pubkey_encoding sigbuf mode) (\<lambda>(pubkey, next_sighash).
     rbind (ok_or (checked_add (sc_num_sigs st) 1) (Fails (VerifyingError ''Too many signatures''))) (\<lambda>num_sigs.
     verify_fields lib dg rolling cond_code fee n mode fs
       (st\<lparr>sc_sighash := (if rolling then next_sighash else sc_sighash st), sc_num_sigs := num_sigs,
          sc_uncompressed := sc_uncompressed st \<or> pubkey_encoding = Uncompressed,
          sc_pubkeys := sc_pubkeys st @ [pubkey]\<rparr>)))"

definition check_signer ::
  "('k, 'p, 's) secp256k1 \<Rightarrow> digests \<Rightarrow> string \<Rightarrow> AddressHashMode \<Rightarrow> nat \<Rightarrow> 'k StacksPublicKey list \<Rightarrow> u8 list \<Rightarrow> auth_exit + unit" where
  "check_signer lib dg no_address hash_mode num_sigs pubkeys signer =
     rbind (or_panic (from_public_keys lib dg 0 hash_mode num_sigs pubkeys)) (\<lambda>addr_opt.
     rbind (ok_or addr_opt (Fails (VerifyingError no_address))) (\<lambda>addr.
     if sa_bytes addr \<noteq> signer
     then Inl (Fails (VerifyingError (''Signer hash does not equal hash of public key(s): '' @ to_hex (sa_bytes addr) @
            '' != '' @ to_hex signer)))
     else Inr ()))"

definition multisig_verify ::
  "('k, 'p, 's) secp256k1 \<Rightarrow> digests \<Rightarrow> 'k MultisigSpendingCondition \<Rightarrow> u8 list \<Rightarrow> TransactionAuthFlags
   \<Rightarrow> TransactionAuthVerificationMode \<Rightarrow> auth_exit + u8 list" where
  "multisig_verify lib dg self initial_sighash cond_code mode =
     rbind (verify_fields lib dg True cond_code (ms_tx_fee self) (ms_nonce self) mode (ms_fields self)
       \<lparr>sc_sighash = initial_sighash, sc_num_sigs = 0, sc_uncompressed = False, sc_pubkeys = []\<rparr>) (\<lambda>st.
     if sc_num_sigs st \<noteq> ms_signatures_required self
     then Inl (Fails (VerifyingError ''Incorrect number of signatures''))
     else if sc_uncompressed st \<and> ms_hash_mode self = P2WSH
     then Inl (Fails (VerifyingError ''Uncompressed keys are not allowed in this hash mode''))
     else rbind (check_signer lib dg ''Failed to generate address from public keys''
            (multisig_to_address_hash_mode (ms_hash_mode self)) (unat (ms_signatures_required self)) (sc_pubkeys st) (ms_signer self))
          (\<lambda>_. Inr (sc_sighash st)))"

definition order_independent_verify ::
  "('k, 'p, 's) secp256k1 \<Rightarrow> digests \<Rightarrow> 'k OrderIndependentMultisigSpendingCondition \<Rightarrow> u8 list \<Rightarrow> TransactionAuthFlags
   \<Rightarrow> TransactionAuthVerificationMode \<Rightarrow> auth_exit + u8 list" where
  "order_independent_verify lib dg self initial_sighash cond_code mode =
     rbind (verify_fields lib dg False cond_code (om_tx_fee self) (om_nonce self) mode (om_fields self)
       \<lparr>sc_sighash = initial_sighash, sc_num_sigs = 0, sc_uncompressed = False, sc_pubkeys = []\<rparr>) (\<lambda>st.
     if sc_num_sigs st < om_signatures_required self
     then Inl (Fails (VerifyingError (''Not enough signatures. Got '' @ show_nat (unat (sc_num_sigs st)) @ '', expected at least '' @
            show_nat (unat (om_signatures_required self)))))
     else if sc_uncompressed st \<and> om_hash_mode self = OrderIndependentP2WSH
     then Inl (Fails (VerifyingError ''Uncompressed keys are not allowed in this hash mode''))
     else rbind (check_signer lib dg ''Failed to generate address from public keys''
            (order_independent_to_address_hash_mode (om_hash_mode self)) (unat (om_signatures_required self)) (sc_pubkeys st) (om_signer self))
          (\<lambda>_. Inr initial_sighash))"

definition singlesig_verify ::
  "('k, 'p, 's) secp256k1 \<Rightarrow> digests \<Rightarrow> SinglesigSpendingCondition \<Rightarrow> u8 list \<Rightarrow> TransactionAuthFlags
   \<Rightarrow> TransactionAuthVerificationMode \<Rightarrow> auth_exit + u8 list" where
  "singlesig_verify lib dg self initial_sighash cond_code mode =
     rbind (next_verification lib dg initial_sighash cond_code (ss_tx_fee self) (ss_nonce self) (ss_key_encoding self)
       (ss_signature self) mode) (\<lambda>(pubkey, next_sighash).
     rbind (check_signer lib dg ''Failed to generate address from public key''
       (singlesig_to_address_hash_mode (ss_hash_mode self)) 1 [pubkey] (ss_signer self)) (\<lambda>_.
     Inr next_sighash))"

fun condition_verify ::
  "('k, 'p, 's) secp256k1 \<Rightarrow> digests \<Rightarrow> 'k TransactionSpendingCondition \<Rightarrow> u8 list \<Rightarrow> TransactionAuthFlags
   \<Rightarrow> TransactionAuthVerificationMode \<Rightarrow> auth_exit + u8 list" where
  "condition_verify lib dg (Singlesig data) initial_sighash cond_code mode =
     singlesig_verify lib dg data initial_sighash cond_code mode"
| "condition_verify lib dg (Multisig data) initial_sighash cond_code mode =
     multisig_verify lib dg data initial_sighash cond_code mode"
| "condition_verify lib dg (OrderIndependentMultisig data) initial_sighash cond_code mode =
     order_independent_verify lib dg data initial_sighash cond_code mode"

text \<open>The condition is the state of the signing operations.\<close>

definition push_signature :: "TransactionPublicKeyEncoding \<Rightarrow> u8 list \<Rightarrow> 'k MultisigSpendingCondition \<Rightarrow> 'k MultisigSpendingCondition" where
  "push_signature key_encoding signature self = self\<lparr>ms_fields := ms_fields self @ [SignatureField key_encoding signature]\<rparr>"

definition push_public_key :: "'k StacksPublicKey \<Rightarrow> 'k MultisigSpendingCondition \<Rightarrow> 'k MultisigSpendingCondition" where
  "push_public_key public_key self = self\<lparr>ms_fields := ms_fields self @ [PublicKeyField public_key]\<rparr>"

definition pop_auth_field :: "'k MultisigSpendingCondition \<Rightarrow> 'k TransactionAuthField option \<times> 'k MultisigSpendingCondition" where
  "pop_auth_field self =
     (if ms_fields self = [] then (None, self)
      else (Some (last (ms_fields self)), self\<lparr>ms_fields := butlast (ms_fields self)\<rparr>))"

definition order_independent_push_signature ::
  "TransactionPublicKeyEncoding \<Rightarrow> u8 list \<Rightarrow> 'k OrderIndependentMultisigSpendingCondition \<Rightarrow> 'k OrderIndependentMultisigSpendingCondition" where
  "order_independent_push_signature key_encoding signature self =
     self\<lparr>om_fields := om_fields self @ [SignatureField key_encoding signature]\<rparr>"

definition order_independent_push_public_key ::
  "'k StacksPublicKey \<Rightarrow> 'k OrderIndependentMultisigSpendingCondition \<Rightarrow> 'k OrderIndependentMultisigSpendingCondition" where
  "order_independent_push_public_key public_key self = self\<lparr>om_fields := om_fields self @ [PublicKeyField public_key]\<rparr>"

definition order_independent_pop_auth_field ::
  "'k OrderIndependentMultisigSpendingCondition \<Rightarrow> 'k TransactionAuthField option \<times> 'k OrderIndependentMultisigSpendingCondition" where
  "order_independent_pop_auth_field self =
     (if om_fields self = [] then (None, self)
      else (Some (last (om_fields self)), self\<lparr>om_fields := butlast (om_fields self)\<rparr>))"

definition set_signature :: "u8 list \<Rightarrow> SinglesigSpendingCondition \<Rightarrow> SinglesigSpendingCondition" where
  "set_signature signature self = self\<lparr>ss_signature := signature\<rparr>"

definition pop_signature :: "SinglesigSpendingCondition \<Rightarrow> 'k TransactionAuthField option \<times> SinglesigSpendingCondition" where
  "pop_signature self =
     (if ss_signature self = message_signature_empty then (None, self)
      else (Some (SignatureField (ss_key_encoding self) (ss_signature self)), self\<lparr>ss_signature := message_signature_empty\<rparr>))"

definition sign_and_append ::
  "('k, 'p, 's) secp256k1 \<Rightarrow> digests \<Rightarrow> u8 list \<Rightarrow> TransactionAuthFlags \<Rightarrow> 'p StacksPrivateKey
   \<Rightarrow> 'k TransactionSpendingCondition \<Rightarrow> auth_exit + u8 list \<times> 'k TransactionSpendingCondition" where
  "sign_and_append lib dg cur_sighash auth_flag privk condition =
     rbind (next_signature lib dg cur_sighash auth_flag (tx_fee condition) (nonce condition) privk) (\<lambda>(next_sig, next_sighash).
     let key_encoding = (if sk_compress_public privk then Compressed else Uncompressed)
     in case condition of
       Singlesig cond \<Rightarrow> Inr (next_sighash, Singlesig (set_signature next_sig cond))
     | Multisig cond \<Rightarrow> Inr (next_sighash, Multisig (push_signature key_encoding next_sig cond))
     | OrderIndependentMultisig cond \<Rightarrow>
         Inr (cur_sighash, OrderIndependentMultisig (order_independent_push_signature key_encoding next_sig cond)))"

definition append_pubkey ::
  "'k StacksPublicKey \<Rightarrow> 'k TransactionSpendingCondition \<Rightarrow> auth_exit + 'k TransactionSpendingCondition" where
  "append_pubkey pubkey condition =
     (case condition of
        Multisig cond \<Rightarrow> Inr (Multisig (push_public_key pubkey cond))
      | OrderIndependentMultisig cond \<Rightarrow> Inr (OrderIndependentMultisig (order_independent_push_public_key pubkey cond))
      | Singlesig _ \<Rightarrow> Inl (Fails (AuthSigningError ''Not a multisig condition'')))"

section \<open>Conditions read back\<close>

fun field_ok :: "'k TransactionAuthField \<Rightarrow> bool" where
  "field_ok (PublicKeyField _) \<longleftrightarrow> True"
| "field_ok (SignatureField _ sig) \<longleftrightarrow> length sig = 65"

fun field_compressed :: "'k TransactionAuthField \<Rightarrow> bool" where
  "field_compressed (PublicKeyField pubk) \<longleftrightarrow> pk_compressed pubk"
| "field_compressed (SignatureField key_encoding _) \<longleftrightarrow> key_encoding = Compressed"

definition num_sigs :: "'k TransactionAuthField list \<Rightarrow> nat" where
  "num_sigs fs = length (filter is_signature fs)"

lemma num_sigs_simps [simp]:
  "num_sigs [] = 0" "num_sigs (PublicKeyField k # fs) = num_sigs fs" "num_sigs (SignatureField e g # fs) = Suc (num_sigs fs)"
  "num_sigs (fs @ gs) = num_sigs fs + num_sigs gs"
  by (simp_all add: num_sigs_def)

lemma set_compressed_twice [simp]: "set_compressed b (set_compressed c k) = set_compressed b k"
  by (simp add: set_compressed_def)

lemma set_compressed_same [simp]: "set_compressed (pk_compressed k) k = k"
  by (simp add: set_compressed_def)

lemma set_compressed_flag [simp]: "pk_compressed (set_compressed b k) = b"
  by (simp add: set_compressed_def)

lemma read_key_codes:
  assumes "public_key_laws lib"
  shows "codes (write_bytes (buffer_from_public_key lib k)) (read_key lib (pk_compressed k)) (PublicKeyField k)"
  unfolding read_key_def
  by (rule codes_map [OF codes_read_bytes]) (use assms in \<open>simp_all add: buffer_length buffer_public_key sbind_def sret_def\<close>)

lemma auth_field_codes:
  assumes "public_key_laws lib" "field_ok f"
  shows "codes (encode_auth_field lib f) (decode_auth_field lib) f"
proof (cases f)
  case (PublicKeyField k)
  then show ?thesis using read_key_codes [OF assms(1), of k] unfolding decode_auth_field_def
    by (auto intro!: codes_bind [OF codes_int] codes_one simp del: write_each.simps split: if_splits)
next
  case (SignatureField e g)
  then show ?thesis using assms(2) unfolding decode_auth_field_def
    by (cases e) (auto intro!: codes_bind [OF codes_int] codes_bind [OF codes_read_bytes] codes_end simp del: write_each.simps)
qed

interpretation auth_field_codec: message_codec "encode_auth_field lib" "decode_auth_field lib"
  "\<lambda>f. public_key_laws lib \<and> field_ok f" for lib
  by unfold_locales (simp add: auth_field_codes)

lemma scan_fields_result:
  "unat n + num_sigs fs < 2 ^ 16 \<Longrightarrow>
   scan_fields msg fs n u = Inr (n + word_of_nat (num_sigs fs), u \<or> \<not> list_all field_compressed fs)"
proof (induction fs arbitrary: n u)
  case (Cons f fs)
  show ?case
  proof (cases f)
    case (SignatureField e g)
    with Cons.prems have "checked_add n 1 = Some (n + 1)" "unat (n + 1) = unat n + 1"
      by (auto simp: checked_add_def unat_word_ariths)
    moreover have "e \<noteq> Compressed \<longleftrightarrow> e = Uncompressed" by (cases e) simp_all
    ultimately show ?thesis using Cons SignatureField by (auto simp: algebra_simps)
  qed (use Cons in auto)
qed simp

fun valid_condition :: "layout \<Rightarrow> 'k TransactionSpendingCondition \<Rightarrow> bool" where
  "valid_condition lay (Singlesig data) \<longleftrightarrow>
     length (ss_signer data) = 20 \<and> length (ss_signature data) = 65 \<and>
     (ss_hash_mode data = P2WPKH \<longrightarrow> ss_key_encoding data = Compressed)"
| "valid_condition lay (Multisig data) \<longleftrightarrow>
     length (ms_signer data) = 20 \<and> list_all field_ok (ms_fields data) \<and>
     num_sigs (ms_fields data) = unat (ms_signatures_required data) \<and>
     (ms_hash_mode data = P2WSH \<longrightarrow> list_all field_compressed (ms_fields data)) \<and>
     length (ms_fields data) < 2 ^ 32 \<and> size_of_auth_field lay * length (ms_fields data) \<le> unat MAX_MESSAGE_LEN"
| "valid_condition lay (OrderIndependentMultisig data) \<longleftrightarrow>
     length (om_signer data) = 20 \<and> list_all field_ok (om_fields data) \<and>
     num_sigs (om_fields data) < 2 ^ 16 \<and> unat (om_signatures_required data) \<le> num_sigs (om_fields data) \<and>
     (om_hash_mode data = OrderIndependentP2WSH \<longrightarrow> list_all field_compressed (om_fields data)) \<and>
     length (om_fields data) < 2 ^ 32 \<and> size_of_auth_field lay * length (om_fields data) \<le> unat MAX_MESSAGE_LEN"

lemma mode_from_u8 [simp]:
  "singlesig_mode_from_u8 (singlesig_mode_u8 m) = Some m"
  "multisig_mode_from_u8 (multisig_mode_u8 m') = Some m'"
  "order_independent_mode_from_u8 (order_independent_mode_u8 m'') = Some m''"
  "singlesig_mode_from_u8 (multisig_mode_u8 m') = None"
  "singlesig_mode_from_u8 (order_independent_mode_u8 m'') = None"
  "multisig_mode_from_u8 (order_independent_mode_u8 m'') = None"
  "encoding_from_u8 (encoding_u8 e) = Some e"
  by (cases m; cases m'; cases m''; cases e;
      simp add: singlesig_mode_from_u8_def multisig_mode_from_u8_def order_independent_mode_from_u8_def encoding_from_u8_def)+

declare encoding_u8.simps [simp del] singlesig_mode_u8.simps [simp del] multisig_mode_u8.simps [simp del]
  order_independent_mode_u8.simps [simp del]

lemmas codes_fields = codes_bind [OF codes_int] codes_bind [OF codes_read_bytes] codes_end

lemma codes_auth_fields:
  assumes "public_key_laws lib" "list_all field_ok fs" "length fs < 2 ^ 32" "size_of_auth_field lay * length fs \<le> unat MAX_MESSAGE_LEN"
  shows "codes (write_vec (encode_auth_field lib) fs)
    (bounded (unat MAX_MESSAGE_LEN) (read_vec (size_of_auth_field lay) (decode_auth_field lib))) fs"
  using assms by (intro codes_bounded auth_field_codec.vec) (simp_all add: list_all_iff)

lemma condition_codes:
  assumes "public_key_laws lib" "valid_condition lay c"
  shows "codes (encode_spending_condition lib c) (decode_spending_condition lib lay) c"
proof (cases c)
  case (Singlesig data)
  with assms(2) show ?thesis unfolding decode_spending_condition_def decode_singlesig_after_def
    by (cases data) (auto simp: encode_singlesig_def sbind_assoc intro!: codes_fields simp del: write_each.simps)
next
  case (Multisig data)
  with assms(2) have "scan_fields msg (ms_fields data) 0 False =
      Inr (ms_signatures_required data, \<not> list_all field_compressed (ms_fields data))" for msg
    using scan_fields_result [of 0 "ms_fields data" msg False] unat_lt_exp [of "ms_signatures_required data"] by simp
  with assms Multisig show ?thesis unfolding decode_spending_condition_def decode_multisig_after_def
    by (cases data) (auto simp: encode_multisig_def sbind_assoc intro!: codes_fields codes_bind [OF codes_auth_fields [unfolded message_sizes]]
        simp del: write_each.simps)
next
  case (OrderIndependentMultisig data)
  let ?n = "num_sigs (om_fields data)"
  from OrderIndependentMultisig assms(2) have scan: "scan_fields msg (om_fields data) 0 False =
      Inr (word_of_nat ?n, \<not> list_all field_compressed (om_fields data))" for msg
    using scan_fields_result [of 0 "om_fields data" msg False] by simp
  from OrderIndependentMultisig assms(2) have "\<not> word_of_nat ?n < om_signatures_required data"
    by (simp add: word_less_nat_alt unat_of_nat not_less)
  with scan assms OrderIndependentMultisig show ?thesis unfolding decode_spending_condition_def decode_order_independent_after_def
    by (cases data) (auto simp: encode_order_independent_def sbind_assoc intro!: codes_fields codes_bind [OF codes_auth_fields [unfolded message_sizes]]
        simp del: write_each.simps)
qed

interpretation condition_codec: message_codec "encode_spending_condition lib" "decode_spending_condition lib lay"
  "\<lambda>c. public_key_laws lib \<and> valid_condition lay c" for lib lay
  by unfold_locales (simp add: condition_codes)

section \<open>What verification accepts\<close>

text \<open>
  The keys a condition's fields stand for: a key stands for itself, a signature for the key it
  recovers to against the rolling hash.
\<close>

definition encoding_of :: "bool \<Rightarrow> TransactionPublicKeyEncoding" where
  "encoding_of compressed = (if compressed then Compressed else Uncompressed)"

inductive attests ::
  "('k, 'p, 's) secp256k1 \<Rightarrow> digests \<Rightarrow> bool \<Rightarrow> TransactionAuthFlags \<Rightarrow> u64 \<Rightarrow> u64 \<Rightarrow> TransactionAuthVerificationMode
   \<Rightarrow> u8 list \<Rightarrow> 'k TransactionAuthField list \<Rightarrow> 'k StacksPublicKey list \<Rightarrow> u8 list \<Rightarrow> bool"
  for lib dg rolling flag fee n mode where
  none: "attests lib dg rolling flag fee n mode h [] [] h"
| key: "attests lib dg rolling flag fee n mode h fs ks h' \<Longrightarrow>
    attests lib dg rolling flag fee n mode h (PublicKeyField k # fs) (k # ks) h'"
| signature: "make_sighash_presign dg h flag fee n = Inr p \<Longrightarrow>
    recover_to_pubkey_possibly_with_low_s_verification lib p sig (mode = EnforceLowS) = Inr k \<Longrightarrow>
    make_sighash_postsign dg p (set_compressed (e = Compressed) k) sig = Inr nxt \<Longrightarrow>
    attests lib dg rolling flag fee n mode (if rolling then nxt else h) fs ks h' \<Longrightarrow>
    attests lib dg rolling flag fee n mode h (SignatureField e sig # fs) (set_compressed (e = Compressed) k # ks) h'"

inductive_simps attests_simps [simp]:
  "attests lib dg rolling flag fee n mode h [] ks h'"
  "attests lib dg rolling flag fee n mode h (PublicKeyField k # fs) ks h'"
  "attests lib dg rolling flag fee n mode h (SignatureField e sig # fs) ks h'"

fun locked_to :: "('k, 'p, 's) secp256k1 \<Rightarrow> digests \<Rightarrow> 'k TransactionSpendingCondition \<Rightarrow> 'k StacksPublicKey list \<Rightarrow> bool" where
  "locked_to lib dg (Singlesig d) ks \<longleftrightarrow>
     signer_of lib dg (singlesig_to_address_hash_mode (ss_hash_mode d)) 1 ks = Some (Some (ss_signer d)) \<and>
     ss_key_encoding d = encoding_of (pk_compressed (hd ks))"
| "locked_to lib dg (Multisig d) ks \<longleftrightarrow>
     signer_of lib dg (multisig_to_address_hash_mode (ms_hash_mode d)) (unat (ms_signatures_required d)) ks = Some (Some (ms_signer d))"
| "locked_to lib dg (OrderIndependentMultisig d) ks \<longleftrightarrow>
     signer_of lib dg (order_independent_to_address_hash_mode (om_hash_mode d)) (unat (om_signatures_required d)) ks =
       Some (Some (om_signer d))"

fun authorised ::
  "('k, 'p, 's) secp256k1 \<Rightarrow> digests \<Rightarrow> TransactionAuthFlags \<Rightarrow> TransactionAuthVerificationMode \<Rightarrow> u8 list
   \<Rightarrow> 'k TransactionSpendingCondition \<Rightarrow> 'k StacksPublicKey list \<Rightarrow> u8 list \<Rightarrow> bool" where
  "authorised lib dg flag mode h (Singlesig d) ks h' \<longleftrightarrow>
     attests lib dg True flag (ss_tx_fee d) (ss_nonce d) mode h [SignatureField (ss_key_encoding d) (ss_signature d)] ks h'"
| "authorised lib dg flag mode h (Multisig d) ks h' \<longleftrightarrow>
     attests lib dg True flag (ms_tx_fee d) (ms_nonce d) mode h (ms_fields d) ks h' \<and>
     num_sigs (ms_fields d) = unat (ms_signatures_required d)"
| "authorised lib dg flag mode h (OrderIndependentMultisig d) ks h' \<longleftrightarrow>
     attests lib dg False flag (om_tx_fee d) (om_nonce d) mode h (om_fields d) ks h' \<and>
     unat (om_signatures_required d) \<le> num_sigs (om_fields d) \<and> num_sigs (om_fields d) < 2 ^ 16"

lemma next_verification_eq:
  "next_verification lib dg h flag fee n e sig mode = Inr (k, h') \<longleftrightarrow>
     (\<exists>p k'. make_sighash_presign dg h flag fee n = Inr p \<and>
        recover_to_pubkey_possibly_with_low_s_verification lib p sig (mode = EnforceLowS) = Inr k' \<and>
        k = set_compressed (e = Compressed) k' \<and> make_sighash_postsign dg p k sig = Inr h')"
  by (cases mode; cases e) (auto simp: next_verification_def recover_to_pubkey_def recover_to_pubkey_without_validating_low_s_def Let_def)

lemma attests_stays: "attests lib dg False flag fee n mode h fs ks h' \<Longrightarrow> h' = h"
  by (induction h fs ks h' rule: attests.induct) auto

lemma attests_compressed: "attests lib dg rolling flag fee n mode h fs ks h' \<Longrightarrow>
    length ks = length fs \<and> (list_all field_compressed fs \<longleftrightarrow> list_all pk_compressed ks)"
  by (induction h fs ks h' rule: attests.induct) auto

lemma verify_fields_attests:
  "verify_fields lib dg rolling flag fee n mode fs st = Inr st' \<longleftrightarrow>
     (\<exists>ks h'. attests lib dg rolling flag fee n mode (sc_sighash st) fs ks h' \<and> unat (sc_num_sigs st) + num_sigs fs < 2 ^ 16 \<and>
        st' = \<lparr>sc_sighash = h', sc_num_sigs = sc_num_sigs st + word_of_nat (num_sigs fs),
               sc_uncompressed = (sc_uncompressed st \<or> \<not> list_all field_compressed fs), sc_pubkeys = sc_pubkeys st @ ks\<rparr>)"
proof (induction fs arbitrary: st)
  case Nil
  show ?case using unat_lt_exp [of "sc_num_sigs st"] by (cases st) auto
next
  case (Cons f fs)
  show ?case
  proof (cases f)
    case (PublicKeyField k)
    then show ?thesis using Cons.IH by (simp add: conj_ac) blast
  next
    case (SignatureField e g)
    have u: "e = Uncompressed \<longleftrightarrow> e \<noteq> Compressed" by (cases e) simp_all
    have n: "checked_add (sc_num_sigs st) 1 = Some m \<longleftrightarrow> unat (sc_num_sigs st) + 1 < 2 ^ 16 \<and> m = sc_num_sigs st + 1" for m
      by (auto simp: checked_add_def)
    define st2 where "st2 k h = st\<lparr>sc_sighash := (if rolling then h else sc_sighash st), sc_num_sigs := sc_num_sigs st + 1,
          sc_uncompressed := sc_uncompressed st \<or> e = Uncompressed, sc_pubkeys := sc_pubkeys st @ [k]\<rparr>" for k h
    have fields: "sc_sighash (st2 k h) = (if rolling then h else sc_sighash st)" "sc_num_sigs (st2 k h) = sc_num_sigs st + 1"
      "sc_uncompressed (st2 k h) = (sc_uncompressed st \<or> e \<noteq> Compressed)" "sc_pubkeys (st2 k h) = sc_pubkeys st @ [k]" for k h
      by (simp_all add: st2_def u)
    have bump: "unat (sc_num_sigs st) + 1 < 2 ^ 16 \<and> unat (sc_num_sigs st + 1) + num_sigs fs < 2 ^ 16 \<longleftrightarrow>
        unat (sc_num_sigs st) + num_sigs (f # fs) < 2 ^ 16"
      by (auto simp: SignatureField unat_word_ariths)
    have "verify_fields lib dg rolling flag fee n mode (f # fs) st = Inr st' \<longleftrightarrow>
      (\<exists>k h. next_verification lib dg (sc_sighash st) flag fee n e g mode = Inr (k, h) \<and> unat (sc_num_sigs st) + 1 < 2 ^ 16 \<and>
         verify_fields lib dg rolling flag fee n mode fs (st2 k h) = Inr st')"
      by (auto simp: SignatureField n st2_def)
    then show ?thesis
      unfolding Cons.IH next_verification_eq fields bump [symmetric]
      by (auto simp: SignatureField split del: if_split)
  qed
qed

lemma check_signer_eq: "check_signer lib dg msg mode n ks signer = Inr u \<longleftrightarrow> signer_of lib dg mode n ks = Some (Some signer)"
  by (auto simp: check_signer_def signer_of_def or_panic_def split: if_splits)

lemma if_Inl_eq [simp]: "(if c then Inl e else r) = Inr y \<longleftrightarrow> \<not> c \<and> r = Inr y"
  by simp

lemma ex_result: "(\<exists>x. (\<exists>a b. P a b \<and> x = f a b) \<and> Q x) \<longleftrightarrow> (\<exists>a b. P a b \<and> Q (f a b))"
  by blast

lemma signer_of_segwit: "signer_of lib dg SerializeP2WSH n ks = Some (Some signer) \<Longrightarrow> list_all pk_compressed ks"
  by (auto simp: signer_of_def from_public_keys_def split: if_splits)

lemma segwit_fields:
  "attests lib dg rolling flag fee n mode h fs ks h' \<Longrightarrow> signer_of lib dg SerializeP2WSH m ks = Some (Some signer) \<Longrightarrow>
    list_all field_compressed fs"
  by (auto dest: attests_compressed signer_of_segwit)

lemma condition_verify_eq:
  "condition_verify lib dg c h flag mode = Inr h' \<longleftrightarrow> (\<exists>ks. authorised lib dg flag mode h c ks h' \<and> locked_to lib dg c ks)"
proof (cases c)
  case (Singlesig d)
  have "ss_key_encoding d = encoding_of (ss_key_encoding d = Compressed)" by (cases "ss_key_encoding d") (simp_all add: encoding_of_def)
  with Singlesig show ?thesis
    by (auto simp: singlesig_verify_def next_verification_eq check_signer_eq)
next
  case (Multisig d)
  have count: "num_sigs (ms_fields d) < 2 ^ 16 \<and> word_of_nat (num_sigs (ms_fields d)) = ms_signatures_required d \<longleftrightarrow>
      num_sigs (ms_fields d) = unat (ms_signatures_required d)"
    using unat_lt_exp [of "ms_signatures_required d"] by (auto simp: word_unat_eq_iff unat_of_nat)
  show ?thesis using count
    by (cases "ms_hash_mode d"; auto simp: Multisig multisig_verify_def verify_fields_attests check_signer_eq ex_result
        split del: if_split; blast dest: segwit_fields)
next
  case (OrderIndependentMultisig d)
  have count: "num_sigs (om_fields d) < 2 ^ 16 \<Longrightarrow> word_of_nat (num_sigs (om_fields d)) < om_signatures_required d \<longleftrightarrow>
      num_sigs (om_fields d) < unat (om_signatures_required d)"
    by (simp add: word_less_nat_alt unat_of_nat)
  show ?thesis using count
    by (cases "om_hash_mode d"; auto simp: OrderIndependentMultisig order_independent_verify_def verify_fields_attests check_signer_eq
        ex_result dest: attests_stays split del: if_split; blast dest: segwit_fields attests_stays)
qed

text \<open>
  (C11) A spending condition is accepted exactly when its fields stand for a list of public keys, each
  given or recovered from a signature over the rolling hash, that hash to the condition's signer under
  its hash mode and threshold, with as many signatures as the condition requires (at least as many
  where order does not matter); what verification returns is the hash the last signature leaves.
\<close>

theorem condition_accepted_iff_authorised:
  "condition_verify lib dg c h flag mode = Inr h' \<longleftrightarrow> (\<exists>ks. authorised lib dg flag mode h c ks h' \<and> locked_to lib dg c ks)"
  by (rule condition_verify_eq)

section \<open>What the keys of an account sign is accepted\<close>

text \<open>A signing session: the keys of the account in order, each signing or only being listed.\<close>

datatype ('k, 'p) signing_step = SignWith "'p StacksPrivateKey" | AppendKey "'k StacksPublicKey"

fun step_key :: "('k, 'p, 's) secp256k1 \<Rightarrow> ('k, 'p) signing_step \<Rightarrow> 'k StacksPublicKey" where
  "step_key lib (SignWith privk) = from_private lib privk"
| "step_key lib (AppendKey pubk) = pubk"

fun signs :: "('k, 'p) signing_step \<Rightarrow> bool" where
  "signs (SignWith _) = True"
| "signs (AppendKey _) = False"

fun run_signing ::
  "('k, 'p, 's) secp256k1 \<Rightarrow> digests \<Rightarrow> TransactionAuthFlags \<Rightarrow> ('k, 'p) signing_step list
   \<Rightarrow> u8 list \<times> 'k TransactionSpendingCondition \<Rightarrow> auth_exit + u8 list \<times> 'k TransactionSpendingCondition" where
  "run_signing lib dg flag [] (h, c) = Inr (h, c)"
| "run_signing lib dg flag (SignWith privk # steps) (h, c) =
     rbind (sign_and_append lib dg h flag privk c) (run_signing lib dg flag steps)"
| "run_signing lib dg flag (AppendKey pubk # steps) (h, c) =
     rbind (append_pubkey pubk c) (\<lambda>c. run_signing lib dg flag steps (h, c))"

definition signing_laws :: "('k, 'p, 's) secp256k1 \<Rightarrow> digests \<Rightarrow> bool" where
  "signing_laws lib dg \<longleftrightarrow> signature_laws lib \<and> digest_laws dg"

lemma presign_length: "digest_laws dg \<Longrightarrow> length h = 32 \<Longrightarrow> \<exists>p. make_sighash_presign dg h flag fee n = Inr p \<and> length p = 32"
  by (simp add: make_sighash_presign_def from_sighash_bytes_def digest_laws_def)

lemma postsign_length:
  "digest_laws dg \<Longrightarrow> length p = 32 \<Longrightarrow> length sig = 65 \<Longrightarrow> \<exists>h. make_sighash_postsign dg p k sig = Inr h \<and> length h = 32"
  by (simp add: make_sighash_postsign_def from_sighash_bytes_def digest_laws_def MESSAGE_SIGNATURE_ENCODED_SIZE_def Let_def)

lemma signed_once:
  assumes "signing_laws lib dg" "length h = 32"
  obtains p sig k nxt where "next_signature lib dg h flag fee n sk = Inr (sig, nxt)" "length sig = 65" "length nxt = 32"
    "make_sighash_presign dg h flag fee n = Inr p"
    "\<And>low_s. recover_to_pubkey_possibly_with_low_s_verification lib p sig low_s = Inr k"
    "make_sighash_postsign dg p (from_private lib sk) sig = Inr nxt"
    "set_compressed (sk_compress_public sk) k = from_private lib sk"
proof -
  from assms have laws: "signature_laws lib" "digest_laws dg" by (simp_all add: signing_laws_def)
  from presign_length [OF laws(2) assms(2)] obtain p where p: "make_sighash_presign dg h flag fee n = Inr p" "length p = 32" by blast
  from sign_recover [OF laws(1) p(2), of sk] obtain sig where sig: "sign lib sk p = Inr sig" "length sig = 65"
    "\<And>low_s. recover_to_pubkey_possibly_with_low_s_verification lib p sig low_s = Inr (set_compressed True (from_private lib sk))" by metis
  from postsign_length [OF laws(2) p(2) sig(2)] obtain nxt where
    nx: "make_sighash_postsign dg p (from_private lib sk) sig = Inr nxt" "length nxt = 32" by blast
  have "next_signature lib dg h flag fee n sk = Inr (sig, nxt)"
    by (simp add: next_signature_def p sig nx)
  moreover have "set_compressed (sk_compress_public sk) (set_compressed True (from_private lib sk)) = from_private lib sk"
    by (simp add: from_private_def set_compressed_def)
  ultimately show thesis using that p sig nx by blast
qed

definition signed_fields where
  "signed_fields lib dg rolling flag fee n steps h h' fs \<longleftrightarrow> length h' = 32 \<and> list_all field_ok fs \<and>
     num_sigs fs = length (filter signs steps) \<and> (\<forall>mode. attests lib dg rolling flag fee n mode h fs (map (step_key lib) steps) h')"

definition signature_field :: "'p StacksPrivateKey \<Rightarrow> u8 list \<Rightarrow> 'k TransactionAuthField" where
  "signature_field sk sig = SignatureField (if sk_compress_public sk then Compressed else Uncompressed) sig"

lemma signed_fields_Sign:
  assumes "signing_laws lib dg" "length h = 32"
  shows "\<exists>sig nxt. next_signature lib dg h flag fee n sk = Inr (sig, nxt) \<and> length nxt = 32 \<and>
    (\<forall>steps h' fs. signed_fields lib dg rolling flag fee n steps (if rolling then nxt else h) h' fs \<longrightarrow>
      signed_fields lib dg rolling flag fee n (SignWith sk # steps) h h' (signature_field sk sig # fs))"
proof -
  from signed_once [OF assms, of flag fee n sk] obtain p sig k nxt where
    s: "next_signature lib dg h flag fee n sk = Inr (sig, nxt)" "length sig = 65" "length nxt = 32"
    "make_sighash_presign dg h flag fee n = Inr p"
    "\<And>low_s. recover_to_pubkey_possibly_with_low_s_verification lib p sig low_s = Inr k"
    "make_sighash_postsign dg p (from_private lib sk) sig = Inr nxt"
    "set_compressed (sk_compress_public sk) k = from_private lib sk" by metis
  have flag: "(if sk_compress_public sk then Compressed else Uncompressed) = Compressed \<longleftrightarrow> sk_compress_public sk" by simp
  have "signed_fields lib dg rolling flag fee n (SignWith sk # steps) h h' (signature_field sk sig # fs)"
    if "signed_fields lib dg rolling flag fee n steps (if rolling then nxt else h) h' fs" for steps h' fs
    using that s by (auto simp: signed_fields_def signature_field_def flag split del: if_split)
  with s show ?thesis by blast
qed

lemma signed_fields_Append:
  "signed_fields lib dg rolling flag fee n steps h h' fs \<Longrightarrow>
   signed_fields lib dg rolling flag fee n (AppendKey k # steps) h h' (PublicKeyField k # fs)"
  by (simp add: signed_fields_def)

lemma signed_fields_Nil: "length h = 32 \<Longrightarrow> signed_fields lib dg rolling flag fee n [] h h []"
  by (simp add: signed_fields_def)

lemma multisig_signing:
  assumes "signing_laws lib dg" "length h = 32"
  shows "\<exists>h' fs. run_signing lib dg flag steps (h, Multisig c) = Inr (h', Multisig (c\<lparr>ms_fields := ms_fields c @ fs\<rparr>)) \<and>
    signed_fields lib dg True flag (ms_tx_fee c) (ms_nonce c) steps h h' fs"
  using assms(2)
proof (induction steps arbitrary: h c)
  case Nil
  then show ?case using signed_fields_Nil by (intro exI [of _ h] exI [of _ "[]"]) simp
next
  case (Cons step steps)
  show ?case
  proof (cases step)
    case (SignWith sk)
    from signed_fields_Sign [OF assms(1) Cons.prems, where flag = flag and fee = "ms_tx_fee c" and n = "ms_nonce c" and sk = sk and rolling = True]
    obtain sig nxt where s: "next_signature lib dg h flag (ms_tx_fee c) (ms_nonce c) sk = Inr (sig, nxt)" "length nxt = 32"
      "\<And>steps h' fs. signed_fields lib dg True flag (ms_tx_fee c) (ms_nonce c) steps nxt h' fs \<Longrightarrow>
        signed_fields lib dg True flag (ms_tx_fee c) (ms_nonce c) (SignWith sk # steps) h h' (signature_field sk sig # fs)"
      by auto
    from Cons.IH [OF s(2), of "c\<lparr>ms_fields := ms_fields c @ [signature_field sk sig]\<rparr>"] obtain h' fs where
      "run_signing lib dg flag steps (nxt, Multisig (c\<lparr>ms_fields := ms_fields c @ [signature_field sk sig]\<rparr>)) =
        Inr (h', Multisig (c\<lparr>ms_fields := ms_fields c @ signature_field sk sig # fs\<rparr>))"
      "signed_fields lib dg True flag (ms_tx_fee c) (ms_nonce c) steps nxt h' fs" by auto
    with s SignWith show ?thesis
      by (intro exI [of _ h'] exI [of _ "signature_field sk sig # fs"])
        (simp add: sign_and_append_def push_signature_def signature_field_def Let_def)
  next
    case (AppendKey k)
    from Cons.IH [OF Cons.prems, of "c\<lparr>ms_fields := ms_fields c @ [PublicKeyField k]\<rparr>"] obtain h' fs where
      "run_signing lib dg flag steps (h, Multisig (c\<lparr>ms_fields := ms_fields c @ [PublicKeyField k]\<rparr>)) =
        Inr (h', Multisig (c\<lparr>ms_fields := ms_fields c @ PublicKeyField k # fs\<rparr>))"
      "signed_fields lib dg True flag (ms_tx_fee c) (ms_nonce c) steps h h' fs" by auto
    with AppendKey signed_fields_Append show ?thesis
      by (intro exI [of _ h'] exI [of _ "PublicKeyField k # fs"]) (simp add: append_pubkey_def push_public_key_def)
  qed
qed

lemma order_independent_signing:
  assumes "signing_laws lib dg" "length h = 32"
  shows "\<exists>fs. run_signing lib dg flag steps (h, OrderIndependentMultisig c) =
      Inr (h, OrderIndependentMultisig (c\<lparr>om_fields := om_fields c @ fs\<rparr>)) \<and>
    signed_fields lib dg False flag (om_tx_fee c) (om_nonce c) steps h h fs"
  using assms(2)
proof (induction steps arbitrary: c)
  case Nil
  then show ?case using signed_fields_Nil by (intro exI [of _ "[]"]) simp
next
  case (Cons step steps)
  show ?case
  proof (cases step)
    case (SignWith sk)
    from signed_fields_Sign [OF assms(1) Cons.prems, where flag = flag and fee = "om_tx_fee c" and n = "om_nonce c" and sk = sk and rolling = False]
    obtain sig nxt where s: "next_signature lib dg h flag (om_tx_fee c) (om_nonce c) sk = Inr (sig, nxt)"
      "\<And>steps h' fs. signed_fields lib dg False flag (om_tx_fee c) (om_nonce c) steps h h' fs \<Longrightarrow>
        signed_fields lib dg False flag (om_tx_fee c) (om_nonce c) (SignWith sk # steps) h h' (signature_field sk sig # fs)"
      by auto
    from Cons.IH [OF Cons.prems, of "c\<lparr>om_fields := om_fields c @ [signature_field sk sig]\<rparr>"] obtain fs where
      "run_signing lib dg flag steps (h, OrderIndependentMultisig (c\<lparr>om_fields := om_fields c @ [signature_field sk sig]\<rparr>)) =
        Inr (h, OrderIndependentMultisig (c\<lparr>om_fields := om_fields c @ signature_field sk sig # fs\<rparr>))"
      "signed_fields lib dg False flag (om_tx_fee c) (om_nonce c) steps h h fs" by auto
    with s SignWith show ?thesis
      by (intro exI [of _ "signature_field sk sig # fs"])
        (simp add: sign_and_append_def order_independent_push_signature_def signature_field_def Let_def)
  next
    case (AppendKey k)
    from Cons.IH [OF Cons.prems, of "c\<lparr>om_fields := om_fields c @ [PublicKeyField k]\<rparr>"] obtain fs where
      "run_signing lib dg flag steps (h, OrderIndependentMultisig (c\<lparr>om_fields := om_fields c @ [PublicKeyField k]\<rparr>)) =
        Inr (h, OrderIndependentMultisig (c\<lparr>om_fields := om_fields c @ PublicKeyField k # fs\<rparr>))"
      "signed_fields lib dg False flag (om_tx_fee c) (om_nonce c) steps h h fs" by auto
    with AppendKey signed_fields_Append show ?thesis
      by (intro exI [of _ "PublicKeyField k # fs"]) (simp add: append_pubkey_def order_independent_push_public_key_def)
  qed
qed

text \<open>Conditions not yet signed, and sessions with enough signatures for them.\<close>

fun unsigned :: "'k TransactionSpendingCondition \<Rightarrow> bool" where
  "unsigned (Singlesig d) \<longleftrightarrow> True"
| "unsigned (Multisig d) \<longleftrightarrow> ms_fields d = []"
| "unsigned (OrderIndependentMultisig d) \<longleftrightarrow> om_fields d = []"

fun enough_signatures :: "'k TransactionSpendingCondition \<Rightarrow> ('k, 'p) signing_step list \<Rightarrow> bool" where
  "enough_signatures (Singlesig d) steps \<longleftrightarrow> length steps = 1 \<and> list_all signs steps"
| "enough_signatures (Multisig d) steps \<longleftrightarrow> length (filter signs steps) = unat (ms_signatures_required d)"
| "enough_signatures (OrderIndependentMultisig d) steps \<longleftrightarrow>
     unat (om_signatures_required d) \<le> length (filter signs steps) \<and> length (filter signs steps) < 2 ^ 16"

lemma signing_accepted:
  assumes laws: "signing_laws lib dg" "length h = 32"
    and session: "unsigned c" "locked_to lib dg c (map (step_key lib) steps)" "enough_signatures c steps"
  shows "\<exists>h' c'. run_signing lib dg flag steps (h, c) = Inr (h', c') \<and> length h' = 32 \<and>
    condition_verify lib dg c' h flag mode = Inr h' \<and> clear_condition c' = clear_condition c"
proof (cases c)
  case (Singlesig d)
  with session obtain sk where steps: "steps = [SignWith sk]"
    by (cases steps; cases "hd steps") auto
  from signed_fields_Sign [OF laws, where flag = flag and fee = "ss_tx_fee d" and n = "ss_nonce d" and sk = sk and rolling = True] signed_fields_Nil
  obtain sig nxt where s: "next_signature lib dg h flag (ss_tx_fee d) (ss_nonce d) sk = Inr (sig, nxt)" "length nxt = 32"
    "signed_fields lib dg True flag (ss_tx_fee d) (ss_nonce d) steps h nxt [signature_field sk sig]"
    unfolding steps by (metis (full_types))
  let ?c = "Singlesig (set_signature sig d) :: 'a TransactionSpendingCondition"
  from session Singlesig steps have "ss_key_encoding d = (if sk_compress_public sk then Compressed else Uncompressed)"
    by (simp add: from_private_def encoding_of_def)
  with s session Singlesig have "authorised lib dg flag mode h ?c (map (step_key lib) steps) nxt"
    "locked_to lib dg ?c (map (step_key lib) steps)"
    by (auto simp: signed_fields_def signature_field_def set_signature_def simp del: attests_simps)
  then have "condition_verify lib dg ?c h flag mode = Inr nxt"
    unfolding condition_verify_eq by blast
  with s steps Singlesig show ?thesis by (simp add: sign_and_append_def set_signature_def Let_def)
next
  case (Multisig d)
  from multisig_signing [OF laws, of flag steps d] session Multisig obtain h' fs where
    s: "run_signing lib dg flag steps (h, c) = Inr (h', Multisig (d\<lparr>ms_fields := fs\<rparr>))"
    "signed_fields lib dg True flag (ms_tx_fee d) (ms_nonce d) steps h h' fs" by auto
  with session Multisig have "authorised lib dg flag mode h (Multisig (d\<lparr>ms_fields := fs\<rparr>)) (map (step_key lib) steps) h'"
    "locked_to lib dg (Multisig (d\<lparr>ms_fields := fs\<rparr>)) (map (step_key lib) steps)"
    by (simp_all add: signed_fields_def)
  then have "condition_verify lib dg (Multisig (d\<lparr>ms_fields := fs\<rparr>)) h flag mode = Inr h'"
    unfolding condition_verify_eq by blast
  with s Multisig show ?thesis by (simp add: signed_fields_def)
next
  case (OrderIndependentMultisig d)
  from order_independent_signing [OF laws, of flag steps d] session OrderIndependentMultisig obtain fs where
    s: "run_signing lib dg flag steps (h, c) = Inr (h, OrderIndependentMultisig (d\<lparr>om_fields := fs\<rparr>))"
    "signed_fields lib dg False flag (om_tx_fee d) (om_nonce d) steps h h fs" by auto
  with session OrderIndependentMultisig have
    "authorised lib dg flag mode h (OrderIndependentMultisig (d\<lparr>om_fields := fs\<rparr>)) (map (step_key lib) steps) h"
    "locked_to lib dg (OrderIndependentMultisig (d\<lparr>om_fields := fs\<rparr>)) (map (step_key lib) steps)"
    by (simp_all add: signed_fields_def)
  then have "condition_verify lib dg (OrderIndependentMultisig (d\<lparr>om_fields := fs\<rparr>)) h flag mode = Inr h"
    unfolding condition_verify_eq by blast
  with s laws OrderIndependentMultisig show ?thesis by simp
qed

end
