(* ===== verification/TransactionPayloads.thy ===== *)
theory TransactionPayloads
  imports SpendingConditions ClarityVersions
begin

text \<open>
  What a transaction carries besides its authorisation (\<open>stacks-codec/src/transaction.rs\<close>): contract
  calls, contracts, post-conditions, microblock headers, coinbases with their VRF proofs
  (\<open>stacks-common/src/util/vrf.rs\<close>) and tenure changes, with their wire formats. The lemmas show that
  each reads back from its encoding.
\<close>

section \<open>VRF proofs\<close>

text \<open>The curve library: compressed points and scalars are known by their bytes.\<close>

record ('g, 'c) ed25519 =
  decompress :: "u8 list \<Rightarrow> 'g option"
  compress :: "'g \<Rightarrow> u8 list"
  is_small_order :: "'g \<Rightarrow> bool"
  from_canonical_bytes :: "u8 list \<Rightarrow> 'c option"
  scalar_to_bytes :: "'c \<Rightarrow> u8 list"

definition ed25519_laws :: "('g, 'c) ed25519 \<Rightarrow> bool" where
  "ed25519_laws ed \<longleftrightarrow>
     (\<forall>g. length (compress ed g) = 32 \<and> decompress ed (compress ed g) = Some g) \<and>
     (\<forall>c. length (scalar_to_bytes ed c) = 32 \<and> from_canonical_bytes ed (scalar_to_bytes ed c) = Some c)"

record ('g, 'c) VRFProof =
  vp_Gamma :: 'g
  vp_c :: 'c
  vp_s :: 'c

definition check_c :: "('g, 'c) ed25519 \<Rightarrow> 'c \<Rightarrow> bool" where
  "check_c ed c \<longleftrightarrow> list_all (\<lambda>c_byte. c_byte = 0) (drop 16 (take 32 (scalar_to_bytes ed c)))"

definition vrf_proof_new :: "('g, 'c) ed25519 \<Rightarrow> 'g \<Rightarrow> 'c \<Rightarrow> 'c \<Rightarrow> ('g, 'c) VRFProof option" where
  "vrf_proof_new ed Gamma c s = (if \<not> check_c ed c then None else Some \<lparr>vp_Gamma = Gamma, vp_c = c, vp_s = s\<rparr>)"

definition vrf_proof_from_slice :: "('g, 'c) ed25519 \<Rightarrow> u8 list \<Rightarrow> ('g, 'c) VRFProof option" where
  "vrf_proof_from_slice ed bytes =
     (if length bytes = 80 then
        Option.bind (decompress ed (take 32 bytes)) (\<lambda>gamma.
        if is_small_order ed gamma then None
        else
          let c_buf = take 16 (drop 32 bytes) @ replicate 16 0;
              s_buf = take 32 (drop 48 bytes)
          in Option.bind (from_canonical_bytes ed c_buf) (\<lambda>c.
             Option.bind (from_canonical_bytes ed s_buf) (\<lambda>s.
             Some \<lparr>vp_Gamma = gamma, vp_c = c, vp_s = s\<rparr>)))
      else None)"

text \<open>The empty result is the failed assertion.\<close>

definition vrf_proof_to_bytes :: "('g, 'c) ed25519 \<Rightarrow> ('g, 'c) VRFProof \<Rightarrow> u8 list option" where
  "vrf_proof_to_bytes ed self =
     (if check_c ed (vp_c self)
      then Some (compress ed (vp_Gamma self) @ take 16 (scalar_to_bytes ed (vp_c self)) @ scalar_to_bytes ed (vp_s self))
      else None)"

definition encode_vrf_proof :: "('g, 'c) ed25519 \<Rightarrow> ('g, 'c) VRFProof codec_writes" where
  "encode_vrf_proof ed self =
     rbind (ok_or (vrf_proof_to_bytes ed self) (CodecPanic ''FATAL ERROR: somehow constructed an invalid ECVRF proof'')) write_bytes"

definition decode_vrf_proof :: "('g, 'c) ed25519 \<Rightarrow> ('g, 'c) VRFProof codec_reads" where
  "decode_vrf_proof ed =
     sbind (codec_read_exact 80) (\<lambda>bytes.
     slift (ok_or (vrf_proof_from_slice ed bytes) (DeserializeError (Text ''Failed to parse VRF proof''))))"

section \<open>Contract calls and contracts\<close>

record TransactionContractCall =
  cc_address :: StacksAddress
  cc_contract_name :: string
  cc_function_name :: string
  cc_function_args :: "Value list"

definition encode_contract_call :: "TransactionContractCall codec_writes" where
  "encode_contract_call self =
     write_each [encode_address (cc_address self), encode_contract_name (cc_contract_name self),
       encode_clarity_name (cc_function_name self), write_vec encode_value (cc_function_args self)]"

text \<open>A function name as a printable string: the conversion panics on a name that is not one.\<close>

definition is_clarity_variable :: "u8 list \<Rightarrow> bool" where
  "is_clarity_variable self = (case clarity_name_try_from (bytes_string self) of Inl _ \<Rightarrow> False | Inr _ \<Rightarrow> True)"

definition decode_contract_call :: "layout \<Rightarrow> TransactionContractCall codec_reads" where
  "decode_contract_call lay =
     sbind decode_address (\<lambda>address.
     sbind decode_contract_name (\<lambda>contract_name.
     sbind decode_clarity_name (\<lambda>function_name.
     sbind (bounded (unat MAX_TRANSACTION_LEN) (read_vec (size_of_value lay) decode_value)) (\<lambda>function_args.
     case stacks_string_from_str function_name of
       None \<Rightarrow> sfail (CodecPanic ''called Option::unwrap() on a None value'')
     | Some s \<Rightarrow>
         if \<not> is_clarity_variable s
         then parse_failure ''Failed to parse transaction: invalid function name -- not a Clarity variable''
         else sret \<lparr>cc_address = address, cc_contract_name = contract_name, cc_function_name = function_name,
                    cc_function_args = function_args\<rparr>))))"

record TransactionSmartContract =
  sc_name :: string
  sc_code_body :: "u8 list"

definition encode_smart_contract :: "TransactionSmartContract codec_writes" where
  "encode_smart_contract self = write_each [encode_contract_name (sc_name self), encode_stacks_string (sc_code_body self)]"

definition decode_smart_contract :: "TransactionSmartContract codec_reads" where
  "decode_smart_contract =
     sbind decode_contract_name (\<lambda>name.
     sbind decode_stacks_string (\<lambda>code_body.
     sret \<lparr>sc_name = name, sc_code_body = code_body\<rparr>))"

fun encode_clarity_version :: "ClarityVersion codec_writes" where
  "encode_clarity_version Clarity1 = write_int (1 :: u8)"
| "encode_clarity_version Clarity2 = write_int (2 :: u8)"
| "encode_clarity_version Clarity3 = write_int (3 :: u8)"
| "encode_clarity_version Clarity4 = write_int (4 :: u8)"
| "encode_clarity_version Clarity5 = write_int (5 :: u8)"
| "encode_clarity_version Clarity6 = write_int (6 :: u8)"
| "encode_clarity_version Clarity7 = write_int (7 :: u8)"

definition decode_clarity_version :: "ClarityVersion codec_reads" where
  "decode_clarity_version =
     sbind read_int (\<lambda>version_byte :: u8.
       if version_byte = 1 then sret Clarity1 else if version_byte = 2 then sret Clarity2
       else if version_byte = 3 then sret Clarity3 else if version_byte = 4 then sret Clarity4
       else if version_byte = 5 then sret Clarity5 else if version_byte = 6 then sret Clarity6
       else if version_byte = 7 then sret Clarity7
       else parse_failure (''Unrecognized ClarityVersion byte '' @ show_nat (unat version_byte)))"

section \<open>Post-conditions\<close>

definition encode_asset_info :: "AssetInfo codec_writes" where
  "encode_asset_info self =
     write_each [encode_address (contract_address self), encode_contract_name (ai_contract_name self),
       encode_clarity_name (ai_asset_name self)]"

definition decode_asset_info :: "AssetInfo codec_reads" where
  "decode_asset_info =
     sbind decode_address (\<lambda>contract_address.
     sbind decode_contract_name (\<lambda>contract_name.
     sbind decode_clarity_name (\<lambda>asset_name.
     sret \<lparr>contract_address = contract_address, ai_contract_name = contract_name, ai_asset_name = asset_name\<rparr>)))"

fun encode_post_condition_principal :: "PostConditionPrincipal codec_writes" where
  "encode_post_condition_principal Origin = write_each [write_int (0x01 :: u8)]"
| "encode_post_condition_principal (StandardAddress address) = write_each [write_int (0x02 :: u8), encode_address address]"
| "encode_post_condition_principal (ContractAddress address contract_name) =
     write_each [write_int (0x03 :: u8), encode_address address, encode_contract_name contract_name]"

definition decode_post_condition_principal :: "PostConditionPrincipal codec_reads" where
  "decode_post_condition_principal =
     sbind read_int (\<lambda>principal_id :: u8.
       if principal_id = 0x01 then sret Origin
       else if principal_id = 0x02 then sbind decode_address (\<lambda>addr. sret (StandardAddress addr))
       else if principal_id = 0x03 then
         sbind decode_address (\<lambda>addr. sbind decode_contract_name (\<lambda>contract_name. sret (ContractAddress addr contract_name)))
       else parse_failure (''Failed to parse transaction: unknown post condition principal ID '' @ show_nat (unat principal_id)))"

fun fungible_u8 :: "FungibleConditionCode \<Rightarrow> u8" where
  "fungible_u8 SentEq = 0x01"
| "fungible_u8 SentGt = 0x02"
| "fungible_u8 SentGe = 0x03"
| "fungible_u8 SentLt = 0x04"
| "fungible_u8 SentLe = 0x05"

fun nonfungible_u8 :: "NonfungibleConditionCode \<Rightarrow> u8" where
  "nonfungible_u8 Sent = 0x10"
| "nonfungible_u8 NotSent = 0x11"
| "nonfungible_u8 MaybeSent = 0x12"

fun pox_u8 :: "PoxConditionCode \<Rightarrow> u8" where
  "pox_u8 NotPerformed = 0x30"
| "pox_u8 MaybePerformed = 0x31"
| "pox_u8 Performed = 0x32"

fun encode_post_condition :: "TransactionPostCondition codec_writes" where
  "encode_post_condition (StxCondition account fungible_condition amount) =
     write_each [write_int (0 :: u8), encode_post_condition_principal account, write_int (fungible_u8 fungible_condition), write_int amount]"
| "encode_post_condition (FungibleCondition account asset_info fungible_condition amount) =
     write_each [write_int (1 :: u8), encode_post_condition_principal account, encode_asset_info asset_info,
       write_int (fungible_u8 fungible_condition), write_int amount]"
| "encode_post_condition (NonfungibleCondition account asset_info asset_value nonfungible_condition) =
     write_each [write_int (2 :: u8), encode_post_condition_principal account, encode_asset_info asset_info,
       encode_value asset_value, write_int (nonfungible_u8 nonfungible_condition)]"
| "encode_post_condition (StakingCondition account fungible_condition amount) =
     write_each [write_int (3 :: u8), encode_post_condition_principal account, write_int (fungible_u8 fungible_condition), write_int amount]"
| "encode_post_condition (PoxCondition account pox_condition) =
     write_each [write_int (4 :: u8), encode_post_condition_principal account, write_int (pox_u8 pox_condition)]"

definition condition_code :: "(u8 \<Rightarrow> 'a option) \<Rightarrow> string \<Rightarrow> u8 \<Rightarrow> 'a codec_reads" where
  "condition_code from_u8 what condition_u8 =
     slift (ok_or (from_u8 condition_u8) (DeserializeError (Text (''Failed to parse transaction: Failed to parse '' @ what @
       '' condition code '' @ show_nat (unat condition_u8)))))"

definition decode_post_condition :: "TransactionPostCondition codec_reads" where
  "decode_post_condition =
     sbind read_int (\<lambda>asset_info_id :: u8.
       if asset_info_id = 0 then
         sbind decode_post_condition_principal (\<lambda>principal.
         sbind read_int (\<lambda>condition_u8.
         sbind read_int (\<lambda>amount.
         sbind (condition_code fungible_from_u8 ''STX fungible'' condition_u8) (\<lambda>code.
         sret (StxCondition principal code amount)))))
       else if asset_info_id = 1 then
         sbind decode_post_condition_principal (\<lambda>principal.
         sbind decode_asset_info (\<lambda>asset.
         sbind read_int (\<lambda>condition_u8.
         sbind read_int (\<lambda>amount.
         sbind (condition_code fungible_from_u8 ''FungibleAsset'' condition_u8) (\<lambda>code.
         sret (FungibleCondition principal asset code amount))))))
       else if asset_info_id = 2 then
         sbind decode_post_condition_principal (\<lambda>principal.
         sbind decode_asset_info (\<lambda>asset.
         sbind decode_value (\<lambda>asset_value.
         sbind read_int (\<lambda>condition_u8.
         sbind (condition_code nonfungible_from_u8 ''NonfungibleAsset'' condition_u8) (\<lambda>code.
         sret (NonfungibleCondition principal asset asset_value code))))))
       else if asset_info_id = 3 then
         sbind decode_post_condition_principal (\<lambda>principal.
         sbind read_int (\<lambda>condition_u8.
         sbind read_int (\<lambda>amount.
         sbind (condition_code fungible_from_u8 ''Staking fungible'' condition_u8) (\<lambda>code.
         sret (StakingCondition principal code amount)))))
       else if asset_info_id = 4 then
         sbind decode_post_condition_principal (\<lambda>principal.
         sbind read_int (\<lambda>condition_u8.
         sbind (condition_code pox_from_u8 ''Pox'' condition_u8) (\<lambda>code.
         sret (PoxCondition principal code))))
       else parse_failure (''Failed to parse transaction: unknown asset info ID '' @ show_nat (unat asset_info_id)))"

section \<open>Microblock headers\<close>

record StacksMicroblockHeader =
  mh_version :: u8
  mh_sequence :: u16
  mh_prev_block :: "u8 list"
  mh_tx_merkle_root :: "u8 list"
  mh_signature :: "u8 list"

datatype MicroblockSignerMatch = CommonSigner "u8 list" | DifferentSigners "u8 list" "u8 list"

definition header_serialize :: "bool \<Rightarrow> StacksMicroblockHeader codec_writes" where
  "header_serialize empty_sig self =
     write_each [write_int (mh_version self), write_int (mh_sequence self), write_bytes (mh_prev_block self),
       write_bytes (mh_tx_merkle_root self), write_bytes (if empty_sig then message_signature_empty else mh_signature self)]"

definition encode_microblock_header :: "StacksMicroblockHeader codec_writes" where
  "encode_microblock_header self = header_serialize False self"

definition decode_microblock_header :: "('k, 'p, 's) secp256k1 \<Rightarrow> StacksMicroblockHeader codec_reads" where
  "decode_microblock_header lib =
     sbind read_int (\<lambda>version.
     sbind read_int (\<lambda>seqnum.
     sbind (read_bytes 32) (\<lambda>prev_block.
     sbind (read_bytes 32) (\<lambda>tx_merkle_root.
     sbind (read_bytes 65) (\<lambda>signature.
     sbind (slift (ok_or (to_secp256k1_recoverable lib signature) (DeserializeError (Text ''Failed to parse signature'')))) (\<lambda>_.
     sret \<lparr>mh_version = version, mh_sequence = seqnum, mh_prev_block = prev_block, mh_tx_merkle_root = tx_merkle_root,
           mh_signature = signature\<rparr>))))))"

definition header_bytes :: "bool \<Rightarrow> StacksMicroblockHeader \<Rightarrow> auth_exit + u8 list" where
  "header_bytes empty_sig self = map_err (\<lambda>_. Panics) (header_serialize empty_sig self)"

definition header_sign ::
  "('k, 'p, 's) secp256k1 \<Rightarrow> digests \<Rightarrow> 'p StacksPrivateKey \<Rightarrow> (StacksMicroblockHeader, auth_exit, unit) meth" where
  "header_sign lib dg privk =
     sthen (smodify (mh_signature_update (\<lambda>_. message_signature_empty)))
     (sbind (\<lambda>self. (header_bytes False self, self)) (\<lambda>bytes.
      sbind (slift (map_err (\<lambda>se. Fails (AuthSigningError se)) (sign lib privk (sha512_trunc256 dg bytes)))) (\<lambda>sig.
      smodify (mh_signature_update (\<lambda>_. sig)))))"

definition check_recover_pubkey ::
  "('k, 'p, 's) secp256k1 \<Rightarrow> digests \<Rightarrow> StacksMicroblockHeader \<Rightarrow> auth_exit + u8 list" where
  "check_recover_pubkey lib dg self =
     rbind (header_bytes True self) (\<lambda>bytes.
     rbind (map_err (\<lambda>_. Fails (VerifyingError ''Failed to verify signature: failed to recover public key''))
       (recover_to_pubkey_without_validating_low_s lib (sha512_trunc256 dg bytes) (mh_signature self))) (\<lambda>pubk.
     Inr (from_node_public_key lib dg (set_compressed True pubk))))"

definition recover_signer_match ::
  "('k, 'p, 's) secp256k1 \<Rightarrow> digests \<Rightarrow> StacksMicroblockHeader \<Rightarrow> StacksMicroblockHeader \<Rightarrow> auth_exit + MicroblockSignerMatch" where
  "recover_signer_match lib dg self other =
     rbind (check_recover_pubkey lib dg self) (\<lambda>first.
     rbind (check_recover_pubkey lib dg other) (\<lambda>second.
     Inr (if first = second then CommonSigner first else DifferentSigners first second)))"

definition header_verify ::
  "('k, 'p, 's) secp256k1 \<Rightarrow> digests \<Rightarrow> u8 list \<Rightarrow> StacksMicroblockHeader \<Rightarrow> auth_exit + unit" where
  "header_verify lib dg pubk_hash self =
     rbind (check_recover_pubkey lib dg self) (\<lambda>pubkh.
     if pubkh \<noteq> pubk_hash
     then Inl (Fails (VerifyingError (''Failed to verify signature: public key did not recover to expected hash '' @ to_hex pubkh)))
     else Inr ())"

definition header_block_hash :: "digests \<Rightarrow> StacksMicroblockHeader \<Rightarrow> auth_exit + u8 list" where
  "header_block_hash dg self = rbind (header_bytes False self) (\<lambda>bytes. Inr (sha512_trunc256 dg bytes))"

definition first_unsigned :: "u8 list \<Rightarrow> u8 list \<Rightarrow> StacksMicroblockHeader" where
  "first_unsigned parent_block_hash tx_merkle_root =
     \<lparr>mh_version = 0, mh_sequence = 0, mh_prev_block = parent_block_hash, mh_tx_merkle_root = tx_merkle_root,
      mh_signature = message_signature_empty\<rparr>"

definition first_empty_unsigned :: "u8 list \<Rightarrow> StacksMicroblockHeader" where
  "first_empty_unsigned parent_block_hash = first_unsigned parent_block_hash (replicate 32 0)"

definition from_parent_unsigned ::
  "digests \<Rightarrow> StacksMicroblockHeader \<Rightarrow> u8 list \<Rightarrow> auth_exit + StacksMicroblockHeader option" where
  "from_parent_unsigned dg parent_header tx_merkle_root =
     (case checked_add (mh_sequence parent_header) 1 of
        None \<Rightarrow> Inr None
      | Some next_sequence \<Rightarrow>
          rbind (header_block_hash dg parent_header) (\<lambda>block_hash.
          Inr (Some \<lparr>mh_version = 0, mh_sequence = next_sequence, mh_prev_block = block_hash,
                     mh_tx_merkle_root = tx_merkle_root, mh_signature = message_signature_empty\<rparr>)))"

section \<open>Tenure changes\<close>

datatype TenureChangeCause = BlockFound | Extended | ExtendedRuntime | ExtendedReadCount | ExtendedReadLength
  | ExtendedWriteCount | ExtendedWriteLength

fun cause_u8 :: "TenureChangeCause \<Rightarrow> u8" where
  "cause_u8 BlockFound = 0"
| "cause_u8 Extended = 1"
| "cause_u8 ExtendedRuntime = 2"
| "cause_u8 ExtendedReadCount = 3"
| "cause_u8 ExtendedReadLength = 4"
| "cause_u8 ExtendedWriteCount = 5"
| "cause_u8 ExtendedWriteLength = 6"

definition cause_try_from :: "u8 \<Rightarrow> TenureChangeCause option" where
  "cause_try_from num =
     (if num = 0 then Some BlockFound else if num = 1 then Some Extended else if num = 2 then Some ExtendedRuntime
      else if num = 3 then Some ExtendedReadCount else if num = 4 then Some ExtendedReadLength
      else if num = 5 then Some ExtendedWriteCount else if num = 6 then Some ExtendedWriteLength else None)"

fun expects_sortition :: "TenureChangeCause \<Rightarrow> bool" where
  "expects_sortition BlockFound = True"
| "expects_sortition _ = False"

fun is_new_tenure :: "TenureChangeCause \<Rightarrow> bool" where
  "is_new_tenure BlockFound = True"
| "is_new_tenure _ = False"

fun is_extended :: "TenureChangeCause \<Rightarrow> bool" where
  "is_extended BlockFound = False"
| "is_extended _ = True"

record TenureChangePayload =
  tenure_consensus_hash :: "u8 list"
  prev_tenure_consensus_hash :: "u8 list"
  burn_view_consensus_hash :: "u8 list"
  previous_tenure_end :: "u8 list"
  previous_tenure_blocks :: u32
  tc_cause :: TenureChangeCause
  tc_pubkey_hash :: "u8 list"

definition tenure_extend :: "u8 list \<Rightarrow> u8 list \<Rightarrow> u32 \<Rightarrow> TenureChangePayload \<Rightarrow> TenureChangePayload" where
  "tenure_extend burn_view last_tenure_block_id num_blocks_so_far self =
     \<lparr>tenure_consensus_hash = tenure_consensus_hash self, prev_tenure_consensus_hash = tenure_consensus_hash self,
      burn_view_consensus_hash = burn_view, previous_tenure_end = last_tenure_block_id,
      previous_tenure_blocks = num_blocks_so_far, tc_cause = Extended, tc_pubkey_hash = tc_pubkey_hash self\<rparr>"

definition extend_with_cause ::
  "u8 list \<Rightarrow> u8 list \<Rightarrow> u32 \<Rightarrow> TenureChangeCause \<Rightarrow> TenureChangePayload \<Rightarrow> TenureChangePayload" where
  "extend_with_cause burn_view last_tenure_block_id num_blocks_so_far cause self =
     (tenure_extend burn_view last_tenure_block_id num_blocks_so_far self)\<lparr>tc_cause := cause\<rparr>"

definition encode_tenure_change :: "TenureChangePayload codec_writes" where
  "encode_tenure_change self =
     write_each [write_bytes (tenure_consensus_hash self), write_bytes (prev_tenure_consensus_hash self),
       write_bytes (burn_view_consensus_hash self), write_bytes (previous_tenure_end self),
       write_int (previous_tenure_blocks self), write_int (cause_u8 (tc_cause self)), write_bytes (tc_pubkey_hash self)]"

definition decode_tenure_change :: "TenureChangePayload codec_reads" where
  "decode_tenure_change =
     sbind (read_bytes 20) (\<lambda>tenure.
     sbind (read_bytes 20) (\<lambda>prev_tenure.
     sbind (read_bytes 20) (\<lambda>burn_view.
     sbind (read_bytes 32) (\<lambda>tenure_end.
     sbind read_int (\<lambda>tenure_blocks.
     sbind read_int (\<lambda>cause_field.
     sbind (slift (ok_or (cause_try_from cause_field) (DeserializeError (Text
       (''Unknown cause byte in TenureChange payload: '' @ show_nat (unat cause_field)))))) (\<lambda>cause.
     sbind (read_bytes 20) (\<lambda>pubkey_hash.
     sret \<lparr>tenure_consensus_hash = tenure, prev_tenure_consensus_hash = prev_tenure, burn_view_consensus_hash = burn_view,
           previous_tenure_end = tenure_end, previous_tenure_blocks = tenure_blocks, tc_cause = cause,
           tc_pubkey_hash = pubkey_hash\<rparr>))))))))"

section \<open>Payloads\<close>

datatype ('g, 'c) TransactionPayload =
    TokenTransfer PrincipalData u64 "u8 list"
  | ContractCall TransactionContractCall
  | SmartContract TransactionSmartContract "ClarityVersion option"
  | PoisonMicroblock StacksMicroblockHeader StacksMicroblockHeader
  | Coinbase "u8 list" "PrincipalData option" "('g, 'c) VRFProof option"
  | TenureChange TenureChangePayload

datatype TransactionPayloadID = TokenTransferID | SmartContractID | ContractCallID | PoisonMicroblockID | CoinbaseID
  | CoinbaseToAltRecipientID | VersionedSmartContractID | TenureChangeID | NakamotoCoinbaseID

fun payload_id_u8 :: "TransactionPayloadID \<Rightarrow> u8" where
  "payload_id_u8 TokenTransferID = 0"
| "payload_id_u8 SmartContractID = 1"
| "payload_id_u8 ContractCallID = 2"
| "payload_id_u8 PoisonMicroblockID = 3"
| "payload_id_u8 CoinbaseID = 4"
| "payload_id_u8 CoinbaseToAltRecipientID = 5"
| "payload_id_u8 VersionedSmartContractID = 6"
| "payload_id_u8 TenureChangeID = 7"
| "payload_id_u8 NakamotoCoinbaseID = 8"

definition payload_id_from_u8 :: "u8 \<Rightarrow> TransactionPayloadID option" where
  "payload_id_from_u8 v =
     (if v = 0 then Some TokenTransferID else if v = 1 then Some SmartContractID else if v = 2 then Some ContractCallID
      else if v = 3 then Some PoisonMicroblockID else if v = 4 then Some CoinbaseID
      else if v = 5 then Some CoinbaseToAltRecipientID else if v = 6 then Some VersionedSmartContractID
      else if v = 7 then Some TenureChangeID else if v = 8 then Some NakamotoCoinbaseID else None)"

definition new_contract_call :: "StacksAddress \<Rightarrow> string \<Rightarrow> string \<Rightarrow> Value list \<Rightarrow> ('g, 'c) TransactionPayload option" where
  "new_contract_call call_address contract_name function_name args =
     (case contract_name_try_from contract_name of
        Inl _ \<Rightarrow> None
      | Inr contract_name_str \<Rightarrow>
          (case clarity_name_try_from function_name of
             Inl _ \<Rightarrow> None
           | Inr function_name_str \<Rightarrow>
               Some (ContractCall \<lparr>cc_address = call_address, cc_contract_name = contract_name_str,
                 cc_function_name = function_name_str, cc_function_args = args\<rparr>)))"

definition new_smart_contract :: "string \<Rightarrow> string \<Rightarrow> ClarityVersion option \<Rightarrow> ('g, 'c) TransactionPayload option" where
  "new_smart_contract name contract version_opt =
     (case (contract_name_try_from name, stacks_string_from_str contract) of
        (Inr s_name, Some s_body) \<Rightarrow> Some (SmartContract \<lparr>sc_name = s_name, sc_code_body = s_body\<rparr> version_opt)
      | _ \<Rightarrow> None)"

fun encode_payload :: "('g, 'c) ed25519 \<Rightarrow> ('g, 'c) TransactionPayload codec_writes" where
  "encode_payload ed (TokenTransfer address amount memo) =
     write_each [write_int (payload_id_u8 TokenTransferID), encode_principal address, write_int amount, write_bytes memo]"
| "encode_payload ed (ContractCall cc) = write_each [write_int (payload_id_u8 ContractCallID), encode_contract_call cc]"
| "encode_payload ed (SmartContract sc (Some version)) =
     write_each [write_int (payload_id_u8 VersionedSmartContractID), encode_clarity_version version, encode_smart_contract sc]"
| "encode_payload ed (SmartContract sc None) = write_each [write_int (payload_id_u8 SmartContractID), encode_smart_contract sc]"
| "encode_payload ed (PoisonMicroblock h1 h2) =
     write_each [write_int (payload_id_u8 PoisonMicroblockID), encode_microblock_header h1, encode_microblock_header h2]"
| "encode_payload ed (Coinbase buf None None) = write_each [write_int (payload_id_u8 CoinbaseID), write_bytes buf]"
| "encode_payload ed (Coinbase buf (Some recipient) None) =
     write_each [write_int (payload_id_u8 CoinbaseToAltRecipientID), write_bytes buf, encode_value (Principal recipient)]"
| "encode_payload ed (Coinbase buf None (Some vrf_proof)) =
     write_each [write_int (payload_id_u8 NakamotoCoinbaseID), write_bytes buf, encode_value (Optional None), encode_vrf_proof ed vrf_proof]"
| "encode_payload ed (Coinbase buf (Some recipient) (Some vrf_proof)) =
     write_each [write_int (payload_id_u8 NakamotoCoinbaseID), write_bytes buf,
       rbind (map_err (\<lambda>_. CodecPanic ''FATAL: failed to encode recipient principal as `optional`'') (value_some (Principal recipient)))
         encode_value,
       encode_vrf_proof ed vrf_proof]"
| "encode_payload ed (TenureChange tc) = write_each [write_int (payload_id_u8 TenureChangeID), encode_tenure_change tc]"

definition decode_payload ::
  "('k, 'p, 's) secp256k1 \<Rightarrow> ('g, 'c) ed25519 \<Rightarrow> layout \<Rightarrow> ('g, 'c) TransactionPayload codec_reads" where
  "decode_payload lib ed lay =
     sbind read_int (\<lambda>type_id_u8 :: u8.
     sbind (slift (ok_or (payload_id_from_u8 type_id_u8) (DeserializeError (Text
       (''Failed to parse transaction -- unknown payload ID '' @ show_nat (unat type_id_u8)))))) (\<lambda>type_id.
     case type_id of
       TokenTransferID \<Rightarrow>
         sbind decode_principal (\<lambda>recipient. sbind read_int (\<lambda>amount. sbind (read_bytes 34) (\<lambda>memo.
         sret (TokenTransfer recipient amount memo))))
     | ContractCallID \<Rightarrow> sbind (decode_contract_call lay) (\<lambda>payload. sret (ContractCall payload))
     | SmartContractID \<Rightarrow> sbind decode_smart_contract (\<lambda>payload. sret (SmartContract payload None))
     | VersionedSmartContractID \<Rightarrow>
         sbind decode_clarity_version (\<lambda>version. sbind decode_smart_contract (\<lambda>payload. sret (SmartContract payload (Some version))))
     | PoisonMicroblockID \<Rightarrow>
         sbind (decode_microblock_header lib) (\<lambda>h1. sbind (decode_microblock_header lib) (\<lambda>h2.
         if h1 = h2 then parse_failure ''Failed to parse transaction -- microblock headers match''
         else if mh_sequence h1 \<noteq> mh_sequence h2 \<and> mh_prev_block h1 \<noteq> mh_prev_block h2
         then parse_failure ''Failed to parse transaction -- microblock headers do not identify a fork''
         else sret (PoisonMicroblock h1 h2)))
     | CoinbaseID \<Rightarrow> sbind (read_bytes 32) (\<lambda>payload. sret (Coinbase payload None None))
     | CoinbaseToAltRecipientID \<Rightarrow>
         sbind (read_bytes 32) (\<lambda>payload. sbind decode_value (\<lambda>principal_value.
         case principal_value of
           Principal recipient_principal \<Rightarrow> sret (Coinbase payload (Some recipient_principal) None)
         | _ \<Rightarrow> parse_failure ''Failed to parse coinbase transaction -- did not receive a recipient principal value''))
     | NakamotoCoinbaseID \<Rightarrow>
         sbind (read_bytes 32) (\<lambda>payload. sbind decode_value (\<lambda>principal_value_opt.
         sbind (case principal_value_opt of
                  Optional (Some (Principal recipient_principal)) \<Rightarrow> sret (Some recipient_principal)
                | Optional _ \<Rightarrow> sret None
                | _ \<Rightarrow> parse_failure ''Failed to parse nakamoto coinbase transaction -- did not receive an optional recipient principal value'')
           (\<lambda>recipient_opt.
         sbind (decode_vrf_proof ed) (\<lambda>vrf_proof. sret (Coinbase payload recipient_opt (Some vrf_proof))))))
     | TenureChangeID \<Rightarrow> sbind decode_tenure_change (\<lambda>payload. sret (TenureChange payload))))"

section \<open>Payloads read back\<close>

definition valid_vrf_proof :: "('g, 'c) ed25519 \<Rightarrow> ('g, 'c) VRFProof \<Rightarrow> bool" where
  "valid_vrf_proof ed v \<longleftrightarrow> ed25519_laws ed \<and> check_c ed (vp_c v) \<and> \<not> is_small_order ed (vp_Gamma v)"

lemma vrf_proof_codes:
  assumes "valid_vrf_proof ed v"
  shows "codes (encode_vrf_proof ed v) (decode_vrf_proof ed) v"
proof -
  let ?c = "scalar_to_bytes ed (vp_c v)"
  from assms have len: "length (compress ed g) = 32" "length (scalar_to_bytes ed c) = 32" for g c
    by (simp_all add: valid_vrf_proof_def ed25519_laws_def)
  from assms have "list_all (\<lambda>b. b = 0) (drop 16 ?c)" by (simp add: valid_vrf_proof_def check_c_def len)
  then have "drop 16 ?c = replicate 16 0"
    by (intro replicate_eqI) (auto simp: len list_all_iff)
  then have c: "take 16 ?c @ replicate 16 0 = ?c" using append_take_drop_id [of 16 ?c] by simp
  let ?bs = "compress ed (vp_Gamma v) @ take 16 ?c @ scalar_to_bytes ed (vp_s v)"
  have "vrf_proof_from_slice ed ?bs = Some v" using assms c
    by (cases v) (simp add: vrf_proof_from_slice_def len valid_vrf_proof_def ed25519_laws_def Let_def)
  with assms show ?thesis unfolding decode_vrf_proof_def
    by (auto simp: encode_vrf_proof_def vrf_proof_to_bytes_def valid_vrf_proof_def len intro!: codes_map [OF codes_bytes])
qed

interpretation vrf_proof_codec: message_codec "encode_vrf_proof ed" "decode_vrf_proof ed" "valid_vrf_proof ed" for ed
  by unfold_locales (rule vrf_proof_codes)

lemma clarity_name_printable:
  assumes "clarity_name_regex s" "c \<in> set s"
  shows "32 \<le> (of_char c :: nat) \<and> of_char c \<le> (126 :: nat)"
proof -
  have letters: "32 \<le> (of_char c :: nat) \<and> of_char c \<le> (126 :: nat)" if "is_letter c \<or> is_digit c \<or> c \<in> set ''-_!?+<>=/*''"
    using that by (auto simp: is_letter_def is_digit_def Let_def)
  consider x xs where "s = x # xs" "is_letter x" "\<forall>x \<in> set xs. is_letter x \<or> is_digit x \<or> x \<in> set ''-_!?+<>=/*''"
    | "s \<in> set [''-'', ''+'', ''='', ''/'', ''*'', ''<'', ''>'', ''<='', ''>='']"
    using assms(1) unfolding clarity_name_regex_def by (cases s) fastforce+
  then show ?thesis
  proof cases
    case 1
    with assms(2) have "is_letter c \<or> is_digit c \<or> c \<in> set ''-_!?+<>=/*''" by (metis set_ConsD)
    then show ?thesis by (rule letters)
  next
    case 2
    with assms(2) show ?thesis by auto
  qed
qed

lemma stacks_string_of_name: "valid_name s \<Longrightarrow> stacks_string_from_str s = Some (string_bytes s)"
proof -
  assume "valid_name s"
  then have "clarity_name_regex s" by (auto simp: valid_name_def clarity_name_try_from_def split: if_splits)
  then have "\<forall>b \<in> set (string_bytes s). 32 \<le> unat b \<and> unat b \<le> 126"
    using clarity_name_printable by (fastforce simp: string_bytes_def unat_of_nat)
  then have "is_valid_string (string_bytes s)"
    by (auto simp: is_valid_string_def is_printable_def list_all_iff list_ex_iff word_less_nat_alt)
  then show ?thesis by (simp add: stacks_string_from_str_def)
qed

definition valid_contract_call :: "layout \<Rightarrow> TransactionContractCall \<Rightarrow> bool" where
  "valid_contract_call lay cc \<longleftrightarrow> valid_address (cc_address cc) \<and> valid_contract_name (cc_contract_name cc) \<and>
     valid_name (cc_function_name cc) \<and> list_all (constructed UNSANITIZED_DEPTH_CHECK) (cc_function_args cc) \<and>
     length (cc_function_args cc) < 2 ^ 32 \<and> size_of_value lay * length (cc_function_args cc) \<le> unat MAX_MESSAGE_LEN"

lemmas codes_names = codes_bind [OF address_codes] codes_bind [OF contract_name_codes] codes_bind [OF clarity_name_codes]
  codes_bind [OF stacks_string_codes] codes_bind [OF value_codes]

lemma codes_args:
  assumes "list_all (constructed UNSANITIZED_DEPTH_CHECK) args" "length args < 2 ^ 32" "size_of * length args \<le> unat MAX_MESSAGE_LEN"
  shows "codes (write_vec encode_value args) (bounded (unat MAX_TRANSACTION_LEN) (read_vec size_of decode_value)) args"
  using assms by (intro codes_bounded value_codec.vec) simp_all

lemma contract_call_codes:
  assumes "valid_contract_call lay cc"
  shows "codes (encode_contract_call cc) (decode_contract_call lay) cc"
proof -
  from assms have "is_clarity_variable (string_bytes (cc_function_name cc))"
    by (simp add: is_clarity_variable_def bytes_string_bytes valid_contract_call_def valid_name_def)
  with assms show ?thesis unfolding encode_contract_call_def decode_contract_call_def
    by (cases cc) (auto simp: valid_contract_call_def stacks_string_of_name simp del: write_each.simps message_sizes
        intro!: codes_names codes_bind [OF codes_args] codes_end)
qed

definition valid_smart_contract :: "TransactionSmartContract \<Rightarrow> bool" where
  "valid_smart_contract sc \<longleftrightarrow> valid_contract_name (sc_name sc) \<and> is_valid_string (sc_code_body sc)"

lemma smart_contract_codes: "valid_smart_contract sc \<Longrightarrow> codes (encode_smart_contract sc) decode_smart_contract sc"
  unfolding encode_smart_contract_def decode_smart_contract_def
  by (cases sc) (auto simp: valid_smart_contract_def simp del: write_each.simps intro!: codes_names codes_end)

lemma clarity_version_codes: "codes (encode_clarity_version v) decode_clarity_version v"
  unfolding decode_clarity_version_def by (cases v) (auto intro!: codes_map [OF codes_int])

definition valid_asset_info :: "AssetInfo \<Rightarrow> bool" where
  "valid_asset_info a \<longleftrightarrow> valid_address (contract_address a) \<and> valid_contract_name (ai_contract_name a) \<and> valid_name (ai_asset_name a)"

lemma asset_info_codes: "valid_asset_info a \<Longrightarrow> codes (encode_asset_info a) decode_asset_info a"
  unfolding encode_asset_info_def decode_asset_info_def
  by (cases a) (auto simp: valid_asset_info_def simp del: write_each.simps intro!: codes_names codes_end)

fun valid_post_condition_principal :: "PostConditionPrincipal \<Rightarrow> bool" where
  "valid_post_condition_principal Origin \<longleftrightarrow> True"
| "valid_post_condition_principal (StandardAddress a) \<longleftrightarrow> valid_address a"
| "valid_post_condition_principal (ContractAddress a n) \<longleftrightarrow> valid_address a \<and> valid_contract_name n"

lemma post_condition_principal_codes:
  "valid_post_condition_principal p \<Longrightarrow> codes (encode_post_condition_principal p) decode_post_condition_principal p"
  unfolding decode_post_condition_principal_def
  by (cases p) (auto simp del: write_each.simps intro!: codes_bind [OF codes_int] codes_names codes_end)

fun valid_post_condition :: "TransactionPostCondition \<Rightarrow> bool" where
  "valid_post_condition (StxCondition p _ _) \<longleftrightarrow> valid_post_condition_principal p"
| "valid_post_condition (FungibleCondition p a _ _) \<longleftrightarrow> valid_post_condition_principal p \<and> valid_asset_info a"
| "valid_post_condition (NonfungibleCondition p a v _) \<longleftrightarrow>
     valid_post_condition_principal p \<and> valid_asset_info a \<and> constructed UNSANITIZED_DEPTH_CHECK v"
| "valid_post_condition (StakingCondition p _ _) \<longleftrightarrow> valid_post_condition_principal p"
| "valid_post_condition (PoxCondition p _) \<longleftrightarrow> valid_post_condition_principal p"

lemma fungible_code [simp]: "condition_code fungible_from_u8 w (fungible_u8 f) = sret f"
  by (cases f) (simp_all add: condition_code_def fungible_from_u8_def)

lemma nonfungible_code [simp]: "condition_code nonfungible_from_u8 w (nonfungible_u8 n) = sret n"
  by (cases n) (simp_all add: condition_code_def nonfungible_from_u8_def)

lemma pox_code [simp]: "condition_code pox_from_u8 w (pox_u8 p) = sret p"
  by (cases p) (simp_all add: condition_code_def pox_from_u8_def)

declare fungible_u8.simps [simp del] nonfungible_u8.simps [simp del] pox_u8.simps [simp del]

lemma post_condition_codes: "valid_post_condition p \<Longrightarrow> codes (encode_post_condition p) decode_post_condition p"
  unfolding decode_post_condition_def
  by (cases p) (auto simp del: write_each.simps intro!: codes_bind [OF codes_int] codes_names codes_end
      codes_bind [OF post_condition_principal_codes] codes_bind [OF asset_info_codes])

interpretation post_condition_codec: message_codec encode_post_condition decode_post_condition valid_post_condition
  by unfold_locales (rule post_condition_codes)

definition valid_header :: "('k, 'p, 's) secp256k1 \<Rightarrow> StacksMicroblockHeader \<Rightarrow> bool" where
  "valid_header lib h \<longleftrightarrow> length (mh_prev_block h) = 32 \<and> length (mh_tx_merkle_root h) = 32 \<and> length (mh_signature h) = 65 \<and>
     to_secp256k1_recoverable lib (mh_signature h) \<noteq> None"

lemma header_codes: "valid_header lib h \<Longrightarrow> codes (encode_microblock_header h) (decode_microblock_header lib) h"
  unfolding encode_microblock_header_def header_serialize_def decode_microblock_header_def
  by (cases h) (auto simp: valid_header_def simp del: write_each.simps intro!: codes_fields)

definition valid_tenure_change :: "TenureChangePayload \<Rightarrow> bool" where
  "valid_tenure_change tc \<longleftrightarrow> length (tenure_consensus_hash tc) = 20 \<and> length (prev_tenure_consensus_hash tc) = 20 \<and>
     length (burn_view_consensus_hash tc) = 20 \<and> length (previous_tenure_end tc) = 32 \<and> length (tc_pubkey_hash tc) = 20"

lemma cause_from_u8 [simp]: "cause_try_from (cause_u8 c) = Some c"
  by (cases c) (simp_all add: cause_try_from_def)

declare cause_u8.simps [simp del]

lemma tenure_change_codes: "valid_tenure_change tc \<Longrightarrow> codes (encode_tenure_change tc) decode_tenure_change tc"
  unfolding encode_tenure_change_def decode_tenure_change_def
  by (cases tc) (auto simp: valid_tenure_change_def simp del: write_each.simps intro!: codes_fields)

lemma payload_id_of_u8 [simp]: "payload_id_from_u8 (payload_id_u8 i) = Some i"
  by (cases i) (simp_all add: payload_id_from_u8_def)

declare payload_id_u8.simps [simp del]

fun valid_payload :: "('k, 'p, 's) secp256k1 \<Rightarrow> ('g, 'c) ed25519 \<Rightarrow> layout \<Rightarrow> ('g, 'c) TransactionPayload \<Rightarrow> bool" where
  "valid_payload lib ed lay (TokenTransfer p _ memo) \<longleftrightarrow> wf_principal p \<and> length memo = 34"
| "valid_payload lib ed lay (ContractCall cc) \<longleftrightarrow> valid_contract_call lay cc"
| "valid_payload lib ed lay (SmartContract sc _) \<longleftrightarrow> valid_smart_contract sc"
| "valid_payload lib ed lay (PoisonMicroblock h1 h2) \<longleftrightarrow> valid_header lib h1 \<and> valid_header lib h2 \<and> h1 \<noteq> h2 \<and>
     (mh_sequence h1 = mh_sequence h2 \<or> mh_prev_block h1 = mh_prev_block h2)"
| "valid_payload lib ed lay (Coinbase buf recipient vrf) \<longleftrightarrow> length buf = 32 \<and> pred_option wf_principal recipient \<and>
     pred_option (valid_vrf_proof ed) vrf"
| "valid_payload lib ed lay (TenureChange tc) \<longleftrightarrow> valid_tenure_change tc"

lemma principal_wraps: "value_some (Principal p) = Inr (Optional (Some (Principal p)))"
proof -
  have "\<not> PRINCIPAL_SIZE + WRAPPER_VALUE_SIZE > MAX_VALUE_SIZE" "\<not> (1 :: u8) + 1 > MAX_TYPE_DEPTH"
    by code_simp+
  then show ?thesis
    by (simp add: value_some_def check_wrapped_def value_size_def value_depth_def type_sig_size_def)
qed

lemma no_recipient: "constructed UNSANITIZED_DEPTH_CHECK (Optional None)"
  using constructed.leaf [of "Optional None" 15] by (simp add: UNSANITIZED_DEPTH_CHECK_def)

lemma recipient_values:
  assumes "wf_principal p"
  shows "value_some (Principal p) = Inr (Optional (Some (Principal p)))"
    "constructed UNSANITIZED_DEPTH_CHECK (Principal p)" "constructed UNSANITIZED_DEPTH_CHECK (Optional (Some (Principal p)))"
proof -
  have d: "UNSANITIZED_DEPTH_CHECK = Suc (Suc 14)" by (simp add: UNSANITIZED_DEPTH_CHECK_def)
  show some: "value_some (Principal p) = Inr (Optional (Some (Principal p)))"
    by (rule principal_wraps)
  show "constructed UNSANITIZED_DEPTH_CHECK (Principal p)"
    unfolding d by (rule constructed.leaf) (simp add: assms)
  show "constructed UNSANITIZED_DEPTH_CHECK (Optional (Some (Principal p)))"
    unfolding d by (rule constructed.some [OF constructed.leaf some]) (simp add: assms)
qed

lemma payload_codes:
  assumes "valid_payload lib ed lay p"
  shows "codes (encode_payload ed p) (decode_payload lib ed lay) p"
proof (cases "(ed, p)" rule: encode_payload.cases)
qed (use assms in \<open>auto simp: decode_payload_def recipient_values no_recipient simp del: write_each.simps
    intro!: codes_fields codes_names codes_bind [OF principal_codec.roundtrip] codes_bind [OF contract_call_codes]
      codes_bind [OF smart_contract_codes] codes_bind [OF clarity_version_codes] codes_bind [OF header_codes]
      codes_bind [OF vrf_proof_codes] codes_bind [OF tenure_change_codes]\<close>)

interpretation payload_codec: message_codec "encode_payload ed" "decode_payload lib ed lay" "valid_payload lib ed lay" for lib ed lay
  by unfold_locales (rule payload_codes)

end
