(* ===== verification/Transactions.thy ===== *)
theory Transactions
  imports TransactionPayloads
begin

unbundle bit_operations_syntax

text \<open>
  Transactions (\<open>stacks-codec/src/transaction.rs\<close>): authorisations, the transaction with its wire
  format, identifiers, signing by origin and sponsor, verification and addresses. The theorems show
  that a transaction reads back from its bytes, that what origin and sponsor sign is accepted, and
  what their signatures commit to.
\<close>

section \<open>Authorisations\<close>

datatype 'k TransactionAuth =
    StandardAuth "'k TransactionSpendingCondition"
  | Sponsored "'k TransactionSpendingCondition" "'k TransactionSpendingCondition"

fun encode_auth :: "('k, 'p, 's) secp256k1 \<Rightarrow> 'k TransactionAuth codec_writes" where
  "encode_auth lib (StandardAuth origin_condition) =
     write_each [write_int (auth_flag_u8 AuthStandard), encode_spending_condition lib origin_condition]"
| "encode_auth lib (Sponsored origin_condition sponsor_condition) =
     write_each [write_int (auth_flag_u8 AuthSponsored), encode_spending_condition lib origin_condition,
       encode_spending_condition lib sponsor_condition]"

text \<open>The reader of spending conditions is an argument, as the reader of items is for vectors.\<close>

definition decode_auth :: "'k TransactionSpendingCondition codec_reads \<Rightarrow> 'k TransactionAuth codec_reads" where
  "decode_auth read_condition =
     sbind read_int (\<lambda>type_id :: u8.
       if type_id = 0x04 then sbind read_condition (\<lambda>origin_auth. sret (StandardAuth origin_auth))
       else if type_id = 0x05 then
         sbind read_condition (\<lambda>origin_auth. sbind read_condition (\<lambda>sponsor_auth. sret (Sponsored origin_auth sponsor_auth)))
       else parse_failure (''Failed to parse transaction authorization: unrecognized auth flags '' @ show_nat (unat type_id)))"

definition from_p2pkh :: "('k, 'p, 's) secp256k1 \<Rightarrow> digests \<Rightarrow> 'p StacksPrivateKey \<Rightarrow> 'k TransactionAuth option option" where
  "from_p2pkh lib dg privk = map_option (map_option StandardAuth) (new_singlesig_p2pkh lib dg (from_private lib privk))"

definition from_p2sh :: "('k, 'p, 's) secp256k1 \<Rightarrow> digests \<Rightarrow> 'p StacksPrivateKey list \<Rightarrow> u16 \<Rightarrow> 'k TransactionAuth option option" where
  "from_p2sh lib dg privks n =
     map_option (map_option StandardAuth) (new_multisig_p2sh lib dg n (map (from_private lib) privks))"

definition from_order_independent_p2sh ::
  "('k, 'p, 's) secp256k1 \<Rightarrow> digests \<Rightarrow> 'p StacksPrivateKey list \<Rightarrow> u16 \<Rightarrow> 'k TransactionAuth option option" where
  "from_order_independent_p2sh lib dg privks n =
     map_option (map_option StandardAuth) (new_multisig_order_independent_p2sh lib dg n (map (from_private lib) privks))"

definition from_order_independent_p2wsh ::
  "('k, 'p, 's) secp256k1 \<Rightarrow> digests \<Rightarrow> 'p StacksPrivateKey list \<Rightarrow> u16 \<Rightarrow> 'k TransactionAuth option option" where
  "from_order_independent_p2wsh lib dg privks n =
     map_option (map_option StandardAuth) (new_multisig_order_independent_p2wsh lib dg n (map (from_private lib) privks))"

definition from_p2wpkh :: "('k, 'p, 's) secp256k1 \<Rightarrow> digests \<Rightarrow> 'p StacksPrivateKey \<Rightarrow> 'k TransactionAuth option option" where
  "from_p2wpkh lib dg privk = map_option (map_option StandardAuth) (new_singlesig_p2wpkh lib dg (from_private lib privk))"

definition from_p2wsh :: "('k, 'p, 's) secp256k1 \<Rightarrow> digests \<Rightarrow> 'p StacksPrivateKey list \<Rightarrow> u16 \<Rightarrow> 'k TransactionAuth option option" where
  "from_p2wsh lib dg privks n =
     map_option (map_option StandardAuth) (new_multisig_p2wsh lib dg n (map (from_private lib) privks))"

fun into_sponsored :: "'k TransactionAuth \<Rightarrow> 'k TransactionAuth \<Rightarrow> 'k TransactionAuth option" where
  "into_sponsored (StandardAuth sc) (StandardAuth sp) = Some (Sponsored sc sp)"
| "into_sponsored _ _ = None"

fun set_sponsor :: "'k TransactionSpendingCondition \<Rightarrow> 'k TransactionAuth \<Rightarrow> AuthError + 'k TransactionAuth" where
  "set_sponsor sponsor_spending_cond (Sponsored oc _) = Inr (Sponsored oc sponsor_spending_cond)"
| "set_sponsor sponsor_spending_cond (StandardAuth _) = Inl IncompatibleSpendingConditionError"

fun is_standard :: "'k TransactionAuth \<Rightarrow> bool" where
  "is_standard (StandardAuth _) = True"
| "is_standard (Sponsored _ _) = False"

fun is_sponsored :: "'k TransactionAuth \<Rightarrow> bool" where
  "is_sponsored (StandardAuth _) = False"
| "is_sponsored (Sponsored _ _) = True"

fun into_initial_sighash_auth :: "'k TransactionAuth \<Rightarrow> 'k TransactionAuth" where
  "into_initial_sighash_auth (StandardAuth oc) = StandardAuth (clear_condition oc)"
| "into_initial_sighash_auth (Sponsored oc _) = Sponsored (clear_condition oc) new_initial_sighash"

fun auth_origin :: "'k TransactionAuth \<Rightarrow> 'k TransactionSpendingCondition" where
  "auth_origin (StandardAuth s) = s"
| "auth_origin (Sponsored s _) = s"

fun auth_sponsor :: "'k TransactionAuth \<Rightarrow> 'k TransactionSpendingCondition option" where
  "auth_sponsor (StandardAuth _) = None"
| "auth_sponsor (Sponsored _ s) = Some s"

definition get_origin_nonce :: "'k TransactionAuth \<Rightarrow> u64" where
  "get_origin_nonce self = nonce (auth_origin self)"

fun set_origin_nonce :: "u64 \<Rightarrow> 'k TransactionAuth \<Rightarrow> 'k TransactionAuth" where
  "set_origin_nonce n (StandardAuth s) = StandardAuth (set_nonce n s)"
| "set_origin_nonce n (Sponsored s sp) = Sponsored (set_nonce n s) sp"

definition get_sponsor_nonce :: "'k TransactionAuth \<Rightarrow> u64 option" where
  "get_sponsor_nonce self = map_option nonce (auth_sponsor self)"

fun set_sponsor_nonce :: "u64 \<Rightarrow> 'k TransactionAuth \<Rightarrow> AuthError + 'k TransactionAuth" where
  "set_sponsor_nonce n (StandardAuth _) = Inl IncompatibleSpendingConditionError"
| "set_sponsor_nonce n (Sponsored oc s) = Inr (Sponsored oc (set_nonce n s))"

fun auth_set_tx_fee :: "u64 \<Rightarrow> 'k TransactionAuth \<Rightarrow> 'k TransactionAuth" where
  "auth_set_tx_fee fee (StandardAuth s) = StandardAuth (set_tx_fee fee s)"
| "auth_set_tx_fee fee (Sponsored oc s) = Sponsored oc (set_tx_fee fee s)"

fun auth_get_tx_fee :: "'k TransactionAuth \<Rightarrow> u64" where
  "auth_get_tx_fee (StandardAuth s) = tx_fee s"
| "auth_get_tx_fee (Sponsored _ s) = tx_fee s"

definition auth_verify_origin ::
  "('k, 'p, 's) secp256k1 \<Rightarrow> digests \<Rightarrow> 'k TransactionAuth \<Rightarrow> u8 list \<Rightarrow> TransactionAuthVerificationMode \<Rightarrow> auth_exit + u8 list" where
  "auth_verify_origin lib dg self initial_sighash mode =
     (case self of
        StandardAuth origin_condition \<Rightarrow> condition_verify lib dg origin_condition initial_sighash AuthStandard mode
      | Sponsored origin_condition _ \<Rightarrow> condition_verify lib dg origin_condition initial_sighash AuthStandard mode)"

definition auth_verify ::
  "('k, 'p, 's) secp256k1 \<Rightarrow> digests \<Rightarrow> 'k TransactionAuth \<Rightarrow> u8 list \<Rightarrow> TransactionAuthVerificationMode \<Rightarrow> auth_exit + unit" where
  "auth_verify lib dg self initial_sighash mode =
     rbind (auth_verify_origin lib dg self initial_sighash mode) (\<lambda>origin_sighash.
     case self of
       StandardAuth _ \<Rightarrow> Inr ()
     | Sponsored _ sponsor_condition \<Rightarrow>
         rbind (condition_verify lib dg sponsor_condition origin_sighash AuthSponsored mode) (\<lambda>_. Inr ()))"

fun auth_clear :: "'k TransactionAuth \<Rightarrow> 'k TransactionAuth" where
  "auth_clear (StandardAuth oc) = StandardAuth (clear_condition oc)"
| "auth_clear (Sponsored oc sc) = Sponsored (clear_condition oc) (clear_condition sc)"

fun auth_supported_in_epoch :: "StacksEpochId \<Rightarrow> 'k TransactionAuth \<Rightarrow> bool" where
  "auth_supported_in_epoch epoch (StandardAuth oc) = condition_supported_in_epoch epoch oc"
| "auth_supported_in_epoch epoch (Sponsored oc sc) =
     (condition_supported_in_epoch epoch oc \<and> condition_supported_in_epoch epoch sc)"

section \<open>Transactions\<close>

datatype TransactionVersion = Mainnet | Testnet

fun version_u8 :: "TransactionVersion \<Rightarrow> u8" where
  "version_u8 Mainnet = 0x00"
| "version_u8 Testnet = 0x80"

datatype TransactionAnchorMode = OnChainOnly | OffChainOnly | AnyMode

fun anchor_mode_u8 :: "TransactionAnchorMode \<Rightarrow> u8" where
  "anchor_mode_u8 OnChainOnly = 1"
| "anchor_mode_u8 OffChainOnly = 2"
| "anchor_mode_u8 AnyMode = 3"

fun post_condition_mode_u8 :: "TransactionPostConditionMode \<Rightarrow> u8" where
  "post_condition_mode_u8 Allow = 0x01"
| "post_condition_mode_u8 Deny = 0x02"
| "post_condition_mode_u8 Originator = 0x03"

record ('k, 'g, 'c) StacksTransaction =
  st_version :: TransactionVersion
  st_chain_id :: u32
  st_auth :: "'k TransactionAuth"
  st_anchor_mode :: TransactionAnchorMode
  st_post_condition_mode :: TransactionPostConditionMode
  st_post_conditions :: "TransactionPostCondition list"
  st_payload :: "('g, 'c) TransactionPayload"

definition encode_transaction ::
  "('k, 'p, 's) secp256k1 \<Rightarrow> ('g, 'c) ed25519 \<Rightarrow> ('k, 'g, 'c) StacksTransaction codec_writes" where
  "encode_transaction lib ed self =
     write_each [write_int (version_u8 (st_version self)), write_int (st_chain_id self), encode_auth lib (st_auth self),
       write_int (anchor_mode_u8 (st_anchor_mode self)), write_int (post_condition_mode_u8 (st_post_condition_mode self)),
       write_vec encode_post_condition (st_post_conditions self), encode_payload ed (st_payload self)]"

definition anchor_mode_of :: "u8 \<Rightarrow> CodecError + TransactionAnchorMode" where
  "anchor_mode_of n =
     (if n = 2 then Inr OffChainOnly else if n = 1 then Inr OnChainOnly else if n = 3 then Inr AnyMode
      else Inl (DeserializeError (Text (''Failed to parse transaction: invalid anchor mode '' @ show_nat (unat n)))))"

definition check_anchored :: "('g, 'c) TransactionPayload \<Rightarrow> TransactionAnchorMode \<Rightarrow> CodecError + unit" where
  "check_anchored payload anchor_mode =
     (case payload of
        PoisonMicroblock _ _ \<Rightarrow>
          if anchor_mode \<noteq> OnChainOnly
          then Inl (DeserializeError (Text ''Failed to parse transaction: invalid anchor mode for PoisonMicroblock'')) else Inr ()
      | Coinbase _ _ _ \<Rightarrow>
          if anchor_mode \<noteq> OnChainOnly
          then Inl (DeserializeError (Text ''Failed to parse transaction: invalid anchor mode for Coinbase'')) else Inr ()
      | _ \<Rightarrow> Inr ())"

definition post_condition_mode_of :: "u8 \<Rightarrow> CodecError + TransactionPostConditionMode" where
  "post_condition_mode_of n =
     (if n = 0x01 then Inr Allow else if n = 0x02 then Inr Deny else if n = 0x03 then Inr Originator
      else Inl (DeserializeError (Text (''Failed to parse transaction: invalid post-condition mode '' @ show_nat (unat n)))))"

definition read_transaction ::
  "'k TransactionSpendingCondition codec_reads \<Rightarrow> ('k, 'p, 's) secp256k1 \<Rightarrow> ('g, 'c) ed25519 \<Rightarrow> layout
   \<Rightarrow> ('k, 'g, 'c) StacksTransaction codec_reads" where
  "read_transaction read_condition lib ed lay =
     sbind read_int (\<lambda>version_u8 :: u8.
     sbind read_int (\<lambda>chain_id.
     sbind (decode_auth read_condition) (\<lambda>auth.
     sbind read_int (\<lambda>anchor_mode_u8.
     sbind read_int (\<lambda>post_condition_mode_u8.
     sbind (read_vec (size_of_post_condition lay) decode_post_condition) (\<lambda>post_conditions.
     sbind (decode_payload lib ed lay) (\<lambda>payload.
     sbind (slift (anchor_mode_of anchor_mode_u8)) (\<lambda>anchor_mode.
     sbind (slift (check_anchored payload anchor_mode)) (\<lambda>_.
     sbind (slift (post_condition_mode_of post_condition_mode_u8)) (\<lambda>post_condition_mode.
     sret \<lparr>st_version = (if version_u8 AND 0x80 = 0 then Mainnet else Testnet), st_chain_id = chain_id, st_auth = auth,
           st_anchor_mode = anchor_mode, st_post_condition_mode = post_condition_mode,
           st_post_conditions = post_conditions, st_payload = payload\<rparr>))))))))))"

definition consensus_deserialize_with_len ::
  "('k, 'p, 's) secp256k1 \<Rightarrow> ('g, 'c) ed25519 \<Rightarrow> layout \<Rightarrow> u8 list \<Rightarrow> CodecError + ('k, 'g, 'c) StacksTransaction \<times> nat" where
  "consensus_deserialize_with_len lib ed lay fd =
     (case read_transaction (decode_spending_condition lib lay) lib ed lay (from_reader fd (unat MAX_TRANSACTION_LEN)) of
        (r, reader) \<Rightarrow> rbind r (\<lambda>tx. Inr (tx, br_read_so_far reader)))"

definition tx_len :: "('k, 'p, 's) secp256k1 \<Rightarrow> ('g, 'c) ed25519 \<Rightarrow> ('k, 'g, 'c) StacksTransaction \<Rightarrow> auth_exit + nat" where
  "tx_len lib ed self = rbind (map_err (\<lambda>_. Panics) (encode_transaction lib ed self)) (\<lambda>tx_bytes. Inr (length tx_bytes))"

definition try_as_coinbase ::
  "('k, 'g, 'c) StacksTransaction \<Rightarrow> (u8 list \<times> PrincipalData option \<times> ('g, 'c) VRFProof option) option" where
  "try_as_coinbase self =
     (case st_payload self of
        Coinbase payload recipient_opt vrf_proof_opt \<Rightarrow> Some (payload, recipient_opt, vrf_proof_opt)
      | _ \<Rightarrow> None)"

definition try_as_tenure_change :: "('k, 'g, 'c) StacksTransaction \<Rightarrow> TenureChangePayload option" where
  "try_as_tenure_change self = (case st_payload self of TenureChange tc_payload \<Rightarrow> Some tc_payload | _ \<Rightarrow> None)"

definition transaction_new ::
  "TransactionVersion \<Rightarrow> 'k TransactionAuth \<Rightarrow> ('g, 'c) TransactionPayload \<Rightarrow> ('k, 'g, 'c) StacksTransaction" where
  "transaction_new version auth payload =
     \<lparr>st_version = version, st_chain_id = 0, st_auth = auth,
      st_anchor_mode = (case payload of Coinbase _ _ _ \<Rightarrow> OnChainOnly | PoisonMicroblock _ _ \<Rightarrow> OnChainOnly | _ \<Rightarrow> AnyMode),
      st_post_condition_mode = Deny, st_post_conditions = [], st_payload = payload\<rparr>"

definition transaction_set_tx_fee :: "u64 \<Rightarrow> ('k, 'g, 'c) StacksTransaction \<Rightarrow> ('k, 'g, 'c) StacksTransaction" where
  "transaction_set_tx_fee fee self = self\<lparr>st_auth := auth_set_tx_fee fee (st_auth self)\<rparr>"

definition transaction_set_origin_nonce :: "u64 \<Rightarrow> ('k, 'g, 'c) StacksTransaction \<Rightarrow> ('k, 'g, 'c) StacksTransaction" where
  "transaction_set_origin_nonce n self = self\<lparr>st_auth := set_origin_nonce n (st_auth self)\<rparr>"

definition transaction_set_sponsor_nonce ::
  "u64 \<Rightarrow> ('k, 'g, 'c) StacksTransaction \<Rightarrow> AuthError + ('k, 'g, 'c) StacksTransaction" where
  "transaction_set_sponsor_nonce n self =
     rbind (set_sponsor_nonce n (st_auth self)) (\<lambda>auth. Inr (self\<lparr>st_auth := auth\<rparr>))"

definition set_anchor_mode :: "TransactionAnchorMode \<Rightarrow> ('k, 'g, 'c) StacksTransaction \<Rightarrow> ('k, 'g, 'c) StacksTransaction" where
  "set_anchor_mode anchor_mode self = self\<lparr>st_anchor_mode := anchor_mode\<rparr>"

definition set_post_condition_mode ::
  "TransactionPostConditionMode \<Rightarrow> ('k, 'g, 'c) StacksTransaction \<Rightarrow> ('k, 'g, 'c) StacksTransaction" where
  "set_post_condition_mode postcond_mode self = self\<lparr>st_post_condition_mode := postcond_mode\<rparr>"

definition add_post_condition ::
  "TransactionPostCondition \<Rightarrow> ('k, 'g, 'c) StacksTransaction \<Rightarrow> ('k, 'g, 'c) StacksTransaction" where
  "add_post_condition post_condition self = self\<lparr>st_post_conditions := st_post_conditions self @ [post_condition]\<rparr>"

definition from_stacks_tx :: "digests \<Rightarrow> u8 list \<Rightarrow> u8 list" where
  "from_stacks_tx dg txdata = sha512_trunc256 dg txdata"

definition txid :: "('k, 'p, 's) secp256k1 \<Rightarrow> digests \<Rightarrow> ('g, 'c) ed25519 \<Rightarrow> ('k, 'g, 'c) StacksTransaction \<Rightarrow> auth_exit + u8 list" where
  "txid lib dg ed self =
     rbind (map_err (\<lambda>_. Panics) (encode_transaction lib ed self)) (\<lambda>bytes. Inr (from_stacks_tx dg bytes))"

definition sign_begin :: "('k, 'p, 's) secp256k1 \<Rightarrow> digests \<Rightarrow> ('g, 'c) ed25519 \<Rightarrow> ('k, 'g, 'c) StacksTransaction \<Rightarrow> auth_exit + u8 list" where
  "sign_begin lib dg ed self = txid lib dg ed (self\<lparr>st_auth := into_initial_sighash_auth (st_auth self)\<rparr>)"

definition verify_begin :: "('k, 'p, 's) secp256k1 \<Rightarrow> digests \<Rightarrow> ('g, 'c) ed25519 \<Rightarrow> ('k, 'g, 'c) StacksTransaction \<Rightarrow> auth_exit + u8 list" where
  "verify_begin lib dg ed self = txid lib dg ed (self\<lparr>st_auth := into_initial_sighash_auth (st_auth self)\<rparr>)"

definition sign_next_origin ::
  "('k, 'p, 's) secp256k1 \<Rightarrow> digests \<Rightarrow> u8 list \<Rightarrow> 'p StacksPrivateKey \<Rightarrow> ('k, 'g, 'c) StacksTransaction
   \<Rightarrow> auth_exit + u8 list \<times> ('k, 'g, 'c) StacksTransaction" where
  "sign_next_origin lib dg cur_sighash privk self =
     (case st_auth self of
        StandardAuth origin_condition \<Rightarrow>
          rbind (sign_and_append lib dg cur_sighash AuthStandard privk origin_condition) (\<lambda>(next_sighash, oc).
          Inr (next_sighash, self\<lparr>st_auth := StandardAuth oc\<rparr>))
      | Sponsored origin_condition sc \<Rightarrow>
          rbind (sign_and_append lib dg cur_sighash AuthStandard privk origin_condition) (\<lambda>(next_sighash, oc).
          Inr (next_sighash, self\<lparr>st_auth := Sponsored oc sc\<rparr>)))"

definition append_next_origin ::
  "'k StacksPublicKey \<Rightarrow> ('k, 'g, 'c) StacksTransaction \<Rightarrow> auth_exit + ('k, 'g, 'c) StacksTransaction" where
  "append_next_origin pubk self =
     (case st_auth self of
        StandardAuth origin_condition \<Rightarrow>
          rbind (append_pubkey pubk origin_condition) (\<lambda>oc. Inr (self\<lparr>st_auth := StandardAuth oc\<rparr>))
      | Sponsored origin_condition sc \<Rightarrow>
          rbind (append_pubkey pubk origin_condition) (\<lambda>oc. Inr (self\<lparr>st_auth := Sponsored oc sc\<rparr>)))"

definition sign_next_sponsor ::
  "('k, 'p, 's) secp256k1 \<Rightarrow> digests \<Rightarrow> u8 list \<Rightarrow> 'p StacksPrivateKey \<Rightarrow> ('k, 'g, 'c) StacksTransaction
   \<Rightarrow> auth_exit + u8 list \<times> ('k, 'g, 'c) StacksTransaction" where
  "sign_next_sponsor lib dg cur_sighash privk self =
     (case st_auth self of
        StandardAuth _ \<Rightarrow> Inl (Fails (AuthSigningError ''Cannot sign standard authorization with a sponsoring private key''))
      | Sponsored oc sponsor_condition \<Rightarrow>
          rbind (sign_and_append lib dg cur_sighash AuthSponsored privk sponsor_condition) (\<lambda>(next_sighash, sc).
          Inr (next_sighash, self\<lparr>st_auth := Sponsored oc sc\<rparr>)))"

definition append_next_sponsor ::
  "'k StacksPublicKey \<Rightarrow> ('k, 'g, 'c) StacksTransaction \<Rightarrow> auth_exit + ('k, 'g, 'c) StacksTransaction" where
  "append_next_sponsor pubk self =
     (case st_auth self of
        StandardAuth _ \<Rightarrow>
          Inl (Fails (AuthSigningError ''Cannot appned a public key to the sponsor of a standard auth condition''))
      | Sponsored oc sponsor_condition \<Rightarrow>
          rbind (append_pubkey pubk sponsor_condition) (\<lambda>sc. Inr (self\<lparr>st_auth := Sponsored oc sc\<rparr>)))"

definition transaction_verify ::
  "('k, 'p, 's) secp256k1 \<Rightarrow> digests \<Rightarrow> ('g, 'c) ed25519 \<Rightarrow> TransactionAuthVerificationMode \<Rightarrow> ('k, 'g, 'c) StacksTransaction
   \<Rightarrow> auth_exit + unit" where
  "transaction_verify lib dg ed mode self =
     rbind (verify_begin lib dg ed self) (\<lambda>initial_sighash. auth_verify lib dg (st_auth self) initial_sighash mode)"

definition transaction_verify_origin ::
  "('k, 'p, 's) secp256k1 \<Rightarrow> digests \<Rightarrow> ('g, 'c) ed25519 \<Rightarrow> TransactionAuthVerificationMode \<Rightarrow> ('k, 'g, 'c) StacksTransaction
   \<Rightarrow> auth_exit + u8 list" where
  "transaction_verify_origin lib dg ed mode self =
     rbind (verify_begin lib dg ed self) (\<lambda>initial_sighash. auth_verify_origin lib dg (st_auth self) initial_sighash mode)"

definition origin_address :: "('k, 'g, 'c) StacksTransaction \<Rightarrow> StacksAddress" where
  "origin_address self =
     (case st_version self of
        Mainnet \<Rightarrow> address_mainnet (auth_origin (st_auth self))
      | Testnet \<Rightarrow> address_testnet (auth_origin (st_auth self)))"

definition sponsor_address :: "('k, 'g, 'c) StacksTransaction \<Rightarrow> StacksAddress option" where
  "sponsor_address self =
     (case st_auth self of
        StandardAuth _ \<Rightarrow> None
      | Sponsored _ sponsor_condition \<Rightarrow>
          Some (case st_version self of Mainnet \<Rightarrow> address_mainnet sponsor_condition | Testnet \<Rightarrow> address_testnet sponsor_condition))"

definition get_payer :: "('k, 'g, 'c) StacksTransaction \<Rightarrow> 'k TransactionSpendingCondition" where
  "get_payer self = (case auth_sponsor (st_auth self) of Some tsc \<Rightarrow> tsc | None \<Rightarrow> auth_origin (st_auth self))"

definition transaction_is_mainnet :: "('k, 'g, 'c) StacksTransaction \<Rightarrow> bool" where
  "transaction_is_mainnet self \<longleftrightarrow> st_version self = Mainnet"

text \<open>The empty result is the panic on an address with a version out of range.\<close>

definition burn_address :: "bool \<Rightarrow> StacksAddress option" where
  "burn_address mainnet =
     (case stacks_address_new (if mainnet then C32_ADDRESS_VERSION_MAINNET_SINGLESIG else C32_ADDRESS_VERSION_TESTNET_SINGLESIG)
        (replicate 20 0) of Inl _ \<Rightarrow> None | Inr a \<Rightarrow> Some a)"

definition is_phantom :: "('k, 'g, 'c) StacksTransaction \<Rightarrow> bool option" where
  "is_phantom self =
     Option.bind (burn_address (transaction_is_mainnet self)) (\<lambda>burn.
     map_option (\<lambda>boot_address.
       case st_payload self of
         TokenTransfer address amount _ \<Rightarrow> address = Standard boot_address \<and> amount = 0
       | _ \<Rightarrow> False) (standard_from_address burn))"

section \<open>Transactions read back\<close>

fun conditions :: "'k TransactionAuth \<Rightarrow> 'k TransactionSpendingCondition list" where
  "conditions (StandardAuth oc) = [oc]"
| "conditions (Sponsored oc sc) = [oc, sc]"

lemma auth_codes:
  assumes "list_all (\<lambda>c. codes (encode_spending_condition lib c) rc c) (conditions a)"
  shows "codes (encode_auth lib a) (decode_auth rc) a"
proof (cases a)
  case (StandardAuth oc)
  with assms show ?thesis unfolding decode_auth_def
    by (auto simp del: write_each.simps intro!: codes_bind [OF codes_int] codes_bind [of _ rc oc] codes_end)
next
  case (Sponsored oc sc)
  with assms show ?thesis unfolding decode_auth_def
    by (auto simp del: write_each.simps intro!: codes_bind [OF codes_int] codes_end
        codes_bind [of "encode_spending_condition lib oc" rc oc] codes_bind [of "encode_spending_condition lib sc" rc sc])
qed

text \<open>What a transaction holds beside its spending conditions, as the wire format can carry it.\<close>

definition valid_contents :: "('k, 'p, 's) secp256k1 \<Rightarrow> ('g, 'c) ed25519 \<Rightarrow> layout \<Rightarrow> ('k, 'g, 'c) StacksTransaction \<Rightarrow> bool" where
  "valid_contents lib ed lay tx \<longleftrightarrow>
     check_anchored (st_payload tx) (st_anchor_mode tx) = Inr () \<and> valid_payload lib ed lay (st_payload tx) \<and>
     list_all valid_post_condition (st_post_conditions tx) \<and> length (st_post_conditions tx) < 2 ^ 32 \<and>
     size_of_post_condition lay * length (st_post_conditions tx) \<le> unat MAX_MESSAGE_LEN"

lemma transaction_bytes [simp]:
  "anchor_mode_of (anchor_mode_u8 m) = Inr m" "post_condition_mode_of (post_condition_mode_u8 p) = Inr p"
  "(if version_u8 v AND 0x80 = 0 then Mainnet else Testnet) = v"
proof -
  show "anchor_mode_of (anchor_mode_u8 m) = Inr m" by (cases m) (simp_all add: anchor_mode_of_def)
  show "post_condition_mode_of (post_condition_mode_u8 p) = Inr p" by (cases p) (simp_all add: post_condition_mode_of_def)
  show "(if version_u8 v AND 0x80 = 0 then Mainnet else Testnet) = v" by (cases v) simp_all
qed

lemma transaction_codes:
  assumes "list_all (\<lambda>c. codes (encode_spending_condition lib c) rc c) (conditions (st_auth tx))" "valid_contents lib ed lay tx"
  shows "codes (encode_transaction lib ed tx) (read_transaction rc lib ed lay) tx"
proof -
  from assms(2) have vec: "codes (write_vec encode_post_condition (st_post_conditions tx))
      (read_vec (size_of_post_condition lay) decode_post_condition) (st_post_conditions tx)"
    by (intro post_condition_codec.vec) (simp_all add: valid_contents_def)
  from assms(2) have pay: "codes (encode_payload ed (st_payload tx)) (decode_payload lib ed lay) (st_payload tx)"
    and anchored: "check_anchored (st_payload tx) (st_anchor_mode tx) = Inr ()"
    by (simp_all add: valid_contents_def payload_codec.roundtrip)
  show ?thesis unfolding encode_transaction_def read_transaction_def
    by (rule codes_bind [OF codes_int] codes_bind [OF auth_codes [OF assms(1)]] codes_bind [OF vec] codes_bind [OF pay] | simp; fail)+
      (use anchored in \<open>cases tx, simp add: codes_end del: write_each.simps\<close>)
qed

definition valid_transaction :: "('k, 'p, 's) secp256k1 \<Rightarrow> ('g, 'c) ed25519 \<Rightarrow> layout \<Rightarrow> ('k, 'g, 'c) StacksTransaction \<Rightarrow> bool" where
  "valid_transaction lib ed lay tx \<longleftrightarrow>
     list_all (valid_condition lay) (conditions (st_auth tx)) \<and> valid_contents lib ed lay tx"

interpretation transaction_codec: message_codec "encode_transaction lib ed" "read_transaction (decode_spending_condition lib lay) lib ed lay"
  "\<lambda>tx. public_key_laws lib \<and> valid_transaction lib ed lay tx" for lib ed lay
  by unfold_locales (auto simp: valid_transaction_def list_all_iff intro!: transaction_codes condition_codes)

text \<open>
  (C14) A transaction reads back from its bytes: serialising a well-formed transaction returns, and
  when the bytes fit the largest transaction, reading them gives the same transaction and the number
  of bytes it took, whatever follows them on the wire.
\<close>

theorem transaction_roundtrip:
  assumes "public_key_laws lib" "valid_transaction lib ed lay tx"
  shows "\<exists>bs. encode_transaction lib ed tx = Inr bs \<and>
    (length bs \<le> unat MAX_TRANSACTION_LEN \<longrightarrow>
      (\<forall>rest. consensus_deserialize_with_len lib ed lay (bs @ rest) = Inr (tx, length bs)))"
proof -
  from transaction_codec.roundtrip assms have "codes (encode_transaction lib ed tx)
      (read_transaction (decode_spending_condition lib lay) lib ed lay) tx" by blast
  then show ?thesis unfolding codes_def accepts_def
    by (auto simp: consensus_deserialize_with_len_def from_reader_def message_sizes)
qed

section \<open>What signatures commit to\<close>

text \<open>
  The cleared form a signature starts from is not a transaction the node would accept, as it lacks the
  signatures. A reader without that check reads it back, so that its bytes determine it.
\<close>

definition read_contents where
  "read_contents lib lay =
     sbind (read_bytes 20) (\<lambda>signer. sbind read_int (\<lambda>nonce :: u64. sbind read_int (\<lambda>tx_fee :: u64.
     sbind (bounded (unat MAX_MESSAGE_LEN) (read_vec (size_of_auth_field lay) (decode_auth_field lib))) (\<lambda>fields.
     sbind read_int (\<lambda>signatures_required :: u16. sret (signer, nonce, tx_fee, fields, signatures_required))))))"

definition read_unsigned_condition :: "('k, 'p, 's) secp256k1 \<Rightarrow> layout \<Rightarrow> 'k TransactionSpendingCondition codec_reads" where
  "read_unsigned_condition lib lay =
     sbind read_int (\<lambda>b.
       case multisig_mode_from_u8 b of
         Some m \<Rightarrow> sbind (read_contents lib lay) (\<lambda>(s, n, f, fs, r). sret (Multisig
           \<lparr>ms_hash_mode = m, ms_signer = s, ms_nonce = n, ms_tx_fee = f, ms_fields = fs, ms_signatures_required = r\<rparr>))
       | None \<Rightarrow> (case order_independent_mode_from_u8 b of
           Some m \<Rightarrow> sbind (read_contents lib lay) (\<lambda>(s, n, f, fs, r). sret (OrderIndependentMultisig
             \<lparr>om_hash_mode = m, om_signer = s, om_nonce = n, om_tx_fee = f, om_fields = fs, om_signatures_required = r\<rparr>))
         | None \<Rightarrow> sbind (decode_singlesig_after b) (\<lambda>d. sret (Singlesig d))))"

fun valid_account :: "'k TransactionSpendingCondition \<Rightarrow> bool" where
  "valid_account (Singlesig d) \<longleftrightarrow>
     length (ss_signer d) = 20 \<and> (ss_hash_mode d = P2WPKH \<longrightarrow> ss_key_encoding d = Compressed)"
| "valid_account (Multisig d) \<longleftrightarrow> length (ms_signer d) = 20"
| "valid_account (OrderIndependentMultisig d) \<longleftrightarrow> length (om_signer d) = 20"

lemma other_modes [simp]:
  "multisig_mode_from_u8 (singlesig_mode_u8 m) = None" "order_independent_mode_from_u8 (singlesig_mode_u8 m) = None"
  by (cases m; simp add: singlesig_mode_u8.simps multisig_mode_from_u8_def order_independent_mode_from_u8_def)+

lemma unsigned_condition_codes:
  assumes "public_key_laws lib" "valid_account c"
  shows "codes (encode_spending_condition lib (clear_condition c)) (read_unsigned_condition lib lay) (clear_condition c)"
proof (cases c)
  case (Singlesig data)
  with assms(2) show ?thesis unfolding read_unsigned_condition_def decode_singlesig_after_def
    by (cases data) (auto simp: encode_singlesig_def sbind_assoc message_signature_empty_def intro!: codes_fields simp del: write_each.simps)
next
  case (Multisig data)
  with assms show ?thesis unfolding read_unsigned_condition_def read_contents_def
    by (cases data) (auto simp: encode_multisig_def sbind_assoc intro!: codes_fields
        codes_bind [OF codes_auth_fields [unfolded message_sizes]] simp del: write_each.simps)
next
  case (OrderIndependentMultisig data)
  with assms show ?thesis unfolding read_unsigned_condition_def read_contents_def
    by (cases data) (auto simp: encode_order_independent_def sbind_assoc intro!: codes_fields
        codes_bind [OF codes_auth_fields [unfolded message_sizes]] simp del: write_each.simps)
qed

definition initial_form :: "('k, 'g, 'c) StacksTransaction \<Rightarrow> ('k, 'g, 'c) StacksTransaction" where
  "initial_form tx = tx\<lparr>st_auth := into_initial_sighash_auth (st_auth tx)\<rparr>"

definition signable :: "('k, 'p, 's) secp256k1 \<Rightarrow> ('g, 'c) ed25519 \<Rightarrow> layout \<Rightarrow> ('k, 'g, 'c) StacksTransaction \<Rightarrow> bool" where
  "signable lib ed lay tx \<longleftrightarrow> valid_account (auth_origin (st_auth tx)) \<and> valid_contents lib ed lay tx"

lemma clear_condition_twice [simp]: "clear_condition (clear_condition c) = clear_condition c"
  by (cases c) simp_all

lemma initial_sighash_clear [simp]: "clear_condition new_initial_sighash = new_initial_sighash" "valid_account new_initial_sighash"
  by (simp_all add: new_initial_sighash_def)

lemma valid_account_clear [simp]: "valid_account (clear_condition c) = valid_account c"
  by (cases c) simp_all

lemma initial_form_twice [simp]: "initial_form (initial_form tx) = initial_form tx"
  by (cases "st_auth tx") (simp_all add: initial_form_def)

lemma signable_initial_form [simp]: "signable lib ed lay (initial_form tx) = signable lib ed lay tx"
  by (cases "st_auth tx") (simp_all add: initial_form_def signable_def valid_contents_def)

lemma initial_form_codes:
  assumes "public_key_laws lib" "signable lib ed lay tx"
  shows "codes (encode_transaction lib ed (initial_form tx)) (read_transaction (read_unsigned_condition lib lay) lib ed lay) (initial_form tx)"
proof (rule transaction_codes)
  have "list_all (\<lambda>c. valid_account c \<and> clear_condition c = c) (conditions (st_auth (initial_form tx)))"
    using assms(2) by (cases "st_auth tx") (simp_all add: initial_form_def signable_def)
  with assms(1) show "list_all (\<lambda>c. codes (encode_spending_condition lib c) (read_unsigned_condition lib lay) c)
      (conditions (st_auth (initial_form tx)))"
    using unsigned_condition_codes [OF assms(1)] by (auto simp: list_all_iff) metis
  show "valid_contents lib ed lay (initial_form tx)"
    using assms(2) by (simp add: initial_form_def signable_def valid_contents_def)
qed

interpretation initial_codec: message_codec "encode_transaction lib ed" "read_transaction (read_unsigned_condition lib lay) lib ed lay"
  "\<lambda>tx. public_key_laws lib \<and> signable lib ed lay tx \<and> initial_form tx = tx" for lib ed lay
  by unfold_locales (metis initial_form_codes)

lemma begin_eq:
  "encode_transaction lib ed (initial_form tx) = Inr bs \<Longrightarrow> sign_begin lib dg ed tx = Inr (sha512_trunc256 dg bs)"
  "verify_begin lib dg ed tx = sign_begin lib dg ed tx"
  by (simp_all add: sign_begin_def verify_begin_def txid_def from_stacks_tx_def initial_form_def)

lemma initial_form_returns:
  assumes "public_key_laws lib" "signable lib ed lay tx"
  obtains bs where "encode_transaction lib ed (initial_form tx) = Inr bs"
  using initial_codec.put_returns [of lib ed lay "initial_form tx"] assms by auto

text \<open>
  What an origin agrees to: everything but the fees, the nonces and the signatures, and of the sponsor
  only whether there is one. An account is its hash mode and the hash of its keys, with the key
  encoding of a single key or the threshold of several.
\<close>

fun same_account :: "'k TransactionSpendingCondition \<Rightarrow> 'k TransactionSpendingCondition \<Rightarrow> bool" where
  "same_account (Singlesig d) (Singlesig d') \<longleftrightarrow>
     ss_hash_mode d = ss_hash_mode d' \<and> ss_signer d = ss_signer d' \<and> ss_key_encoding d = ss_key_encoding d'"
| "same_account (Multisig d) (Multisig d') \<longleftrightarrow>
     ms_hash_mode d = ms_hash_mode d' \<and> ms_signer d = ms_signer d' \<and> ms_signatures_required d = ms_signatures_required d'"
| "same_account (OrderIndependentMultisig d) (OrderIndependentMultisig d') \<longleftrightarrow>
     om_hash_mode d = om_hash_mode d' \<and> om_signer d = om_signer d' \<and> om_signatures_required d = om_signatures_required d'"
| "same_account _ _ \<longleftrightarrow> False"

lemma clear_condition_eq: "clear_condition c = clear_condition c' \<longleftrightarrow> same_account c c'"
  by (cases "(c, c')" rule: same_account.cases) (auto intro!: SinglesigSpendingCondition.equality
      MultisigSpendingCondition.equality OrderIndependentMultisigSpendingCondition.equality
      dest: arg_cong [where f = ss_hash_mode] arg_cong [where f = ss_signer] arg_cong [where f = ss_key_encoding]
        arg_cong [where f = ms_hash_mode] arg_cong [where f = ms_signer] arg_cong [where f = ms_signatures_required]
        arg_cong [where f = om_hash_mode] arg_cong [where f = om_signer] arg_cong [where f = om_signatures_required])

definition same_agreement :: "('k, 'g, 'c) StacksTransaction \<Rightarrow> ('k, 'g, 'c) StacksTransaction \<Rightarrow> bool" where
  "same_agreement tx tx' \<longleftrightarrow>
     st_version tx = st_version tx' \<and> st_chain_id tx = st_chain_id tx' \<and> st_anchor_mode tx = st_anchor_mode tx' \<and>
     st_post_condition_mode tx = st_post_condition_mode tx' \<and> st_post_conditions tx = st_post_conditions tx' \<and>
     st_payload tx = st_payload tx' \<and> is_sponsored (st_auth tx) = is_sponsored (st_auth tx') \<and>
     same_account (auth_origin (st_auth tx)) (auth_origin (st_auth tx'))"

lemma initial_form_eq: "initial_form tx = initial_form tx' \<longleftrightarrow> same_agreement tx tx'"
  by (cases tx; cases tx'; cases "st_auth tx"; cases "st_auth tx'")
    (auto simp: initial_form_def same_agreement_def clear_condition_eq [symmetric])

text \<open>
  (C13) The hash the origin's signatures start from commits to the transaction: two transactions share
  it exactly when they agree on the version, the chain, the anchor mode, the post-conditions and their
  mode, the payload, the account of the origin and on being sponsored, unless their two encodings are
  a collision of the hash function. Fees, nonces, signatures and the sponsor's account do not enter it.
\<close>

theorem initial_sighash_commits:
  assumes "public_key_laws lib" "signable lib ed lay tx" "signable lib ed lay tx'"
    and "encode_transaction lib ed (initial_form tx) = Inr bs" "length bs \<le> unat MAX_TRANSACTION_LEN"
    and "encode_transaction lib ed (initial_form tx') = Inr bs'" "length bs' \<le> unat MAX_TRANSACTION_LEN"
  shows "sign_begin lib dg ed tx = sign_begin lib dg ed tx' \<longleftrightarrow>
    same_agreement tx tx' \<or> (bs \<noteq> bs' \<and> sha512_trunc256 dg bs = sha512_trunc256 dg bs')"
proof -
  have "bs = bs' \<longleftrightarrow> initial_form tx = initial_form tx'"
    using initial_codec.prefix_free [of lib ed lay "initial_form tx" "initial_form tx'" bs bs' "[]" "[]"] assms by auto
  with begin_eq(1) [OF assms(4), of dg] begin_eq(1) [OF assms(6), of dg] show ?thesis
    by (auto simp: initial_form_eq)
qed

section \<open>What origin and sponsor sign is accepted\<close>

text \<open>The signing sessions of origin and sponsor on the transaction.\<close>

fun run_origin where
  "run_origin lib dg [] (h, tx) = Inr (h, tx)"
| "run_origin lib dg (SignWith privk # steps) (h, tx) = rbind (sign_next_origin lib dg h privk tx) (run_origin lib dg steps)"
| "run_origin lib dg (AppendKey pubk # steps) (h, tx) = rbind (append_next_origin pubk tx) (\<lambda>tx. run_origin lib dg steps (h, tx))"

fun run_sponsor where
  "run_sponsor lib dg [] (h, tx) = Inr (h, tx)"
| "run_sponsor lib dg (SignWith privk # steps) (h, tx) = rbind (sign_next_sponsor lib dg h privk tx) (run_sponsor lib dg steps)"
| "run_sponsor lib dg (AppendKey pubk # steps) (h, tx) = rbind (append_next_sponsor pubk tx) (\<lambda>tx. run_sponsor lib dg steps (h, tx))"

definition with_origin :: "'k TransactionSpendingCondition \<Rightarrow> ('k, 'g, 'c) StacksTransaction \<Rightarrow> ('k, 'g, 'c) StacksTransaction" where
  "with_origin c tx = tx\<lparr>st_auth := (case st_auth tx of StandardAuth _ \<Rightarrow> StandardAuth c | Sponsored _ sc \<Rightarrow> Sponsored c sc)\<rparr>"

lemma run_origin_eq:
  "run_signing lib dg AuthStandard steps (h, auth_origin (st_auth tx)) = Inr (h', c') \<Longrightarrow>
   run_origin lib dg steps (h, tx) = Inr (h', with_origin c' tx)"
proof (induction steps arbitrary: h tx)
  case Nil
  then show ?case by (cases tx; cases "st_auth tx") (auto simp: with_origin_def)
next
  case (Cons s steps)
  show ?case
  proof (cases s)
    case (SignWith sk)
    with Cons.prems obtain n c where c: "sign_and_append lib dg h AuthStandard sk (auth_origin (st_auth tx)) = Inr (n, c)"
      "run_signing lib dg AuthStandard steps (n, c) = Inr (h', c')" by auto
    then show ?thesis using Cons.IH [of n "with_origin c tx"] SignWith
      by (cases "st_auth tx") (simp_all add: sign_next_origin_def with_origin_def)
  next
    case (AppendKey k)
    with Cons.prems obtain c where c: "append_pubkey k (auth_origin (st_auth tx)) = Inr c"
      "run_signing lib dg AuthStandard steps (h, c) = Inr (h', c')" by auto
    then show ?thesis using Cons.IH [of h "with_origin c tx"] AppendKey
      by (cases "st_auth tx") (simp_all add: append_next_origin_def with_origin_def)
  qed
qed

lemma run_sponsor_eq:
  "run_signing lib dg AuthSponsored steps (h, sc) = Inr (h', c') \<Longrightarrow> st_auth tx = Sponsored oc sc \<Longrightarrow>
   run_sponsor lib dg steps (h, tx) = Inr (h', tx\<lparr>st_auth := Sponsored oc c'\<rparr>)"
proof (induction steps arbitrary: h sc tx)
  case (Cons s steps)
  show ?case
  proof (cases s)
    case (SignWith sk)
    with Cons.prems obtain n c where c: "sign_and_append lib dg h AuthSponsored sk sc = Inr (n, c)"
      "run_signing lib dg AuthSponsored steps (n, c) = Inr (h', c')" by auto
    then show ?thesis using Cons.IH [of n c "tx\<lparr>st_auth := Sponsored oc c\<rparr>"] SignWith Cons.prems(2)
      by (simp add: sign_next_sponsor_def)
  next
    case (AppendKey k)
    with Cons.prems obtain c where c: "append_pubkey k sc = Inr c"
      "run_signing lib dg AuthSponsored steps (h, c) = Inr (h', c')" by auto
    then show ?thesis using Cons.IH [of h c "tx\<lparr>st_auth := Sponsored oc c\<rparr>"] AppendKey Cons.prems(2)
      by (simp add: append_next_sponsor_def)
  qed
qed (cases tx; simp)

definition session_for ::
  "('k, 'p, 's) secp256k1 \<Rightarrow> digests \<Rightarrow> 'k TransactionSpendingCondition \<Rightarrow> ('k, 'p) signing_step list \<Rightarrow> bool" where
  "session_for lib dg c steps \<longleftrightarrow> unsigned c \<and> locked_to lib dg c (map (step_key lib) steps) \<and> enough_signatures c steps"

lemma begin_with_origin:
  "clear_condition c = clear_condition (auth_origin (st_auth tx)) \<Longrightarrow> verify_begin lib dg ed (with_origin c tx) = sign_begin lib dg ed tx"
  by (cases "st_auth tx") (simp_all add: sign_begin_def verify_begin_def with_origin_def)

lemma begin_with_sponsor:
  "st_auth tx = Sponsored oc sc \<Longrightarrow> verify_begin lib dg ed (tx\<lparr>st_auth := Sponsored oc c\<rparr>) = verify_begin lib dg ed tx"
  by (simp add: verify_begin_def)

lemma origin_session:
  assumes "public_key_laws lib" "signing_laws lib dg" "signable lib ed lay tx"
    and "session_for lib dg (auth_origin (st_auth tx)) steps"
  obtains h h1 c where "sign_begin lib dg ed tx = Inr h" "run_origin lib dg steps (h, tx) = Inr (h1, with_origin c tx)" "length h1 = 32"
    "verify_begin lib dg ed (with_origin c tx) = Inr h" "condition_verify lib dg c h AuthStandard mode = Inr h1"
proof -
  from initial_form_returns [OF assms(1,3)] obtain bs where "encode_transaction lib ed (initial_form tx) = Inr bs" .
  with assms(2) obtain h where h: "sign_begin lib dg ed tx = Inr h" "length h = 32"
    by (auto simp: begin_eq signing_laws_def digest_laws_def)
  from signing_accepted [OF assms(2) h(2)] assms(4) obtain h1 c where
    c: "run_signing lib dg AuthStandard steps (h, auth_origin (st_auth tx)) = Inr (h1, c)" "length h1 = 32"
      "condition_verify lib dg c h AuthStandard mode = Inr h1" "clear_condition c = clear_condition (auth_origin (st_auth tx))"
    unfolding session_for_def by blast
  from begin_with_origin [OF c(4), of lib dg ed] h(1) have "verify_begin lib dg ed (with_origin c tx) = Inr h" by simp
  with that h(1) run_origin_eq [OF c(1)] c(2,3) show ?thesis by blast
qed

lemma sponsor_session:
  assumes "signing_laws lib dg" "session_for lib dg sc steps" "st_auth tx = Sponsored oc sc" "length h1 = 32"
    and "verify_begin lib dg ed tx = Inr h" "condition_verify lib dg oc h AuthStandard mode = Inr h1"
  shows "\<exists>h2 tx2. run_sponsor lib dg steps (h1, tx) = Inr (h2, tx2) \<and> transaction_verify lib dg ed mode tx2 = Inr ()"
proof -
  from signing_accepted [OF assms(1,4)] assms(2) obtain h2 c2 where
    c2: "run_signing lib dg AuthSponsored steps (h1, sc) = Inr (h2, c2)" "condition_verify lib dg c2 h1 AuthSponsored mode = Inr h2"
    unfolding session_for_def by blast
  have "transaction_verify lib dg ed mode (tx\<lparr>st_auth := Sponsored oc c2\<rparr>) = Inr ()"
    using assms(5,6) begin_with_sponsor [OF assms(3), of lib dg ed c2] c2(2)
    by (simp add: transaction_verify_def auth_verify_def auth_verify_origin_def)
  with run_sponsor_eq [OF c2(1) assms(3)] show ?thesis by blast
qed

text \<open>
  (C12) What the accounts of a transaction sign is accepted: on a transaction ready to be signed, the
  origin's session of signatures and keys runs without error from the initial hash, and the node then
  accepts the origin, giving the hash the session ended in; a standard transaction is accepted as it
  is, a sponsored one once the sponsor's session has continued from that hash.
\<close>

theorem signed_transaction_verifies:
  assumes "public_key_laws lib" "signing_laws lib dg" "signable lib ed lay tx"
    and "session_for lib dg (auth_origin (st_auth tx)) steps"
  shows "\<exists>h h1 tx1. sign_begin lib dg ed tx = Inr h \<and> run_origin lib dg steps (h, tx) = Inr (h1, tx1) \<and>
    transaction_verify_origin lib dg ed mode tx1 = Inr h1 \<and>
    (case st_auth tx of
       StandardAuth _ \<Rightarrow> transaction_verify lib dg ed mode tx1 = Inr ()
     | Sponsored _ sc \<Rightarrow> \<forall>sponsor_steps. session_for lib dg sc sponsor_steps \<longrightarrow>
         (\<exists>h2 tx2. run_sponsor lib dg sponsor_steps (h1, tx1) = Inr (h2, tx2) \<and> transaction_verify lib dg ed mode tx2 = Inr ()))"
proof -
  from origin_session [OF assms] obtain h h1 c where
    c: "sign_begin lib dg ed tx = Inr h" "run_origin lib dg steps (h, tx) = Inr (h1, with_origin c tx)" "length h1 = 32"
      "verify_begin lib dg ed (with_origin c tx) = Inr h" "condition_verify lib dg c h AuthStandard mode = Inr h1" .
  show ?thesis
  proof (cases "st_auth tx")
    case (StandardAuth oc)
    with c show ?thesis
      by (simp add: transaction_verify_def transaction_verify_origin_def auth_verify_def auth_verify_origin_def with_origin_def)
  next
    case (Sponsored oc sc)
    then have auth: "st_auth (with_origin c tx) = Sponsored c sc" by (simp add: with_origin_def)
    then have "transaction_verify_origin lib dg ed mode (with_origin c tx) = Inr h1"
      using c by (simp add: transaction_verify_origin_def auth_verify_origin_def)
    moreover have "\<exists>h2 tx2. run_sponsor lib dg steps' (h1, with_origin c tx) = Inr (h2, tx2) \<and>
        transaction_verify lib dg ed mode tx2 = Inr ()" if "session_for lib dg sc steps'" for steps'
      by (rule sponsor_session [OF assms(2) that auth c(3,4,5)])
    ultimately show ?thesis using c(1,2) Sponsored by auto
  qed
qed

section \<open>A transaction to sign\<close>

definition demo_ed :: "(u8, u8) ed25519" where
  "demo_ed = \<lparr>decompress = (\<lambda>bs. Some (last bs)), compress = (\<lambda>g. replicate 31 0 @ [g]), is_small_order = (\<lambda>g. g = 0),
     from_canonical_bytes = (\<lambda>bs. Some (last bs)), scalar_to_bytes = (\<lambda>c. replicate 31 0 @ [c])\<rparr>"

definition demo_layout :: layout where
  "demo_layout = \<lparr>size_of_auth_field = 72, size_of_value = 64, size_of_post_condition = 200\<rparr>"

text \<open>The account of every compressed key of the demonstration library, and a sponsored transfer.\<close>

definition demo_condition :: "u64 \<Rightarrow> u64 \<Rightarrow> u8 TransactionSpendingCondition" where
  "demo_condition n fee =
     Singlesig \<lparr>ss_hash_mode = P2PKH, ss_signer = replicate 20 2, ss_nonce = n, ss_tx_fee = fee,
       ss_key_encoding = Compressed, ss_signature = message_signature_empty\<rparr>"

definition demo_transfer :: "u64 \<Rightarrow> u64 \<Rightarrow> (u8, u8, u8) StacksTransaction" where
  "demo_transfer fee amount =
     \<lparr>st_version = Testnet, st_chain_id = 1, st_auth = Sponsored (demo_condition (7 + fee) fee) (demo_condition 8 fee), st_anchor_mode = AnyMode,
      st_post_condition_mode = Deny, st_post_conditions = [],
      st_payload = TokenTransfer (Standard (StandardPrincipalData 26 (replicate 20 1))) amount (replicate 34 0)\<rparr>"

definition demo_signer :: "(u8, u8) signing_step" where
  "demo_signer = SignWith \<lparr>sk_key = 5, sk_compress_public = True\<rparr>"

lemma demo_transfer_valid:
  "valid_transaction demo_lib demo_ed demo_layout (demo_transfer fee amount)" "signable demo_lib demo_ed demo_layout (demo_transfer fee amount)"
  by (simp_all add: valid_transaction_def signable_def valid_contents_def check_anchored_def demo_transfer_def demo_condition_def
      message_signature_empty_def wf_standard_def)

lemma demo_session: "session_for demo_lib demo_digests (demo_condition n fee) [demo_signer]"
proof -
  have "signer_of demo_lib demo_digests SerializeP2PKH 1 [from_private demo_lib \<lparr>sk_key = 5, sk_compress_public = True\<rparr>] =
      Some (Some (replicate 20 2))" by code_simp
  then show ?thesis by (simp add: session_for_def demo_condition_def demo_signer_def from_private_def encoding_of_def)
qed

lemma demo_transfer_bytes:
  "\<exists>bs. encode_transaction demo_lib demo_ed (demo_transfer fee amount) = Inr bs \<and> length bs \<le> unat MAX_TRANSACTION_LEN"
  "\<exists>bs. encode_transaction demo_lib demo_ed (initial_form (demo_transfer fee amount)) = Inr bs \<and> length bs \<le> unat MAX_TRANSACTION_LEN"
  by (simp_all add: encode_transaction_def demo_transfer_def initial_form_def demo_condition_def encode_singlesig_def write_int_def write_bytes_def
      write_vec_def encode_principal_def principal_serialize_def write_standard_principal_def new_initial_sighash_def message_signature_empty_def)

theorem transaction_roundtrip_witness:
  "\<exists>bs. encode_transaction demo_lib demo_ed (demo_transfer 9 100) = Inr bs \<and>
     consensus_deserialize_with_len demo_lib demo_ed demo_layout (bs @ [1, 2, 3]) = Inr (demo_transfer 9 100, length bs)"
  using transaction_roundtrip [OF demo_laws(1) demo_transfer_valid(1) [of 9 100]] demo_transfer_bytes(1) [of 9 100] by fastforce

theorem initial_sighash_commits_witness:
  "sign_begin demo_lib demo_digests demo_ed (demo_transfer 9 100) = sign_begin demo_lib demo_digests demo_ed (demo_transfer 10 100) \<and>
   (\<exists>bs bs'. encode_transaction demo_lib demo_ed (initial_form (demo_transfer 9 100)) = Inr bs \<and>
     encode_transaction demo_lib demo_ed (initial_form (demo_transfer 9 200)) = Inr bs' \<and>
     (sign_begin demo_lib demo_digests demo_ed (demo_transfer 9 100) = sign_begin demo_lib demo_digests demo_ed (demo_transfer 9 200) \<longleftrightarrow>
       bs \<noteq> bs' \<and> sha512_trunc256 demo_digests bs = sha512_trunc256 demo_digests bs'))"
proof -
  from demo_transfer_bytes(2) [of 9 100] demo_transfer_bytes(2) [of 10 100] demo_transfer_bytes(2) [of 9 200] obtain bs cs bs' where
    b: "encode_transaction demo_lib demo_ed (initial_form (demo_transfer 9 100)) = Inr bs" "length bs \<le> unat MAX_TRANSACTION_LEN"
    and c: "encode_transaction demo_lib demo_ed (initial_form (demo_transfer 10 100)) = Inr cs" "length cs \<le> unat MAX_TRANSACTION_LEN"
    and b': "encode_transaction demo_lib demo_ed (initial_form (demo_transfer 9 200)) = Inr bs'" "length bs' \<le> unat MAX_TRANSACTION_LEN"
    by blast
  have "same_agreement (demo_transfer 9 100) (demo_transfer 10 100)" "\<not> same_agreement (demo_transfer 9 100) (demo_transfer 9 200)"
    by (simp_all add: same_agreement_def demo_transfer_def demo_condition_def)
  with initial_sighash_commits [OF demo_laws(1) demo_transfer_valid(2) demo_transfer_valid(2) b c, of demo_digests]
    initial_sighash_commits [OF demo_laws(1) demo_transfer_valid(2) demo_transfer_valid(2) b b', of demo_digests] b(1) b'(1)
  show ?thesis by blast
qed

theorem signed_transaction_verifies_witness:
  "\<exists>h h1 tx1 h2 tx2. sign_begin demo_lib demo_digests demo_ed (demo_transfer 9 100) = Inr h \<and>
     run_origin demo_lib demo_digests [demo_signer] (h, demo_transfer 9 100) = Inr (h1, tx1) \<and>
     run_sponsor demo_lib demo_digests [demo_signer] (h1, tx1) = Inr (h2, tx2) \<and>
     transaction_verify demo_lib demo_digests demo_ed EnforceLowS tx2 = Inr ()"
proof -
  have "signing_laws demo_lib demo_digests" using demo_laws by (simp add: signing_laws_def)
  moreover have "session_for demo_lib demo_digests (auth_origin (st_auth (demo_transfer 9 100))) [demo_signer]"
    by (simp add: demo_transfer_def demo_session)
  ultimately have "\<exists>h h1 tx1. sign_begin demo_lib demo_digests demo_ed (demo_transfer 9 100) = Inr h \<and>
     run_origin demo_lib demo_digests [demo_signer] (h, demo_transfer 9 100) = Inr (h1, tx1) \<and>
     (\<forall>s. session_for demo_lib demo_digests (demo_condition 8 9) s \<longrightarrow>
       (\<exists>h2 tx2. run_sponsor demo_lib demo_digests s (h1, tx1) = Inr (h2, tx2) \<and>
          transaction_verify demo_lib demo_digests demo_ed EnforceLowS tx2 = Inr ()))"
    using signed_transaction_verifies [OF demo_laws(1) _ demo_transfer_valid(2), of demo_digests 9 100 "[demo_signer]" EnforceLowS]
    by (auto simp: demo_transfer_def)
  then show ?thesis using demo_session by blast
qed

end
