(* ===== verification/Spec2Isabelle.thy ===== *)
theory Spec2Isabelle
  imports TokenTransfers SequenceFiltering Transactions
begin

text \<open>
  Verification development for the Stacks blockchain implementation (\<open>src/\<close>).

  \<^bold>\<open>Vocabulary.\<close> \<open>Prelude\<close>, \<open>MethodLaws\<close>, \<open>Bytes\<close>, \<open>BTreeMaps\<close>, \<open>HashMaps\<close> and \<open>Utf8\<close> hold what the
  code uses of Rust's standard library: checked and saturating arithmetic on machine words, results,
  byte orders, ordered and unordered maps, UTF-8. Machine integers are words, \<open>i128\<close> an integer kept
  in range; fallible code has type \<open>'e + 'a\<close>; a method that changes its receiver has type
  \<open>('s, 'e, 'a) meth\<close>, a function from the state to a result and the state afterwards, also when it
  fails. A Rust panic is a variant of the error type or, where the type has none, an outer \<open>None\<close>.

  \<^bold>\<open>Data of the chain.\<close>
  \<^item> \<open>Epochs\<close> (\<open>stacks-common/src/types/mod.rs\<close>): epoch identifiers with every feature gate, coinbase
    and SIP-031 schedules, epoch lists. Lists of epochs cover the heights without a gap, the schedule
    lookup finds the interval that has started, and the SIP-031 emission follows its schedule.
  \<^item> \<open>C32\<close>, \<open>Principals\<close>, \<open>ClarityVersions\<close>: c32 addresses, the text of principals and the versions
    of Clarity. Decoding inverts encoding and parsing inverts display.

  \<^bold>\<open>Types and values.\<close>
  \<^item> \<open>ClarityTypes\<close>, \<open>TypeSignatures\<close>, \<open>TypeAdmission\<close> (\<open>clarity-types/src/types/signatures.rs\<close>): type
    signatures, their sizes, admission and supertypes. Every constructor keeps signatures well-formed,
    sizes stay within the limits, and the supertype of the analysis is a least upper bound.
  \<^item> \<open>Values\<close>, \<open>WellTypedValues\<close>, \<open>SequenceFiltering\<close> (\<open>clarity-types/src/types/mod.rs\<close>): values,
    the invariant their constructors establish, and the in-place filter of sequences.
  \<^item> \<open>ValueSerialization\<close> (\<open>clarity-types/src/types/serialization.rs\<close>) is the writer and the reader with
    its stack over the bounded reader. \<open>ValueWriting\<close> bounds what is written, \<open>ValueParsing\<close> shows
    that the reader is recursive descent and that it stops, \<open>ValueReading\<close> that written values read
    back, \<open>TypedReading\<close> that what is read at a type has that type, \<open>UntypedReading\<close> that values
    without an expected type read back.

  \<^bold>\<open>Execution.\<close>
  \<^item> \<open>ExecutionCosts\<close>, \<open>CostTrackers\<close>, \<open>Errors\<close>, \<open>Serializable\<close>: cost vectors, the tracker with its
    limits (\<open>clarity/src/vm/costs\<close>), the errors of the virtual machine, stored forms of simple values.
  \<^item> \<open>BackingStores\<close>, \<open>RollbackWrappers\<close>, \<open>ClarityDB\<close> (\<open>clarity/src/vm/database\<close>): the key-value
    stores, the nested contexts over them, which refine a stack of snapshots, and the database with
    keys that never collide.
  \<^item> \<open>STXBalances\<close>, \<open>STXSnapshots\<close> (\<open>clarity/src/vm/database/structures.rs\<close>): balances with their
    proof-of-transfer locks. Transfers conserve the supply, lock operations the total.
  \<^item> \<open>AssetMaps\<close>, \<open>PostConditions\<close> (\<open>clarity-types/src/effects/asset_map.rs\<close>,
    \<open>crates/stacks-transactions/src/lib.rs\<close>): the record of asset movements and the check of
    post-conditions on it, equivalent to a declarative reading.
  \<^item> \<open>GlobalContexts\<close>, \<open>TokenTransfers\<close> (\<open>clarity/src/vm/contexts.rs\<close>,
    \<open>clarity/src/vm/functions/assets.rs\<close>): nested calls over asset maps, events and the database, and
    STX transfers composed of all of these. Calls and transfers are all or nothing.

  \<^bold>\<open>Transactions\<close> (\<open>stacks-codec\<close>, \<open>stacks-common/src/codec\<close>).
  \<^item> \<open>MessageCodec\<close>: the wire format. The locale \<open>message_codec\<close> is the contract of a codec, that what
    was written reads back, interpreted on the codecs of integers, names, principals, addresses,
    values, authorisation fields, conditions, VRF proofs, post-conditions, payloads and transactions.
  \<^item> \<open>PublicKeys\<close>, \<open>SpendingConditions\<close>: keys, scripts, addresses, and the conditions that authorise
    a transaction. A condition is accepted exactly when it is authorised by the keys of the account.
  \<^item> \<open>TransactionPayloads\<close>, \<open>Transactions\<close>: payloads and transactions. A transaction reads back, what
    origin and sponsor sign is accepted, and their signatures commit to its contents.

  \<^bold>\<open>Parameters.\<close> Code outside \<open>src/\<close> is an argument: SHA-256 and the other digests (\<open>digest_laws\<close>), the
  curve libraries (\<open>public_key_laws\<close>, \<open>signature_laws\<close>, \<open>ed25519_laws\<close>), \<open>serde_json\<close>, and the sizes in
  memory of the items of vectors (\<open>layout\<close>). \<open>demo_lib\<close>, \<open>demo_digests\<close> and \<open>demo_ed\<close> are instances;
  the witnesses use them.

  \<^bold>\<open>Termination.\<close> No definition of the model uses fuel: loops are structural recursion or have a
  measure. The value reader terminates because each round reads at least one byte;
  \<open>deserialize_rounds\<close> counts its rounds.

  \<^bold>\<open>Not modelled.\<close> The interpreter, the static analysis, the parser, the authenticated trie, block
  processing, networking and the node and signer processes. In the parts that are modelled, display
  texts, JSON conversions and test helpers are left out.
\<close>

end
